(* ===== verification/Prelude.thy ===== *)
theory Prelude
  imports Complex_Main "HOL-Library.AList" "HOL-Library.Sublist"
begin

text \<open>
  What every component of the model shares: the JavaScript values the source uses (an
  insertion-ordered \<open>Map\<close>, strings and their slices), failing computations over an
  environment, the level type of the verifier hierarchy, and the interfaces (locales)
  that several components implement.

  A \<open>string\<close> is a list of 8-bit characters. The source's strings are UTF-16; every
  function here only compares, concatenates, splits on ASCII characters or takes a prefix, and
  the bounded prefixes (\<open>slice(0, 80)\<close>) count characters of the model.
\<close>

section \<open>Collections of facts\<close>

named_theorems jmap_simps \<open>characteristic equations of the insertion-ordered map\<close>
named_theorems act_simps \<open>unfolding of failing computations over an environment\<close>
named_theorems wf_intros \<open>preservation of a component's well-formedness\<close>

section \<open>The JavaScript Map: an association list in insertion order\<close>

text \<open>
  \<open>Map.set\<close> on a known key keeps the key's place, on a new key appends it; iteration is
  in that order. \<^theory_text>\<open>AList.update\<close> does exactly this.
\<close>

type_synonym ('k, 'v) jmap = "('k \<times> 'v) list"

definition jm_get :: "('k, 'v) jmap \<Rightarrow> 'k \<Rightarrow> 'v option" where
  "jm_get m k = map_of m k"

definition jm_has :: "('k, 'v) jmap \<Rightarrow> 'k \<Rightarrow> bool" where
  "jm_has m k = (map_of m k \<noteq> None)"

definition jm_set :: "'k \<Rightarrow> 'v \<Rightarrow> ('k, 'v) jmap \<Rightarrow> ('k, 'v) jmap" where
  "jm_set k v m = AList.update k v m"

definition jm_del :: "'k \<Rightarrow> ('k, 'v) jmap \<Rightarrow> ('k, 'v) jmap" where
  "jm_del k m = AList.delete k m"

definition jm_keys :: "('k, 'v) jmap \<Rightarrow> 'k list" where
  "jm_keys m = map fst m"

definition jm_vals :: "('k, 'v) jmap \<Rightarrow> 'v list" where
  "jm_vals m = map snd m"

definition jm_wf :: "('k, 'v) jmap \<Rightarrow> bool" where
  "jm_wf m \<longleftrightarrow> distinct (map fst m)"

lemma jm_get_empty [simp, jmap_simps]: "jm_get [] k = None"
  by (simp add: jm_get_def)

lemma jm_get_set [simp, jmap_simps]: "jm_get (jm_set k v m) k' = (if k' = k then Some v else jm_get m k')"
  by (simp add: jm_get_def jm_set_def AList.update_conv')

lemma jm_get_del [simp, jmap_simps]: "jm_get (jm_del k m) k' = (if k' = k then None else jm_get m k')"
  by (simp add: jm_get_def jm_del_def AList.delete_conv')

lemma jm_has_get [jmap_simps]: "jm_has m k = (jm_get m k \<noteq> None)"
  by (simp add: jm_has_def jm_get_def)

lemma jm_wf_empty [simp]: "jm_wf []"
  by (simp add: jm_wf_def)

lemma jm_wf_set [simp, wf_intros]: "jm_wf m \<Longrightarrow> jm_wf (jm_set k v m)"
  by (simp add: jm_wf_def jm_set_def AList.distinct_update)

lemma jm_wf_del [simp, wf_intros]: "jm_wf m \<Longrightarrow> jm_wf (jm_del k m)"
  by (simp add: jm_wf_def jm_del_def AList.distinct_delete)

lemma jm_get_Some_iff: "jm_wf m \<Longrightarrow> jm_get m k = Some v \<longleftrightarrow> (k, v) \<in> set m"
  by (simp add: jm_wf_def jm_get_def)

lemma jm_get_Some_mem: "jm_get m k = Some v \<Longrightarrow> (k, v) \<in> set m"
  by (simp add: jm_get_def map_of_SomeD)

lemma jm_keys_set:
  "jm_keys (jm_set k v m) = (if k \<in> set (jm_keys m) then jm_keys m else jm_keys m @ [k])"
  by (induction m) (auto simp: jm_keys_def jm_set_def)

lemma jm_set_snoc: "k \<notin> set (jm_keys m) \<Longrightarrow> jm_set k v m = m @ [(k, v)]"
  by (induction m) (auto simp: jm_keys_def jm_set_def)

lemma jm_get_None_iff: "jm_get m k = None \<longleftrightarrow> k \<notin> set (jm_keys m)"
  by (simp add: jm_get_def jm_keys_def map_of_eq_None_iff image_image)

lemma jm_get_append: "jm_get (m @ n) k = (case jm_get m k of None \<Rightarrow> jm_get n k | Some v \<Rightarrow> Some v)"
  by (cases "map_of m k") (simp_all add: jm_get_def map_add_def)

lemma jm_get_single [simp]: "jm_get [(k, v)] k' = (if k' = k then Some v else None)"
  by (simp add: jm_get_def)

lemma jm_keys_Nil [simp]: "jm_keys [] = []"
  by (simp add: jm_keys_def)

lemma jm_vals_Nil [simp]: "jm_vals [] = []"
  by (simp add: jm_vals_def)

lemma jm_vals_mem: "v \<in> set (jm_vals m) \<Longrightarrow> \<exists>k. (k, v) \<in> set m"
  by (auto simp: jm_vals_def)

lemma jm_vals_iff: "jm_wf m \<Longrightarrow> v \<in> set (jm_vals m) \<longleftrightarrow> (\<exists>k. jm_get m k = Some v)"
  by (force simp: jm_vals_def jm_get_Some_iff)

lemma jm_set_mem:
  "jm_wf m \<Longrightarrow> (k', v') \<in> set (jm_set k v m) \<longleftrightarrow> (if k' = k then v' = v else (k', v') \<in> set m)"
  by (simp add: jm_get_Some_iff [symmetric] eq_commute)

text \<open>Every entry of a map keyed by a field of its own values.\<close>

definition jm_keyed :: "('v \<Rightarrow> 'k) \<Rightarrow> ('k, 'v) jmap \<Rightarrow> bool" where
  "jm_keyed f m \<longleftrightarrow> (\<forall>(k, v) \<in> set m. f v = k)"

lemma jm_keyed_empty [simp]: "jm_keyed f []"
  by (simp add: jm_keyed_def)

lemma jm_keyed_set [simp, wf_intros]: "jm_keyed f m \<Longrightarrow> f v = k \<Longrightarrow> jm_keyed f (jm_set k v m)"
  unfolding jm_keyed_def jm_set_def by (induction m) auto

lemma jm_keyed_get: "jm_keyed f m \<Longrightarrow> jm_get m k = Some v \<Longrightarrow> f v = k"
  by (auto simp: jm_keyed_def dest!: jm_get_Some_mem)

lemma jm_keyed_vals: "jm_keyed f m \<Longrightarrow> map f (jm_vals m) = jm_keys m"
  by (induction m) (auto simp: jm_keyed_def jm_vals_def jm_keys_def)

lemma jm_keyed_mem:
  "jm_wf m \<Longrightarrow> jm_keyed f m \<Longrightarrow> v \<in> set (jm_vals m) \<longleftrightarrow> jm_get m (f v) = Some v"
  by (auto simp: jm_vals_iff dest: jm_keyed_get)

section \<open>Strings\<close>

definition newline :: char where "newline = CHR 0x0A"

abbreviation (input) nl :: string where "nl \<equiv> [CHR 0x0A]"

text \<open>The UTF-8 bytes of the ellipsis and the dash the source's texts use.\<close>

definition ellipsis :: string where "ellipsis = [CHR 0xE2, CHR 0x80, CHR 0xA6]"
definition em_dash :: string where "em_dash = [CHR 0xE2, CHR 0x80, CHR 0x94]"

definition digit_char :: "nat \<Rightarrow> char" where
  "digit_char d = (char_of (48 + d))"

fun nat_str :: "nat \<Rightarrow> string" where
  "nat_str n = (if n < 10 then [digit_char n] else nat_str (n div 10) @ [digit_char (n mod 10)])"

declare nat_str.simps [simp del]

definition int_str :: "int \<Rightarrow> string" where
  "int_str i = (if i < 0 then ''-'' @ nat_str (nat (- i)) else nat_str (nat i))"

fun js_join :: "string \<Rightarrow> string list \<Rightarrow> string" where
  "js_join sep [] = []"
| "js_join sep [x] = x"
| "js_join sep (x # y # zs) = x @ sep @ js_join sep (y # zs)"

text \<open>\<open>s.split(c)\<close> for a one-character separator: never empty.\<close>

fun split_on :: "char \<Rightarrow> string \<Rightarrow> string list" where
  "split_on c [] = [[]]"
| "split_on c (x # xs) =
     (if x = c then [] # split_on c xs
      else (case split_on c xs of [] \<Rightarrow> [[x]] | l # ls \<Rightarrow> (x # l) # ls))"

lemma split_on_nonempty [simp]: "split_on c s \<noteq> []"
  by (induction s) (auto split: list.splits)

lemma split_on_none: "c \<notin> set s \<Longrightarrow> split_on c s = [s]"
  by (induction s) auto

lemma split_on_append: "c \<notin> set s \<Longrightarrow> split_on c (s @ c # r) = s # split_on c r"
  by (induction s) auto

lemma split_on_join: "ls \<noteq> [] \<Longrightarrow> list_all (\<lambda>l. c \<notin> set l) ls \<Longrightarrow> split_on c (js_join [c] ls) = ls"
proof (induction ls)
  case Nil
  then show ?case by simp
next
  case (Cons l ls)
  then show ?case by (cases ls) (auto simp: split_on_none split_on_append)
qed

definition first_line :: "string \<Rightarrow> string" where
  "first_line s = hd (split_on newline s)"

definition starts_with :: "string \<Rightarrow> string \<Rightarrow> bool" where
  "starts_with s p = prefix p s"

text \<open>The characters \<open>trim\<close> and \<open>\s\<close> take away, of the 8-bit range.\<close>

definition is_ws :: "char \<Rightarrow> bool" where
  "is_ws c = (c = CHR '' '' \<or> c = CHR 0x09 \<or> c = CHR 0x0A \<or> c = CHR 0x0B \<or> c = CHR 0x0C \<or> c = CHR 0x0D)"

definition js_trim :: "string \<Rightarrow> string" where
  "js_trim s = rev (dropWhile is_ws (rev (dropWhile is_ws s)))"

definition is_digit :: "char \<Rightarrow> bool" where
  "is_digit c = (48 \<le> (of_char c :: nat) \<and> (of_char c :: nat) \<le> 57)"

definition is_alpha :: "char \<Rightarrow> bool" where
  "is_alpha c = ((65 \<le> (of_char c :: nat) \<and> (of_char c :: nat) \<le> 90) \<or> (97 \<le> (of_char c :: nat) \<and> (of_char c :: nat) \<le> 122))"

text \<open>The class \<open>\w\<close>.\<close>

definition is_word_char :: "char \<Rightarrow> bool" where
  "is_word_char c = (is_alpha c \<or> is_digit c \<or> c = CHR ''_'')"

definition to_upper :: "char \<Rightarrow> char" where
  "to_upper c = (if 97 \<le> (of_char c :: nat) \<and> (of_char c :: nat) \<le> 122 then char_of ((of_char c :: nat) - 32) else c)"

text \<open>\<open>arr.at(-1)\<close>, and array de-duplication through \<open>Set\<close>, which keeps first occurrences.\<close>

definition js_last :: "'a list \<Rightarrow> 'a option" where
  "js_last xs = (if xs = [] then None else Some (last xs))"

fun js_uniq :: "'a list \<Rightarrow> 'a list" where
  "js_uniq [] = []"
| "js_uniq (x # xs) = x # js_uniq (filter (\<lambda>y. y \<noteq> x) xs)"

lemma set_js_uniq_filter: "set (js_uniq xs) = set xs"
  by (induction xs rule: js_uniq.induct) auto

lemma distinct_js_uniq [simp]: "distinct (js_uniq xs)"
  by (induction xs rule: js_uniq.induct) (auto simp: set_js_uniq_filter)

lemma set_js_uniq [simp]: "set (js_uniq xs) = set xs"
  by (rule set_js_uniq_filter)

lemma js_last_snoc [simp]: "js_last (xs @ [x]) = Some x"
  by (simp add: js_last_def)

lemma js_last_Nil [simp]: "js_last [] = None"
  by (simp add: js_last_def)

lemma js_last_Some: "js_last xs = Some x \<Longrightarrow> x \<in> set xs"
  by (auto simp: js_last_def split: if_splits)

text \<open>The value of an optional field, with the \<open>??\<close> operator's default.\<close>

definition or_else :: "'a option \<Rightarrow> 'a \<Rightarrow> 'a" where
  "or_else x d = (case x of None \<Rightarrow> d | Some v \<Rightarrow> v)"

lemma or_else_simps [simp]: "or_else None d = d" "or_else (Some v) d = v"
  by (simp_all add: or_else_def)

definition or_opt :: "'a option \<Rightarrow> 'a option \<Rightarrow> 'a option" where
  "or_opt x y = (case x of None \<Rightarrow> y | Some v \<Rightarrow> Some v)"

lemma or_opt_simps [simp]: "or_opt None y = y" "or_opt (Some v) y = Some v"
  by (simp_all add: or_opt_def)

text \<open>A JavaScript number, where a check asks whether it is finite.\<close>

datatype js_number = Finite rat | NotFinite

text \<open>A template's hole for an optional value, the first line of a text cut to a length, and \<open>toFixed(2)\<close>.\<close>

definition undef :: "string option \<Rightarrow> string" where
  "undef x = or_else x ''undefined''"

definition arrow :: string where "arrow = [CHR 0xE2, CHR 0x86, CHR 0x92]"

definition headline :: "nat \<Rightarrow> string \<Rightarrow> string" where
  "headline n s = take n (first_line s)"

definition fixed2 :: "rat \<Rightarrow> string" where
  "fixed2 q =
     (let n = nat \<lfloor>abs q * 100 + 1 / 2\<rfloor> in
      (if q < 0 then ''-'' else []) @ nat_str (n div 100) @ ''.'' @
        [digit_char (n mod 100 div 10), digit_char (n mod 10)])"

text \<open>How many times each key occurs, in the order keys first occur.\<close>

definition tally_add :: "'k \<Rightarrow> 'n::monoid_add \<Rightarrow> ('k, 'n) jmap \<Rightarrow> ('k, 'n) jmap" where
  "tally_add k v m = jm_set k (or_else (jm_get m k) 0 + v) m"

definition tally_by :: "('a \<Rightarrow> 'k) \<Rightarrow> ('a \<Rightarrow> 'n::monoid_add) \<Rightarrow> 'a list \<Rightarrow> ('k, 'n) jmap" where
  "tally_by key val xs = foldl (\<lambda>m x. tally_add (key x) (val x) m) [] xs"

definition counts :: "'k list \<Rightarrow> ('k, nat) jmap" where
  "counts ks = tally_by (\<lambda>k. k) (\<lambda>_. 1) ks"

lemma tally_by_snoc: "tally_by key val (xs @ [x]) = tally_add (key x) (val x) (tally_by key val xs)"
  by (simp add: tally_by_def)

lemma tally_by_Nil [simp]: "tally_by key val [] = []"
  by (simp add: tally_by_def)

lemma tally_by_wf [simp]: "jm_wf (tally_by key val xs)"
  by (induction xs rule: rev_induct) (simp_all add: tally_by_snoc tally_add_def)

lemma tally_by_get:
  "or_else (jm_get (tally_by key val xs) k) 0 = sum_list (map val (filter (\<lambda>x. key x = k) xs))"
  by (induction xs rule: rev_induct) (auto simp: tally_by_snoc tally_add_def)

lemma tally_by_keys: "set (jm_keys (tally_by key val xs)) = key ` set xs"
  by (induction xs rule: rev_induct) (auto simp: tally_by_snoc tally_add_def jm_keys_set)

text \<open>A tally loses nothing: its values sum to the values tallied.\<close>

lemma jm_set_sum:
  fixes m :: "('k, 'n::comm_monoid_add) jmap"
  shows "jm_wf m \<Longrightarrow> sum_list (jm_vals (jm_set k (or_else (jm_get m k) 0 + v) m)) = sum_list (jm_vals m) + v"
proof (induction m)
  case Nil
  then show ?case by (simp add: jm_set_def jm_vals_def)
next
  case (Cons x m)
  obtain k' w where x: "x = (k', w)" by force
  show ?case
  proof (cases "k' = k")
    case True
    with x show ?thesis by (simp add: jm_set_def jm_vals_def jm_get_def ac_simps)
  next
    case False
    from Cons x have "sum_list (jm_vals (jm_set k (or_else (jm_get m k) 0 + v) m)) = sum_list (jm_vals m) + v"
      by (simp add: jm_wf_def)
    with x False show ?thesis by (simp add: jm_set_def jm_vals_def jm_get_def ac_simps)
  qed
qed

lemma tally_by_sum:
  fixes val :: "'a \<Rightarrow> 'n::comm_monoid_add"
  shows "sum_list (jm_vals (tally_by key val xs)) = sum_list (map val xs)"
  by (induction xs rule: rev_induct) (simp_all add: tally_by_snoc tally_add_def jm_set_sum)

section \<open>Failing computations over an environment\<close>

text \<open>
  What the source awaits (a member run, a git command, a question put to a person) is a
  parameter of the model: a function of the environment's state \<open>'w\<close> that may throw. A
  sequence of awaits threads that state, so an answer may depend on everything before it.
\<close>

type_synonym ('w, 'e, 'a) act = "'w \<Rightarrow> ('e + 'a) \<times> 'w"

definition ret :: "'a \<Rightarrow> ('w, 'e, 'a) act" where
  "ret x = (\<lambda>w. (Inr x, w))"

definition throw :: "'e \<Rightarrow> ('w, 'e, 'a) act" where
  "throw e = (\<lambda>w. (Inl e, w))"

definition andThen :: "('w, 'e, 'a) act \<Rightarrow> ('a \<Rightarrow> ('w, 'e, 'b) act) \<Rightarrow> ('w, 'e, 'b) act" where
  "andThen m f = (\<lambda>w. case m w of (Inl e, w') \<Rightarrow> (Inl e, w') | (Inr x, w') \<Rightarrow> f x w')"

definition catching :: "('w, 'e, 'a) act \<Rightarrow> ('e \<Rightarrow> ('w, 'e, 'a) act) \<Rightarrow> ('w, 'e, 'a) act" where
  "catching m h = (\<lambda>w. case m w of (Inl e, w') \<Rightarrow> h e w' | (Inr x, w') \<Rightarrow> (Inr x, w'))"

text \<open>\<open>p.then(a, b)\<close>: the outcome as a value.\<close>

definition attempt :: "('w, 'e, 'a) act \<Rightarrow> ('w, 'e, 'e + 'a) act" where
  "attempt m = (\<lambda>w. case m w of (r, w') \<Rightarrow> (Inr r, w'))"

primrec each :: "('a \<Rightarrow> ('w, 'e, 'b) act) \<Rightarrow> 'a list \<Rightarrow> ('w, 'e, 'b list) act" where
  "each f [] = ret []"
| "each f (x # xs) = andThen (f x) (\<lambda>y. andThen (each f xs) (\<lambda>ys. ret (y # ys)))"

lemma ret_apply [act_simps]: "ret x w = (Inr x, w)"
  by (simp add: ret_def)

lemma throw_apply [act_simps]: "throw e w = (Inl e, w)"
  by (simp add: throw_def)

lemma andThen_apply [act_simps]:
  "andThen m f w = (case m w of (Inl e, w') \<Rightarrow> (Inl e, w') | (Inr x, w') \<Rightarrow> f x w')"
  by (simp add: andThen_def)

lemma catching_apply [act_simps]:
  "catching m h w = (case m w of (Inl e, w') \<Rightarrow> h e w' | (Inr x, w') \<Rightarrow> (Inr x, w'))"
  by (simp add: catching_def)

lemma attempt_apply [act_simps]: "attempt m w = (case m w of (r, w') \<Rightarrow> (Inr r, w'))"
  by (simp add: attempt_def)

lemma andThen_ret [simp]: "andThen (ret x) f = f x"
  by (simp add: andThen_def ret_def fun_eq_iff)

lemma andThen_throw [simp]: "andThen (throw e) f = throw e"
  by (simp add: andThen_def throw_def fun_eq_iff)

lemma andThen_InrE:
  assumes "andThen m f w = (Inr y, w')"
  obtains x w1 where "m w = (Inr x, w1)" and "f x w1 = (Inr y, w')"
  using assms by (auto simp: andThen_apply split: prod.splits sum.splits)

lemma andThen_cases:
  assumes "andThen m f w = (r, w')"
  obtains e where "m w = (Inl e, w')" and "r = Inl e"
  | x w1 where "m w = (Inr x, w1)" and "f x w1 = (r, w')"
  using assms by (auto simp: andThen_apply split: prod.splits sum.splits)

lemma each_length: "each f xs w = (Inr ys, w') \<Longrightarrow> length ys = length xs"
  by (induction xs arbitrary: w ys) (auto simp: ret_def elim!: andThen_InrE)

lemma each_pure: "each (\<lambda>x. ret (g x)) xs = ret (map g xs)"
  by (induction xs) auto

section \<open>Decimal numerals\<close>

fun digits_val :: "nat \<Rightarrow> string \<Rightarrow> nat" where
  "digits_val acc [] = acc"
| "digits_val acc (c # cs) = digits_val (10 * acc + ((of_char c :: nat) - 48)) cs"

lemma digits_val_append: "digits_val acc (xs @ ys) = digits_val (digits_val acc xs) ys"
  by (induction xs arbitrary: acc) auto

lemma of_char_digit_char: "d < 10 \<Longrightarrow> (of_char (digit_char d) :: nat) = 48 + d"
  by (simp add: digit_char_def)

lemma is_digit_digit_char: "d < 10 \<Longrightarrow> is_digit (digit_char d)"
  by (simp add: is_digit_def of_char_digit_char)

lemma nat_str_digits: "list_all is_digit (nat_str n)"
proof (induction n rule: nat_str.induct)
  case (1 n)
  then show ?case
    by (subst nat_str.simps) (auto simp: is_digit_digit_char)
qed

lemma nat_str_nonempty: "nat_str n \<noteq> []"
  by (subst nat_str.simps) simp

lemma digits_val_nat_str: "digits_val 0 (nat_str n) = n"
proof (induction n rule: nat_str.induct)
  case (1 n)
  show ?case
  proof (cases "n < 10")
    case True
    then show ?thesis by (subst nat_str.simps) (simp add: of_char_digit_char)
  next
    case False
    with 1 have "digits_val 0 (nat_str (n div 10)) = n div 10" by simp
    with False show ?thesis
      by (subst nat_str.simps) (simp add: digits_val_append of_char_digit_char)
  qed
qed

lemma nat_str_inj: "nat_str m = nat_str n \<longleftrightarrow> m = n"
  by (metis digits_val_nat_str)

section \<open>Reachable states\<close>

inductive reachable :: "('s \<Rightarrow> bool) \<Rightarrow> ('s \<Rightarrow> 's \<Rightarrow> bool) \<Rightarrow> 's \<Rightarrow> bool"
  for start :: "'s \<Rightarrow> bool" and step :: "'s \<Rightarrow> 's \<Rightarrow> bool" where
  reach_start: "start s \<Longrightarrow> reachable start step s"
| reach_step: "reachable start step s \<Longrightarrow> step s t \<Longrightarrow> reachable start step t"

text \<open>
  The contract of a state machine with an inductive invariant: it holds in every reachable
  state, and along every run from a state where it holds.
\<close>

locale inductive_invariant =
  fixes start :: "'s \<Rightarrow> bool" and step :: "'s \<Rightarrow> 's \<Rightarrow> bool" and inv :: "'s \<Rightarrow> bool"
  assumes start_inv: "start s \<Longrightarrow> inv s"
    and step_inv: "inv s \<Longrightarrow> step s t \<Longrightarrow> inv t"
begin

lemma reachable_inv: "reachable start step s \<Longrightarrow> inv s"
  by (induction rule: reachable.induct) (auto intro: start_inv step_inv)

lemma run_inv: "step\<^sup>*\<^sup>* s t \<Longrightarrow> inv s \<Longrightarrow> inv t"
  by (induction rule: rtranclp_induct) (auto intro: step_inv)

end

text \<open>A measure that no step lowers, under an invariant.\<close>

locale monotone_measure = inductive_invariant start step inv
  for start :: "'s \<Rightarrow> bool" and step :: "'s \<Rightarrow> 's \<Rightarrow> bool" and inv :: "'s \<Rightarrow> bool" +
  fixes rank :: "'k \<Rightarrow> 's \<Rightarrow> nat"
  assumes step_rank: "inv s \<Longrightarrow> step s t \<Longrightarrow> rank k s \<le> rank k t"
begin

lemma run_rank: "step\<^sup>*\<^sup>* s t \<Longrightarrow> inv s \<Longrightarrow> rank k s \<le> rank k t"
proof (induction rule: rtranclp_induct)
  case base
  then show ?case by simp
next
  case (step t u)
  then show ?case using run_inv [of s t] step_rank [of t u k] by (meson order_trans)
qed

end

end
