(* ===== verification/Json.thy ===== *)
theory Json
  imports Prelude
begin

text \<open>
  JSON values with the parser and the two printers the source relies on
  (\<open>JSON.parse\<close>, \<open>JSON.stringify(x)\<close> and \<open>JSON.stringify(x, null, 1)\<close>): the journal's
  lines and the reviewers' verdicts are JSON text. Numbers are exact rationals; a number
  that is no integer prints as its decimal expansion. A \<open>\u\<close> escape above the 8-bit range
  becomes its UTF-8 bytes, each surrogate encoded by itself.
\<close>

datatype json =
    JNull
  | JBool bool
  | JNum rat
  | JStr string
  | JArr "json list"
  | JObj "(string \<times> json) list"

text \<open>Property access \<open>v?.key\<close>: defined on objects only.\<close>

definition jfield :: "string \<Rightarrow> json \<Rightarrow> json option" where
  "jfield k v = (case v of JObj m \<Rightarrow> jm_get m k | _ \<Rightarrow> None)"

section \<open>Numbers\<close>

text \<open>\<open>-?(0|[1-9][0-9]*)(\.[0-9]+)?([eE][+-]?[0-9]+)?\<close>, then the rest of the text.\<close>

definition parse_frac :: "string \<Rightarrow> (rat \<times> string) option" where
  "parse_frac s =
     (case s of
        c # s' \<Rightarrow>
          if c = CHR ''.'' then
            (let ds = takeWhile is_digit s' in
             if ds = [] then None
             else Some (of_nat (digits_val 0 ds) / 10 ^ length ds, dropWhile is_digit s'))
          else Some (0, s)
      | [] \<Rightarrow> Some (0, s))"

definition parse_exp :: "string \<Rightarrow> (int \<times> string) option" where
  "parse_exp s =
     (case s of
        c # s' \<Rightarrow>
          if c = CHR ''e'' \<or> c = CHR ''E'' then
            (let (neg, s'') = (case s' of
                 d # r \<Rightarrow> (if d = CHR ''-'' then (True, r) else if d = CHR ''+'' then (False, r) else (False, s'))
               | [] \<Rightarrow> (False, s'));
                 ds = takeWhile is_digit s'' in
             if ds = [] then None
             else Some ((if neg then - 1 else 1) * int (digits_val 0 ds), dropWhile is_digit s''))
          else Some (0, s)
      | [] \<Rightarrow> Some (0, s))"

definition parse_nat :: "string \<Rightarrow> (nat \<times> string) option" where
  "parse_nat s =
     (let ds = takeWhile is_digit s in
      if ds = [] then None
      else if hd ds = CHR ''0'' then Some (0, tl s)
      else Some (digits_val 0 ds, dropWhile is_digit s))"

definition scale10 :: "rat \<Rightarrow> int \<Rightarrow> rat" where
  "scale10 q e = (if 0 \<le> e then q * 10 ^ nat e else q / 10 ^ nat (- e))"

definition parse_num :: "string \<Rightarrow> (rat \<times> string) option" where
  "parse_num s =
     (let (neg, s1) = (case s of c # r \<Rightarrow> (if c = CHR ''-'' then (True, r) else (False, s)) | [] \<Rightarrow> (False, s)) in
      case parse_nat s1 of None \<Rightarrow> None | Some (n, s2) \<Rightarrow>
      case parse_frac s2 of None \<Rightarrow> None | Some (f, s3) \<Rightarrow>
      case parse_exp s3 of None \<Rightarrow> None | Some (e, s4) \<Rightarrow>
      let q = scale10 (of_nat n + f) e in Some (if neg then - q else q, s4))"

section \<open>Strings\<close>

definition hex_val :: "char \<Rightarrow> nat option" where
  "hex_val c =
     (let n = (of_char c :: nat) in
      if 48 \<le> n \<and> n \<le> 57 then Some (n - 48)
      else if 65 \<le> n \<and> n \<le> 70 then Some (n - 55)
      else if 97 \<le> n \<and> n \<le> 102 then Some (n - 87)
      else None)"

definition utf8 :: "nat \<Rightarrow> string" where
  "utf8 n =
     (if n < 128 then [char_of n]
      else if n < 2048 then [char_of (192 + n div 64), char_of (128 + n mod 64)]
      else [char_of (224 + n div 4096), char_of (128 + (n div 64) mod 64), char_of (128 + n mod 64)])"

definition unescape :: "char \<Rightarrow> char option" where
  "unescape e =
     (if e = CHR 0x22 then Some (CHR 0x22)
      else if e = CHR 0x5C then Some (CHR 0x5C)
      else if e = CHR ''/'' then Some (CHR ''/'')
      else if e = CHR ''b'' then Some (CHR 0x08)
      else if e = CHR ''f'' then Some (CHR 0x0C)
      else if e = CHR ''n'' then Some (CHR 0x0A)
      else if e = CHR ''r'' then Some (CHR 0x0D)
      else if e = CHR ''t'' then Some (CHR 0x09)
      else None)"

fun parse_str :: "string \<Rightarrow> (string \<times> string) option" where
  "parse_str [] = None"
| "parse_str (c # s) =
     (if c = CHR 0x22 then Some ([], s)
      else if (of_char c :: nat) < 32 then None
      else if c = CHR 0x5C then
        (case s of
           [] \<Rightarrow> None
         | e # s' \<Rightarrow>
             if e = CHR ''u'' then
               (case s' of
                  h1 # h2 # h3 # h4 # s'' \<Rightarrow>
                    (case (hex_val h1, hex_val h2, hex_val h3, hex_val h4) of
                       (Some a, Some b, Some c', Some d) \<Rightarrow>
                         map_option (\<lambda>(x, r). (utf8 (((a * 16 + b) * 16 + c') * 16 + d) @ x, r)) (parse_str s'')
                     | _ \<Rightarrow> None)
                | _ \<Rightarrow> None)
             else (case unescape e of
                     None \<Rightarrow> None
                   | Some x \<Rightarrow> map_option (\<lambda>(y, r). (x # y, r)) (parse_str s')))
      else map_option (\<lambda>(y, r). (c # y, r)) (parse_str s))"

section \<open>Values\<close>

definition json_ws :: "char \<Rightarrow> bool" where
  "json_ws c = (c = CHR '' '' \<or> c = CHR 0x09 \<or> c = CHR 0x0A \<or> c = CHR 0x0D)"

definition skip_ws :: "string \<Rightarrow> string" where
  "skip_ws s = dropWhile json_ws s"

definition lit :: "string \<Rightarrow> json \<Rightarrow> string \<Rightarrow> (json \<times> string) option" where
  "lit p v s = (if prefix p s then Some (v, drop (length p) s) else None)"

text \<open>
  The recursive descent, on fuel: each level of nesting and each element spends one unit.
  \<open>elems\<close> and \<open>members\<close> read what follows an element, having read it.
\<close>

fun parse_value :: "nat \<Rightarrow> string \<Rightarrow> (json \<times> string) option"
  and parse_elems :: "nat \<Rightarrow> string \<Rightarrow> (json list \<times> string) option"
  and parse_members :: "nat \<Rightarrow> (string \<times> json) list \<Rightarrow> string \<Rightarrow> ((string \<times> json) list \<times> string) option" where
  "parse_value 0 s = None"
| "parse_value (Suc n) s =
     (case skip_ws s of
        [] \<Rightarrow> None
      | c # r \<Rightarrow>
          if c = CHR ''n'' then lit ''null'' JNull (c # r)
          else if c = CHR ''t'' then lit ''true'' (JBool True) (c # r)
          else if c = CHR ''f'' then lit ''false'' (JBool False) (c # r)
          else if c = CHR 0x22 then map_option (\<lambda>(x, t). (JStr x, t)) (parse_str r)
          else if c = CHR ''['' then
            (case skip_ws r of
               [] \<Rightarrow> None
             | d # t \<Rightarrow> if d = CHR '']'' then Some (JArr [], t)
                        else map_option (\<lambda>(xs, u). (JArr xs, u)) (parse_elems n r))
          else if c = CHR ''{'' then
            (case skip_ws r of
               [] \<Rightarrow> None
             | d # t \<Rightarrow> if d = CHR ''}'' then Some (JObj [], t)
                        else map_option (\<lambda>(m, u). (JObj m, u)) (parse_members n [] r))
          else map_option (\<lambda>(q, t). (JNum q, t)) (parse_num (c # r)))"
| "parse_elems 0 s = None"
| "parse_elems (Suc n) s =
     (case parse_value n s of
        None \<Rightarrow> None
      | Some (v, r) \<Rightarrow>
          (case skip_ws r of
             [] \<Rightarrow> None
           | c # t \<Rightarrow> if c = CHR '']'' then Some ([v], t)
                      else if c = CHR '','' then map_option (\<lambda>(vs, u). (v # vs, u)) (parse_elems n t)
                      else None))"
| "parse_members 0 m s = None"
| "parse_members (Suc n) m s =
     (case skip_ws s of
        [] \<Rightarrow> None
      | c # r \<Rightarrow>
          if c \<noteq> CHR 0x22 then None
          else (case parse_str r of None \<Rightarrow> None | Some (k, r1) \<Rightarrow>
            (case skip_ws r1 of
               [] \<Rightarrow> None
             | d # r2 \<Rightarrow>
                 if d \<noteq> CHR '':'' then None
                 else (case parse_value n r2 of None \<Rightarrow> None | Some (v, r3) \<Rightarrow>
                   (case skip_ws r3 of
                      [] \<Rightarrow> None
                    | e # r4 \<Rightarrow>
                        if e = CHR ''}'' then Some (jm_set k v m, r4)
                        else if e = CHR '','' then parse_members n (jm_set k v m) r4
                        else None)))))"

definition json_parse :: "string \<Rightarrow> json option" where
  "json_parse s =
     (case parse_value (2 * length s + 1) s of
        Some (v, r) \<Rightarrow> if skip_ws r = [] then Some v else None
      | None \<Rightarrow> None)"

section \<open>Printing\<close>

definition hex_digit :: "nat \<Rightarrow> char" where
  "hex_digit d = (if d < 10 then char_of (48 + d) else char_of (87 + d))"

definition esc_char :: "char \<Rightarrow> string" where
  "esc_char c =
     (let n = (of_char c :: nat) in
      if c = CHR 0x22 then [CHR 0x5C, CHR 0x22]
      else if c = CHR 0x5C then [CHR 0x5C, CHR 0x5C]
      else if c = CHR 0x08 then [CHR 0x5C, CHR ''b'']
      else if c = CHR 0x0C then [CHR 0x5C, CHR ''f'']
      else if c = CHR 0x0A then [CHR 0x5C, CHR ''n'']
      else if c = CHR 0x0D then [CHR 0x5C, CHR ''r'']
      else if c = CHR 0x09 then [CHR 0x5C, CHR ''t'']
      else if n < 32 then [CHR 0x5C, CHR ''u'', CHR ''0'', CHR ''0'', hex_digit (n div 16), hex_digit (n mod 16)]
      else [c])"

definition str_lit :: "string \<Rightarrow> string" where
  "str_lit s = [CHR 0x22] @ concat (map esc_char s) @ [CHR 0x22]"

text \<open>The digits after the point of a fraction in [0, 1), at most as many as given.\<close>

fun frac_digits :: "nat \<Rightarrow> rat \<Rightarrow> string" where
  "frac_digits 0 f = []"
| "frac_digits (Suc n) f =
     (if f = 0 then [] else (let d = nat \<lfloor>f * 10\<rfloor> in digit_char d # frac_digits n (f * 10 - of_nat d)))"

definition num_str :: "rat \<Rightarrow> string" where
  "num_str q =
     (let a = abs q; i = nat \<lfloor>a\<rfloor>; f = a - of_nat i in
      (if q < 0 then ''-'' else []) @ nat_str i @ (if f = 0 then [] else ''.'' @ frac_digits 17 f))"

fun json_str :: "json \<Rightarrow> string" where
  "json_str JNull = ''null''"
| "json_str (JBool b) = (if b then ''true'' else ''false'')"
| "json_str (JNum q) = num_str q"
| "json_str (JStr s) = str_lit s"
| "json_str (JArr xs) = ''['' @ js_join '','' (map json_str xs) @ '']''"
| "json_str (JObj m) = ''{'' @ js_join '','' (map (\<lambda>(k, v). str_lit k @ '':'' @ json_str v) m) @ ''}''"

text \<open>\<open>JSON.stringify(x, null, 1)\<close>: one space per level.\<close>

fun json_pretty :: "nat \<Rightarrow> json \<Rightarrow> string" where
  "json_pretty d (JArr xs) =
     (if xs = [] then ''[]''
      else ''['' @ nl @ js_join ('','' @ nl) (map (\<lambda>x. replicate (Suc d) (CHR '' '') @ json_pretty (Suc d) x) xs)
        @ nl @ replicate d (CHR '' '') @ '']'')"
| "json_pretty d (JObj m) =
     (if m = [] then ''{}''
      else ''{'' @ nl @ js_join ('','' @ nl)
          (map (\<lambda>(k, x). replicate (Suc d) (CHR '' '') @ str_lit k @ '': '' @ json_pretty (Suc d) x) m)
        @ nl @ replicate d (CHR '' '') @ ''}'')"
| "json_pretty d v = json_str v"

lemma json_parse_examples:
  "json_parse ''{\"a\":[1,true,null,\"x\"],\"b\":-2.5}'' =
     Some (JObj [(''a'', JArr [JNum 1, JBool True, JNull, JStr ''x'']), (''b'', JNum (- 5 / 2))])"
  by code_simp

end
