(* ===== verification/Types.thy ===== *)
theory Types
  imports Json
begin

text \<open>
  The data of the swarm package: team specs and results (\<open>types.ts\<close>), board tasks and
  their evidence (\<open>board.ts\<close>), gate evidence (\<open>gate.ts\<close>), questions and run records
  (\<open>run.ts\<close>), usage (\<open>metrics.ts\<close>), merge outcomes (\<open>openswarm-git\<close>) and train
  verdicts (\<open>train.ts\<close>). An optional field is an \<^theory_text>\<open>option\<close>; one that may also be
  \<open>null\<close> is an option of an option. Amounts of dollars are exact rationals.
\<close>

section \<open>The verifier hierarchy\<close>

datatype verifier_level = L0 | L1 | L2 | L3 | L4

fun level_num :: "verifier_level \<Rightarrow> nat" where
  "level_num L0 = 0"
| "level_num L1 = 1"
| "level_num L2 = 2"
| "level_num L3 = 3"
| "level_num L4 = 4"

lemma level_num_inj [simp]: "level_num a = level_num b \<longleftrightarrow> a = b"
  by (cases a; cases b) auto

instantiation verifier_level :: linorder
begin

definition less_eq_verifier_level :: "verifier_level \<Rightarrow> verifier_level \<Rightarrow> bool" where
  "less_eq_verifier_level a b = (level_num a \<le> level_num b)"

definition less_verifier_level :: "verifier_level \<Rightarrow> verifier_level \<Rightarrow> bool" where
  "less_verifier_level a b = (level_num a < level_num b)"

instance
  by standard (auto simp: less_eq_verifier_level_def less_verifier_level_def)

end

lemmas level_order = less_eq_verifier_level_def less_verifier_level_def

section \<open>Members and team specs\<close>

record intent =
  in_purpose :: string
  in_endState :: string
  in_constraints :: "string list option"
  in_preferences :: "string list option"

record budget =
  bg_usd :: "rat option"
  bg_tokens :: "rat option"

text \<open>Of dsh's \<open>AgentOptions\<close>, what the swarm reads: the route.\<close>

record agent_options =
  ao_provider :: "string option"
  ao_model :: "string option"
  ao_maxTokens :: "rat option"

datatype member_runtime = Dsh | ClaudeCode | Codex
datatype codex_sandbox = ReadOnly | WorkspaceWrite | DangerFullAccess
datatype claude_setting_source = UserSettings | ProjectSettings | LocalSettings
datatype claude_permission_mode = AcceptEdits | AutoMode | BypassPermissions | ManualMode | DontAsk | PlanMode

record member_spec =
  mb_name :: string
  mb_persona :: "string option"
  mb_agentOptions :: "agent_options option"
  mb_subagentProvider :: "string option"
  mb_runtime :: "member_runtime option"
  mb_permissionMode :: "claude_permission_mode option"
  mb_claudeSettingSources :: "claude_setting_source list option"
  mb_claudeTimeoutMs :: "rat option"
  mb_codexSandbox :: "codex_sandbox option"
  mb_codexTimeoutMs :: "rat option"

definition plain_member :: "string \<Rightarrow> member_spec" where
  "plain_member n = \<lparr>mb_name = n, mb_persona = None, mb_agentOptions = None, mb_subagentProvider = None,
     mb_runtime = None, mb_permissionMode = None, mb_claudeSettingSources = None, mb_claudeTimeoutMs = None,
     mb_codexSandbox = None, mb_codexTimeoutMs = None\<rparr>"

record spec_base =
  sb_intent :: "intent option"
  sb_budget :: "budget option"

record fanout_task =
  ft_member :: string
  ft_prompt :: string

record fanout_spec = spec_base +
  fs_members :: "member_spec list"
  fs_tasks :: "fanout_task list"

record critic_loop_spec = spec_base +
  cl_worker :: member_spec
  cl_critic :: member_spec
  cl_task :: string
  cl_maxRounds :: "rat option"

record committee_spec = spec_base +
  co_members :: "member_spec list"
  co_task :: string
  co_judge :: "member_spec option"

record pipeline_spec = spec_base +
  pl_stages :: "(member_spec \<times> string) list"

record confidence_gate =
  cg_commands :: "string list"
  cg_tau :: rat

record cascade_spec = spec_base +
  ca_tiers :: "member_spec list"
  ca_task :: string
  ca_gate :: "member_spec option"
  ca_confidence :: "confidence_gate option"

record coordinator_spec = spec_base +
  cd_coordinator :: member_spec
  cd_workers :: "member_spec list"
  cd_task :: string

record peer_task =
  pt_subject :: string
  pt_prompt :: string
  pt_blockedBy :: "nat list option"
  pt_intent :: "intent option"
  pt_checks :: "string list option"
  pt_budget :: "budget option"
  pt_minLevel :: "verifier_level option"
  pt_suite :: "string option"

record peer_gate =
  pg_rounds :: "rat option"
  pg_checks :: "string list option"
  pg_review :: "bool option"
  pg_signoff :: "string option"
  pg_minLevel :: "verifier_level option"
  pg_suite :: "string option"

record peer_team_spec = spec_base +
  ps_members :: "member_spec list"
  ps_tasks :: "peer_task list"
  ps_messaging :: "bool option"
  ps_maxTaskAttempts :: "nat option"
  ps_maxMemberRestarts :: "nat option"
  ps_memberIdleTimeoutMs :: "nat option"
  ps_gate :: "peer_gate option"

datatype team_spec =
    FanoutSpec fanout_spec
  | CriticLoopSpec critic_loop_spec
  | CommitteeSpec committee_spec
  | PipelineSpec pipeline_spec
  | CascadeSpec cascade_spec
  | CoordinatorSpec coordinator_spec
  | PeerTeamSpec peer_team_spec

datatype topology = Fanout | CriticLoop | Committee | Pipeline | Cascade | Coordinator | PeerTeam

fun topology_of :: "team_spec \<Rightarrow> topology" where
  "topology_of (FanoutSpec _) = Fanout"
| "topology_of (CriticLoopSpec _) = CriticLoop"
| "topology_of (CommitteeSpec _) = Committee"
| "topology_of (PipelineSpec _) = Pipeline"
| "topology_of (CascadeSpec _) = Cascade"
| "topology_of (CoordinatorSpec _) = Coordinator"
| "topology_of (PeerTeamSpec _) = PeerTeam"

fun spec_intent :: "team_spec \<Rightarrow> intent option" where
  "spec_intent (FanoutSpec s) = sb_intent s"
| "spec_intent (CriticLoopSpec s) = sb_intent s"
| "spec_intent (CommitteeSpec s) = sb_intent s"
| "spec_intent (PipelineSpec s) = sb_intent s"
| "spec_intent (CascadeSpec s) = sb_intent s"
| "spec_intent (CoordinatorSpec s) = sb_intent s"
| "spec_intent (PeerTeamSpec s) = sb_intent s"

section \<open>Member runs and team results\<close>

datatype content_block = TextBlock string | OtherBlock string

record run_result =
  rs_member :: string
  rs_runId :: string
  rs_text :: string
  rs_output :: "content_block list"
  rs_stopReason :: string

record critic_result =
  cr_approved :: bool
  cr_rounds :: nat
  cr_final :: run_result
  cr_history :: "(run_result \<times> run_result) list"

record cascade_attempt =
  at_tier :: nat
  at_result :: run_result
  at_verdict :: "run_result option"
  at_confidence :: "rat option"
  at_failure :: "(string \<times> string) option"

record cascade_result =
  cs_accepted :: bool
  cs_tier :: nat
  cs_final :: run_result
  cs_attempts :: "cascade_attempt list"

record subtask_result =
  st_prompt :: string
  st_worker :: string
  st_result :: run_result

section \<open>Evidence\<close>

datatype evidence_kind = KCommands | KReview | KHidden | KHuman
datatype enforcement = Full | Partial

fun kind_str :: "evidence_kind \<Rightarrow> string" where
  "kind_str KCommands = ''commands''"
| "kind_str KReview = ''review''"
| "kind_str KHidden = ''hidden''"
| "kind_str KHuman = ''human''"

record signoff =
  so_accepted :: bool
  so_reasons :: string

text \<open>A reviewer's target as a record keeps it.\<close>

record target_status =
  ts_target :: "json option"
  ts_status :: string
  ts_notes :: "string option"

record task_evidence =
  ev_kind :: evidence_kind
  ev_passed :: bool
  ev_level :: "verifier_level option"
  ev_round :: "nat option"
  ev_score :: "rat option option"
  ev_targets :: "target_status list option"
  ev_failedCommands :: "string list option"
  ev_suite :: "string option"
  ev_total :: "nat option"
  ev_failed :: "nat option"
  ev_enforcement :: "enforcement option"
  ev_refused :: "string option"
  ev_signoff :: "signoff option"
  ev_snapshot :: "string option"
  ev_by :: "string option"

definition no_evidence :: task_evidence where
  "no_evidence = \<lparr>ev_kind = KCommands, ev_passed = False, ev_level = None, ev_round = None, ev_score = None,
     ev_targets = None, ev_failedCommands = None, ev_suite = None, ev_total = None, ev_failed = None,
     ev_enforcement = None, ev_refused = None, ev_signoff = None, ev_snapshot = None, ev_by = None\<rparr>"

datatype tamper_signal_kind =
  StorePath | HelperPath | VerifierUser | Sudo | PermissionDenied | Canary | HelperLog
datatype severity = Incident | Advisory
datatype tamper_where = Transcript | Diff | HelperLogFile

fun signal_str :: "tamper_signal_kind \<Rightarrow> string" where
  "signal_str StorePath = ''store-path''"
| "signal_str HelperPath = ''helper-path''"
| "signal_str VerifierUser = ''verifier-user''"
| "signal_str Sudo = ''sudo''"
| "signal_str PermissionDenied = ''permission-denied''"
| "signal_str Canary = ''canary''"
| "signal_str HelperLog = ''helper-log''"

fun where_str :: "tamper_where \<Rightarrow> string" where
  "where_str Transcript = ''transcript''"
| "where_str Diff = ''diff''"
| "where_str HelperLogFile = ''helper log''"

fun severity_str :: "severity \<Rightarrow> string" where
  "severity_str Incident = ''incident''"
| "severity_str Advisory = ''advisory''"

record tamper_signal =
  tm_signal :: tamper_signal_kind
  tm_severity :: severity
  tm_where :: tamper_where
  tm_match :: string

text \<open>\<open>[...new Set(signals.map((s) => `${s.signal} in ${s.where}`))]\<close>.\<close>

definition signal_texts :: "tamper_signal list \<Rightarrow> string list" where
  "signal_texts ss = js_uniq (map (\<lambda>s. signal_str (tm_signal s) @ '' in '' @ where_str (tm_where s)) ss)"

section \<open>Board tasks and their journal events\<close>

datatype task_status = Pending | InProgress | Completed

record task =
  tk_id :: string
  tk_revision :: nat
  tk_subject :: string
  tk_prompt :: string
  tk_status :: task_status
  tk_owner :: "string option"
  tk_blockedBy :: "string list"
  tk_result :: "string option"
  tk_lease :: "string option"
  tk_intent :: "intent option"
  tk_checks :: "string list option"
  tk_minLevel :: "verifier_level option"
  tk_suite :: "string option"
  tk_budget :: "budget option"
  tk_evidence :: "task_evidence option"

record gate_feedback =
  gf_kind :: evidence_kind
  gf_level :: verifier_level
  gf_passed :: bool
  gf_score :: "rat option option"
  gf_failedCommands :: "string list option"

record gate_event =
  gv_taskId :: string
  gv_member :: string
  gv_round :: nat
  gv_changed :: bool
  gv_kind :: evidence_kind
  gv_level :: "verifier_level option"
  gv_passed :: bool
  gv_score :: "rat option option"
  gv_targets :: "target_status list option"
  gv_failedCommands :: "string list option"
  gv_rolledBack :: bool
  gv_error :: "string option"
  gv_suite :: "string option"
  gv_total :: "nat option"
  gv_failed :: "nat option"
  gv_enforcement :: "enforcement option"
  gv_tamper :: bool
  gv_signoff :: "signoff option"
  gv_refused :: "string option"
  gv_feedback :: "gate_feedback option"
  gv_snapshot :: "string option"

record tamper_event =
  te_taskId :: string
  te_member :: string
  te_round :: nat
  te_suite :: string
  te_severity :: "severity option"
  te_signals :: "tamper_signal list"

section \<open>Questions\<close>

datatype trigger = Stall | RestartBudget | TaskAttempts | VerifierFailure | TamperTrigger | Conflict | BudgetTrigger
datatype question_kind = Escalation | Consent | Approval
datatype tier = Low | High
datatype question_status = Open | Answered | Defaulted | Capped

fun trigger_str :: "trigger \<Rightarrow> string" where
  "trigger_str Stall = ''stall''"
| "trigger_str RestartBudget = ''restart-budget''"
| "trigger_str TaskAttempts = ''task-attempts''"
| "trigger_str VerifierFailure = ''verifier-failure''"
| "trigger_str TamperTrigger = ''tamper''"
| "trigger_str Conflict = ''conflict''"
| "trigger_str BudgetTrigger = ''budget''"

record question =
  qn_id :: string
  qn_trigger :: trigger
  qn_kind :: question_kind
  qn_tier :: tier
  qn_prompt :: string
  qn_taskId :: "string option"
  qn_options :: "string list"
  qn_default :: string
  qn_status :: question_status
  qn_answer :: "string option"
  qn_by :: "string option"
  qn_raisedAt :: int
  qn_closedAt :: "int option"

record question_request =
  rq_trigger :: trigger
  rq_prompt :: string
  rq_options :: "string list"
  rq_default :: string
  rq_kind :: "question_kind option"
  rq_tier :: "tier option"
  rq_taskId :: "string option"

section \<open>Messages, steers, usage and budgets\<close>

datatype message_delivery = Quiet | Wakeup

record message =
  mg_id :: string
  mg_from :: string
  mg_to :: string
  mg_delivery :: message_delivery
  mg_text :: string

record steer_event =
  sr_to :: string
  sr_text :: string
  sr_immediate :: bool
  sr_by :: string

record usage =
  us_input :: nat
  us_output :: nat
  us_cacheRead :: nat
  us_cacheWrite :: nat
  us_calls :: nat

datatype usage_role = TaskRole | ReviewRole | RepairRole | ResolveRole | LeadRole

record usage_event =
  ue_member :: string
  ue_role :: usage_role
  ue_taskKey :: "string option"
  ue_runtime :: string
  ue_provider :: "string option"
  ue_model :: "string option"
  ue_runId :: string
  ue_usage :: usage
  ue_costUsd :: "rat option"
  ue_unmeasured :: bool
  ue_startedAt :: int

datatype budget_scope = RunScope | TaskScope
datatype budget_outcome = Stopped | Extended

record budget_event =
  be_scope :: budget_scope
  be_taskId :: "string option"
  be_reason :: string
  be_spentUsd :: "rat option"
  be_spentTokens :: nat
  be_outcome :: budget_outcome
  be_limit :: budget

record restart_event =
  re_member :: string
  re_taskId :: string
  re_restart :: nat

section \<open>Merge outcomes, train verdicts and landing evidence\<close>

record branch_ref =
  br_taskKey :: string
  br_branch :: string

record merged_branch = branch_ref +
  br_commits :: nat

record ejected_branch = branch_ref +
  br_reason :: string

record repaired_branch = branch_ref +
  br_repairs :: nat

record merge_outcome =
  mo_targetBranch :: string
  mo_merged :: "merged_branch list"
  mo_conflicts :: "branch_ref list"
  mo_empty :: "branch_ref list"
  mo_withheld :: "branch_ref list"
  mo_landed :: "merged_branch list option"
  mo_ejected :: "ejected_branch list option"
  mo_repaired :: "repaired_branch list option"
  mo_resolved :: "branch_ref list option"
  mo_stopped :: "string option"

record train_verdict =
  tv_level :: verifier_level
  tv_passed :: bool
  tv_failedCommand :: "string option"
  tv_output :: "string option"
  tv_suite :: "string option"
  tv_total :: "nat option"
  tv_failed :: "nat option"
  tv_enforcement :: "enforcement option"
  tv_refused :: "string option"

record entry_ref =
  er_key :: string
  er_branch :: string
  er_commits :: nat

datatype fix_step = Repair | Resolve
datatype repair_outcome = Committed | Unchanged | RepairFailed
datatype resolve_outcome = Resolved | GaveUp | Tampered
datatype landing_outcome = OutLanded | OutEjected | OutConflicted
datatype landing_via = ViaTrain | ViaQueue | ViaForge
datatype risk_tier = RiskHigh | RiskMedium | RiskLow

record diff_summary =
  ds_files :: "string list"
  ds_insertions :: nat
  ds_deletions :: nat

record landing_at =
  la_key :: string
  la_outcome :: landing_outcome
  la_via :: landing_via
  la_unverified :: bool
  la_branch :: string
  la_base :: string
  la_at :: int
  la_batch :: "int option"
  la_commit :: "string option"
  la_reason :: "string option"
  la_diff :: "diff_summary option"

datatype tamper_step = GateStep | FixStep fix_step

record step_record =
  sp_step :: fix_step
  sp_member :: "string option"
  sp_attempt :: "nat option"
  sp_outcome :: string

record tamper_record =
  tr_step :: tamper_step
  tr_severity :: severity
  tr_signals :: "string list"

record question_record =
  qr_id :: string
  qr_trigger :: trigger
  qr_status :: question_status
  qr_answer :: "string option"
  qr_by :: "string option"
  qr_raisedAt :: int
  qr_closedAt :: "int option"

record landing_cost =
  lc_tokens :: nat
  lc_byRole :: "(usage_role, nat) jmap"
  lc_byModel :: "(string, usage) jmap"
  lc_reported :: "(rat \<times> (string \<times> usage) list) option"

record landing_evidence = landing_at +
  le_subject :: "string option"
  le_intent :: "intent option"
  le_level :: verifier_level
  le_gate :: "task_evidence option"
  le_gateRounds :: nat
  le_train :: "(train_verdict \<times> int) option"
  le_cost :: "landing_cost option"
  le_unmeasured :: "string option"
  le_questions :: "question_record list"
  le_steps :: "step_record list"
  le_tamper :: "tamper_record list"
  le_risk :: risk_tier
  le_why :: "string list"

section \<open>Run records\<close>

datatype run_status = Running | Finished | Failed | Interrupted
datatype landing_kind = ByQueue | ByTrain

record run_writer =
  rw_pid :: int
  rw_host :: string
  rw_incarnation :: string

datatype team_result =
    FanoutResult "run_result list"
  | CriticLoopResult critic_result
  | CommitteeResult "run_result list" "run_result option"
  | PipelineResult "run_result list" run_result
  | CascadeResult cascade_result
  | CoordinatorResult run_result "subtask_result list" run_result
  | PeerTeamResult "task list" "(string, run_result) jmap"

record run_record =
  rr_id :: string
  rr_status :: run_status
  rr_topology :: topology
  rr_parentSessionId :: string
  rr_writer :: run_writer
  rr_startedAt :: int
  rr_endedAt :: "int option"
  rr_landing :: "landing_kind option"
  rr_usageJournaled :: bool
  rr_error :: "string option"
  rr_result :: "team_result option"
  rr_resultGit :: "merge_outcome option"
  rr_git :: "merge_outcome option"
  rr_spec :: "team_spec option"

section \<open>What the journals hold\<close>

text \<open>
  One constructor per event type of a run's journal; \<open>OtherEvent\<close> is any type no
  component here reads.
\<close>

datatype swarm_event =
    TaskEvent task
  | GateEvent gate_event
  | TamperEvent tamper_event
  | AbandonedEvent string string
  | QueuedEvent message
  | DeliveredEvent string
  | UndeliveredEvent string string
  | SteerEvent steer_event
  | QuestionEvent question
  | UsageEvent usage_event
  | BudgetEvent budget_event
  | RestartEvent restart_event
  | RunEvent run_record
  | EvidenceEvent landing_evidence
  | OtherEvent string

datatype train_event =
    TrEnqueued entry_ref string nat "string list" nat "fix_step option"
  | TrBaseline train_verdict string
  | TrBatch int "int option" string "entry_ref list" "string list"
  | TrVerified train_verdict int string "string list"
  | TrUnverified int string "string list" string
  | TrLanded entry_ref int string bool
  | TrEjected entry_ref string
  | TrRepair entry_ref string nat string repair_outcome "string option"
  | TrResolve entry_ref "string option" string "string list" resolve_outcome "string option"
  | TrRemoteResolve entry_ref string nat repair_outcome string "string option"
  | TrTamper entry_ref string fix_step severity "tamper_signal list"
  | TrStopped string "string list" "string list"
  | TrEvidence landing_evidence

end
