(* ===== verification/Journal.thy ===== *)
theory Journal
  imports Types
begin

text \<open>
  \<open>packages/swarm/src/journal.ts\<close> and \<open>serialize.ts\<close>: the append-only journal of a run.
  The in-memory half (\<open>events\<close>, \<open>nextSeq\<close>, \<open>append\<close>) is polymorphic in the payload, the
  type and data of an event; the file half works on JSON payloads and the file's bytes. A
  serializer runs submitted operations one at a time in submission order, each to its end,
  so an operation here is one atomic transition.

  The locale \<open>snapshot_log\<close> is the contract of every fold of whole-snapshot events (board
  tasks, questions): the latest snapshot of a key wins, in the order keys first appeared.
\<close>

section \<open>Events and the in-memory journal\<close>

record 'd jevent =
  je_seq :: nat
  je_time :: int
  je_data :: 'd

record 'd swarm_journal =
  sj_incarnation :: string
  sj_events :: "'d jevent list"
  sj_nextSeq :: nat

text \<open>The constructor: the sequence goes on after the last event loaded.\<close>

definition journal_new :: "string \<Rightarrow> 'd jevent list \<Rightarrow> 'd swarm_journal" where
  "journal_new inc evs =
     \<lparr>sj_incarnation = inc, sj_events = evs,
      sj_nextSeq = (case js_last evs of None \<Rightarrow> 0 | Some e \<Rightarrow> je_seq e + 1)\<rparr>"

text \<open>\<open>append\<close>: the event takes the next sequence number and is pushed once written.\<close>

definition journal_append :: "int \<Rightarrow> 'd \<Rightarrow> 'd swarm_journal \<Rightarrow> 'd jevent \<times> 'd swarm_journal" where
  "journal_append now d j =
     (let ev = \<lparr>je_seq = sj_nextSeq j, je_time = now, je_data = d\<rparr> in
      (ev, j\<lparr>sj_nextSeq := sj_nextSeq j + 1, sj_events := sj_events j @ [ev]\<rparr>))"

definition payloads :: "'d swarm_journal \<Rightarrow> 'd list" where
  "payloads j = map je_data (sj_events j)"

text \<open>\<open>waitForAppend\<close> returns at once when an event past the cursor exists.\<close>

definition append_ready :: "int \<Rightarrow> 'd swarm_journal \<Rightarrow> bool" where
  "append_ready after j = ((case js_last (sj_events j) of None \<Rightarrow> - 1 | Some e \<Rightarrow> int (je_seq e)) > after)"

lemma payloads_append [simp]: "payloads (snd (journal_append now d j)) = payloads j @ [d]"
  by (simp add: payloads_def journal_append_def Let_def)

lemma journal_append_fields [simp]:
  "sj_incarnation (snd (journal_append now d j)) = sj_incarnation j"
  "je_data (fst (journal_append now d j)) = d"
  "je_seq (fst (journal_append now d j)) = sj_nextSeq j"
  by (simp_all add: journal_append_def Let_def)

text \<open>Sequence numbers increase strictly and the next one is past them all.\<close>

definition journal_ok :: "'d swarm_journal \<Rightarrow> bool" where
  "journal_ok j \<longleftrightarrow> sorted_wrt (\<lambda>a b. je_seq a < je_seq b) (sj_events j) \<and>
     (\<forall>e \<in> set (sj_events j). je_seq e < sj_nextSeq j)"

lemma journal_ok_append [simp, wf_intros]: "journal_ok j \<Longrightarrow> journal_ok (snd (journal_append now d j))"
  by (auto simp: journal_ok_def journal_append_def Let_def sorted_wrt_append less_Suc_eq)

lemma journal_ok_new:
  assumes "sorted_wrt (\<lambda>a b. je_seq a < je_seq b) evs"
  shows "journal_ok (journal_new inc evs)"
proof (cases evs rule: rev_cases)
  case Nil
  then show ?thesis by (simp add: journal_ok_def journal_new_def)
next
  case (snoc ys y)
  with assms show ?thesis
    by (auto simp: journal_ok_def journal_new_def sorted_wrt_append less_Suc_eq)
qed

lemma journal_new_fields [simp]:
  "sj_events (journal_new inc evs) = evs" "sj_incarnation (journal_new inc evs) = inc"
  "payloads (journal_new inc evs) = map je_data evs"
  by (simp_all add: journal_new_def payloads_def)

lemma journal_ok_reopen [simp]: "journal_ok j \<Longrightarrow> journal_ok (journal_new inc (sj_events j))"
  by (rule journal_ok_new) (simp add: journal_ok_def)

section \<open>Whole-snapshot events\<close>

locale snapshot_log =
  fixes sel :: "'p \<Rightarrow> ('k \<times> 'v) option"
    and folded :: "'p list \<Rightarrow> ('k, 'v) jmap"
  assumes folded_Nil: "folded [] = []"
    and folded_snoc: "folded (es @ [e]) =
      (case sel e of None \<Rightarrow> folded es | Some (k, v) \<Rightarrow> jm_set k v (folded es))"
begin

lemma folded_wf [simp]: "jm_wf (folded es)"
  by (induction es rule: rev_induct) (auto simp: folded_Nil folded_snoc split: option.splits)

lemma folded_other: "sel e = None \<Longrightarrow> folded (es @ [e]) = folded es"
  by (simp add: folded_snoc)

lemma folded_snapshot: "sel e = Some (k, v) \<Longrightarrow> folded (es @ [e]) = jm_set k v (folded es)"
  by (simp add: folded_snoc)

text \<open>The value of a key is the last snapshot of it.\<close>

lemma map_filter_append: "List.map_filter f (xs @ ys) = List.map_filter f xs @ List.map_filter f ys"
  by (simp add: List.map_filter_def)

lemma map_filter_single: "List.map_filter f [x] = (case f x of None \<Rightarrow> [] | Some y \<Rightarrow> [y])"
  by (cases "f x") (simp_all add: List.map_filter_def)

lemma folded_get:
  "jm_get (folded es) k = js_last (map snd (filter (\<lambda>kv. fst kv = k) (List.map_filter sel es)))"
proof (induction es rule: rev_induct)
  case Nil
  then show ?case by (simp add: folded_Nil List.map_filter_def)
next
  case (snoc e es)
  then show ?case
    by (cases "sel e") (auto simp: folded_snoc map_filter_append map_filter_single)
qed

text \<open>Appending events only appends keys: the order is the order of first appearance.\<close>

lemma folded_keys_prefix: "prefix (jm_keys (folded es)) (jm_keys (folded (es @ fs)))"
proof (induction fs rule: rev_induct)
  case Nil
  then show ?case by simp
next
  case (snoc f fs)
  have "prefix (jm_keys (folded (es @ fs))) (jm_keys (folded ((es @ fs) @ [f])))"
    unfolding folded_snoc by (auto simp: jm_keys_set split: option.splits)
  with snoc show ?case by (metis append_assoc prefix_order.order_trans)
qed

lemma folded_keyed:
  assumes "\<And>e k v. sel e = Some (k, v) \<Longrightarrow> f v = k"
  shows "jm_keyed f (folded es)"
  by (induction es rule: rev_induct) (auto simp: folded_Nil folded_snoc assms split: option.splits)

lemma folded_value_logged:
  "jm_get (folded es) k = Some v \<Longrightarrow> \<exists>e \<in> set es. sel e = Some (k, v)"
proof (induction es rule: rev_induct)
  case Nil
  then show ?case by (simp add: folded_Nil)
next
  case (snoc e es)
  then show ?case
    by (cases "sel e") (auto simp: folded_snoc split: if_splits)
qed

end

section \<open>The file\<close>

text \<open>A JSON payload: the event's type and its data.\<close>

type_synonym json_payload = "string \<times> json"

definition event_json :: "json_payload jevent \<Rightarrow> json" where
  "event_json e = JObj [(''seq'', JNum (of_nat (je_seq e))), (''time'', JNum (of_int (je_time e))),
     (''type'', JStr (fst (je_data e))), (''data'', snd (je_data e))]"

definition event_line :: "json_payload jevent \<Rightarrow> string" where
  "event_line e = json_str (event_json e) @ nl"

text \<open>The cast of a parsed line: a value without an event's fields is none.\<close>

definition event_of_json :: "json \<Rightarrow> json_payload jevent option" where
  "event_of_json v =
     (case (jfield ''seq'' v, jfield ''time'' v, jfield ''type'' v, jfield ''data'' v) of
        (Some (JNum s), Some (JNum t), Some (JStr ty), Some d) \<Rightarrow>
          Some \<lparr>je_seq = nat \<lfloor>s\<rfloor>, je_time = \<lfloor>t\<rfloor>, je_data = (ty, d)\<rparr>
      | _ \<Rightarrow> None)"

fun parse_lines :: "string list \<Rightarrow> json_payload jevent list option" where
  "parse_lines [] = Some []"
| "parse_lines (l # ls) =
     (case Option.bind (json_parse l) event_of_json of
        None \<Rightarrow> None
      | Some e \<Rightarrow> map_option (Cons e) (parse_lines ls))"

text \<open>One past the last newline; 0 when there is none.\<close>

definition lines_end :: "string \<Rightarrow> nat" where
  "lines_end bytes = length (dropWhile (\<lambda>c. c \<noteq> newline) (rev bytes))"

text \<open>\<open>load\<close>: the complete lines as events, where they end, and the size; a missing file is empty.\<close>

definition journal_load :: "string option \<Rightarrow> (json_payload jevent list \<times> nat \<times> nat) option" where
  "journal_load file =
     (case file of
        None \<Rightarrow> Some ([], 0, 0)
      | Some bytes \<Rightarrow>
          (let eol = lines_end bytes;
               ls = split_on newline (take eol bytes) in
           map_option (\<lambda>evs. (evs, eol, length bytes)) (parse_lines (filter (\<lambda>l. l \<noteq> []) ls))))"

text \<open>\<open>open\<close>: bytes past the last complete line are eol off the file.\<close>

definition journal_open :: "string \<Rightarrow> string option \<Rightarrow> (json_payload swarm_journal \<times> string option) option" where
  "journal_open inc file =
     (case journal_load file of
        None \<Rightarrow> None
      | Some (evs, eol, sz) \<Rightarrow>
          Some (journal_new inc evs, if eol < sz then map_option (take eol) file else file))"

definition journal_read :: "string option \<Rightarrow> json_payload jevent list option" where
  "journal_read file = map_option fst (journal_load file)"

text \<open>\<open>append\<close> on both halves: the line is added to the file (created when missing), then the event is pushed.\<close>

definition file_append ::
  "int \<Rightarrow> json_payload \<Rightarrow> json_payload swarm_journal \<times> string option \<Rightarrow> json_payload swarm_journal \<times> string option" where
  "file_append now d s =
     (let (ev, j') = journal_append now d (fst s) in (j', Some (or_else (snd s) [] @ event_line ev)))"

end
