(* ===== verification/Board.thy ===== *)
theory Board
  imports Journal
begin

text \<open>
  \<open>packages/swarm/src/board.ts\<close>: the durable shared task board. Every mutation is one
  serialized read-check-append: it folds the journal, checks, and appends the task's new
  whole snapshot, or throws and appends nothing. The methods that only journal
  (\<open>recordGate\<close>, \<open>recordTamper\<close>, \<open>recordAbandoned\<close>) are here too.
\<close>

section \<open>Evidence\<close>

definition effectiveLevel :: "task_evidence \<Rightarrow> verifier_level" where
  "effectiveLevel e =
     (if ev_level e = Some L3 \<and> ev_enforcement e = Some Partial then L2 else or_else (ev_level e) L0)"

definition evidenceText :: "task_evidence \<Rightarrow> string" where
  "evidenceText e =
     (if ev_kind e = KHuman then ''human: '' @ or_else (ev_by e) ''undefined''
      else
        (let part = (if ev_enforcement e = Some Partial then '' (partial: counts as L2)'' else []) in
         ''L'' @ nat_str (level_num (or_else (ev_level e) L0)) @ '' '' @ kind_str (ev_kind e) @ part
           @ '', round '' @ (case ev_round e of None \<Rightarrow> ''undefined'' | Some r \<Rightarrow> nat_str r)))"

section \<open>Errors\<close>

datatype board_error_code =
    SWARM_TASK_NOT_FOUND
  | SWARM_TASK_STALE_REVISION
  | SWARM_TASK_NOT_READY
  | SWARM_TASK_WRONG_OWNER
  | SWARM_TASK_UNKNOWN_BLOCKER
  | SWARM_TASK_UNVERIFIED

text \<open>The code and what its message names.\<close>

datatype board_error =
    NotFound string
  | StaleRevision string nat nat
  | NotReady string
  | WrongOwner string "string option"
  | UnknownBlocker string
  | Unverified string
  | BelowLevel string verifier_level verifier_level

fun error_code :: "board_error \<Rightarrow> board_error_code" where
  "error_code (NotFound _) = SWARM_TASK_NOT_FOUND"
| "error_code (StaleRevision _ _ _) = SWARM_TASK_STALE_REVISION"
| "error_code (NotReady _) = SWARM_TASK_NOT_READY"
| "error_code (WrongOwner _ _) = SWARM_TASK_WRONG_OWNER"
| "error_code (UnknownBlocker _) = SWARM_TASK_UNKNOWN_BLOCKER"
| "error_code (Unverified _) = SWARM_TASK_UNVERIFIED"
| "error_code (BelowLevel _ _ _) = SWARM_TASK_UNVERIFIED"

section \<open>Folding the journal\<close>

definition task_of :: "swarm_event \<Rightarrow> (string \<times> task) option" where
  "task_of e = (case e of TaskEvent t \<Rightarrow> Some (tk_id t, t) | _ \<Rightarrow> None)"

definition foldBoard :: "swarm_event list \<Rightarrow> (string, task) jmap" where
  "foldBoard es = foldl (\<lambda>m e. case e of TaskEvent t \<Rightarrow> jm_set (tk_id t) t m | _ \<Rightarrow> m) [] es"

interpretation tasks: snapshot_log task_of foldBoard
  by unfold_locales (auto simp: foldBoard_def task_of_def split: swarm_event.splits)

definition abandonedTasks :: "swarm_event list \<Rightarrow> (string, string) jmap" where
  "abandonedTasks es = foldl (\<lambda>m e. case e of AbandonedEvent i r \<Rightarrow> jm_set i r m | _ \<Rightarrow> m) [] es"

definition abandoned_of :: "swarm_event \<Rightarrow> (string \<times> string) option" where
  "abandoned_of e = (case e of AbandonedEvent i r \<Rightarrow> Some (i, r) | _ \<Rightarrow> None)"

interpretation abandonedlog: snapshot_log abandoned_of abandonedTasks
  by unfold_locales (auto simp: abandonedTasks_def abandoned_of_def split: swarm_event.splits)

section \<open>The board\<close>

record board =
  bd_journal :: "swarm_event swarm_journal"
  bd_gated :: bool
  bd_minLevel :: "verifier_level option"
  bd_nextTaskNumber :: nat

type_synonym board_result = "(board_error + task) \<times> board"

definition board_open :: "swarm_event swarm_journal \<Rightarrow> bool \<Rightarrow> verifier_level option \<Rightarrow> board" where
  "board_open j g l = \<lparr>bd_journal = j, bd_gated = g, bd_minLevel = l, bd_nextTaskNumber = 0\<rparr>"

definition board_fold :: "board \<Rightarrow> (string, task) jmap" where
  "board_fold b = foldBoard (payloads (bd_journal b))"

definition board_list :: "board \<Rightarrow> task list" where
  "board_list b = jm_vals (board_fold b)"

definition board_abandoned :: "board \<Rightarrow> (string, string) jmap" where
  "board_abandoned b = abandonedTasks (payloads (bd_journal b))"

definition ready :: "task \<Rightarrow> (string, task) jmap \<Rightarrow> bool" where
  "ready t st \<longleftrightarrow> tk_status t = Pending \<and>
     list_all (\<lambda>i. map_option tk_status (jm_get st i) = Some Completed) (tk_blockedBy t)"

definition commit :: "int \<Rightarrow> task \<Rightarrow> board \<Rightarrow> board" where
  "commit now t b = b\<lparr>bd_journal := snd (journal_append now (TaskEvent t) (bd_journal b))\<rparr>"

definition expect :: "(string, task) jmap \<Rightarrow> string \<Rightarrow> nat \<Rightarrow> board_error + task" where
  "expect st i rv =
     (case jm_get st i of
        None \<Rightarrow> Inl (NotFound i)
      | Some t \<Rightarrow> if tk_revision t \<noteq> rv then Inl (StaleRevision i (tk_revision t) rv) else Inr t)"

record create_input =
  ci_subject :: string
  ci_prompt :: string
  ci_blockedBy :: "string list option"
  ci_intent :: "intent option"
  ci_checks :: "string list option"
  ci_minLevel :: "verifier_level option"
  ci_suite :: "string option"
  ci_budget :: "budget option"

text \<open>\<open>Number(id.replace('task-', ''))\<close> of an id in decimal digits.\<close>

definition task_number :: "string \<Rightarrow> nat option" where
  "task_number i =
     (let s = (if prefix ''task-'' i then drop 5 i else i) in
      if list_all is_digit s then Some (digits_val 0 s) else None)"

definition task_id :: "nat \<Rightarrow> string" where
  "task_id n = ''task-'' @ nat_str n"

text \<open>The loop over the folded ids: past every number in use.\<close>

definition bump_number :: "string list \<Rightarrow> nat \<Rightarrow> nat" where
  "bump_number ids n0 =
     foldl (\<lambda>n i. case task_number i of Some k \<Rightarrow> (if n \<le> k then k + 1 else n) | None \<Rightarrow> n) n0 ids"

definition new_task :: "nat \<Rightarrow> create_input \<Rightarrow> task" where
  "new_task n c =
     \<lparr>tk_id = task_id n, tk_revision = 0, tk_subject = ci_subject c, tk_prompt = ci_prompt c,
      tk_status = Pending, tk_owner = None, tk_blockedBy = or_else (ci_blockedBy c) [], tk_result = None,
      tk_lease = None, tk_intent = ci_intent c, tk_checks = ci_checks c, tk_minLevel = ci_minLevel c,
      tk_suite = ci_suite c, tk_budget = ci_budget c, tk_evidence = None\<rparr>"

definition create :: "int \<Rightarrow> create_input \<Rightarrow> board \<Rightarrow> board_result" where
  "create now c b =
     (let st = board_fold b in
      case find (\<lambda>k. \<not> jm_has st k) (or_else (ci_blockedBy c) []) of
        Some k \<Rightarrow> (Inl (UnknownBlocker k), b)
      | None \<Rightarrow>
          (let n = bump_number (jm_keys st) (bd_nextTaskNumber b);
               t = new_task n c in
           (Inr t, commit now t (b\<lparr>bd_nextTaskNumber := n + 1\<rparr>))))"

definition claimed_by :: "string \<Rightarrow> string \<Rightarrow> task \<Rightarrow> task" where
  "claimed_by owner lease t =
     t\<lparr>tk_revision := tk_revision t + 1, tk_status := InProgress, tk_owner := Some owner, tk_lease := Some lease\<rparr>"

definition claim :: "int \<Rightarrow> string \<Rightarrow> string \<Rightarrow> nat \<Rightarrow> board \<Rightarrow> board_result" where
  "claim now i owner rv b =
     (let st = board_fold b in
      case expect st i rv of
        Inl e \<Rightarrow> (Inl e, b)
      | Inr t \<Rightarrow>
          if \<not> ready t st then (Inl (NotReady i), b)
          else (let t' = claimed_by owner (sj_incarnation (bd_journal b)) t in (Inr t', commit now t' b)))"

text \<open>Evidence a gated board takes at all: passing, and a waiver names who gave it.\<close>

definition accepted_evidence :: "task_evidence option \<Rightarrow> bool" where
  "accepted_evidence ev \<longleftrightarrow>
     (case ev of None \<Rightarrow> False
      | Some e \<Rightarrow> ev_passed e \<and> \<not> (ev_kind e = KHuman \<and> (ev_by e = None \<or> ev_by e = Some [])))"

definition completed_with :: "string option \<Rightarrow> task_evidence option \<Rightarrow> task \<Rightarrow> task" where
  "completed_with result ev t =
     t\<lparr>tk_revision := tk_revision t + 1, tk_status := Completed, tk_lease := None,
       tk_result := or_opt result (tk_result t), tk_evidence := or_opt ev (tk_evidence t)\<rparr>"

definition complete ::
  "int \<Rightarrow> string \<Rightarrow> string \<Rightarrow> nat \<Rightarrow> string option \<Rightarrow> task_evidence option \<Rightarrow> board \<Rightarrow> board_result" where
  "complete now i owner rv result ev b =
     (case expect (board_fold b) i rv of
        Inl e \<Rightarrow> (Inl e, b)
      | Inr t \<Rightarrow>
          if tk_owner t \<noteq> Some owner then (Inl (WrongOwner i (tk_owner t)), b)
          else if bd_gated b \<and> \<not> accepted_evidence ev then (Inl (Unverified i), b)
          else
            (let minLevel = or_else (or_opt (tk_minLevel t) (bd_minLevel b)) L0;
                 level = (case ev of None \<Rightarrow> L0 | Some e \<Rightarrow> effectiveLevel e) in
             if bd_gated b \<and> map_option ev_kind ev \<noteq> Some KHuman \<and> level < minLevel
             then (Inl (BelowLevel i minLevel level), b)
             else (let t' = completed_with result ev t in (Inr t', commit now t' b))))"

definition released :: "task \<Rightarrow> task" where
  "released t = t\<lparr>tk_revision := tk_revision t + 1, tk_status := Pending, tk_owner := None, tk_lease := None\<rparr>"

definition release :: "int \<Rightarrow> string \<Rightarrow> string \<Rightarrow> nat \<Rightarrow> board \<Rightarrow> board_result" where
  "release now i owner rv b =
     (case expect (board_fold b) i rv of
        Inl e \<Rightarrow> (Inl e, b)
      | Inr t \<Rightarrow>
          if tk_owner t \<noteq> Some owner then (Inl (WrongOwner i (tk_owner t)), b)
          else (let t' = released t in (Inr t', commit now t' b)))"

text \<open>The orphan loop iterates the fold taken before it and appends as it goes.\<close>

fun release_each :: "int \<Rightarrow> task list \<Rightarrow> board \<Rightarrow> task list \<times> board" where
  "release_each now [] b = ([], b)"
| "release_each now (t # ts) b =
     (if tk_status t \<noteq> InProgress \<or> tk_lease t = Some (sj_incarnation (bd_journal b)) then release_each now ts b
      else (let t' = released t; (rs, b') = release_each now ts (commit now t' b) in (t' # rs, b')))"

definition releaseOrphans :: "int \<Rightarrow> board \<Rightarrow> task list \<times> board" where
  "releaseOrphans now b = release_each now (board_list b) b"

definition claimNextReady :: "int \<Rightarrow> string \<Rightarrow> (task \<Rightarrow> bool) \<Rightarrow> board \<Rightarrow> task option \<times> board" where
  "claimNextReady now owner skip b =
     (let st = board_fold b in
      case find (\<lambda>t. ready t st \<and> \<not> skip t) (jm_vals st) of
        None \<Rightarrow> (None, b)
      | Some t \<Rightarrow> (let t' = claimed_by owner (sj_incarnation (bd_journal b)) t in (Some t', commit now t' b)))"

definition recordGate :: "int \<Rightarrow> gate_event \<Rightarrow> board \<Rightarrow> board" where
  "recordGate now e b = b\<lparr>bd_journal := snd (journal_append now (GateEvent e) (bd_journal b))\<rparr>"

definition recordTamper :: "int \<Rightarrow> tamper_event \<Rightarrow> board \<Rightarrow> board" where
  "recordTamper now e b = b\<lparr>bd_journal := snd (journal_append now (TamperEvent e) (bd_journal b))\<rparr>"

definition recordAbandoned :: "int \<Rightarrow> string \<Rightarrow> string \<Rightarrow> board \<Rightarrow> board" where
  "recordAbandoned now i why b = b\<lparr>bd_journal := snd (journal_append now (AbandonedEvent i why) (bd_journal b))\<rparr>"

section \<open>Equations of the folded board\<close>

lemma payloads_commit [simp]: "payloads (bd_journal (commit now t b)) = payloads (bd_journal b) @ [TaskEvent t]"
  by (simp add: commit_def)

lemma board_fold_commit [simp]: "board_fold (commit now t b) = jm_set (tk_id t) t (board_fold b)"
  by (simp add: board_fold_def tasks.folded_snapshot task_of_def)

lemma board_fold_number [simp]: "board_fold (b\<lparr>bd_nextTaskNumber := n\<rparr>) = board_fold b"
  by (simp add: board_fold_def)

lemma board_fold_record [simp]:
  "board_fold (recordGate now e b) = board_fold b"
  "board_fold (recordTamper now te b) = board_fold b"
  "board_fold (recordAbandoned now i why b) = board_fold b"
  by (simp_all add: board_fold_def recordGate_def recordTamper_def recordAbandoned_def tasks.folded_other task_of_def)

lemma commit_fields [simp]:
  "bd_gated (commit now t b) = bd_gated b"
  "bd_minLevel (commit now t b) = bd_minLevel b"
  "bd_nextTaskNumber (commit now t b) = bd_nextTaskNumber b"
  "sj_incarnation (bd_journal (commit now t b)) = sj_incarnation (bd_journal b)"
  by (simp_all add: commit_def)

lemma record_fields [simp]:
  "bd_gated (recordGate now e b) = bd_gated b" "bd_minLevel (recordGate now e b) = bd_minLevel b"
  "bd_gated (recordTamper now te b) = bd_gated b" "bd_minLevel (recordTamper now te b) = bd_minLevel b"
  "bd_gated (recordAbandoned now i why b) = bd_gated b" "bd_minLevel (recordAbandoned now i why b) = bd_minLevel b"
  by (simp_all add: recordGate_def recordTamper_def recordAbandoned_def)

lemma board_fold_wf [simp]: "jm_wf (board_fold b)"
  by (simp add: board_fold_def)

lemma board_fold_keyed [simp]: "jm_keyed tk_id (board_fold b)"
  unfolding board_fold_def by (rule tasks.folded_keyed) (auto simp: task_of_def split: swarm_event.splits)

lemma board_get_id: "jm_get (board_fold b) i = Some t \<Longrightarrow> tk_id t = i"
  by (rule jm_keyed_get [OF board_fold_keyed])

lemma board_list_iff: "t \<in> set (board_list b) \<longleftrightarrow> jm_get (board_fold b) (tk_id t) = Some t"
  by (simp add: board_list_def jm_keyed_mem)

lemma find_task_get:
  "find P (jm_vals (board_fold b)) = Some t \<Longrightarrow> jm_get (board_fold b) (tk_id t) = Some t \<and> P t"
  by (metis board_fold_keyed board_fold_wf find_Some_iff jm_keyed_mem nth_mem)

lemma expect_Inr: "expect st i rv = Inr t \<longleftrightarrow> jm_get st i = Some t \<and> tk_revision t = rv"
  by (auto simp: expect_def split: option.splits if_splits)

section \<open>One mutation, one snapshot\<close>

text \<open>
  How a board may change: not at all in its folded state, one task created under a new id, or
  one task replaced by its next revision.
\<close>

datatype change = Same | Created task | Next task task

fun changed_by :: "board \<Rightarrow> change \<Rightarrow> board \<Rightarrow> bool" where
  "changed_by b Same b' = (board_fold b' = board_fold b)"
| "changed_by b (Created t) b' =
     (\<not> jm_has (board_fold b) (tk_id t) \<and> board_fold b' = jm_set (tk_id t) t (board_fold b))"
| "changed_by b (Next t t') b' =
     (jm_get (board_fold b) (tk_id t) = Some t \<and> tk_id t' = tk_id t \<and> tk_revision t' = Suc (tk_revision t) \<and>
      tk_blockedBy t' = tk_blockedBy t \<and> tk_minLevel t' = tk_minLevel t \<and>
      board_fold b' = jm_set (tk_id t) t' (board_fold b))"

lemma claimed_by_fields [simp]:
  "tk_id (claimed_by o' l t) = tk_id t" "tk_revision (claimed_by o' l t) = Suc (tk_revision t)"
  "tk_status (claimed_by o' l t) = InProgress" "tk_owner (claimed_by o' l t) = Some o'"
  "tk_lease (claimed_by o' l t) = Some l" "tk_blockedBy (claimed_by o' l t) = tk_blockedBy t"
  "tk_minLevel (claimed_by o' l t) = tk_minLevel t" "tk_evidence (claimed_by o' l t) = tk_evidence t"
  by (simp_all add: claimed_by_def)

lemma completed_with_fields [simp]:
  "tk_id (completed_with r e t) = tk_id t" "tk_revision (completed_with r e t) = Suc (tk_revision t)"
  "tk_status (completed_with r e t) = Completed" "tk_owner (completed_with r e t) = tk_owner t"
  "tk_lease (completed_with r e t) = None" "tk_blockedBy (completed_with r e t) = tk_blockedBy t"
  "tk_minLevel (completed_with r e t) = tk_minLevel t"
  "tk_evidence (completed_with r e t) = or_opt e (tk_evidence t)"
  by (simp_all add: completed_with_def)

lemma released_fields [simp]:
  "tk_id (released t) = tk_id t" "tk_revision (released t) = Suc (tk_revision t)"
  "tk_status (released t) = Pending" "tk_owner (released t) = None" "tk_lease (released t) = None"
  "tk_blockedBy (released t) = tk_blockedBy t" "tk_minLevel (released t) = tk_minLevel t"
  "tk_evidence (released t) = tk_evidence t"
  by (simp_all add: released_def)

lemma claim_cases:
  assumes c: "claim now i owner rv b = (r, b')"
  obtains e where "r = Inl e" "b' = b"
  | t where "jm_get (board_fold b) i = Some t" "tk_revision t = rv" "ready t (board_fold b)"
      "r = Inr (claimed_by owner (sj_incarnation (bd_journal b)) t)"
      "b' = commit now (claimed_by owner (sj_incarnation (bd_journal b)) t) b"
proof (cases "expect (board_fold b) i rv")
  case (Inl e)
  with c have "r = Inl e" "b' = b" by (simp_all add: claim_def)
  then show ?thesis by (rule that(1))
next
  case (Inr t)
  show ?thesis
  proof (cases "ready t (board_fold b)")
    case True
    with c Inr have "r = Inr (claimed_by owner (sj_incarnation (bd_journal b)) t)"
      "b' = commit now (claimed_by owner (sj_incarnation (bd_journal b)) t) b"
      by (simp_all add: claim_def Let_def)
    with Inr True show ?thesis by (intro that(2)) (simp_all add: expect_Inr)
  next
    case False
    with c Inr have "r = Inl (NotReady i)" "b' = b" by (simp_all add: claim_def Let_def)
    then show ?thesis by (rule that(1))
  qed
qed

lemma release_cases:
  assumes c: "release now i owner rv b = (r, b')"
  obtains e where "r = Inl e" "b' = b"
  | t where "jm_get (board_fold b) i = Some t" "tk_revision t = rv" "tk_owner t = Some owner"
      "r = Inr (released t)" "b' = commit now (released t) b"
proof (cases "expect (board_fold b) i rv")
  case (Inl e)
  with c have "r = Inl e" "b' = b" by (simp_all add: release_def)
  then show ?thesis by (rule that(1))
next
  case (Inr t)
  show ?thesis
  proof (cases "tk_owner t = Some owner")
    case True
    with c Inr have "r = Inr (released t)" "b' = commit now (released t) b"
      by (simp_all add: release_def Let_def)
    with Inr True show ?thesis by (intro that(2)) (simp_all add: expect_Inr)
  next
    case False
    with c Inr have "r = Inl (WrongOwner i (tk_owner t))" "b' = b" by (simp_all add: release_def Let_def)
    then show ?thesis by (rule that(1))
  qed
qed

text \<open>What \<open>complete\<close> asks of the evidence on a gated board.\<close>

definition evidence_suffices :: "verifier_level option \<Rightarrow> task \<Rightarrow> task_evidence option \<Rightarrow> bool" where
  "evidence_suffices lvl t ev \<longleftrightarrow> accepted_evidence ev \<and>
     (map_option ev_kind ev = Some KHuman \<or>
      or_else (or_opt (tk_minLevel t) lvl) L0 \<le> (case ev of None \<Rightarrow> L0 | Some e \<Rightarrow> effectiveLevel e))"

lemma complete_Inr:
  assumes "expect (board_fold b) i rv = Inr t" "tk_owner t = Some owner"
  shows "complete now i owner rv res ev b =
    (if bd_gated b \<and> \<not> evidence_suffices (bd_minLevel b) t ev
     then (Inl (if accepted_evidence ev
                then BelowLevel i (or_else (or_opt (tk_minLevel t) (bd_minLevel b)) L0)
                       (case ev of None \<Rightarrow> L0 | Some e \<Rightarrow> effectiveLevel e)
                else Unverified i), b)
     else (Inr (completed_with res ev t), commit now (completed_with res ev t) b))"
  using assms by (cases ev) (auto simp: complete_def Let_def evidence_suffices_def not_le [symmetric])

lemma complete_cases:
  assumes c: "complete now i owner rv res ev b = (r, b')"
  obtains e where "r = Inl e" "b' = b"
  | t where "jm_get (board_fold b) i = Some t" "tk_revision t = rv" "tk_owner t = Some owner"
      "bd_gated b \<longrightarrow> evidence_suffices (bd_minLevel b) t ev"
      "r = Inr (completed_with res ev t)" "b' = commit now (completed_with res ev t) b"
proof (cases "expect (board_fold b) i rv")
  case (Inl e)
  with c have "r = Inl e" "b' = b" by (simp_all add: complete_def)
  then show ?thesis by (rule that(1))
next
  case (Inr t)
  show ?thesis
  proof (cases "tk_owner t = Some owner")
    case owner: True
    show ?thesis
    proof (cases "bd_gated b \<and> \<not> evidence_suffices (bd_minLevel b) t ev")
      case True
      then show ?thesis using c complete_Inr [OF Inr owner] by (intro that(1)) auto
    next
      case False
      then have "r = Inr (completed_with res ev t)" "b' = commit now (completed_with res ev t) b"
        using c complete_Inr [OF Inr owner, of now res ev] by (simp_all split: if_splits)
      with Inr owner False show ?thesis by (intro that(2)) (auto simp add: expect_Inr)
    qed
  next
    case False
    with c Inr have "r = Inl (WrongOwner i (tk_owner t))" "b' = b" by (simp_all add: complete_def Let_def)
    then show ?thesis by (rule that(1))
  qed
qed

lemma claimNextReady_cases:
  assumes c: "claimNextReady now owner skip b = (r, b')"
  obtains "r = None" "b' = b" "find (\<lambda>t. ready t (board_fold b) \<and> \<not> skip t) (board_list b) = None"
  | t where "jm_get (board_fold b) (tk_id t) = Some t" "ready t (board_fold b)" "\<not> skip t"
      "r = Some (claimed_by owner (sj_incarnation (bd_journal b)) t)"
      "b' = commit now (claimed_by owner (sj_incarnation (bd_journal b)) t) b"
proof (cases "find (\<lambda>t. ready t (board_fold b) \<and> \<not> skip t) (board_list b)")
  case None
  with c have "r = None" "b' = b" by (simp_all add: claimNextReady_def Let_def board_list_def)
  with None show ?thesis by (intro that(1))
next
  case (Some t)
  with c have "r = Some (claimed_by owner (sj_incarnation (bd_journal b)) t)"
      "b' = commit now (claimed_by owner (sj_incarnation (bd_journal b)) t) b"
    by (simp_all add: claimNextReady_def Let_def board_list_def)
  with Some show ?thesis by (intro that(2)) (auto simp: board_list_def dest: find_task_get)
qed

section \<open>Fresh ids\<close>

lemma task_number_id [simp]: "task_number (task_id n) = Some n"
  by (simp add: task_number_def task_id_def nat_str_digits digits_val_nat_str)

lemma bump_number_ge: "n0 \<le> bump_number ids n0"
  unfolding bump_number_def
proof (induction ids arbitrary: n0)
  case Nil
  then show ?case by simp
next
  case (Cons i ids)
  let ?n = "case task_number i of Some k \<Rightarrow> (if n0 \<le> k then k + 1 else n0) | None \<Rightarrow> n0"
  have "n0 \<le> ?n" by (auto split: option.splits)
  also have "?n \<le> foldl (\<lambda>n i. case task_number i of Some k \<Rightarrow> (if n \<le> k then k + 1 else n) | None \<Rightarrow> n) ?n ids"
    by (rule Cons.IH)
  finally show ?case by simp
qed

lemma bump_number_fresh: "i \<in> set ids \<Longrightarrow> task_number i = Some k \<Longrightarrow> k < bump_number ids n0"
proof (induction ids arbitrary: n0)
  case Nil
  then show ?case by simp
next
  case (Cons j ids)
  show ?case
  proof (cases "i = j")
    case True
    have "(if n0 \<le> k then k + 1 else n0) \<le> bump_number ids (if n0 \<le> k then k + 1 else n0)"
      by (rule bump_number_ge)
    with True Cons.prems show ?thesis by (auto simp: bump_number_def split: if_splits)
  next
    case False
    with Cons show ?thesis by (simp add: bump_number_def)
  qed
qed

lemma bump_number_new: "task_id (bump_number ids n0) \<notin> set ids"
  using bump_number_fresh [of "task_id (bump_number ids n0)" ids] by fastforce

lemma find_None_blockers: "find (\<lambda>k. \<not> jm_has st k) ks = None \<longleftrightarrow> (\<forall>k \<in> set ks. jm_has st k)"
  by (auto simp: find_None_iff)

lemma new_task_fields [simp]:
  "tk_id (new_task n c) = task_id n" "tk_revision (new_task n c) = 0" "tk_status (new_task n c) = Pending"
  "tk_owner (new_task n c) = None" "tk_lease (new_task n c) = None" "tk_evidence (new_task n c) = None"
  "tk_blockedBy (new_task n c) = or_else (ci_blockedBy c) []"
  by (simp_all add: new_task_def)

lemma create_cases:
  assumes "create now c b = (r, b')"
  obtains k where "r = Inl (UnknownBlocker k)" "b' = b"
  | n where "r = Inr (new_task n c)" "\<not> jm_has (board_fold b) (task_id n)"
      "\<forall>k \<in> set (or_else (ci_blockedBy c) []). jm_has (board_fold b) k"
      "board_fold b' = jm_set (task_id n) (new_task n c) (board_fold b)"
      "bd_gated b' = bd_gated b" "bd_minLevel b' = bd_minLevel b"
proof (cases "find (\<lambda>k. \<not> jm_has (board_fold b) k) (or_else (ci_blockedBy c) [])")
  case (Some k)
  with assms have "r = Inl (UnknownBlocker k)" "b' = b" by (simp_all add: create_def Let_def)
  then show ?thesis by (rule that(1))
next
  case None
  let ?n = "bump_number (jm_keys (board_fold b)) (bd_nextTaskNumber b)"
  have "\<not> jm_has (board_fold b) (task_id ?n)"
    by (simp add: jm_has_get jm_get_None_iff bump_number_new)
  moreover from None assms have "r = Inr (new_task ?n c)"
    "b' = commit now (new_task ?n c) (b\<lparr>bd_nextTaskNumber := ?n + 1\<rparr>)"
    by (simp_all add: create_def Let_def)
  moreover from None have "\<forall>k \<in> set (or_else (ci_blockedBy c) []). jm_has (board_fold b) k"
    by (simp add: find_None_blockers)
  ultimately show ?thesis by (intro that(2)) simp_all
qed


end
