(* ===== verification/BoardSafety.thy ===== *)
theory BoardSafety
  imports Board
begin

text \<open>
  The board as a state machine: any interleaving of its serialized operations, by any
  caller with any arguments, errors included, and re-opening its journal under a new
  incarnation. The invariants hold in every reachable state, and stale writers lose.
\<close>

section \<open>The machine\<close>

inductive board_step :: "board \<Rightarrow> board \<Rightarrow> bool" where
  step_create: "board_step b (snd (create now c b))"
| step_claim: "board_step b (snd (claim now i owner rv b))"
| step_claimNext: "board_step b (snd (claimNextReady now owner skip b))"
| step_complete: "board_step b (snd (complete now i owner rv res ev b))"
| step_release: "board_step b (snd (release now i owner rv b))"
| step_orphans: "board_step b (snd (releaseOrphans now b))"
| step_gate: "board_step b (recordGate now ge b)"
| step_tamper: "board_step b (recordTamper now te b)"
| step_abandoned: "board_step b (recordAbandoned now i why b)"
| step_reopen: "board_step b (board_open (journal_new inc (sj_events (bd_journal b))) (bd_gated b) (bd_minLevel b))"

definition board_start :: "bool \<Rightarrow> verifier_level option \<Rightarrow> board \<Rightarrow> bool" where
  "board_start g l b \<longleftrightarrow> (\<exists>inc. b = board_open (journal_new inc []) g l)"

abbreviation board_reachable :: "bool \<Rightarrow> verifier_level option \<Rightarrow> board \<Rightarrow> bool" where
  "board_reachable g l \<equiv> reachable (board_start g l) board_step"

text \<open>
  One atomic change of the folded board and what it does; \<open>releaseOrphans\<close> is a sequence
  of them.
\<close>

definition task_wf :: "task \<Rightarrow> bool" where
  "task_wf t \<longleftrightarrow>
     (case tk_status t of
        Pending \<Rightarrow> tk_owner t = None \<and> tk_lease t = None
      | InProgress \<Rightarrow> tk_owner t \<noteq> None \<and> tk_lease t \<noteq> None
      | Completed \<Rightarrow> tk_owner t \<noteq> None \<and> tk_lease t = None)"

text \<open>What closed a completed task of a gated board.\<close>

definition closed_ok :: "verifier_level option \<Rightarrow> task \<Rightarrow> bool" where
  "closed_ok l t \<longleftrightarrow>
     (case tk_evidence t of
        None \<Rightarrow> False
      | Some e \<Rightarrow> ev_passed e \<and>
          (if ev_kind e = KHuman then ev_by e \<noteq> None \<and> ev_by e \<noteq> Some []
           else or_else (or_opt (tk_minLevel t) l) L0 \<le> effectiveLevel e))"

definition blockers_precede :: "(string, task) jmap \<Rightarrow> bool" where
  "blockers_precede m \<longleftrightarrow>
     (\<forall>pre i t post. m = pre @ (i, t) # post \<longrightarrow> set (tk_blockedBy t) \<subseteq> set (map fst pre))"

inductive atomic_change :: "bool \<Rightarrow> verifier_level option \<Rightarrow> (string, task) jmap \<Rightarrow> (string, task) jmap \<Rightarrow> bool"
  for g :: bool and l :: "verifier_level option" where
  ch_create: "i \<notin> set (jm_keys m) \<Longrightarrow> tk_id t = i \<Longrightarrow> tk_revision t = 0 \<Longrightarrow> tk_status t = Pending \<Longrightarrow>
     task_wf t \<Longrightarrow> set (tk_blockedBy t) \<subseteq> set (jm_keys m) \<Longrightarrow> atomic_change g l m (m @ [(i, t)])"
| ch_next: "jm_get m i = Some t \<Longrightarrow> tk_id t' = i \<Longrightarrow> tk_revision t' = Suc (tk_revision t) \<Longrightarrow>
     tk_blockedBy t' = tk_blockedBy t \<Longrightarrow> (task_wf t \<Longrightarrow> task_wf t') \<Longrightarrow>
     (g \<Longrightarrow> tk_status t' = Completed \<Longrightarrow> closed_ok l t') \<Longrightarrow>
     atomic_change g l m (jm_set i t' m)"

inductive_cases atomic_changeE: "atomic_change g l m m'"

text \<open>The fold never shows more than the journal: opening again folds to the same board.\<close>

lemma board_fold_reopen [simp]:
  "board_fold (board_open (journal_new inc (sj_events (bd_journal b))) g l) = board_fold b"
  by (simp add: board_fold_def board_open_def journal_new_def payloads_def)

lemma board_open_fields [simp]:
  "bd_gated (board_open j g l) = g" "bd_minLevel (board_open j g l) = l" "bd_journal (board_open j g l) = j"
  by (simp_all add: board_open_def)

lemma ready_pending: "ready t st \<Longrightarrow> tk_status t = Pending"
  by (simp add: ready_def)

lemma change_claimed:
  assumes "jm_get m (tk_id t) = Some t" "ready t m"
  shows "atomic_change g l m (jm_set (tk_id t) (claimed_by owner lease t) m)"
  using assms by (intro ch_next) (auto simp: task_wf_def)

lemma change_completed:
  assumes "jm_get m (tk_id t) = Some t" "tk_owner t = Some owner" "g \<longrightarrow> evidence_suffices l t ev"
  shows "atomic_change g l m (jm_set (tk_id t) (completed_with res ev t) m)"
  using assms
  by (intro ch_next)
    (auto simp: task_wf_def closed_ok_def evidence_suffices_def accepted_evidence_def split: option.splits)

lemma change_released:
  assumes "jm_get m (tk_id t) = Some t"
  shows "atomic_change g l m (jm_set (tk_id t) (released t) m)"
  using assms by (intro ch_next) (auto simp: task_wf_def)

text \<open>The options of a board never change, and each operation is a sequence of atomic changes.\<close>

definition evolves :: "board \<Rightarrow> board \<Rightarrow> bool" where
  "evolves b b' \<longleftrightarrow> bd_gated b' = bd_gated b \<and> bd_minLevel b' = bd_minLevel b \<and>
     (atomic_change (bd_gated b) (bd_minLevel b))\<^sup>*\<^sup>* (board_fold b) (board_fold b')"

lemma evolves_refl [simp]: "evolves b b"
  by (simp add: evolves_def)

lemma evolves_commit:
  assumes "atomic_change (bd_gated b) (bd_minLevel b) (board_fold b) (jm_set (tk_id t) t (board_fold b))"
  shows "evolves b (commit now t b)"
  using assms by (simp add: evolves_def)

lemma evolves_trans: "evolves a b \<Longrightarrow> evolves b c \<Longrightarrow> evolves a c"
  by (auto simp: evolves_def)

lemma evolves_create: "evolves b (snd (create now c b))"
proof -
  obtain r b' where c: "create now c b = (r, b')" by force
  then show ?thesis
  proof (cases rule: create_cases)
    case (1 k)
    with c show ?thesis by simp
  next
    case (2 n)
    from 2(2) have new: "task_id n \<notin> set (jm_keys (board_fold b))"
      by (simp add: jm_has_get jm_get_None_iff)
    have "atomic_change (bd_gated b) (bd_minLevel b) (board_fold b) (board_fold b @ [(task_id n, new_task n c)])"
      using new 2(3) by (intro ch_create) (auto simp: task_wf_def jm_has_get jm_get_None_iff)
    with c 2 new show ?thesis by (auto simp: evolves_def jm_set_snoc)
  qed
qed

lemma evolves_claim: "evolves b (snd (claim now i owner rv b))"
proof -
  obtain r b' where c: "claim now i owner rv b = (r, b')" by force
  then show ?thesis
  proof (cases rule: claim_cases)
    case (1 e)
    with c show ?thesis by simp
  next
    case (2 t)
    then have "tk_id t = i" by (simp add: board_get_id)
    with c 2 show ?thesis by (auto intro!: evolves_commit change_claimed)
  qed
qed

lemma evolves_claimNext: "evolves b (snd (claimNextReady now owner skip b))"
proof -
  obtain r b' where c: "claimNextReady now owner skip b = (r, b')" by force
  then show ?thesis
  proof (cases rule: claimNextReady_cases)
    case 1
    with c show ?thesis by simp
  next
    case (2 t)
    with c show ?thesis by (auto intro!: evolves_commit change_claimed)
  qed
qed

lemma evolves_complete: "evolves b (snd (complete now i owner rv res ev b))"
proof -
  obtain r b' where c: "complete now i owner rv res ev b = (r, b')" by force
  then show ?thesis
  proof (cases rule: complete_cases)
    case (1 e)
    with c show ?thesis by simp
  next
    case (2 t)
    then have "tk_id t = i" by (simp add: board_get_id)
    with c 2 show ?thesis by (auto intro!: evolves_commit change_completed)
  qed
qed

lemma evolves_release: "evolves b (snd (release now i owner rv b))"
proof -
  obtain r b' where c: "release now i owner rv b = (r, b')" by force
  then show ?thesis
  proof (cases rule: release_cases)
    case (1 e)
    with c show ?thesis by simp
  next
    case (2 t)
    then have "tk_id t = i" by (simp add: board_get_id)
    with c 2 show ?thesis by (auto intro!: evolves_commit change_released)
  qed
qed

text \<open>The orphan loop: the snapshots it iterates stay current until their own turn.\<close>

lemma release_each_evolves:
  assumes "distinct (map tk_id ts)" and "\<forall>t \<in> set ts. jm_get (board_fold b) (tk_id t) = Some t"
  shows "evolves b (snd (release_each now ts b))"
  using assms
proof (induction ts arbitrary: b)
  case Nil
  then show ?case by simp
next
  case (Cons t ts)
  show ?case
  proof (cases "tk_status t \<noteq> InProgress \<or> tk_lease t = Some (sj_incarnation (bd_journal b))")
    case True
    with Cons show ?thesis by simp
  next
    case False
    let ?b = "commit now (released t) b"
    have "evolves b ?b"
      using Cons.prems(2) by (intro evolves_commit) (simp add: change_released)
    moreover have "evolves ?b (snd (release_each now ts ?b))"
      using Cons.prems by (intro Cons.IH) (auto simp: image_iff)
    ultimately show ?thesis using False by (auto simp: Let_def split: prod.splits intro: evolves_trans)
  qed
qed

lemma board_list_distinct: "distinct (map tk_id (board_list b))"
  using board_fold_wf [of b] by (simp add: board_list_def jm_keyed_vals jm_wf_def jm_keys_def)

lemma evolves_orphans: "evolves b (snd (releaseOrphans now b))"
  unfolding releaseOrphans_def
  by (rule release_each_evolves) (simp_all add: board_list_distinct board_list_iff)

lemma board_step_evolves: "board_step b b' \<Longrightarrow> evolves b b'"
  by (induction rule: board_step.induct)
    (simp_all only: evolves_create evolves_claim evolves_claimNext evolves_complete evolves_release evolves_orphans,
     simp_all add: evolves_def)

section \<open>The invariant\<close>

definition fold_inv :: "bool \<Rightarrow> verifier_level option \<Rightarrow> (string, task) jmap \<Rightarrow> bool" where
  "fold_inv g l m \<longleftrightarrow> jm_wf m \<and> blockers_precede m \<and>
     (\<forall>(i, t) \<in> set m. tk_id t = i \<and> task_wf t \<and> (g \<longrightarrow> tk_status t = Completed \<longrightarrow> closed_ok l t))"

lemma blockers_precede_snoc:
  assumes "blockers_precede m" "set (tk_blockedBy t) \<subseteq> set (jm_keys m)"
  shows "blockers_precede (m @ [(i, t)])"
  unfolding blockers_precede_def
proof (intro allI impI)
  fix pre j u post
  assume eq: "m @ [(i, t)] = pre @ (j, u) # post"
  show "set (tk_blockedBy u) \<subseteq> set (map fst pre)"
  proof (cases post rule: rev_cases)
    case Nil
    with eq assms(2) show ?thesis by (auto simp: jm_keys_def)
  next
    case (snoc q x)
    with eq have "m = pre @ (j, u) # q" by simp
    with assms(1) show ?thesis by (simp add: blockers_precede_def)
  qed
qed

lemma jm_set_split:
  assumes "jm_get m i = Some t"
  obtains p q where "m = p @ (i, t) # q" "\<And>v. jm_set i v m = p @ (i, v) # q" "i \<notin> set (map fst p)"
  using assms
proof (induction m arbitrary: thesis)
  case Nil
  then show ?case by simp
next
  case (Cons x m)
  obtain j u where x: "x = (j, u)" by force
  show ?case
  proof (cases "j = i")
    case True
    with Cons.prems(2) x show ?thesis
      by (intro Cons.prems(1) [of "[]" m]) (auto simp: jm_get_def jm_set_def)
  next
    case False
    with Cons.prems(2) x have "jm_get m i = Some t" by (simp add: jm_get_def)
    then obtain p q where "m = p @ (i, t) # q" "\<And>v. jm_set i v m = p @ (i, v) # q" "i \<notin> set (map fst p)"
      using Cons.IH by blast
    with False x show ?thesis by (intro Cons.prems(1) [of "x # p" q]) (auto simp: jm_set_def)
  qed
qed

lemma blockers_precede_next:
  assumes m: "blockers_precede m" and get: "jm_get m i = Some t" and bl: "tk_blockedBy t' = tk_blockedBy t"
  shows "blockers_precede (jm_set i t' m)"
proof -
  from get obtain p q where s: "m = p @ (i, t) # q" "jm_set i t' m = p @ (i, t') # q"
    by (metis jm_set_split)
  show ?thesis
    unfolding blockers_precede_def
  proof (intro allI impI)
    fix pre j u post
    assume eq: "jm_set i t' m = pre @ (j, u) # post"
    with s(2) have "p @ (i, t') # q = pre @ (j, u) # post" by simp
    then consider us where "p = pre @ (j, u) # us"
      | "p = pre" "j = i" "u = t'"
      | us where "pre = p @ (i, t') # us" "q = us @ (j, u) # post"
      by (auto simp: append_eq_append_conv2 Cons_eq_append_conv append_eq_Cons_conv)
    then show "set (tk_blockedBy u) \<subseteq> set (map fst pre)"
    proof cases
      case 1
      then have "m = pre @ (j, u) # us @ (i, t) # q" using s(1) by simp
      with m show ?thesis unfolding blockers_precede_def by blast
    next
      case 2
      with m s(1) bl show ?thesis unfolding blockers_precede_def by metis
    next
      case 3
      with s(1) have "m = (p @ (i, t) # us) @ (j, u) # post" by simp
      with m have "set (tk_blockedBy u) \<subseteq> set (map fst (p @ (i, t) # us))"
        unfolding blockers_precede_def by blast
      with 3 show ?thesis by simp
    qed
  qed
qed

lemma atomic_change_inv: "atomic_change g l m m' \<Longrightarrow> fold_inv g l m \<Longrightarrow> fold_inv g l m'"
proof (induction rule: atomic_change.induct)
  case (ch_create i m t)
  then show ?case
    by (auto simp: fold_inv_def blockers_precede_snoc jm_wf_def jm_keys_def)
next
  case (ch_next m i t t')
  from ch_next.prems have wf: "jm_wf m" by (simp add: fold_inv_def)
  with ch_next.hyps(1) have "(i, t) \<in> set m" by (simp add: jm_get_Some_iff)
  with ch_next.prems have "task_wf t" by (auto simp: fold_inv_def)
  with ch_next wf show ?case
    by (auto simp: fold_inv_def blockers_precede_next jm_set_mem split: if_splits)
qed

lemma atomic_changes_inv: "(atomic_change g l)\<^sup>*\<^sup>* m m' \<Longrightarrow> fold_inv g l m \<Longrightarrow> fold_inv g l m'"
  by (induction rule: rtranclp_induct) (auto intro: atomic_change_inv)

text \<open>The invariant of a board with options \<open>g\<close> and \<open>l\<close>, and the revision of a task as a measure.\<close>

definition board_inv :: "bool \<Rightarrow> verifier_level option \<Rightarrow> board \<Rightarrow> bool" where
  "board_inv g l b \<longleftrightarrow> bd_gated b = g \<and> bd_minLevel b = l \<and> fold_inv g l (board_fold b)"

definition revision_of :: "string \<Rightarrow> (string, task) jmap \<Rightarrow> nat" where
  "revision_of i m = (case jm_get m i of None \<Rightarrow> 0 | Some t \<Rightarrow> Suc (tk_revision t))"

lemma atomic_change_revision: "atomic_change g l m m' \<Longrightarrow> revision_of i m \<le> revision_of i m'"
  by (induction rule: atomic_change.induct) (auto simp: revision_of_def jm_get_append split: option.splits)

lemma atomic_changes_revision: "(atomic_change g l)\<^sup>*\<^sup>* m m' \<Longrightarrow> revision_of i m \<le> revision_of i m'"
  by (induction rule: rtranclp_induct) (auto dest: atomic_change_revision [of _ _ _ _ i] order_trans)

interpretation boards: monotone_measure "board_start g l" board_step "board_inv g l" "\<lambda>i b. revision_of i (board_fold b)"
proof unfold_locales
  show "board_inv g l b" if "board_start g l b" for b
    using that
    by (auto simp: board_start_def board_inv_def fold_inv_def board_fold_def journal_new_def payloads_def
        tasks.folded_Nil blockers_precede_def)
  show "board_inv g l b'" if "board_inv g l b" "board_step b b'" for b b'
    using that board_step_evolves [OF that(2)] by (auto simp: board_inv_def evolves_def intro: atomic_changes_inv)
  show "revision_of i (board_fold b) \<le> revision_of i (board_fold b')" if "board_inv g l b" "board_step b b'" for i b b'
    using board_step_evolves [OF that(2)] by (auto simp: evolves_def intro: atomic_changes_revision)
qed

end
