(* ===== verification/BoardProperties.thy ===== *)
theory BoardProperties
  imports BoardSafety
begin

text \<open>
  What the shared board promises, over every reachable board: verified completion, exclusive
  revisions, well-formed ownership, progress, orphan recovery, fresh ids and replay.
\<close>

section \<open>Shared facts\<close>

lemma reachable_fold_inv: "board_reachable g l b \<Longrightarrow> fold_inv g l (board_fold b)"
  using boards.reachable_inv [of g l b] by (simp add: board_inv_def)

lemma reachable_options: "board_reachable g l b \<Longrightarrow> bd_gated b = g \<and> bd_minLevel b = l"
  using boards.reachable_inv [of g l b] by (simp add: board_inv_def)

lemma reachable_task:
  assumes "board_reachable g l b" "jm_get (board_fold b) i = Some t"
  shows "tk_id t = i" "task_wf t" "g \<Longrightarrow> tk_status t = Completed \<Longrightarrow> closed_ok l t"
  using reachable_fold_inv [OF assms(1)] jm_get_Some_mem [OF assms(2)]
  by (auto simp: fold_inv_def)

lemma stale_expect:
  assumes "jm_get m i = Some t" "tk_revision t \<noteq> rv"
  shows "expect m i rv = Inl (StaleRevision i (tk_revision t) rv)"
  using assms by (simp add: expect_def)

lemma claim_stale: "expect (board_fold b) i rv = Inl e \<Longrightarrow> claim now i owner rv b = (Inl e, b)"
  by (simp add: claim_def Let_def)

lemma release_stale: "expect (board_fold b) i rv = Inl e \<Longrightarrow> release now i owner rv b = (Inl e, b)"
  by (simp add: release_def)

lemma complete_stale: "expect (board_fold b) i rv = Inl e \<Longrightarrow> complete now i owner rv res ev b = (Inl e, b)"
  by (simp add: complete_def)

lemmas stale_ops = claim_stale release_stale complete_stale

text \<open>The example board of the witnesses: gated at L2, one task verified and one waiting on it.\<close>

definition demo_input :: "string \<Rightarrow> string list \<Rightarrow> create_input" where
  "demo_input s bl = \<lparr>ci_subject = s, ci_prompt = s, ci_blockedBy = Some bl, ci_intent = None, ci_checks = None,
     ci_minLevel = None, ci_suite = None, ci_budget = None\<rparr>"

definition demo_evidence :: task_evidence where
  "demo_evidence = no_evidence\<lparr>ev_passed := True, ev_level := Some L2, ev_round := Some 0\<rparr>"

definition demo_new :: board where
  "demo_new = board_open (journal_new ''p1'' []) True (Some L2)"

definition demo_one :: board where
  "demo_one = snd (create 1 (demo_input ''a'' []) demo_new)"

definition demo0 :: board where
  "demo0 = snd (create 2 (demo_input ''b'' [''task-0'']) demo_one)"

definition demo1 :: board where
  "demo1 = snd (claim 3 ''task-0'' ''ann'' 0 demo0)"

definition demo2 :: board where
  "demo2 = snd (complete 4 ''task-0'' ''ann'' 1 (Some ''done'') (Some demo_evidence) demo1)"

lemmas demo_defs = demo_input_def demo_evidence_def demo_new_def demo_one_def demo0_def demo1_def demo2_def

lemma demo_new_reachable: "board_reachable True (Some L2) demo_new"
  unfolding demo_new_def by (rule reach_start) (auto simp: board_start_def)

lemma demo_one_reachable: "board_reachable True (Some L2) demo_one"
  unfolding demo_one_def by (intro reach_step [OF demo_new_reachable] step_create)

lemma demo0_reachable: "board_reachable True (Some L2) demo0"
  unfolding demo0_def by (intro reach_step [OF demo_one_reachable] step_create)

lemma demo1_reachable: "board_reachable True (Some L2) demo1"
  unfolding demo1_def by (intro reach_step [OF demo0_reachable] step_claim)

lemma demo2_reachable: "board_reachable True (Some L2) demo2"
  unfolding demo2_def by (intro reach_step [OF demo1_reachable] step_complete)

section \<open>Verified completion\<close>

text \<open>C4: on a gated board, in every reachable state, a completed task was closed by passing evidence
  that is either a waiver naming who gave it or at least at the task's (else the board's) minimum level.\<close>

theorem gated_completion_evidence:
  assumes "board_reachable True l b" "jm_get (board_fold b) i = Some t" "tk_status t = Completed"
  shows "closed_ok l t"
  using reachable_task [OF assms(1,2)] assms(3) by simp

theorem gated_completion_evidence_witness:
  "closed_ok (Some L2) (the (jm_get (board_fold demo2) ''task-0''))"
proof -
  have "jm_get (board_fold demo2) ''task-0'' = Some (the (jm_get (board_fold demo2) ''task-0''))"
    "tk_status (the (jm_get (board_fold demo2) ''task-0'')) = Completed"
    by code_simp+
  then show ?thesis by (rule gated_completion_evidence [OF demo2_reachable])
qed

section \<open>Exclusive revisions\<close>

text \<open>C5: once a claim at a revision has succeeded, every later claim, completion or release that still
  carries that revision is refused as stale and changes nothing, whatever happened to the board in between.\<close>

theorem stale_writer_loses:
  assumes "board_reachable g l b" "claim now i owner rv b = (Inr t, b1)" "board_step\<^sup>*\<^sup>* b1 b2"
  shows "\<exists>r. rv < r \<and>
    claim now' i owner' rv b2 = (Inl (StaleRevision i r rv), b2) \<and>
    complete now' i owner' rv res ev b2 = (Inl (StaleRevision i r rv), b2) \<and>
    release now' i owner' rv b2 = (Inl (StaleRevision i r rv), b2)"
proof -
  from assms(2) have rv: "jm_get (board_fold b1) i = Some t" "tk_revision t = Suc rv"
    by (cases rule: claim_cases; auto simp: board_get_id)+
  have "board_step b b1"
    using step_claim [of b now i owner rv] assms(2) by simp
  with assms(1) have "board_inv g l b1"
    by (auto intro: boards.reachable_inv reach_step)
  with assms(3) have "revision_of i (board_fold b1) \<le> revision_of i (board_fold b2)"
    by (rule boards.run_rank)
  with rv obtain t2 where "jm_get (board_fold b2) i = Some t2" "rv < tk_revision t2"
    by (auto simp: revision_of_def split: option.splits)
  moreover from this have "expect (board_fold b2) i rv = Inl (StaleRevision i (tk_revision t2) rv)"
    by (intro stale_expect) auto
  ultimately show ?thesis by (intro exI [of _ "tk_revision t2"] conjI stale_ops)
qed

theorem stale_writer_loses_witness:
  "\<exists>r. 0 < r \<and> claim 9 ''task-0'' ''bob'' 0 demo2 = (Inl (StaleRevision ''task-0'' r 0), demo2)"
proof -
  have "claim 3 ''task-0'' ''ann'' 0 demo0 = (Inr (the (jm_get (board_fold demo1) ''task-0'')), demo1)"
    by code_simp
  moreover have "board_step\<^sup>*\<^sup>* demo1 demo2"
    unfolding demo2_def by (rule r_into_rtranclp) (rule step_complete)
  ultimately show ?thesis
    using stale_writer_loses [OF demo0_reachable] by blast
qed

section \<open>Ownership and leases\<close>

text \<open>C6: in every reachable state a task is stored under its own id; a pending task has neither owner nor
  lease, a task in progress has both, and a completed one keeps its owner and holds no lease.\<close>

theorem task_ownership:
  assumes "board_reachable g l b" "jm_get (board_fold b) i = Some t"
  shows "tk_id t = i \<and> task_wf t"
  using reachable_task [OF assms] by simp

theorem task_ownership_witness:
  "tk_id (the (jm_get (board_fold demo1) ''task-0'')) = ''task-0'' \<and>
   task_wf (the (jm_get (board_fold demo1) ''task-0''))"
proof (rule task_ownership [OF demo1_reachable])
  show "jm_get (board_fold demo1) ''task-0'' = Some (the (jm_get (board_fold demo1) ''task-0''))"
    by code_simp
qed

section \<open>Progress\<close>

lemma first_pending_ready:
  assumes inv: "fold_inv g l m" and idle: "\<forall>t \<in> set (jm_vals m). tk_status t \<noteq> InProgress"
    and left: "\<exists>t \<in> set (jm_vals m). tk_status t \<noteq> Completed"
  shows "\<exists>t \<in> set (jm_vals m). ready t m"
proof -
  from left obtain y where y: "y \<in> set m" "tk_status (snd y) \<noteq> Completed" by (auto simp: jm_vals_def)
  with idle have "tk_status (snd y) = Pending"
    by (cases "tk_status (snd y)") (auto simp: jm_vals_def)
  with y(1) have "\<exists>x \<in> set m. tk_status (snd x) = Pending" by blast
  then obtain pre x post where m: "m = pre @ x # post" and x: "tk_status (snd x) = Pending"
    and first: "\<forall>y \<in> set pre. tk_status (snd y) \<noteq> Pending"
    by (metis split_list_first_prop [where P = "\<lambda>x. tk_status (snd x) = Pending"])
  obtain i t where it: "x = (i, t)" by force
  from inv have wf: "jm_wf m" and bl: "set (tk_blockedBy t) \<subseteq> set (map fst pre)"
    using m it by (auto simp: fold_inv_def blockers_precede_def)
  have "map_option tk_status (jm_get m k) = Some Completed" if k: "k \<in> set (tk_blockedBy t)" for k
  proof -
    from bl k obtain u where u: "(k, u) \<in> set pre" by auto
    with m idle have "tk_status u \<noteq> InProgress" by (force simp: jm_vals_def)
    with first u have "tk_status u = Completed" by (metis snd_conv task_status.exhaust)
    moreover have "jm_get m k = Some u" using wf u m by (simp add: jm_get_Some_iff)
    ultimately show ?thesis by simp
  qed
  with x it have "ready t m" by (auto simp: ready_def list_all_iff)
  with m it show ?thesis by (auto simp: jm_vals_def)
qed

text \<open>C7: the board cannot deadlock. When no task is ready to be claimed in a reachable state, then either
  every task is completed or somebody still holds one.\<close>

theorem board_progress:
  assumes "board_reachable g l b" "fst (claimNextReady now owner (\<lambda>_. False) b) = None"
  shows "list_all (\<lambda>t. tk_status t = Completed) (board_list b) \<or>
    list_ex (\<lambda>t. tk_status t = InProgress) (board_list b)"
proof -
  have "find (\<lambda>t. ready t (board_fold b)) (board_list b) = None"
    using assms(2) by (auto simp: claimNextReady_def Let_def board_list_def split: option.splits)
  then have "\<not> (\<exists>t \<in> set (jm_vals (board_fold b)). ready t (board_fold b))"
    by (auto simp: find_None_iff board_list_def)
  with first_pending_ready [OF reachable_fold_inv [OF assms(1)]] show ?thesis
    by (auto simp: list_all_iff list_ex_iff board_list_def)
qed

theorem board_progress_witness:
  "list_all (\<lambda>t. tk_status t = Completed) (board_list demo1) \<or>
   list_ex (\<lambda>t. tk_status t = InProgress) (board_list demo1)"
proof (rule board_progress [OF demo1_reachable])
  show "fst (claimNextReady 9 ''bob'' (\<lambda>_. False) demo1) = None" by code_simp
qed

text \<open>what the claim loop takes is the first task, in creation order, that is pending, has every blocker
  completed and is not skipped; it comes back in progress under the claimer, on this process's lease, at the
  next revision, and every other task stays as it was.\<close>

theorem claimNextReady_first:
  assumes "claimNextReady now owner skip b = (Some t, b')"
  shows "\<exists>u pre post. board_list b = pre @ u # post \<and>
    list_all (\<lambda>v. \<not> ready v (board_fold b) \<or> skip v) pre \<and> ready u (board_fold b) \<and> \<not> skip u \<and>
    t = claimed_by owner (sj_incarnation (bd_journal b)) u \<and>
    (\<forall>k. jm_get (board_fold b') k = (if k = tk_id u then Some t else jm_get (board_fold b) k))"
proof -
  from assms obtain u where u: "find (\<lambda>t. ready t (board_fold b) \<and> \<not> skip t) (board_list b) = Some u"
    and t: "t = claimed_by owner (sj_incarnation (bd_journal b)) u" and b': "b' = commit now t b"
    by (auto simp: claimNextReady_def Let_def board_list_def split: option.splits)
  then obtain n where n: "n < length (board_list b)" "u = board_list b ! n"
    "ready u (board_fold b)" "\<not> skip u"
    "\<forall>k<n. \<not> (ready (board_list b ! k) (board_fold b) \<and> \<not> skip (board_list b ! k))"
    by (auto simp: find_Some_iff)
  then have "board_list b = take n (board_list b) @ u # drop (Suc n) (board_list b)"
    by (simp add: id_take_nth_drop)
  moreover have "list_all (\<lambda>v. \<not> ready v (board_fold b) \<or> skip v) (take n (board_list b))"
    using n(1,5) by (auto simp: list_all_length)
  ultimately show ?thesis using n t b' by (intro exI conjI) auto
qed

theorem claimNextReady_first_witness:
  "\<exists>u pre post. board_list demo2 = pre @ u # post \<and> list_all (\<lambda>v. \<not> ready v (board_fold demo2)) pre \<and>
     ready u (board_fold demo2)"
proof -
  have "claimNextReady 9 ''bob'' (\<lambda>_. False) demo2 =
    (Some (the (fst (claimNextReady 9 ''bob'' (\<lambda>_. False) demo2))), snd (claimNextReady 9 ''bob'' (\<lambda>_. False) demo2))"
    by code_simp
  from claimNextReady_first [OF this] show ?thesis by auto
qed

section \<open>Orphan recovery\<close>

definition orphaned :: "string \<Rightarrow> task \<Rightarrow> bool" where
  "orphaned inc t \<longleftrightarrow> tk_status t = InProgress \<and> tk_lease t \<noteq> Some inc"

lemma release_each_get:
  assumes "distinct (map tk_id ts)" "\<forall>t \<in> set ts. jm_get (board_fold b) (tk_id t) = Some t"
  shows "jm_get (board_fold (snd (release_each now ts b))) i =
    (case find (\<lambda>t. tk_id t = i) ts of
       Some t \<Rightarrow> Some (if orphaned (sj_incarnation (bd_journal b)) t then released t else t)
     | None \<Rightarrow> jm_get (board_fold b) i)"
  using assms
proof (induction ts arbitrary: b)
  case Nil
  then show ?case by simp
next
  case (Cons t ts)
  have none: "find (\<lambda>u. tk_id u = tk_id t) ts = None"
    using Cons.prems(1) by (simp add: find_None_iff) (metis image_eqI)
  show ?case
  proof (cases "orphaned (sj_incarnation (bd_journal b)) t")
    case False
    with Cons none show ?thesis by (auto simp: orphaned_def split: option.splits)
  next
    case True
    have "\<forall>u \<in> set ts. jm_get (board_fold (commit now (released t) b)) (tk_id u) = Some u"
      using Cons.prems by (auto simp: image_iff)
    with Cons.IH [of "commit now (released t) b"] Cons.prems none True show ?thesis
      by (auto simp: orphaned_def Let_def split: prod.splits option.splits)
  qed
qed

lemma release_each_fst:
  "fst (release_each now ts b) = map released (filter (orphaned (sj_incarnation (bd_journal b))) ts)"
proof (induction ts arbitrary: b)
  case Nil
  then show ?case by simp
next
  case (Cons t ts)
  show ?case
    using Cons.IH [of b] Cons.IH [of "commit now (released t) b"]
    by (auto simp: orphaned_def Let_def split: prod.splits)
qed

lemma find_board_list: "find (\<lambda>t. tk_id t = i) (board_list b) = jm_get (board_fold b) i"
proof (cases "jm_get (board_fold b) i")
  case None
  then show ?thesis by (auto simp: find_None_iff board_list_iff)
next
  case (Some t)
  then have t: "tk_id t = i" by (simp add: board_get_id)
  with Some have "t \<in> set (board_list b)" by (simp add: board_list_iff)
  then obtain u where u: "find (\<lambda>t. tk_id t = i) (board_list b) = Some u"
    using t by (cases "find (\<lambda>t. tk_id t = i) (board_list b)") (auto simp: find_None_iff)
  then have "jm_get (board_fold b) (tk_id u) = Some u \<and> tk_id u = i"
    unfolding board_list_def by (rule find_task_get)
  with Some u show ?thesis by auto
qed

text \<open>recovery returns to pending exactly the tasks in progress under another process's lease, each at its
  next revision and in board order, and leaves every other task untouched.\<close>

theorem releaseOrphans_exact:
  "fst (releaseOrphans now b) = map released (filter (orphaned (sj_incarnation (bd_journal b))) (board_list b)) \<and>
   jm_get (board_fold (snd (releaseOrphans now b))) i =
     map_option (\<lambda>t. if orphaned (sj_incarnation (bd_journal b)) t then released t else t) (jm_get (board_fold b) i)"
  unfolding releaseOrphans_def
  using release_each_get [OF board_list_distinct, of b b now i]
  by (auto simp: release_each_fst board_list_iff find_board_list split: option.splits)

section \<open>Creation\<close>

text \<open>creating a task appends one pending task at revision 0 under an id no task of the board has and
  leaves the others as they were; it fails, naming the first blocker the board does not hold, exactly when there
  is one, and then changes nothing.\<close>

theorem create_appends_fresh:
  "(case find (\<lambda>k. \<not> jm_has (board_fold b) k) (or_else (ci_blockedBy c) []) of
      Some k \<Rightarrow> create now c b = (Inl (UnknownBlocker k), b)
    | None \<Rightarrow> (\<exists>t b'. create now c b = (Inr t, b') \<and> \<not> jm_has (board_fold b) (tk_id t) \<and>
        tk_status t = Pending \<and> tk_revision t = 0 \<and> tk_subject t = ci_subject c \<and>
        tk_blockedBy t = or_else (ci_blockedBy c) [] \<and> board_list b' = board_list b @ [t]))"
proof (cases "find (\<lambda>k. \<not> jm_has (board_fold b) k) (or_else (ci_blockedBy c) [])")
  case (Some k)
  then show ?thesis by (simp add: create_def Let_def)
next
  case None
  let ?n = "bump_number (jm_keys (board_fold b)) (bd_nextTaskNumber b)"
  have new: "task_id ?n \<notin> set (jm_keys (board_fold b))" by (rule bump_number_new)
  then have "board_list (commit now (new_task ?n c) (b\<lparr>bd_nextTaskNumber := ?n + 1\<rparr>)) =
      board_list b @ [new_task ?n c]"
    by (simp add: board_list_def jm_set_snoc jm_vals_def)
  with None new show ?thesis
    by (simp add: create_def Let_def jm_has_get jm_get_None_iff) (simp add: new_task_def)
qed

section \<open>The journal of a board\<close>

lemma journal_events_append: "prefix (sj_events j) (sj_events (snd (journal_append now d j)))"
  by (simp add: journal_append_def Let_def)

definition extends :: "board \<Rightarrow> board \<Rightarrow> bool" where
  "extends b b' \<longleftrightarrow> prefix (sj_events (bd_journal b)) (sj_events (bd_journal b')) \<and>
     (journal_ok (bd_journal b) \<longrightarrow> journal_ok (bd_journal b'))"

lemma extends_refl [simp]: "extends b b"
  by (simp add: extends_def)

lemma extends_trans: "extends a b \<Longrightarrow> extends b c \<Longrightarrow> extends a c"
  by (auto simp: extends_def)

lemma extends_commit [simp]: "extends b (commit now t b)"
  by (simp add: extends_def commit_def journal_events_append)

lemma extends_commit_number [simp]: "extends b (commit now t (b\<lparr>bd_nextTaskNumber := n\<rparr>))"
  by (simp add: extends_def commit_def journal_events_append)

lemma extends_release_each: "extends b (snd (release_each now ts b))"
proof (induction ts arbitrary: b)
  case Nil
  then show ?case by simp
next
  case (Cons t ts)
  have "extends b (snd (release_each now ts (commit now (released t) b)))"
    using Cons.IH [of "commit now (released t) b"] by (rule extends_trans [OF extends_commit])
  with Cons.IH [of b] show ?case by (auto simp: Let_def split: prod.splits)
qed

lemma board_step_extends: "board_step b b' \<Longrightarrow> extends b b'"
proof (induction rule: board_step.induct)
  case (step_create b now c)
  then show ?case by (auto simp: create_def Let_def split: option.splits)
next
  case (step_claim b now i owner rv)
  then show ?case by (auto simp: claim_def Let_def split: sum.splits)
next
  case (step_claimNext b now owner skip)
  then show ?case by (auto simp: claimNextReady_def Let_def split: option.splits)
next
  case (step_complete b now i owner rv res ev)
  obtain r b' where c: "complete now i owner rv res ev b = (r, b')" by force
  then have "extends b b'" by (cases rule: complete_cases) auto
  with c show ?case by simp
next
  case (step_release b now i owner rv)
  then show ?case by (auto simp: release_def Let_def split: sum.splits)
next
  case (step_orphans b now)
  then show ?case by (simp add: releaseOrphans_def extends_release_each)
next
  case (step_reopen b inc)
  then show ?case by (simp add: extends_def)
qed (simp_all add: extends_def recordGate_def recordTamper_def recordAbandoned_def journal_events_append)

lemma board_steps_extend: "board_step\<^sup>*\<^sup>* b b' \<Longrightarrow> extends b b'"
  by (induction rule: rtranclp_induct) (auto intro: extends_trans board_step_extends)

lemma reachable_journal_ok: "board_reachable g l b \<Longrightarrow> journal_ok (bd_journal b)"
proof (induction rule: reachable.induct)
  case (reach_start b)
  then show ?case by (auto simp: board_start_def journal_ok_new)
next
  case (reach_step b b')
  then show ?case using board_step_extends by (auto simp: extends_def)
qed



section \<open>What the board leaves to its callers\<close>

text \<open>neither release nor complete looks at the status: the owner of a completed task can return it to
  pending with the current revision, on a gated board too.\<close>

theorem release_reopens_completed:
  "\<exists>b t t' b'. board_reachable True (Some L2) b \<and> jm_get (board_fold b) ''task-0'' = Some t \<and>
     tk_status t = Completed \<and> release 5 ''task-0'' ''ann'' (tk_revision t) b = (Inr t', b') \<and> tk_status t' = Pending"
proof (intro exI conjI)
  show "board_reachable True (Some L2) demo2" by (rule demo2_reachable)
  show "jm_get (board_fold demo2) ''task-0'' = Some (the (jm_get (board_fold demo2) ''task-0''))" by code_simp
  show "tk_status (the (jm_get (board_fold demo2) ''task-0'')) = Completed" by code_simp
  let ?r = "release 5 ''task-0'' ''ann'' (tk_revision (the (jm_get (board_fold demo2) ''task-0''))) demo2"
  have "?r = (Inr (projr (fst ?r)), snd ?r)" by code_simp
  then show "?r = (Inr (projr (fst ?r)), snd ?r)" .
  show "tk_status (projr (fst ?r)) = Pending" by code_simp
qed

end
