(* ===== verification/RunLog.thy ===== *)
theory RunLog
  imports Board
begin

text \<open>
  \<open>packages/swarm/src/run.ts\<close>: the run record and the questions as folds of the run's
  journal, the recap a person reads, and a settled run's deliverable as text.
\<close>

section \<open>The folds\<close>

definition foldRun :: "swarm_event list \<Rightarrow> run_record option" where
  "foldRun es = foldl (\<lambda>run e. case e of RunEvent r \<Rightarrow> Some r | _ \<Rightarrow> run) None es"

definition foldQuestions :: "swarm_event list \<Rightarrow> (string, question) jmap" where
  "foldQuestions es = foldl (\<lambda>m e. case e of QuestionEvent q \<Rightarrow> jm_set (qn_id q) q m | _ \<Rightarrow> m) [] es"

definition question_of :: "swarm_event \<Rightarrow> (string \<times> question) option" where
  "question_of e = (case e of QuestionEvent q \<Rightarrow> Some (qn_id q, q) | _ \<Rightarrow> None)"

interpretation questions: snapshot_log question_of foldQuestions
  by unfold_locales (auto simp: foldQuestions_def question_of_def split: swarm_event.splits)

lemma foldRun_snoc: "foldRun (es @ [e]) = (case e of RunEvent r \<Rightarrow> Some r | _ \<Rightarrow> foldRun es)"
  by (cases e) (simp_all add: foldRun_def)

section \<open>A gate round as a line\<close>

text \<open>\<open>`${t.target}`\<close> of a parsed verdict's target.\<close>

fun js_text :: "json \<Rightarrow> string" where
  "js_text JNull = ''null''"
| "js_text (JBool b) = (if b then ''true'' else ''false'')"
| "js_text (JNum q) = num_str q"
| "js_text (JStr s) = s"
| "js_text (JArr xs) = js_join '','' (map (\<lambda>x. if x = JNull then [] else js_text x) xs)"
| "js_text (JObj m) = ''[object Object]''"

definition score_text :: "rat option option \<Rightarrow> string" where
  "score_text s = (case s of Some (Some q) \<Rightarrow> num_str q | _ \<Rightarrow> ''unparsed'')"

definition nat_opt :: "nat option \<Rightarrow> string" where
  "nat_opt n = undef (map_option nat_str n)"

fun enforcement_str :: "enforcement \<Rightarrow> string" where
  "enforcement_str Full = ''full''"
| "enforcement_str Partial = ''partial''"

definition enf_opt :: "enforcement option \<Rightarrow> string" where
  "enf_opt e = undef (map_option enforcement_str e)"

definition pass_text :: "bool \<Rightarrow> string" where
  "pass_text b = (if b then ''passed'' else ''not passed'')"

text \<open>\<open>[...new Set(statuses)].map((status) => `${n} ${status}`)\<close>.\<close>

definition counted_statuses :: "string list \<Rightarrow> string list" where
  "counted_statuses ss = map (\<lambda>s. nat_str (length (filter (\<lambda>x. x = s) ss)) @ '' '' @ s) (js_uniq ss)"

definition hidden_line :: "gate_event \<Rightarrow> string" where
  "hidden_line g =
     (let fed = (case gv_feedback g of
           None \<Rightarrow> []
         | Some f \<Rightarrow> ''; feedback L'' @ nat_str (level_num (gf_level f)) @ '' '' @
             (if gf_kind f = KReview then ''review score '' @ score_text (gf_score f) else ''checks'') @ '' '' @
             pass_text (gf_passed f));
         refused = gv_refused g;
         tally = (case refused of
             Some why \<Rightarrow> ''snapshot refused: '' @ take 80 why
           | None \<Rightarrow> if gv_passed g then nat_opt (gv_total g) @ '' of '' @ nat_opt (gv_total g) @ '' passing''
                     else nat_opt (gv_failed g) @ '' of '' @ nat_opt (gv_total g) @ '' failing'') in
      '': L3 hidden suite '' @ undef (gv_suite g) @ '' '' @ pass_text (gv_passed g) @ '' ('' @ tally @
        '', enforcement '' @ enf_opt (gv_enforcement g) @ fed @ '')'')"

definition gate_details :: "gate_event \<Rightarrow> string list" where
  "gate_details g =
     (let targets = or_else (gv_targets g) [];
          counted = counted_statuses (map ts_status targets) in
      (if counted = [] then [] else [js_join '', '' counted]) @
      map (\<lambda>t. undef (map_option js_text (ts_target t)) @ '' unverifiable: '' @ take 80 (or_else (ts_notes t) []))
        (filter (\<lambda>t. ts_status t = ''unverifiable'') targets) @
      (case gv_failedCommands g of None \<Rightarrow> [] | Some cs \<Rightarrow> [''failed: '' @ js_join '', '' (map (take 80) cs)]) @
      (if gv_rolledBack g then [''rolled back''] else []))"

definition gateLine :: "gate_event \<Rightarrow> string" where
  "gateLine g =
     (let pre = gv_taskId g @ '' gate round '' @ nat_str (gv_round g) @ '' ('' @ gv_member g @ '')'' in
      if gv_tamper g then pre @ '': L3 tamper incident '' @ em_dash @ '' not measured''
      else if gv_round g > 1 \<and> \<not> gv_changed g then pre @ '': changed nothing '' @ em_dash @ '' stopping''
      else if (case gv_error g of None \<Rightarrow> False | Some e \<Rightarrow> starts_with e ''sign-off'')
        then pre @ '': '' @ headline 100 (or_else (gv_error g) [])
      else if (case gv_signoff g of None \<Rightarrow> False | Some s \<Rightarrow> \<not> so_accepted s)
        then pre @ '': '' @
          (if gv_kind g = KHidden then ''hidden suite passed'' else if gv_kind g = KReview then ''review passed''
           else ''checks passed'') @ '', not signed off '' @ em_dash @ '' '' @
          headline 80 (case gv_signoff g of None \<Rightarrow> [] | Some s \<Rightarrow> so_reasons s)
      else if gv_error g \<noteq> None
        then pre @ '': '' @ (if gv_kind g = KHidden then ''hidden suite'' else ''review'') @ '' unavailable '' @ em_dash @
          '' '' @ headline 80 (or_else (gv_error g) [])
      else if gv_kind g = KHidden \<and> gv_total g = None \<and> gv_enforcement g \<noteq> None
        then pre @ '': L3 hidden suite '' @ undef (gv_suite g) @ '' not run as L3 (enforcement '' @
          enf_opt (gv_enforcement g) @ '': the verifier could not confine it)''
      else if gv_kind g = KHidden then pre @ hidden_line g
      else pre @ '': L'' @ nat_str (level_num (or_else (gv_level g) L0)) @ '' '' @
        (if gv_kind g = KReview then ''review score '' @ score_text (gv_score g) else ''checks'') @ '' '' @
        pass_text (gv_passed g) @
        (if gate_details g = [] then [] else '' ('' @ js_join ''; '' (gate_details g) @ '')''))"

section \<open>The recap\<close>

text \<open>What the loop remembers between events: the last snapshot of each task and each message.\<close>

record recap_memory =
  rm_tasks :: "(string, task) jmap"
  rm_messages :: "(string, message) jmap"

definition recap_remember :: "recap_memory \<Rightarrow> swarm_event \<Rightarrow> recap_memory" where
  "recap_remember m e =
     (case e of
        TaskEvent t \<Rightarrow> m\<lparr>rm_tasks := jm_set (tk_id t) t (rm_tasks m)\<rparr>
      | QueuedEvent g \<Rightarrow> m\<lparr>rm_messages := jm_set (mg_id g) g (rm_messages m)\<rparr>
      | _ \<Rightarrow> m)"

definition task_line :: "task option \<Rightarrow> task \<Rightarrow> string" where
  "task_line before t =
     (case tk_status t of
        InProgress \<Rightarrow> tk_id t @ '' claimed by '' @ undef (tk_owner t)
      | Completed \<Rightarrow> tk_id t @ '' completed by '' @ undef (tk_owner t) @
          (case tk_evidence t of None \<Rightarrow> [] | Some e \<Rightarrow> '' ('' @ evidenceText e @ '')'') @
          (case tk_result t of None \<Rightarrow> [] | Some r \<Rightarrow> '': '' @ headline 80 r)
      | Pending \<Rightarrow>
          (case before of
             None \<Rightarrow> tk_id t @ '' created: '' @ tk_subject t
           | Some b \<Rightarrow> tk_id t @ '' released (was '' @ undef (tk_owner b) @ '')''))"

fun delivery_str :: "message_delivery \<Rightarrow> string" where
  "delivery_str Quiet = ''quiet''"
| "delivery_str Wakeup = ''wakeup''"

definition question_line :: "question \<Rightarrow> string" where
  "question_line q =
     (case qn_status q of
        Open \<Rightarrow> qn_id q @ '' raised ('' @ trigger_str (qn_trigger q) @ ''): '' @ headline 80 (qn_prompt q)
      | Answered \<Rightarrow> qn_id q @ '' answered by '' @ undef (qn_by q) @ '': '' @ undef (qn_answer q)
      | Defaulted \<Rightarrow> qn_id q @ '' defaulted to '' @ undef (qn_answer q)
      | Capped \<Rightarrow> qn_id q @ '' capped ('' @ trigger_str (qn_trigger q) @ ''): defaulted to '' @ undef (qn_answer q))"

fun topology_str :: "topology \<Rightarrow> string" where
  "topology_str Fanout = ''fanout''"
| "topology_str CriticLoop = ''critic-loop''"
| "topology_str Committee = ''committee''"
| "topology_str Pipeline = ''pipeline''"
| "topology_str Cascade = ''cascade''"
| "topology_str Coordinator = ''coordinator''"
| "topology_str PeerTeam = ''peer-team''"

definition run_line :: "run_record \<Rightarrow> string" where
  "run_line r =
     (let pos = ''pid '' @ int_str (rw_pid (rr_writer r)) @ '' on '' @ rw_host (rr_writer r);
          purpose = (case Option.bind (rr_spec r) spec_intent of
              None \<Rightarrow> [] | Some i \<Rightarrow> '': '' @ headline 80 (in_purpose i)) in
      case rr_status r of
        Running \<Rightarrow> ''run started: '' @ topology_str (rr_topology r) @ '' ('' @ pos @ '')'' @ purpose
      | Failed \<Rightarrow> ''run failed: '' @ undef (rr_error r)
      | Interrupted \<Rightarrow> ''run interrupted; taken over by '' @ pos
      | Finished \<Rightarrow> ''run finished'')"

definition recap_line :: "recap_memory \<Rightarrow> swarm_event \<Rightarrow> string option" where
  "recap_line m e =
     (case e of
        TaskEvent t \<Rightarrow> Some (task_line (jm_get (rm_tasks m) (tk_id t)) t)
      | QueuedEvent g \<Rightarrow> Some (''message '' @ mg_from g @ arrow @ mg_to g @ '' queued ('' @ delivery_str (mg_delivery g) @ '')'')
      | UndeliveredEvent i to \<Rightarrow>
          Some (''message '' @
            (case jm_get (rm_messages m) i of None \<Rightarrow> ''to '' @ to | Some g \<Rightarrow> mg_from g @ arrow @ mg_to g) @
            '' undelivered: no later run of '' @ to @ [CHR 0x27] @ ''s carried it'')
      | DeliveredEvent i \<Rightarrow>
          Some (''message '' @ (case jm_get (rm_messages m) i of None \<Rightarrow> i | Some g \<Rightarrow> mg_from g @ arrow @ mg_to g) @ '' delivered'')
      | SteerEvent s \<Rightarrow>
          Some (''steer '' @ sr_by s @ arrow @ sr_to s @ '' ('' @ (if sr_immediate s then ''immediate'' else ''enqueue'') @ ''): '' @
            headline 80 (sr_text s))
      | QuestionEvent q \<Rightarrow> Some (question_line q)
      | BudgetEvent b \<Rightarrow>
          Some ((case be_scope b of RunScope \<Rightarrow> ''run'' | TaskScope \<Rightarrow> undef (be_taskId b)) @ '' budget '' @
            (case be_outcome b of Stopped \<Rightarrow> ''stopped'' | Extended \<Rightarrow> ''extended'') @ '': '' @ be_reason b)
      | GateEvent g \<Rightarrow> Some (gateLine g)
      | TamperEvent t \<Rightarrow>
          Some (te_taskId t @ '' tamper '' @ severity_str (or_else (te_severity t) Incident) @ '' in gate round '' @
            nat_str (te_round t) @ '' ('' @ te_member t @ ''): '' @ js_join '', '' (signal_texts (te_signals t)))
      | RunEvent r \<Rightarrow> Some (run_line r)
      | _ \<Rightarrow> None)"

fun recap_from :: "recap_memory \<Rightarrow> swarm_event jevent list \<Rightarrow> int \<Rightarrow> string list" where
  "recap_from m [] since = []"
| "recap_from m (e # es) since =
     (case recap_line m (je_data e) of
        Some line \<Rightarrow>
          if int (je_seq e) > since then (''#'' @ nat_str (je_seq e) @ '' '' @ line) # recap_from (recap_remember m (je_data e)) es since
          else recap_from (recap_remember m (je_data e)) es since
      | None \<Rightarrow> recap_from (recap_remember m (je_data e)) es since)"

definition recapJournal :: "swarm_event jevent list \<Rightarrow> int \<Rightarrow> string list" where
  "recapJournal es since = recap_from \<lparr>rm_tasks = [], rm_messages = []\<rparr> es since"

section \<open>The deliverable\<close>

definition result_one :: "team_result \<Rightarrow> run_result option" where
  "result_one r =
     (case r of
        CommitteeResult _ syn \<Rightarrow> syn
      | CoordinatorResult _ _ syn \<Rightarrow> Some syn
      | CriticLoopResult c \<Rightarrow> Some (cr_final c)
      | PipelineResult _ f \<Rightarrow> Some f
      | CascadeResult c \<Rightarrow> Some (cs_final c)
      | _ \<Rightarrow> None)"

definition resultText :: "team_result \<Rightarrow> string" where
  "resultText r =
     (case result_one r of
        Some one \<Rightarrow> rs_text one
      | None \<Rightarrow>
          (let runs = (\<lambda>rs. map (\<lambda>x. (rs_member x, rs_text x)) rs);
               parts = (case r of
                 PeerTeamResult ts _ \<Rightarrow> map (\<lambda>t. (tk_id t @ '' '' @ tk_subject t, or_else (tk_result t) [])) ts
               | FanoutResult rs \<Rightarrow> runs rs
               | CommitteeResult as _ \<Rightarrow> runs as
               | _ \<Rightarrow> []) in
           js_join (nl @ nl) (map (\<lambda>(label, text). ''--- '' @ label @ '' ---'' @ nl @ text) parts)))"

section \<open>The cursor\<close>

lemma recap_from_append:
  "recap_from m (es @ fs) since = recap_from m es since @ recap_from (foldl recap_remember m (map je_data es)) fs since"
  by (induction es arbitrary: m) (auto split: option.splits)

lemma recap_from_skip: "\<forall>e \<in> set es. int (je_seq e) \<le> since \<Longrightarrow> recap_from m es since = []"
  by (induction es arbitrary: m) (auto split: option.splits)

lemma recap_from_all:
  "\<forall>e \<in> set es. since < int (je_seq e) \<Longrightarrow> since' \<le> since \<Longrightarrow> recap_from m es since = recap_from m es since'"
  by (induction es arbitrary: m) (auto split: option.splits)

text \<open>C18: a reader that passes the last sequence number it saw back as its cursor gets exactly the lines it has
  not seen: the lines of a journal's beginning followed by those past its last event are the lines of the whole
  journal, each line reading the earlier events it refers to.\<close>

theorem recap_resumes:
  assumes "sorted_wrt (\<lambda>a b. je_seq a < je_seq b) (es @ [e] @ fs)"
  shows "recapJournal (es @ [e] @ fs) (- 1) =
    recapJournal (es @ [e]) (- 1) @ recapJournal (es @ [e] @ fs) (int (je_seq e))"
proof -
  have "\<forall>x \<in> set (es @ [e]). int (je_seq x) \<le> int (je_seq e)"
    using assms by (auto simp: sorted_wrt_append intro: order_less_imp_le)
  moreover have "\<forall>x \<in> set fs. int (je_seq e) < int (je_seq x)"
    using assms by (auto simp: sorted_wrt_append)
  ultimately show ?thesis
    using recap_from_append [of _ "es @ [e]" fs] recap_from_skip [of "es @ [e]" "int (je_seq e)"]
      recap_from_all [of fs "int (je_seq e)" "- 1"]
    by (simp add: recapJournal_def)
qed

definition demo_events :: "swarm_event jevent list" where
  "demo_events =
     [\<lparr>je_seq = 0, je_time = 1, je_data = QueuedEvent \<lparr>mg_id = ''m'', mg_from = ''a'', mg_to = ''b'', mg_delivery = Quiet, mg_text = ''hi''\<rparr>\<rparr>,
      \<lparr>je_seq = 1, je_time = 2, je_data = AbandonedEvent ''task-0'' ''why''\<rparr>,
      \<lparr>je_seq = 2, je_time = 3, je_data = DeliveredEvent ''m''\<rparr>]"

theorem recap_resumes_witness:
  "recapJournal demo_events (- 1) = recapJournal (take 2 demo_events) (- 1) @ recapJournal demo_events 1"
  using recap_resumes [of "take 1 demo_events" "demo_events ! 1" "drop 2 demo_events"]
  by (simp add: demo_events_def)

end
