(* ===== verification/Mailbox.thy ===== *)
theory Mailbox
  imports RunLog
begin

text \<open>
  \<open>packages/swarm/src/mailbox.ts\<close>: durable peer messaging over the run's journal. A message
  is journaled queued before its delivery is attempted and delivered only after the target
  accepted it; pending quiet mail rides in front of the next waking delivery, reserved
  while that delivery is in flight. The peer's acceptance (\<open>RemotePeer.deliver\<close>, the
  subagent follow-up) is a parameter.
\<close>

section \<open>Messages\<close>

record peer_handle =
  ph_name :: string
  ph_childId :: "string option"
  ph_remote :: bool

definition frameMessage :: "message \<Rightarrow> content_block list" where
  "frameMessage m = [TextBlock (''Swarm message '' @ mg_id m @ '' from '' @ mg_from m @ '':'' @ nl @ mg_text m)]"

definition pending_step :: "(string, message) jmap \<Rightarrow> swarm_event \<Rightarrow> (string, message) jmap" where
  "pending_step q e =
     (case e of
        QueuedEvent m \<Rightarrow> jm_set (mg_id m) m q
      | DeliveredEvent i \<Rightarrow> jm_del i q
      | _ \<Rightarrow> q)"

definition foldPendingMessages :: "swarm_event list \<Rightarrow> message list" where
  "foldPendingMessages es = jm_vals (foldl pending_step [] es)"

section \<open>The mailbox\<close>

record mailbox =
  mx_roster :: "(string, peer_handle) jmap"
  mx_journal :: "swarm_event swarm_journal"
  mx_delivering :: "string list"

datatype mail_error = UnknownPeer string | DeliveryFailed string

definition mailbox_pending :: "mailbox \<Rightarrow> message list" where
  "mailbox_pending mb = foldPendingMessages (payloads (mx_journal mb))"

definition mail_append :: "int \<Rightarrow> swarm_event \<Rightarrow> mailbox \<Rightarrow> mailbox" where
  "mail_append now e mb = mb\<lparr>mx_journal := snd (journal_append now e (mx_journal mb))\<rparr>"

text \<open>The quiet mail a delivery carries, reserved; \<open>ack\<close> and \<open>release\<close> settle the reservation.\<close>

definition framePendingQuiet :: "string \<Rightarrow> mailbox \<Rightarrow> message list \<times> mailbox" where
  "framePendingQuiet to mb =
     (let ms = filter (\<lambda>m. mg_to m = to \<and> mg_delivery m = Quiet \<and> mg_id m \<notin> set (mx_delivering mb)) (mailbox_pending mb) in
      (ms, mb\<lparr>mx_delivering := mx_delivering mb @ map mg_id ms\<rparr>))"

definition quiet_release :: "message list \<Rightarrow> mailbox \<Rightarrow> mailbox" where
  "quiet_release ms mb = mb\<lparr>mx_delivering := filter (\<lambda>i. i \<notin> mg_id ` set ms) (mx_delivering mb)\<rparr>"

definition quiet_ack :: "int \<Rightarrow> message list \<Rightarrow> mailbox \<Rightarrow> mailbox" where
  "quiet_ack now ms mb = quiet_release ms (foldl (\<lambda>b m. mail_append now (DeliveredEvent (mg_id m)) b) mb ms)"

text \<open>What a delivery reserves before it asks the peer; none for quiet mail or an unreachable peer.\<close>

definition deliver_open :: "message \<Rightarrow> mailbox \<Rightarrow> message list option \<times> mailbox" where
  "deliver_open m mb =
     (case jm_get (mx_roster mb) (mg_to m) of
        None \<Rightarrow> (None, mb)
      | Some target \<Rightarrow>
          if mg_delivery m = Wakeup then
            (let (ms, mb') = framePendingQuiet (mg_to m) mb in
             if \<not> ph_remote target \<and> ph_childId target = None then (None, quiet_release ms mb') else (Some ms, mb'))
          else (None, mb))"

definition deliver_accepted :: "int \<Rightarrow> message list \<Rightarrow> message \<Rightarrow> mailbox \<Rightarrow> mailbox" where
  "deliver_accepted now ms m mb = mail_append now (DeliveredEvent (mg_id m)) (quiet_ack now ms mb)"

definition deliver ::
  "(peer_handle \<Rightarrow> content_block list \<Rightarrow> ('w, string, unit) act) \<Rightarrow> int \<Rightarrow> message \<Rightarrow> mailbox \<Rightarrow> 'w \<Rightarrow>
   ((mail_error + unit) \<times> mailbox) \<times> 'w" where
  "deliver accept now m mb w =
     (case deliver_open m mb of
        (None, mb') \<Rightarrow> ((Inr (), mb'), w)
      | (Some ms, mb') \<Rightarrow>
          (case accept (the (jm_get (mx_roster mb) (mg_to m))) (concat (map frameMessage ms) @ frameMessage m) w of
             (Inl e, w') \<Rightarrow> ((Inl (DeliveryFailed e), quiet_release ms mb'), w')
           | (Inr _, w') \<Rightarrow> ((Inr (), deliver_accepted now ms m mb'), w')))"

definition new_message :: "string \<Rightarrow> string \<Rightarrow> string \<Rightarrow> string \<Rightarrow> message_delivery option \<Rightarrow> message" where
  "new_message uuid from to text delivery =
     \<lparr>mg_id = ''msg-'' @ uuid, mg_from = from, mg_to = to, mg_delivery = or_else delivery Wakeup, mg_text = text\<rparr>"

definition send ::
  "(peer_handle \<Rightarrow> content_block list \<Rightarrow> ('w, string, unit) act) \<Rightarrow> int \<Rightarrow> string \<Rightarrow> string \<Rightarrow> string \<Rightarrow> string \<Rightarrow>
   message_delivery option \<Rightarrow> mailbox \<Rightarrow> 'w \<Rightarrow> ((mail_error + message) \<times> mailbox) \<times> 'w" where
  "send accept now uuid from to text delivery mb w =
     (if \<not> jm_has (mx_roster mb) to then ((Inl (UnknownPeer to), mb), w)
      else
        (let m = new_message uuid from to text delivery in
         case deliver accept now m (mail_append now (QueuedEvent m) mb) w of
           ((Inl e, mb'), w') \<Rightarrow> ((Inl e, mb'), w')
         | ((Inr _, mb'), w') \<Rightarrow> ((Inr m, mb'), w')))"

section \<open>Pending mail\<close>

definition queued_of :: "swarm_event list \<Rightarrow> message list" where
  "queued_of es = List.map_filter (\<lambda>e. case e of QueuedEvent m \<Rightarrow> Some m | _ \<Rightarrow> None) es"

definition delivered_of :: "swarm_event list \<Rightarrow> string list" where
  "delivered_of es = List.map_filter (\<lambda>e. case e of DeliveredEvent i \<Rightarrow> Some i | _ \<Rightarrow> None) es"

lemma queued_of_simps [simp]:
  "queued_of [] = []"
  "queued_of (es @ [e]) = queued_of es @ (case e of QueuedEvent m \<Rightarrow> [m] | _ \<Rightarrow> [])"
  by (cases e; simp add: queued_of_def List.map_filter_def)+

lemma delivered_of_simps [simp]:
  "delivered_of [] = []"
  "delivered_of (es @ [e]) = delivered_of es @ (case e of DeliveredEvent i \<Rightarrow> [i] | _ \<Rightarrow> [])"
  by (cases e; simp add: delivered_of_def List.map_filter_def)+

text \<open>A log in which ids are queued once and delivered once, after they were queued.\<close>

definition mail_ok :: "swarm_event list \<Rightarrow> bool" where
  "mail_ok es \<longleftrightarrow> distinct (map mg_id (queued_of es)) \<and> distinct (delivered_of es) \<and>
     set (delivered_of es) \<subseteq> mg_id ` set (queued_of es) \<and>
     foldl pending_step [] es =
       map (\<lambda>m. (mg_id m, m)) (filter (\<lambda>m. mg_id m \<notin> set (delivered_of es)) (queued_of es))"

lemma mail_ok_pending:
  "mail_ok es \<Longrightarrow> foldPendingMessages es = filter (\<lambda>m. mg_id m \<notin> set (delivered_of es)) (queued_of es)"
  by (simp add: mail_ok_def foldPendingMessages_def jm_vals_def comp_def)

lemma mail_ok_Nil [simp]: "mail_ok []"
  by (simp add: mail_ok_def)

lemma mail_ok_queue:
  assumes "mail_ok es" "mg_id m \<notin> mg_id ` set (queued_of es)"
  shows "mail_ok (es @ [QueuedEvent m])"
proof -
  have new: "mg_id m \<notin> set (delivered_of es)" using assms by (auto simp: mail_ok_def)
  have "mg_id m \<notin> set (jm_keys (foldl pending_step [] es))"
    using assms by (auto simp: mail_ok_def jm_keys_def)
  with assms new show ?thesis by (auto simp: mail_ok_def pending_step_def jm_set_snoc)
qed

lemma mail_ok_deliver:
  assumes "mail_ok es" "i \<in> mg_id ` set (foldPendingMessages es)"
  shows "mail_ok (es @ [DeliveredEvent i])"
proof -
  have i: "i \<notin> set (delivered_of es)" "i \<in> mg_id ` set (queued_of es)"
    using assms by (auto simp: mail_ok_pending)
  have del: "jm_del i (map (\<lambda>m. (mg_id m, m)) ms) = map (\<lambda>m. (mg_id m, m)) (filter (\<lambda>m. mg_id m \<noteq> i) ms)" for ms
    by (induction ms) (auto simp: jm_del_def)
  with assms(1) i show ?thesis
    by (simp add: mail_ok_def pending_step_def del conj_commute)
qed

lemma pending_deliver:
  assumes "mail_ok es" "i \<in> mg_id ` set (foldPendingMessages es)"
  shows "foldPendingMessages (es @ [DeliveredEvent i]) = filter (\<lambda>m. mg_id m \<noteq> i) (foldPendingMessages es)"
  using mail_ok_pending [OF mail_ok_deliver [OF assms]] mail_ok_pending [OF assms(1)]
  by (simp add: conj_commute)

definition mail_event :: "swarm_event \<Rightarrow> bool" where
  "mail_event e = (case e of QueuedEvent _ \<Rightarrow> True | DeliveredEvent _ \<Rightarrow> True | _ \<Rightarrow> False)"

lemma mail_other [simp]:
  assumes "\<not> mail_event e"
  shows "queued_of (es @ [e]) = queued_of es" "delivered_of (es @ [e]) = delivered_of es"
    "foldPendingMessages (es @ [e]) = foldPendingMessages es" "mail_ok (es @ [e]) = mail_ok es"
  using assms by (cases e; simp add: mail_event_def mail_ok_def pending_step_def foldPendingMessages_def)+

section \<open>Deliveries in flight\<close>

text \<open>
  The mailbox among its deliveries in flight: each holds the quiet mail it carries and, when
  it is a waking message's own, that message. Deliveries open and close in any order, and
  other components append to the same journal.
\<close>

type_synonym flight = "message list \<times> message option"

definition flight_messages :: "flight \<Rightarrow> message list" where
  "flight_messages f = fst f @ (case snd f of None \<Rightarrow> [] | Some m \<Rightarrow> [m])"

inductive mail_step :: "mailbox \<times> flight list \<Rightarrow> mailbox \<times> flight list \<Rightarrow> bool" where
  ms_send: "jm_has (mx_roster mb) (mg_to m) \<Longrightarrow> mg_id m \<notin> mg_id ` set (queued_of (payloads (mx_journal mb))) \<Longrightarrow>
     deliver_open m (mail_append now (QueuedEvent m) mb) = (r, mb') \<Longrightarrow>
     mail_step (mb, fs) (mb', (case r of None \<Rightarrow> fs | Some ms \<Rightarrow> (ms, Some m) # fs))"
| ms_frame: "framePendingQuiet to mb = (ms, mb') \<Longrightarrow> mail_step (mb, fs) (mb', (ms, None) # fs)"
| ms_refused: "mail_step (mb, fs @ (ms, w) # gs) (quiet_release ms mb, fs @ gs)"
| ms_accepted: "mail_step (mb, fs @ (ms, Some m) # gs) (deliver_accepted now ms m mb, fs @ gs)"
| ms_acked: "mail_step (mb, fs @ (ms, None) # gs) (quiet_ack now ms mb, fs @ gs)"
| ms_other: "\<not> mail_event e \<Longrightarrow> mail_step (mb, fs) (mail_append now e mb, fs)"

definition mail_start :: "mailbox \<times> flight list \<Rightarrow> bool" where
  "mail_start s \<longleftrightarrow> snd s = [] \<and> mx_delivering (fst s) = [] \<and> sj_events (mx_journal (fst s)) = []"

definition flight_ids :: "flight list \<Rightarrow> string list" where
  "flight_ids fs = concat (map (\<lambda>f. map mg_id (flight_messages f)) fs)"

definition quiet_ids :: "flight list \<Rightarrow> string list" where
  "quiet_ids fs = concat (map (\<lambda>f. map mg_id (fst f)) fs)"

definition flight_ok :: "message set \<Rightarrow> flight \<Rightarrow> bool" where
  "flight_ok P f \<longleftrightarrow> (\<forall>m \<in> set (fst f). mg_delivery m = Quiet \<and> m \<in> P) \<and>
     (\<forall>m. snd f = Some m \<longrightarrow> mg_delivery m = Wakeup \<and> m \<in> P)"

definition mail_inv :: "mailbox \<times> flight list \<Rightarrow> bool" where
  "mail_inv s \<longleftrightarrow> mail_ok (payloads (mx_journal (fst s))) \<and>
     distinct (flight_ids (snd s)) \<and>
     set (flight_ids (snd s)) \<subseteq> mg_id ` set (mailbox_pending (fst s)) \<and>
     set (mx_delivering (fst s)) = set (quiet_ids (snd s)) \<and>
     (\<forall>f \<in> set (snd s). flight_ok (set (mailbox_pending (fst s))) f)"

lemma mail_inv_pair:
  "mail_inv (mb, fs) \<longleftrightarrow> mail_ok (payloads (mx_journal mb)) \<and> distinct (flight_ids fs) \<and>
     set (flight_ids fs) \<subseteq> mg_id ` set (mailbox_pending mb) \<and> set (mx_delivering mb) = set (quiet_ids fs) \<and>
     (\<forall>f \<in> set fs. flight_ok (set (mailbox_pending mb)) f)"
  by (simp add: mail_inv_def)

lemma flight_ok_mono: "flight_ok P f \<Longrightarrow> (\<And>m. m \<in> set (flight_messages f) \<Longrightarrow> m \<in> P \<Longrightarrow> m \<in> Q) \<Longrightarrow> flight_ok Q f"
  by (auto simp: flight_ok_def flight_messages_def)

lemma flight_ids_simps [simp]:
  "flight_ids [] = []" "flight_ids (f # fs) = map mg_id (flight_messages f) @ flight_ids fs"
  "flight_ids (fs @ gs) = flight_ids fs @ flight_ids gs"
  "quiet_ids [] = []" "quiet_ids (f # fs) = map mg_id (fst f) @ quiet_ids fs"
  "quiet_ids (fs @ gs) = quiet_ids fs @ quiet_ids gs"
  by (simp_all add: flight_ids_def quiet_ids_def)

lemma mail_append_fields [simp]:
  "payloads (mx_journal (mail_append now e mb)) = payloads (mx_journal mb) @ [e]"
  "mx_roster (mail_append now e mb) = mx_roster mb" "mx_delivering (mail_append now e mb) = mx_delivering mb"
  by (simp_all add: mail_append_def)

lemma quiet_release_fields [simp]:
  "mx_journal (quiet_release ms mb) = mx_journal mb" "mx_roster (quiet_release ms mb) = mx_roster mb"
  "mailbox_pending (quiet_release ms mb) = mailbox_pending mb"
  "set (mx_delivering (quiet_release ms mb)) = set (mx_delivering mb) - mg_id ` set ms"
  by (auto simp: quiet_release_def mailbox_pending_def)

lemma pending_distinct: "mail_ok (payloads (mx_journal mb)) \<Longrightarrow> distinct (map mg_id (mailbox_pending mb))"
  by (auto simp: mailbox_pending_def mail_ok_pending mail_ok_def distinct_map inj_on_def)

text \<open>Acknowledging a list of pending messages, one at a time.\<close>

lemma ack_list:
  fixes now :: int
  assumes "mail_ok (payloads (mx_journal mb))" "distinct (map mg_id ms)"
    "mg_id ` set ms \<subseteq> mg_id ` set (mailbox_pending mb)"
    and b: "b = foldl (\<lambda>b m. mail_append now (DeliveredEvent (mg_id m)) b) mb ms"
  shows "mail_ok (payloads (mx_journal b)) \<and> mx_delivering b = mx_delivering mb \<and> mx_roster b = mx_roster mb \<and>
    mailbox_pending b = filter (\<lambda>m. mg_id m \<notin> mg_id ` set ms) (mailbox_pending mb)"
  using assms(1-3) unfolding b
proof (induction ms arbitrary: mb)
  case Nil
  then show ?case by simp
next
  case (Cons m ms)
  let ?b = "mail_append now (DeliveredEvent (mg_id m)) mb"
  from Cons.prems have ok: "mail_ok (payloads (mx_journal ?b))"
    by (auto intro: mail_ok_deliver simp: mailbox_pending_def)
  have pend: "mailbox_pending ?b = filter (\<lambda>x. mg_id x \<noteq> mg_id m) (mailbox_pending mb)"
    using mail_ok_pending [OF ok] mail_ok_pending [OF Cons.prems(1)]
    by (simp add: mailbox_pending_def conj_commute)
  have "mg_id ` set ms \<subseteq> mg_id ` set (mailbox_pending ?b)"
  proof
    fix i assume i: "i \<in> mg_id ` set ms"
    with Cons.prems(2) have "i \<noteq> mg_id m" by (cases "i = mg_id m") simp_all
    moreover from i Cons.prems(3) obtain x where "x \<in> set (mailbox_pending mb)" "i = mg_id x" by auto
    ultimately show "i \<in> mg_id ` set (mailbox_pending ?b)" using pend by auto
  qed
  with Cons.IH [of ?b] Cons.prems ok pend show ?case by (simp add: conj_commute)
qed

text \<open>The steps keep the invariant: queueing, reserving, and settling.\<close>

lemma pending_append [simp]:
  assumes "mail_ok (payloads (mx_journal mb))" "mg_id m \<notin> mg_id ` set (queued_of (payloads (mx_journal mb)))"
  shows "mailbox_pending (mail_append now (QueuedEvent m) mb) = mailbox_pending mb @ [m]"
proof -
  have "mg_id m \<notin> set (delivered_of (payloads (mx_journal mb)))" using assms by (auto simp: mail_ok_def)
  with assms show ?thesis
    by (simp add: mailbox_pending_def mail_ok_pending mail_ok_queue)
qed

lemma inv_queue:
  assumes inv: "mail_inv (mb, fs)" and new: "mg_id m \<notin> mg_id ` set (queued_of (payloads (mx_journal mb)))"
  shows "mail_inv (mail_append now (QueuedEvent m) mb, fs)" and "mg_id m \<notin> set (flight_ids fs)"
proof -
  from inv have ok: "mail_ok (payloads (mx_journal mb))" by (simp add: mail_inv_pair)
  have "set (mailbox_pending mb) \<subseteq> set (queued_of (payloads (mx_journal mb)))"
    using ok by (auto simp: mailbox_pending_def mail_ok_pending)
  then have "mg_id ` set (mailbox_pending mb) \<subseteq> mg_id ` set (queued_of (payloads (mx_journal mb)))" by blast
  with new inv show "mg_id m \<notin> set (flight_ids fs)" unfolding mail_inv_pair by blast
  show "mail_inv (mail_append now (QueuedEvent m) mb, fs)"
    using inv ok new by (auto simp: mail_inv_pair mail_ok_queue intro: flight_ok_mono)
qed

lemma quiet_ids_mem: "f \<in> set fs \<Longrightarrow> x \<in> set (fst f) \<Longrightarrow> mg_id x \<in> set (quiet_ids fs)"
  by (auto simp: quiet_ids_def)

lemma flight_ids_mem: "f \<in> set fs \<Longrightarrow> x \<in> set (flight_messages f) \<Longrightarrow> mg_id x \<in> set (flight_ids fs)"
  by (auto simp: flight_ids_def)

lemma quiet_ids_flight: "set (quiet_ids fs) \<subseteq> set (flight_ids fs)"
  by (auto simp: quiet_ids_def flight_ids_def flight_messages_def)

lemma inv_flight_other:
  assumes inv: "mail_inv (mb, fs)" and m: "m \<in> set (mailbox_pending mb)" "mg_delivery m = Quiet"
    "mg_id m \<notin> set (mx_delivering mb)"
  shows "mg_id m \<notin> set (flight_ids fs)"
proof
  assume "mg_id m \<in> set (flight_ids fs)"
  then obtain f x where f: "f \<in> set fs" "x \<in> set (flight_messages f)" "mg_id x = mg_id m"
    by (auto simp: flight_ids_def)
  from inv m(3) have "mg_id m \<notin> set (quiet_ids fs)" by (simp add: mail_inv_pair)
  with f(1,3) have "x \<notin> set (fst f)" by (metis quiet_ids_mem)
  with f(2) have "snd f = Some x" by (auto simp: flight_messages_def split: option.splits)
  with inv f(1) have "mg_delivery x = Wakeup" "x \<in> set (mailbox_pending mb)" by (auto simp: mail_inv_pair flight_ok_def)
  moreover have "x = m"
    using inv m(1) f(3) calculation(2) pending_distinct [of mb]
    by (auto simp: mail_inv_pair distinct_map inj_on_def)
  ultimately show False using m(2) by simp
qed

lemma inv_frame:
  assumes inv: "mail_inv (mb, fs)" and frame: "framePendingQuiet to mb = (ms, mb')"
    and w: "case w of None \<Rightarrow> True
      | Some m \<Rightarrow> mg_delivery m = Wakeup \<and> m \<in> set (mailbox_pending mb) \<and> mg_id m \<notin> set (flight_ids fs)"
  shows "mail_inv (mb', (ms, w) # fs)"
proof -
  from frame have ms: "ms = filter (\<lambda>m. mg_to m = to \<and> mg_delivery m = Quiet \<and> mg_id m \<notin> set (mx_delivering mb)) (mailbox_pending mb)"
    and mb': "mb' = mb\<lparr>mx_delivering := mx_delivering mb @ map mg_id ms\<rparr>"
    by (auto simp: framePendingQuiet_def Let_def)
  from inv have pd: "distinct (map mg_id (mailbox_pending mb))" by (simp add: mail_inv_pair pending_distinct)
  then have d: "distinct (map mg_id ms)" unfolding ms by (rule distinct_map_filter)
  have disj: "mg_id x \<notin> set (flight_ids fs)" if "x \<in> set ms" for x
    using that inv_flight_other [OF inv, of x] by (auto simp: ms)
  have wd: "mg_id m \<notin> mg_id ` set ms" if "w = Some m" for m
  proof
    assume "mg_id m \<in> mg_id ` set ms"
    then obtain x where x: "x \<in> set ms" "mg_id x = mg_id m" by (metis imageE)
    then have "x \<in> set (mailbox_pending mb)" "mg_delivery x = Quiet" by (simp_all add: ms)
    with x(2) w that pd have "x = m" unfolding distinct_map by (auto dest: inj_onD)
    with \<open>mg_delivery x = Quiet\<close> w that show False by simp
  qed
  have pend: "mailbox_pending mb' = mailbox_pending mb" by (simp add: mb' mailbox_pending_def)
  have old: "distinct (flight_ids fs)" "set (flight_ids fs) \<subseteq> mg_id ` set (mailbox_pending mb)"
    using inv unfolding mail_inv_pair by blast+
  have sub: "set ms \<subseteq> set (mailbox_pending mb)" by (auto simp: ms)
  have disj': "set (map mg_id ms) \<inter> set (flight_ids fs) = {}" using disj by auto
  have ids: "distinct (flight_ids ((ms, w) # fs)) \<and> set (flight_ids ((ms, w) # fs)) \<subseteq> mg_id ` set (mailbox_pending mb)"
  proof (cases w)
    case None
    then have "flight_ids ((ms, w) # fs) = map mg_id ms @ flight_ids fs" by (simp add: flight_messages_def)
    with d disj' old sub show ?thesis by (simp add: image_mono)
  next
    case (Some m)
    then have "flight_ids ((ms, w) # fs) = map mg_id ms @ mg_id m # flight_ids fs" by (simp add: flight_messages_def)
    with d disj' old sub wd [OF Some] w Some show ?thesis by (simp add: image_mono)
  qed
  have "flight_ok (set (mailbox_pending mb)) (ms, w)"
    using sub w by (auto simp: flight_ok_def ms)
  with inv ids show ?thesis
    unfolding mail_inv_pair pend by (simp add: mb' Un_commute)
qed

lemma inv_settle:
  assumes inv: "mail_inv (mb, fs @ (ms, w) # gs)" and ok: "mail_ok (payloads (mx_journal mb'))"
    and pend: "mailbox_pending mb' = filter (\<lambda>m. mg_id m \<notin> D) (mailbox_pending mb)"
    and D: "D \<subseteq> set (map mg_id (flight_messages (ms, w)))"
    and del: "set (mx_delivering mb') = set (mx_delivering mb) - mg_id ` set ms"
  shows "mail_inv (mb', fs @ gs)"
proof -
  have old: "distinct (flight_ids (fs @ (ms, w) # gs))"
    "set (flight_ids (fs @ (ms, w) # gs)) \<subseteq> mg_id ` set (mailbox_pending mb)"
    "set (mx_delivering mb) = set (quiet_ids (fs @ (ms, w) # gs))"
    "\<And>f. f \<in> set (fs @ gs) \<Longrightarrow> flight_ok (set (mailbox_pending mb)) f"
    using inv unfolding mail_inv_pair by auto
  have out: "i \<notin> set (map mg_id (flight_messages (ms, w)))" if "i \<in> set (flight_ids (fs @ gs))" for i
    using old(1) that by auto
  have keep: "x \<in> set (mailbox_pending mb')" if "mg_id x \<in> set (flight_ids (fs @ gs))" "x \<in> set (mailbox_pending mb)" for x
    using out [OF that(1)] that(2) D unfolding pend by auto
  show ?thesis
    unfolding mail_inv_pair
  proof (intro conjI ballI)
    show "mail_ok (payloads (mx_journal mb'))" by (rule ok)
    show "distinct (flight_ids (fs @ gs))" using old(1) by simp blast
    show "set (flight_ids (fs @ gs)) \<subseteq> mg_id ` set (mailbox_pending mb')"
    proof
      fix i assume i: "i \<in> set (flight_ids (fs @ gs))"
      then have "i \<in> set (flight_ids (fs @ (ms, w) # gs))" by auto
      with old(2) obtain x where x: "x \<in> set (mailbox_pending mb)" "i = mg_id x" by blast
      with keep i show "i \<in> mg_id ` set (mailbox_pending mb')" by blast
    qed
    have "mg_id ` set ms \<subseteq> set (map mg_id (flight_messages (ms, w)))" by (auto simp: flight_messages_def)
    moreover have "set (quiet_ids (fs @ gs)) \<subseteq> set (flight_ids (fs @ gs))" by (rule quiet_ids_flight)
    ultimately have "mg_id ` set ms \<inter> set (quiet_ids (fs @ gs)) = {}" using out by blast
    then show "set (mx_delivering mb') = set (quiet_ids (fs @ gs))"
      unfolding del old(3) by auto
    show "flight_ok (set (mailbox_pending mb')) f" if f: "f \<in> set (fs @ gs)" for f
      by (rule flight_ok_mono [OF old(4) [OF f]]) (use keep flight_ids_mem [OF f] in blast)
  qed
qed

lemma inv_acked:
  assumes inv: "mail_inv (mb, fs @ (ms, w) # gs)"
  shows "mail_ok (payloads (mx_journal (quiet_ack now ms mb)))"
    and "mailbox_pending (quiet_ack now ms mb) = filter (\<lambda>m. mg_id m \<notin> mg_id ` set ms) (mailbox_pending mb)"
    and "set (mx_delivering (quiet_ack now ms mb)) = set (mx_delivering mb) - mg_id ` set ms"
proof -
  from inv have "mail_ok (payloads (mx_journal mb))" by (simp add: mail_inv_pair)
  moreover from inv have "distinct (map mg_id ms)" by (simp add: mail_inv_pair flight_messages_def)
  moreover from inv have "set ms \<subseteq> set (mailbox_pending mb)" by (auto simp: mail_inv_pair flight_ok_def)
  ultimately have
    "mail_ok (payloads (mx_journal (foldl (\<lambda>b m. mail_append now (DeliveredEvent (mg_id m)) b) mb ms))) \<and>
     mx_delivering (foldl (\<lambda>b m. mail_append now (DeliveredEvent (mg_id m)) b) mb ms) = mx_delivering mb \<and>
     mx_roster (foldl (\<lambda>b m. mail_append now (DeliveredEvent (mg_id m)) b) mb ms) = mx_roster mb \<and>
     mailbox_pending (foldl (\<lambda>b m. mail_append now (DeliveredEvent (mg_id m)) b) mb ms) =
       filter (\<lambda>m. mg_id m \<notin> mg_id ` set ms) (mailbox_pending mb)"
    by (intro ack_list [OF _ _ _ refl]) (auto intro: image_mono)
  then show "mail_ok (payloads (mx_journal (quiet_ack now ms mb)))"
    "mailbox_pending (quiet_ack now ms mb) = filter (\<lambda>m. mg_id m \<notin> mg_id ` set ms) (mailbox_pending mb)"
    "set (mx_delivering (quiet_ack now ms mb)) = set (mx_delivering mb) - mg_id ` set ms"
    by (simp_all add: quiet_ack_def)
qed

lemma inv_accepted:
  assumes inv: "mail_inv (mb, fs @ (ms, Some m) # gs)"
  shows "mail_inv (deliver_accepted now ms m mb, fs @ gs)"
proof -
  note acked = inv_acked [OF inv, of now]
  from inv have m: "m \<in> set (mailbox_pending mb)" "mg_id m \<notin> mg_id ` set ms"
    by (auto simp: mail_inv_pair flight_ok_def flight_messages_def)
  then have "m \<in> set (mailbox_pending (quiet_ack now ms mb))" by (simp add: acked(2))
  then have ok: "mail_ok (payloads (mx_journal (deliver_accepted now ms m mb)))"
    unfolding deliver_accepted_def mail_append_fields
    by (intro mail_ok_deliver acked(1)) (simp add: mailbox_pending_def)
  have "mailbox_pending (deliver_accepted now ms m mb) =
      filter (\<lambda>x. mg_id x \<noteq> mg_id m) (mailbox_pending (quiet_ack now ms mb))"
    using \<open>m \<in> set (mailbox_pending (quiet_ack now ms mb))\<close>
    by (simp add: deliver_accepted_def mailbox_pending_def pending_deliver acked(1))
  then have pend: "mailbox_pending (deliver_accepted now ms m mb) =
      filter (\<lambda>x. mg_id x \<notin> mg_id ` set (flight_messages (ms, Some m))) (mailbox_pending mb)"
    by (simp add: acked(2) flight_messages_def conj_commute)
  show ?thesis
    by (rule inv_settle [OF inv ok pend]) (simp_all add: deliver_accepted_def acked(3))
qed

lemma mail_step_inv:
  assumes inv: "mail_inv s" and step: "mail_step s t"
  shows "mail_inv t"
  using step
proof (cases rule: mail_step.cases)
  case (ms_send mb m now r mb' fs)
  let ?b = "mail_append now (QueuedEvent m) mb"
  from inv ms_send(1) have inv: "mail_inv (mb, fs)" by simp
  note q = inv_queue [OF inv ms_send(4)]
  have pend: "m \<in> set (mailbox_pending ?b)" using inv ms_send(4) by (simp add: mail_inv_pair)
  obtain ms b where frame: "framePendingQuiet (mg_to m) ?b = (ms, b)" by force
  from ms_send(5) frame consider "r = None" "mb' = ?b"
    | "r = None" "mb' = quiet_release ms b"
    | "r = Some ms" "mb' = b" "mg_delivery m = Wakeup"
    by (auto simp: deliver_open_def split: option.splits if_splits prod.splits)
  then show ?thesis
  proof cases
    case 1
    with q ms_send(2) show ?thesis by simp
  next
    case 2
    have i: "mail_inv (b, [] @ (ms, None) # fs)" using inv_frame [OF q(1) frame, of None] by simp
    then have "mail_inv (quiet_release ms b, [] @ fs)"
      by (rule inv_settle [where D = "{}"]) (use i in \<open>simp_all add: mail_inv_pair\<close>)
    with 2 ms_send(2) show ?thesis by simp
  next
    case 3
    have "mail_inv (b, (ms, Some m) # fs)" using inv_frame [OF q(1) frame, of "Some m"] 3 pend q(2) by simp
    with 3 ms_send(2) show ?thesis by simp
  qed
next
  case (ms_frame to mb ms mb' fs)
  with inv show ?thesis by (auto intro: inv_frame)
next
  case (ms_refused mb fs ms w gs)
  with inv have i: "mail_inv (mb, fs @ (ms, w) # gs)" by simp
  then have "mail_inv (quiet_release ms mb, fs @ gs)"
    by (rule inv_settle [where D = "{}"]) (use i in \<open>simp_all add: mail_inv_pair\<close>)
  with ms_refused show ?thesis by simp
next
  case (ms_accepted mb fs ms m gs now)
  with inv show ?thesis by (auto intro: inv_accepted)
next
  case (ms_acked mb fs ms gs now)
  with inv have i: "mail_inv (mb, fs @ (ms, None) # gs)" by simp
  have "mail_inv (quiet_ack now ms mb, fs @ gs)"
    by (rule inv_settle [OF i inv_acked(1,2) [OF i]]) (simp_all add: flight_messages_def inv_acked(3) [OF i])
  with ms_acked show ?thesis by simp
next
  case (ms_other e mb fs now)
  with inv show ?thesis by (simp add: mail_inv_pair mailbox_pending_def)
qed

interpretation mail: inductive_invariant mail_start mail_step mail_inv
proof unfold_locales
  show "mail_inv s" if "mail_start s" for s
    using that by (cases s) (auto simp: mail_start_def mail_inv_pair payloads_def)
qed (rule mail_step_inv)


definition demo_mail :: mailbox where
  "demo_mail = \<lparr>mx_roster = [(''b'', \<lparr>ph_name = ''b'', ph_childId = Some ''c'', ph_remote = False\<rparr>)],
     mx_journal = journal_new ''p'' [], mx_delivering = []\<rparr>"

definition demo_mail1 :: "mailbox \<times> flight list" where
  "demo_mail1 =
     (let m = new_message ''1'' ''a'' ''b'' ''hi'' None;
          (r, mb) = deliver_open m (mail_append 1 (QueuedEvent m) demo_mail) in
      (mb, case r of None \<Rightarrow> [] | Some ms \<Rightarrow> [(ms, Some m)]))"

lemma demo_mail1_reachable: "reachable mail_start mail_step demo_mail1"
proof -
  have "mail_start (demo_mail, [])" by code_simp
  moreover have "mail_step (demo_mail, []) demo_mail1"
    unfolding demo_mail1_def Let_def
    by (auto split: prod.splits intro!: ms_send
      simp: demo_mail_def jm_has_def payloads_def new_message_def journal_new_def)
  ultimately show ?thesis by (meson reachable.intros)
qed


text \<open>A waking message whose delivery its peer refused stays pending, but the next waking delivery to that
  peer does not carry it, though it is accepted: only quiet mail rides along.\<close>

theorem refused_wakeup_not_carried:
  "case send (\<lambda>_ _ w. (Inl ''busy'', w)) 1 ''1'' ''a'' ''b'' ''first'' None demo_mail () of
     ((r1, mb1), _) \<Rightarrow>
       (case send (\<lambda>_ _ w. (Inr (), w)) 2 ''2'' ''a'' ''b'' ''second'' None mb1 () of
          ((r2, mb2), _) \<Rightarrow>
            r1 = Inl (DeliveryFailed ''busy'') \<and> map_sum (\<lambda>_. ()) mg_id r2 = Inr ''msg-2'' \<and>
            map mg_id (mailbox_pending mb2) = [''msg-1''])"
  by code_simp

end
