(* ===== verification/Questions.thy ===== *)
theory Questions
  imports RunLog
begin

text \<open>
  The question queue of a live run (\<open>SwarmService.launch\<close> in \<open>packages/swarm/src/index.ts\<close>):
  a question is journaled open, and the first of an answer, a reply at dsh's own prompt, its timeout or
  the run's end closes it; past the cap on open questions it takes its default at once.
\<close>

section \<open>The queue\<close>

record question_queue =
  qq_journal :: "swarm_event swarm_journal"
  qq_open :: "(string, question) jmap"
  qq_asked :: nat
  qq_ended :: bool
  qq_maxOpen :: nat
  qq_timeoutMs :: int

datatype answer_error = NoOpenQuestion string | NotAnOption string "string list" string

definition question_id :: "nat \<Rightarrow> string" where
  "question_id n = ''q-'' @ nat_str n"

text \<open>A resumed run's questions follow the ones its journal holds.\<close>

definition queue_new :: "swarm_event swarm_journal \<Rightarrow> nat \<Rightarrow> int \<Rightarrow> question_queue" where
  "queue_new j maxOpen timeoutMs =
     \<lparr>qq_journal = j, qq_open = [], qq_asked = length (jm_keys (foldQuestions (payloads j))), qq_ended = False,
      qq_maxOpen = maxOpen, qq_timeoutMs = timeoutMs\<rparr>"

definition recordQuestion :: "int \<Rightarrow> question \<Rightarrow> question_queue \<Rightarrow> question_queue" where
  "recordQuestion now q s = s\<lparr>qq_journal := snd (journal_append now (QuestionEvent q) (qq_journal s))\<rparr>"

definition new_question :: "int \<Rightarrow> nat \<Rightarrow> question_request \<Rightarrow> question" where
  "new_question now n r =
     \<lparr>qn_id = question_id n, qn_trigger = rq_trigger r, qn_kind = or_else (rq_kind r) Escalation,
      qn_tier = or_else (rq_tier r) Low, qn_prompt = rq_prompt r, qn_taskId = rq_taskId r, qn_options = rq_options r,
      qn_default = rq_default r, qn_status = Open, qn_answer = None, qn_by = None, qn_raisedAt = now, qn_closedAt = None\<rparr>"

definition closed_question :: "int \<Rightarrow> string \<Rightarrow> string option \<Rightarrow> question \<Rightarrow> question" where
  "closed_question now answer by q =
     q\<lparr>qn_status := (if by = None then Defaulted else Answered), qn_answer := Some answer, qn_by := by,
       qn_closedAt := Some now\<rparr>"

text \<open>\<open>close\<close>: the first caller wins, the rest find the question gone.\<close>

definition close_question :: "int \<Rightarrow> string \<Rightarrow> string \<Rightarrow> string option \<Rightarrow> question_queue \<Rightarrow> question_queue" where
  "close_question now i answer by s =
     (case jm_get (qq_open s) i of
        None \<Rightarrow> s
      | Some q \<Rightarrow> recordQuestion now (closed_question now answer by q) (s\<lparr>qq_open := jm_del i (qq_open s)\<rparr>))"

definition ask :: "int \<Rightarrow> question_request \<Rightarrow> question_queue \<Rightarrow> question_queue" where
  "ask now r s =
     (let q = new_question now (qq_asked s) r; s = s\<lparr>qq_asked := qq_asked s + 1\<rparr> in
      if qq_maxOpen s \<le> length (qq_open s)
      then recordQuestion now (q\<lparr>qn_status := Capped, qn_answer := Some (qn_default q), qn_closedAt := Some now\<rparr>) s
      else
        (let s = recordQuestion now q (s\<lparr>qq_open := jm_set (qn_id q) q (qq_open s)\<rparr>) in
         if qq_ended s \<or> qq_timeoutMs s \<le> 0 then close_question now (qn_id q) (qn_default q) None s else s))"

definition answer :: "int \<Rightarrow> string \<Rightarrow> string \<Rightarrow> string \<Rightarrow> question_queue \<Rightarrow> (answer_error + unit) \<times> question_queue" where
  "answer now i choice by s =
     (case jm_get (qq_open s) i of
        None \<Rightarrow> (Inl (NoOpenQuestion i), s)
      | Some q \<Rightarrow>
          if choice \<notin> set (qn_options q) then (Inl (NotAnOption i (qn_options q) choice), s)
          else (Inr (), close_question now i choice (Some by) s))"

definition to_lower :: "char \<Rightarrow> char" where
  "to_lower c = (if 65 \<le> (of_char c :: nat) \<and> (of_char c :: nat) \<le> 90 then char_of ((of_char c :: nat) + 32) else c)"

text \<open>A reply at dsh's prompt: anything but one of the options is no answer.\<close>

definition user_reply :: "int \<Rightarrow> string \<Rightarrow> string \<Rightarrow> question_queue \<Rightarrow> question_queue" where
  "user_reply now i text s =
     (case jm_get (qq_open s) i of
        None \<Rightarrow> s
      | Some q \<Rightarrow>
          (case find (\<lambda>opt. map to_lower opt = map to_lower (js_trim text)) (qn_options q) of
             None \<Rightarrow> s
           | Some choice \<Rightarrow> close_question now i choice (Some ''userQuestions'') s))"

definition question_timeout :: "int \<Rightarrow> string \<Rightarrow> question_queue \<Rightarrow> question_queue" where
  "question_timeout now i s =
     (case jm_get (qq_open s) i of None \<Rightarrow> s | Some q \<Rightarrow> close_question now i (qn_default q) None s)"

definition endQuestions :: "int \<Rightarrow> question_queue \<Rightarrow> question_queue" where
  "endQuestions now s =
     foldl (\<lambda>s q. close_question now (qn_id q) (qn_default q) None s) (s\<lparr>qq_ended := True\<rparr>) (jm_vals (qq_open s))"

section \<open>The machine\<close>

inductive q_step :: "question_queue \<Rightarrow> question_queue \<Rightarrow> bool" where
  qs_ask: "q_step s (ask now r s)"
| qs_answer: "q_step s (snd (answer now i choice by s))"
| qs_reply: "q_step s (user_reply now i text s)"
| qs_timeout: "q_step s (question_timeout now i s)"
| qs_end: "q_step s (endQuestions now s)"
| qs_other: "question_of e = None \<Longrightarrow> q_step s (s\<lparr>qq_journal := snd (journal_append now e (qq_journal s))\<rparr>)"

definition q_start :: "question_queue \<Rightarrow> bool" where
  "q_start s \<longleftrightarrow> (\<exists>inc maxOpen timeoutMs. s = queue_new (journal_new inc []) maxOpen timeoutMs)"

definition q_fold :: "question_queue \<Rightarrow> (string, question) jmap" where
  "q_fold s = foldQuestions (payloads (qq_journal s))"

text \<open>How a closed question may have been closed.\<close>

definition settled_ok :: "question \<Rightarrow> bool" where
  "settled_ok q \<longleftrightarrow>
     (case qn_status q of
        Open \<Rightarrow> qn_answer q = None \<and> qn_by q = None
      | Answered \<Rightarrow> qn_by q \<noteq> None \<and> (\<exists>a \<in> set (qn_options q). qn_answer q = Some a)
      | _ \<Rightarrow> qn_by q = None \<and> qn_answer q = Some (qn_default q))"

definition q_inv :: "question_queue \<Rightarrow> bool" where
  "q_inv s \<longleftrightarrow> jm_wf (qq_open s) \<and> length (qq_open s) \<le> qq_maxOpen s \<and>
     (qq_ended s \<longrightarrow> qq_open s = []) \<and>
     (\<forall>i \<in> set (jm_keys (q_fold s)). \<exists>n < qq_asked s. i = question_id n) \<and>
     (\<forall>i q. jm_get (qq_open s) i = Some q \<longleftrightarrow> jm_get (q_fold s) i = Some q \<and> qn_status q = Open) \<and>
     (\<forall>i q. jm_get (q_fold s) i = Some q \<longrightarrow> qn_id q = i \<and> settled_ok q)"

lemma question_id_inj [simp]: "question_id m = question_id n \<longleftrightarrow> m = n"
  by (simp add: question_id_def nat_str_inj)

lemma q_fold_record [simp]: "q_fold (recordQuestion now q s) = jm_set (qn_id q) q (q_fold s)"
  by (simp add: q_fold_def recordQuestion_def questions.folded_snapshot question_of_def)

lemma q_fold_fields [simp]:
  "q_fold (s\<lparr>qq_open := m\<rparr>) = q_fold s" "q_fold (s\<lparr>qq_asked := n\<rparr>) = q_fold s" "q_fold (s\<lparr>qq_ended := b\<rparr>) = q_fold s"
  by (simp_all add: q_fold_def)

lemma recordQuestion_fields [simp]:
  "qq_open (recordQuestion now q s) = qq_open s" "qq_asked (recordQuestion now q s) = qq_asked s"
  "qq_ended (recordQuestion now q s) = qq_ended s" "qq_maxOpen (recordQuestion now q s) = qq_maxOpen s"
  "qq_timeoutMs (recordQuestion now q s) = qq_timeoutMs s"
  by (simp_all add: recordQuestion_def)

lemma closed_fields [simp]:
  "qn_id (closed_question now a by q) = qn_id q" "qn_status (closed_question now a by q) = (if by = None then Defaulted else Answered)"
  "qn_options (closed_question now a by q) = qn_options q" "qn_default (closed_question now a by q) = qn_default q"
  "qn_answer (closed_question now a by q) = Some a" "qn_by (closed_question now a by q) = by"
  by (simp_all add: closed_question_def)

lemma new_question_fields [simp]:
  "qn_id (new_question now n r) = question_id n" "qn_status (new_question now n r) = Open"
  "qn_answer (new_question now n r) = None" "qn_by (new_question now n r) = None"
  "qn_options (new_question now n r) = rq_options r" "qn_default (new_question now n r) = rq_default r"
  by (simp_all add: new_question_def)

lemma length_jm_del: "length (jm_del i m) \<le> length m"
  by (induction m) (auto simp: jm_del_def)

lemma jm_del_set_new: "k \<notin> set (jm_keys m) \<Longrightarrow> jm_del k (jm_set k v m) = m"
  by (induction m) (auto simp: jm_del_def jm_set_def jm_keys_def)

lemma q_inv_new:
  assumes "q_inv s"
  shows "jm_get (q_fold s) (question_id (qq_asked s)) = None" "jm_get (qq_open s) (question_id (qq_asked s)) = None"
proof -
  show "jm_get (q_fold s) (question_id (qq_asked s)) = None"
    using assms by (fastforce simp: q_inv_def jm_get_None_iff)
  with assms show "jm_get (qq_open s) (question_id (qq_asked s)) = None"
    by (cases "jm_get (qq_open s) (question_id (qq_asked s))") (auto simp: q_inv_def)
qed

lemma close_inv:
  assumes inv: "q_inv s" and a: "\<And>q. jm_get (qq_open s) i = Some q \<Longrightarrow>
    (if by = None then a = qn_default q else a \<in> set (qn_options q))"
  shows "q_inv (close_question now i a by s)"
proof (cases "jm_get (qq_open s) i")
  case None
  with inv show ?thesis by (simp add: close_question_def)
next
  case (Some q)
  with inv have q: "jm_get (q_fold s) i = Some q" "qn_status q = Open" "qn_id q = i" by (auto simp: q_inv_def)
  then have "i \<in> set (jm_keys (q_fold s))" by (metis jm_get_None_iff option.distinct(1))
  then have keys: "jm_keys (jm_set i (closed_question now a by q) (q_fold s)) = jm_keys (q_fold s)"
    by (simp add: jm_keys_set)
  have "settled_ok (closed_question now a by q) \<and> qn_status (closed_question now a by q) \<noteq> Open"
    using a [OF Some] by (auto simp: settled_ok_def split: if_splits)
  then have new: "qn_id (closed_question now a by q) = i \<and> settled_ok (closed_question now a by q) \<and>
      qn_status (closed_question now a by q) \<noteq> Open"
    using q(3) by simp
  have eq: "close_question now i a by s =
      recordQuestion now (closed_question now a by q) (s\<lparr>qq_open := jm_del i (qq_open s)\<rparr>)"
    by (simp add: close_question_def Some)
  have "length (jm_del i (qq_open s)) \<le> qq_maxOpen s"
    using inv length_jm_del [of i "qq_open s"] by (simp add: q_inv_def)
  moreover have "\<not> qq_ended s" using inv Some by (auto simp: q_inv_def)
  ultimately show ?thesis
    using inv new keys unfolding eq q_inv_def by (simp add: q(3))
qed

lemma jm_del_filter: "jm_del i m = filter (\<lambda>kv. fst kv \<noteq> i) m"
  by (induction m) (auto simp: jm_del_def)

lemma close_ended:
  "close_question now i a by (u\<lparr>qq_ended := b\<rparr>) = (close_question now i a by u)\<lparr>qq_ended := b\<rparr>"
  by (cases u) (simp add: close_question_def recordQuestion_def split: option.splits)

lemma q_inv_ended: "q_inv (t\<lparr>qq_ended := False\<rparr>) \<Longrightarrow> (qq_ended t \<Longrightarrow> qq_open t = []) \<Longrightarrow> q_inv t"
  by (simp add: q_inv_def)

lemma ask_inv:
  assumes inv: "q_inv s"
  shows "q_inv (ask now r s)"
proof -
  note fresh = q_inv_new [OF inv]
  let ?s = "s\<lparr>qq_asked := qq_asked s + 1\<rparr>"
  let ?q = "new_question now (qq_asked s) r"
  have nk: "question_id (qq_asked s) \<notin> set (jm_keys (q_fold s))" "question_id (qq_asked s) \<notin> set (jm_keys (qq_open s))"
    using fresh by (simp_all add: jm_get_None_iff)
  have keys: "\<forall>i \<in> set (jm_keys (q_fold s)). \<exists>n < Suc (qq_asked s). i = question_id n"
    using inv by (force simp: q_inv_def)
  show ?thesis
  proof (cases "qq_maxOpen s \<le> length (qq_open s)")
    case True
    let ?c = "?q\<lparr>qn_status := Capped, qn_answer := Some (qn_default ?q), qn_closedAt := Some now\<rparr>"
    have c: "settled_ok ?c" "qn_status ?c \<noteq> Open" "qn_id ?c = question_id (qq_asked s)"
      by (simp_all add: settled_ok_def)
    have "ask now r s = recordQuestion now ?c ?s" using True by (simp add: ask_def Let_def)
    with inv c keys nk fresh show ?thesis
      by (auto simp: q_inv_def jm_keys_set)
  next
    case False
    let ?o = "recordQuestion now ?q (?s\<lparr>qq_open := jm_set (qn_id ?q) ?q (qq_open s)\<rparr>)"
    have q: "settled_ok ?q" by (simp add: settled_ok_def)
    have len: "length (jm_set (question_id (qq_asked s)) ?q (qq_open s)) = Suc (length (qq_open s))"
      using nk by (simp add: jm_set_snoc)
    have o: "q_inv (?o\<lparr>qq_ended := False\<rparr>)"
      using inv q keys nk fresh len False by (auto simp: q_inv_def jm_keys_set)
    show ?thesis
    proof (cases "qq_ended s \<or> qq_timeoutMs s \<le> 0")
      case True
      then have eq: "ask now r s = close_question now (qn_id ?q) (qn_default ?q) None ?o"
        using False by (simp add: ask_def Let_def)
      let ?t = "close_question now (qn_id ?q) (qn_default ?q) None ?o"
      have "q_inv (close_question now (qn_id ?q) (qn_default ?q) None (?o\<lparr>qq_ended := False\<rparr>))"
        by (rule close_inv [OF o]) simp
      then have "q_inv (?t\<lparr>qq_ended := False\<rparr>)" by (simp only: close_ended)
      moreover have "qq_open ?t = qq_open s"
        using nk by (simp add: close_question_def jm_del_set_new)
      moreover have "qq_ended ?t = qq_ended s"
        by (simp add: close_question_def)
      moreover have "qq_ended s \<Longrightarrow> qq_open s = []" using inv by (simp add: q_inv_def)
      ultimately show ?thesis unfolding eq by (metis q_inv_ended)
    next
      case False
      with \<open>\<not> qq_maxOpen s \<le> length (qq_open s)\<close> have "ask now r s = ?o" by (simp add: ask_def Let_def)
      with o False show ?thesis by (simp add: q_inv_def)
    qed
  qed
qed

lemma close_each_inv: "q_inv s \<Longrightarrow> q_inv (foldl (\<lambda>s q. close_question now (qn_id q) (qn_default q) None s) s qs)
  \<or> \<not> (\<forall>q \<in> set qs. \<forall>u. jm_get (qq_open s) (qn_id q) = Some u \<longrightarrow> u = q)"
proof (induction qs arbitrary: s)
  case Nil
  then show ?case by simp
next
  case (Cons q qs)
  show ?case
  proof (cases "\<forall>q' \<in> set (q # qs). \<forall>u. jm_get (qq_open s) (qn_id q') = Some u \<longrightarrow> u = q'")
    case True
    let ?s = "close_question now (qn_id q) (qn_default q) None s"
    have "q_inv ?s" using Cons.prems True by (intro close_inv) auto
    moreover have "\<forall>q' \<in> set qs. \<forall>u. jm_get (qq_open ?s) (qn_id q') = Some u \<longrightarrow> u = q'"
      using True by (auto simp: close_question_def split: option.splits if_splits)
    ultimately show ?thesis using Cons.IH [of ?s] by simp
  next
    case False
    then show ?thesis by blast
  qed
qed

lemma close_each_open:
  "qq_open (foldl (\<lambda>s q. close_question now (qn_id q) (qn_default q) None s) s qs) =
     filter (\<lambda>kv. fst kv \<notin> qn_id ` set qs) (qq_open s)"
proof (induction qs arbitrary: s)
  case Nil
  then show ?case by simp
next
  case (Cons q qs)
  have "qq_open (close_question now (qn_id q) (qn_default q) None s) = filter (\<lambda>kv. fst kv \<noteq> qn_id q) (qq_open s)"
  proof (cases "jm_get (qq_open s) (qn_id q)")
    case None
    then have "qn_id q \<notin> fst ` set (qq_open s)" by (simp add: jm_get_None_iff jm_keys_def)
    then have "filter (\<lambda>kv. fst kv \<noteq> qn_id q) (qq_open s) = qq_open s" by (intro filter_True) force
    with None show ?thesis by (simp add: close_question_def)
  next
    case (Some u)
    then show ?thesis by (simp add: close_question_def jm_del_filter)
  qed
  with Cons.IH show ?case by (simp add: conj_commute)
qed

lemma close_each_fields:
  "qq_ended (foldl (\<lambda>s q. close_question now (qn_id q) (qn_default q) None s) s qs) = qq_ended s"
  by (induction qs arbitrary: s) (simp_all add: close_question_def split: option.splits)

lemma end_inv:
  assumes "q_inv s"
  shows "q_inv (endQuestions now s)" "qq_open (endQuestions now s) = []" "qq_ended (endQuestions now s)"
proof -
  let ?f = "\<lambda>s. foldl (\<lambda>s q. close_question now (qn_id q) (qn_default q) None s) s (jm_vals (qq_open s))"
  have keyed: "qn_id q = i" if "(i, q) \<in> set (qq_open s)" for i q
    using assms that by (auto simp: q_inv_def simp flip: jm_get_Some_iff)
  then have "fst kv \<in> qn_id ` set (jm_vals (qq_open s))" if "kv \<in> set (qq_open s)" for kv
    using that by (cases kv) (force simp: jm_vals_def image_iff)
  then show o: "qq_open (endQuestions now s) = []"
    by (simp add: endQuestions_def close_each_open)
  have eq: "endQuestions now s = foldl (\<lambda>s q. close_question now (qn_id q) (qn_default q) None s) (s\<lparr>qq_ended := True\<rparr>) (jm_vals (qq_open s))"
    by (simp add: endQuestions_def)
  then show "qq_ended (endQuestions now s)" by (simp add: close_each_fields)
  have move: "foldl (\<lambda>s q. close_question now (qn_id q) (qn_default q) None s) (u\<lparr>qq_ended := b\<rparr>) qs =
      (foldl (\<lambda>s q. close_question now (qn_id q) (qn_default q) None s) u qs)\<lparr>qq_ended := b\<rparr>" for u b qs
    by (induction qs arbitrary: u) (simp_all add: close_ended)
  have "\<forall>q \<in> set (jm_vals (qq_open s)). \<forall>u. jm_get (qq_open s) (qn_id q) = Some u \<longrightarrow> u = q"
    using assms keyed by (auto simp: q_inv_def jm_vals_def) (metis jm_get_Some_iff option.inject)
  with close_each_inv [OF assms, of now "jm_vals (qq_open s)"] have "q_inv (?f s)" by blast
  with o show "q_inv (endQuestions now s)"
    unfolding eq move by (simp add: q_inv_def)
qed

lemma q_step_inv: "q_inv s \<Longrightarrow> q_step s t \<Longrightarrow> q_inv t"
proof (erule q_step.cases)
  fix now r s'
  assume "q_inv s" "s = s'" "t = ask now r s'"
  then show ?thesis by (simp add: ask_inv)
next
  fix s' now i choice by'
  assume "q_inv s" "s = s'" "t = snd (answer now i choice by' s')"
  then show ?thesis by (auto simp: answer_def split: option.splits intro: close_inv)
next
  fix s' now i text'
  assume "q_inv s" "s = s'" "t = user_reply now i text' s'"
  then show ?thesis
    by (auto simp: user_reply_def find_Some_iff split: option.splits intro!: close_inv)
next
  fix s' now i
  assume "q_inv s" "s = s'" "t = question_timeout now i s'"
  then show ?thesis by (auto simp: question_timeout_def split: option.splits intro!: close_inv)
next
  fix s' now
  assume "q_inv s" "s = s'" "t = endQuestions now s'"
  then show ?thesis by (simp add: end_inv)
next
  fix e s' now
  assume "q_inv s" "s = s'" "t = s'\<lparr>qq_journal := snd (journal_append now e (qq_journal s'))\<rparr>" "question_of e = None"
  moreover from this have "q_fold t = q_fold s" by (simp add: q_fold_def questions.folded_other)
  ultimately show ?thesis by (simp add: q_inv_def)
qed

interpretation questionqueue: inductive_invariant q_start q_step q_inv
proof unfold_locales
  show "q_inv s" if "q_start s" for s
    using that by (auto simp: q_start_def q_inv_def queue_new_def q_fold_def questions.folded_Nil)
qed (rule q_step_inv)

section \<open>Properties\<close>

text \<open>C17: in every reachable state of the queue no more questions are open than the cap allows, none once the run
  ended; the open ones are exactly those the journal shows open; and a closed one was answered, by somebody named,
  with one of its options, or took its own default with nobody named.\<close>

theorem question_queue_sound:
  assumes "reachable q_start q_step s"
  shows "length (qq_open s) \<le> qq_maxOpen s \<and> (qq_ended s \<longrightarrow> qq_open s = []) \<and>
    (\<forall>i q. jm_get (qq_open s) i = Some q \<longleftrightarrow> jm_get (q_fold s) i = Some q \<and> qn_status q = Open) \<and>
    (\<forall>i q. jm_get (q_fold s) i = Some q \<longrightarrow> qn_id q = i \<and> settled_ok q)"
proof -
  have "q_inv s" by (rule questionqueue.reachable_inv [OF assms])
  then show ?thesis unfolding q_inv_def by blast
qed

definition demo_request :: question_request where
  "demo_request = \<lparr>rq_trigger = Stall, rq_prompt = ''p'', rq_options = [''stop'', ''go''], rq_default = ''stop'',
     rq_kind = None, rq_tier = None, rq_taskId = None\<rparr>"

definition demo_queue0 :: question_queue where
  "demo_queue0 = queue_new (journal_new ''p1'' []) 1 1000"

definition demo_queue1 :: question_queue where
  "demo_queue1 = ask 5 demo_request demo_queue0"

definition demo_queue2 :: question_queue where
  "demo_queue2 = snd (answer 6 ''q-0'' ''go'' ''owner'' demo_queue1)"

definition demo_queue3 :: question_queue where
  "demo_queue3 = question_timeout 7 ''q-0'' demo_queue2"

lemma demo_queue1_reachable: "reachable q_start q_step demo_queue1"
proof -
  have "q_start demo_queue0" by (auto simp: q_start_def demo_queue0_def)
  then show ?thesis unfolding demo_queue1_def by (rule reach_step [OF reach_start]) (rule qs_ask)
qed

lemma demo_queue2_reachable: "reachable q_start q_step demo_queue2"
  unfolding demo_queue2_def by (intro reach_step [OF demo_queue1_reachable] qs_answer)

theorem question_queue_sound_witness:
  "settled_ok (the (jm_get (q_fold demo_queue2) ''q-0'')) \<and>
   qn_answer (the (jm_get (q_fold demo_queue2) ''q-0'')) = Some ''go''"
proof -
  have "jm_get (q_fold demo_queue2) ''q-0'' = Some (the (jm_get (q_fold demo_queue2) ''q-0''))" by code_simp
  with question_queue_sound [OF demo_queue2_reachable]
  have "settled_ok (the (jm_get (q_fold demo_queue2) ''q-0''))" by blast
  moreover have "qn_answer (the (jm_get (q_fold demo_queue2) ''q-0'')) = Some ''go''" by code_simp
  ultimately show ?thesis ..
qed

text \<open>What keeps a closed question's record: it is not open, and only open questions are recorded again.\<close>

definition stays :: "string \<Rightarrow> question \<Rightarrow> question_queue \<Rightarrow> bool" where
  "stays i q s \<longleftrightarrow> jm_keyed qn_id (qq_open s) \<and> jm_get (qq_open s) i = None \<and> jm_get (q_fold s) i = Some q"

lemma jm_keyed_del [simp]: "jm_keyed f m \<Longrightarrow> jm_keyed f (jm_del k m)"
  by (auto simp: jm_keyed_def jm_del_filter)

lemma stays_close: "stays i q s \<Longrightarrow> stays i q (close_question now j a by s)"
proof (cases "jm_get (qq_open s) j")
  case (Some u)
  assume st: "stays i q s"
  with Some have "qn_id u = j" "j \<noteq> i" by (auto simp: stays_def dest: jm_keyed_get)
  with st Some show ?thesis by (auto simp: stays_def close_question_def)
qed (simp add: close_question_def)

lemma stays_closes: "stays i q s \<Longrightarrow> stays i q (foldl (\<lambda>s q. close_question now (qn_id q) (qn_default q) None s) s qs)"
  by (induction qs arbitrary: s) (simp_all add: stays_close)

lemma stays_step:
  assumes "q_inv s" "stays i q s" "q_step s t"
  shows "stays i q t"
  using assms(3)
proof (cases rule: q_step.cases)
  case (qs_ask now r)
  have "question_id (qq_asked s) \<noteq> i"
    using q_inv_new(1) [OF assms(1)] assms(2) by (auto simp: stays_def)
  then have "stays i q (recordQuestion now (new_question now (qq_asked s) r)
      (s\<lparr>qq_asked := qq_asked s + 1, qq_open := jm_set (question_id (qq_asked s)) (new_question now (qq_asked s) r) (qq_open s)\<rparr>))"
    using assms(2) by (simp add: stays_def)
  with \<open>question_id (qq_asked s) \<noteq> i\<close> qs_ask assms(2) show ?thesis
    by (auto simp: ask_def Let_def stays_close) (auto simp: stays_def)
next
  case (qs_answer now j choice by')
  with assms(2) show ?thesis by (auto simp: answer_def stays_close split: option.splits)
next
  case (qs_reply now j text')
  with assms(2) show ?thesis by (auto simp: user_reply_def stays_close split: option.splits)
next
  case (qs_timeout now j)
  with assms(2) show ?thesis by (auto simp: question_timeout_def stays_close split: option.splits)
next
  case (qs_end now)
  have "stays i q (s\<lparr>qq_ended := True\<rparr>)" using assms(2) by (simp add: stays_def)
  with qs_end show ?thesis by (simp add: endQuestions_def stays_closes)
next
  case (qs_other e now)
  with assms(2) show ?thesis by (simp add: stays_def q_fold_def questions.folded_other)
qed

text \<open>the first to close a question wins: once the journal shows it closed, no later answer, reply, timeout or
  end of the run changes its record.\<close>

theorem first_answer_wins:
  assumes "reachable q_start q_step s" "jm_get (q_fold s) i = Some q" "qn_status q \<noteq> Open" "q_step\<^sup>*\<^sup>* s t"
  shows "jm_get (q_fold t) i = Some q"
proof -
  have inv: "q_inv s" by (rule questionqueue.reachable_inv [OF assms(1)])
  have "stays i q s"
    unfolding stays_def
  proof (intro conjI)
    have "qn_id u = j" if "(j, u) \<in> set (qq_open s)" for j u
    proof -
      from inv have "jm_wf (qq_open s)" unfolding q_inv_def by blast
      with that have "jm_get (qq_open s) j = Some u" by (simp add: jm_get_Some_iff)
      with inv show ?thesis unfolding q_inv_def by blast
    qed
    then show "jm_keyed qn_id (qq_open s)" by (auto simp: jm_keyed_def)
    show "jm_get (qq_open s) i = None"
    proof (rule ccontr)
      assume "jm_get (qq_open s) i \<noteq> None"
      then obtain u where "jm_get (qq_open s) i = Some u" by blast
      with inv have "jm_get (q_fold s) i = Some u \<and> qn_status u = Open" unfolding q_inv_def by blast
      with assms(2,3) show False by simp
    qed
  qed (rule assms(2))
  from assms(4) this have "stays i q t"
  proof (induction rule: rtranclp_induct)
    case base
    then show ?case .
  next
    case (step t u)
    then show ?case using questionqueue.run_inv [OF step(1) inv] stays_step by blast
  qed
  then show ?thesis by (simp add: stays_def)
qed

theorem first_answer_wins_witness:
  "jm_get (q_fold demo_queue3) ''q-0'' = jm_get (q_fold demo_queue2) ''q-0'' \<and>
   jm_get (q_fold demo_queue3) ''q-0'' \<noteq> None"
proof -
  have a: "jm_get (q_fold demo_queue2) ''q-0'' = Some (the (jm_get (q_fold demo_queue2) ''q-0''))"
    "qn_status (the (jm_get (q_fold demo_queue2) ''q-0'')) \<noteq> Open" by code_simp+
  have "q_step\<^sup>*\<^sup>* demo_queue2 demo_queue3" unfolding demo_queue3_def by (intro r_into_rtranclp qs_timeout)
  from first_answer_wins [OF demo_queue2_reachable a this] a(1) show ?thesis by (metis option.distinct(1))
qed

end
