(* ===== verification/Metrics.thy ===== *)
theory Metrics
  imports RunLog
begin

text \<open>
  \<open>packages/swarm/src/metrics.ts\<close>: usage, prices, and the fold of a run's journal and its
  train's journal into its metrics. A row the journals cannot support is \<open>None\<close>, with why in
  \<open>unsupported\<close>. Rates and dollars are exact rationals; the log and process readers
  (\<open>usageFromLogs\<close>, \<open>recordUsage\<close>) are the theory \<open>Metering\<close>.
\<close>

section \<open>Usage and prices\<close>

definition emptyUsage :: usage where
  "emptyUsage = \<lparr>us_input = 0, us_output = 0, us_cacheRead = 0, us_cacheWrite = 0, us_calls = 0\<rparr>"

definition tokensOf :: "usage \<Rightarrow> nat" where
  "tokensOf u = us_input u + us_output u + us_cacheRead u + us_cacheWrite u"

definition addUsage :: "usage \<Rightarrow> usage \<Rightarrow> usage" where
  "addUsage t u = \<lparr>us_input = us_input t + us_input u, us_output = us_output t + us_output u,
     us_cacheRead = us_cacheRead t + us_cacheRead u, us_cacheWrite = us_cacheWrite t + us_cacheWrite u,
     us_calls = us_calls t + us_calls u\<rparr>"

record price =
  pr_input :: rat
  pr_output :: rat
  pr_cacheRead :: "rat option"
  pr_cacheWrite :: "rat option"

type_synonym pricing = "(string, price) jmap"

definition price_of :: "price \<Rightarrow> usage \<Rightarrow> rat" where
  "price_of p u = (of_nat (us_input u) * pr_input p + of_nat (us_output u) * pr_output p +
     of_nat (us_cacheRead u) * or_else (pr_cacheRead p) (pr_input p) +
     of_nat (us_cacheWrite u) * or_else (pr_cacheWrite p) (pr_input p)) / 1000000"

definition priced :: "(string, usage) jmap \<Rightarrow> pricing option \<Rightarrow> string + rat" where
  "priced byModel table =
     (case table of
        None \<Rightarrow> Inl ''no pricing configured (SwarmConfig.pricing, or --pricing <file>)''
      | Some pricing \<Rightarrow>
          (let spent = filter (\<lambda>(_, u). tokensOf u > 0) byModel;
               unpriced = filter (\<lambda>m. \<not> jm_has pricing m) (map fst spent) in
           if unpriced \<noteq> [] then Inl (''no price for '' @ js_join '', '' unpriced)
           else Inr (foldl (\<lambda>usd (m, u). usd + price_of (the (jm_get pricing m)) u) 0 spent)))"

definition model_key :: "usage_event \<Rightarrow> string" where
  "model_key u = or_else (ue_model u) ''unknown''"

definition runUsd :: "usage_event \<Rightarrow> pricing option \<Rightarrow> rat option" where
  "runUsd r pricing =
     (case ue_costUsd r of
        Some usd \<Rightarrow> Some usd
      | None \<Rightarrow>
          if ue_unmeasured r then None
          else if tokensOf (ue_usage r) = 0 then Some 0
          else (case priced [(model_key r, ue_usage r)] pricing of Inl _ \<Rightarrow> None | Inr usd \<Rightarrow> Some usd))"

definition usageUnmeasured :: "run_record option \<Rightarrow> string option" where
  "usageUnmeasured run =
     (if (case Option.bind run rr_spec of Some (PeerTeamSpec s) \<Rightarrow> ps_messaging s = Some True | _ \<Rightarrow> False)
      then Some (''messaging peers'' @ [CHR 0x27] @ '' usage is not journaled yet'')
      else if \<not> (case run of None \<Rightarrow> False | Some r \<Rightarrow> rr_usageJournaled r) then Some ''the run predates usage records''
      else None)"

section \<open>The metrics\<close>

record tokens_row =
  tk_usage :: usage
  tk_total :: nat
  tk_byPrincipal :: "(string, nat) jmap"
  tk_byModel :: "(string, nat) jmap"
  tk_byRuntime :: "(string, nat) jmap"

datatype dollar_source = FromPricing | FromRuntime | Mixed

record dollars_row =
  dl_total :: rat
  dl_byModel :: "(string, rat) jmap"
  dl_byRuntime :: "(string, rat) jmap"
  dl_source :: dollar_source
  dl_unreported :: "nat option"

record coordination_row =
  cn_ratio :: "rat option"
  cn_coordination :: nat
  cn_task :: nat
  cn_review :: nat
  cn_repair :: nat
  cn_resolve :: nat
  cn_lead :: nat

record interventions_row =
  iv_steers :: nat
  iv_answers :: nat
  iv_restarts :: nat
  iv_questions :: "(trigger, nat) jmap"
  iv_medianTimeToAnswerMs :: "rat option"

record landing_row =
  ln_entries :: nat
  ln_landed :: nat
  ln_landingRate :: "rat option"
  ln_cleanMergeRate :: "rat option"
  ln_bisects :: "nat option"
  ln_conflicts :: nat
  ln_latencyMs :: "(rat \<times> int) option"

record tasks_row =
  tsk_seeded :: nat
  tsk_lost :: nat
  tsk_duplicated :: nat

record run_metrics =
  mt_runId :: string
  mt_landed :: "nat option"
  mt_levels :: "(string, nat) jmap option"
  mt_tokens :: "tokens_row option"
  mt_dollars :: "dollars_row option"
  mt_wallClockMs :: int
  mt_coordination :: "coordination_row option"
  mt_interventions :: interventions_row
  mt_landing :: "landing_row option"
  mt_tasks :: "tasks_row option"
  mt_tamper :: "nat \<times> nat"
  mt_costPerLanding :: "(nat \<times> rat option) option"
  mt_unsupported :: "(string, string) jmap"

type_synonym unsupported = "(string, string) jmap"

text \<open>A row is its value, or a reason put under its key.\<close>

definition row :: "string \<Rightarrow> string + 'a \<Rightarrow> unsupported \<Rightarrow> 'a option \<times> unsupported" where
  "row key v un = (case v of Inl reason \<Rightarrow> (None, jm_set key reason un) | Inr x \<Rightarrow> (Some x, un))"

definition median :: "int list \<Rightarrow> rat" where
  "median xs =
     (let s = sort xs; mid = length s div 2 in
      if length s mod 2 = 1 then of_int (s ! mid) else of_int (s ! (mid - 1) + s ! mid) / 2)"

definition js_round :: "rat \<Rightarrow> int" where
  "js_round q = \<lfloor>q + 1 / 2\<rfloor>"

definition usages_of :: "swarm_event list \<Rightarrow> usage_event list" where
  "usages_of es = List.map_filter (\<lambda>e. case e of UsageEvent u \<Rightarrow> Some u | _ \<Rightarrow> None) es"

definition run_git :: "merge_outcome option \<Rightarrow> run_record \<Rightarrow> merge_outcome option" where
  "run_git git run = or_opt git (or_opt (rr_resultGit run) (rr_git run))"

definition in_place :: string where
  "in_place = ''nothing lands: the run'' @ [CHR 0x27] @ ''s members work in place, without worktrees''"

definition predates :: "merge_outcome option \<Rightarrow> run_record \<Rightarrow> train_event jevent list \<Rightarrow> string option" where
  "predates git run train =
     (if rr_landing run = None \<and> (run_git git run \<noteq> None \<or> train \<noteq> []) then Some ''the run predates landing records''
      else None)"

definition bundles_of :: "swarm_event list \<Rightarrow> train_event list \<Rightarrow> landing_evidence list" where
  "bundles_of es ts =
     List.map_filter (\<lambda>e. case e of TrEvidence b \<Rightarrow> Some b | _ \<Rightarrow> None) ts @
     List.map_filter (\<lambda>e. case e of EvidenceEvent b \<Rightarrow> Some b | _ \<Rightarrow> None) es"

text \<open>The numerator: landings with evidence, or a board's completed tasks in place.\<close>

definition landed_levels ::
  "string option \<Rightarrow> run_record \<Rightarrow> landing_evidence list \<Rightarrow> task list \<Rightarrow> verifier_level list option" where
  "landed_levels pre run bundles board =
     (if pre \<noteq> None then None
      else if rr_landing run \<noteq> None then Some (map le_level (filter (\<lambda>b. la_outcome b = OutLanded) bundles))
      else if rr_topology run = PeerTeam
        then Some (map (\<lambda>t. case tk_evidence t of None \<Rightarrow> L0 | Some e \<Rightarrow> effectiveLevel e)
               (filter (\<lambda>t. tk_status t = Completed) board))
      else None)"

definition level_key :: "verifier_level \<Rightarrow> string" where
  "level_key l = ''L'' @ nat_str (level_num l)"

text \<open>The denominator: tokens and dollars by principal, model and runtime.\<close>

definition usage_by_model :: "usage_event list \<Rightarrow> (string, usage) jmap" where
  "usage_by_model us =
     foldl (\<lambda>m u. jm_set (model_key u) (addUsage (or_else (jm_get m (model_key u)) emptyUsage) (ue_usage u)) m) [] us"

definition role_tokens :: "usage_role \<Rightarrow> usage_event list \<Rightarrow> nat" where
  "role_tokens r us = sum_list (map (\<lambda>u. tokensOf (ue_usage u)) (filter (\<lambda>u. ue_role u = r) us))"

definition tokens_of_run :: "usage_event list \<Rightarrow> tokens_row" where
  "tokens_of_run us =
     (let total = foldl addUsage emptyUsage (jm_vals (usage_by_model us)); n = (\<lambda>u. tokensOf (ue_usage u)) in
      \<lparr>tk_usage = total, tk_total = tokensOf total, tk_byPrincipal = tally_by ue_member n us,
       tk_byModel = tally_by model_key n us, tk_byRuntime = tally_by ue_runtime n us\<rparr>)"

text \<open>A runtime's own dollars win; the table prices the others, and what it cannot price is counted.\<close>

definition dollars_of_run :: "pricing option \<Rightarrow> usage_event list \<Rightarrow> string + dollars_row" where
  "dollars_of_run pricing us =
     (let reported = (\<exists>u \<in> set us. ue_costUsd u \<noteq> None);
          usd = (if reported then Inr 0 else priced (usage_by_model us) pricing);
          dollarsOf = (\<lambda>u. or_else (runUsd u pricing) 0);
          byModel = tally_by model_key dollarsOf us;
          unreported = length (filter (\<lambda>u. runUsd u pricing = None) us);
          tabled = (\<exists>u \<in> set us. ue_costUsd u = None \<and> tokensOf (ue_usage u) > 0 \<and> runUsd u pricing \<noteq> None) in
      case usd of
        Inl reason \<Rightarrow> Inl reason
      | Inr _ \<Rightarrow> Inr \<lparr>dl_total = sum_list (jm_vals byModel), dl_byModel = byModel,
          dl_byRuntime = tally_by ue_runtime dollarsOf us,
          dl_source = (if \<not> reported then FromPricing else if tabled then Mixed else FromRuntime),
          dl_unreported = (if unreported = 0 then None else Some unreported)\<rparr>)"

definition coordination_of_run :: "usage_event list \<Rightarrow> unsupported \<Rightarrow> coordination_row \<times> unsupported" where
  "coordination_of_run us un =
     (let task = role_tokens TaskRole us; review = role_tokens ReviewRole us; repair = role_tokens RepairRole us;
          resolve = role_tokens ResolveRole us; lead = role_tokens LeadRole us;
          c = review + repair + resolve + lead;
          (ratio, un') = row ''coordination.ratio''
            (if task > 0 then Inr (of_nat c / of_nat task) else Inl ''no task-work tokens to divide by'') un in
      (\<lparr>cn_ratio = ratio, cn_coordination = c, cn_task = task, cn_review = review, cn_repair = repair,
        cn_resolve = resolve, cn_lead = lead\<rparr>, un'))"

definition interventions_of_run :: "swarm_event list \<Rightarrow> unsupported \<Rightarrow> interventions_row \<times> unsupported" where
  "interventions_of_run es un =
     (let questions = jm_vals (foldQuestions es);
          answered = filter (\<lambda>q. qn_status q = Answered \<and> qn_closedAt q \<noteq> None) questions;
          (m, un') = row ''interventions.medianTimeToAnswerMs''
            (if answered = [] then Inl ''no question was answered''
             else Inr (median (map (\<lambda>q. the (qn_closedAt q) - qn_raisedAt q) answered))) un in
      (\<lparr>iv_steers = length (filter (\<lambda>e. case e of SteerEvent _ \<Rightarrow> True | _ \<Rightarrow> False) es),
        iv_answers = length answered,
        iv_restarts = length (filter (\<lambda>e. case e of RestartEvent _ \<Rightarrow> True | _ \<Rightarrow> False) es),
        iv_questions = counts (map qn_trigger questions),
        iv_medianTimeToAnswerMs = m\<rparr>, un'))"

text \<open>The train's health: first enqueueing and last landing of each key, and what was not clean about it.\<close>

definition enqueued_at :: "train_event jevent list \<Rightarrow> (string, int) jmap" where
  "enqueued_at ts =
     foldl (\<lambda>m e. case je_data e of
        TrEnqueued r _ _ _ _ _ \<Rightarrow> if jm_has m (er_key r) then m else jm_set (er_key r) (je_time e) m
      | _ \<Rightarrow> m) [] ts"

definition landed_at :: "train_event jevent list \<Rightarrow> (string, int) jmap" where
  "landed_at ts = foldl (\<lambda>m e. case je_data e of TrLanded r _ _ _ \<Rightarrow> jm_set (er_key r) (je_time e) m | _ \<Rightarrow> m) [] ts"

definition conflicted_keys :: "train_event list \<Rightarrow> landing_evidence list \<Rightarrow> string list" where
  "conflicted_keys ts bundles =
     js_uniq (concat (map (\<lambda>e. case e of TrBatch _ _ _ _ c \<Rightarrow> c | _ \<Rightarrow> []) ts) @
       map la_key (filter (\<lambda>b. la_outcome b = OutConflicted) bundles))"

definition fixed_keys :: "train_event list \<Rightarrow> string list" where
  "fixed_keys ts =
     js_uniq (List.map_filter (\<lambda>e. case e of
         TrRepair r _ _ _ _ _ \<Rightarrow> Some (er_key r) | TrResolve r _ _ _ _ _ \<Rightarrow> Some (er_key r)
       | TrRemoteResolve r _ _ _ _ _ \<Rightarrow> Some (er_key r)
       | TrTamper r _ _ _ _ \<Rightarrow> Some (er_key r) | _ \<Rightarrow> None) ts @
       List.map_filter (\<lambda>e. case e of TrLanded r _ _ True \<Rightarrow> Some (er_key r) | _ \<Rightarrow> None) ts)"

definition train_health ::
  "train_event jevent list \<Rightarrow> landing_evidence list \<Rightarrow> unsupported \<Rightarrow> landing_row \<times> unsupported" where
  "train_health train bundles un =
     (let ts = map je_data train; enqueued = enqueued_at train; landedAt = landed_at train;
          conflicted = conflicted_keys ts bundles; fixed = fixed_keys ts;
          clean = length (filter (\<lambda>k. k \<notin> set conflicted \<and> k \<notin> set fixed) (jm_keys landedAt));
          latencies = map (\<lambda>(k, t). t - or_else (jm_get enqueued k) t) landedAt;
          rate = (\<lambda>n. if enqueued = [] then Inl ''the train had no entries'' else Inr (of_nat n / of_nat (length enqueued)));
          (lr, un1) = row ''landing.landingRate'' (rate (length landedAt)) un;
          (cr, un2) = row ''landing.cleanMergeRate'' (rate clean) un1;
          (lat, un3) = row ''landing.latencyMs''
            (if latencies = [] then Inl ''nothing landed''
             else Inr (median latencies, fold max (tl latencies) (hd latencies))) un2 in
      (\<lparr>ln_entries = length enqueued, ln_landed = length landedAt, ln_landingRate = lr, ln_cleanMergeRate = cr,
        ln_bisects = Some (length (js_uniq (List.map_filter (\<lambda>e. case e of TrBatch _ p _ _ _ \<Rightarrow> p | _ \<Rightarrow> None) ts))),
        ln_conflicts = length conflicted, ln_latencyMs = lat\<rparr>, un3))"

definition queue_health :: "merge_outcome \<Rightarrow> unsupported \<Rightarrow> landing_row \<times> unsupported" where
  "queue_health git un =
     (let m = length (mo_merged git); c = length (mo_conflicts git); entries = m + c;
          (lr, un1) = row ''landing.landingRate''
            (if entries = 0 then Inl ''no branch had commits'' else Inr (of_nat m / of_nat entries)) un;
          un2 = jm_set ''landing.cleanMergeRate'' ''the sequential queue merges without verifying'' un1;
          un3 = jm_set ''landing.bisects'' ''the sequential queue does not bisect'' un2;
          un4 = jm_set ''landing.latencyMs'' ''the sequential queue journals no landing times'' un3 in
      (\<lparr>ln_entries = entries, ln_landed = m, ln_landingRate = lr, ln_cleanMergeRate = None, ln_bisects = None,
        ln_conflicts = c, ln_latencyMs = None\<rparr>, un4))"

definition landing_of_run ::
  "merge_outcome option \<Rightarrow> run_record \<Rightarrow> train_event jevent list \<Rightarrow> landing_evidence list \<Rightarrow> unsupported \<Rightarrow>
   landing_row option \<times> unsupported" where
  "landing_of_run git run train bundles un =
     (case rr_landing run of
        Some ByTrain \<Rightarrow> (let (l, un') = train_health train bundles un in (Some l, un'))
      | Some ByQueue \<Rightarrow>
          (case run_git git run of
             None \<Rightarrow> row ''landing'' (Inl ''the run has not landed its work yet'') un
           | Some g \<Rightarrow> (let (l, un') = queue_health g un in (Some l, un')))
      | None \<Rightarrow> row ''landing'' (Inl (or_else (predates git run train) in_place)) un)"

text \<open>Zero loss: the seeded subjects against the final board's.\<close>

definition zero_loss :: "string list \<Rightarrow> string list \<Rightarrow> tasks_row" where
  "zero_loss seeded final =
     (let s = counts seeded; f = counts final; subjects = js_uniq (jm_keys s @ jm_keys f);
          diff = (\<lambda>x. int (or_else (jm_get f x) 0) - int (or_else (jm_get s x) 0)) in
      \<lparr>tsk_seeded = length seeded,
       tsk_lost = nat (foldl (\<lambda>n x. if diff x < 0 then n - diff x else n) 0 subjects),
       tsk_duplicated = nat (foldl (\<lambda>n x. if diff x < 0 then n else n + diff x) 0 subjects)\<rparr>)"

text \<open>When an interrupted run's dead writer last wrote.\<close>

fun skip_releases :: "swarm_event jevent list \<Rightarrow> int option" where
  "skip_releases [] = None"
| "skip_releases (e # before) =
     (if (case je_data e of TaskEvent t \<Rightarrow> tk_status t = Pending | _ \<Rightarrow> False) then skip_releases before
      else Some (je_time e))"

definition lastWrite :: "swarm_event jevent list \<Rightarrow> int option" where
  "lastWrite es =
     (let p = (\<lambda>e. case je_data e of RunEvent r \<Rightarrow> rr_status r = Interrupted | _ \<Rightarrow> False) in
      if \<exists>e \<in> set es. p e then skip_releases (rev (takeWhile (\<lambda>e. \<not> p e) es)) else None)"

definition wall_clock :: "int option \<Rightarrow> int \<Rightarrow> run_record \<Rightarrow> swarm_event jevent list \<Rightarrow> int" where
  "wall_clock now clock run es =
     or_else (or_opt (rr_endedAt run) (or_opt (if rr_status run = Interrupted then lastWrite es else None) now)) clock
       - rr_startedAt run"

definition tamper_severities :: "swarm_event list \<Rightarrow> train_event list \<Rightarrow> severity list" where
  "tamper_severities es ts =
     List.map_filter (\<lambda>e. case e of TamperEvent t \<Rightarrow> Some (or_else (te_severity t) Incident) | _ \<Rightarrow> None) es @
     List.map_filter (\<lambda>e. case e of TrTamper _ _ _ s _ \<Rightarrow> Some s | _ \<Rightarrow> None) ts"

record metrics_options =
  mx_pricing :: "pricing option"
  mx_now :: "int option"
  mx_git :: "merge_outcome option"

definition foldMetrics ::
  "int \<Rightarrow> metrics_options \<Rightarrow> swarm_event jevent list \<Rightarrow> train_event jevent list \<Rightarrow> string + run_metrics" where
  "foldMetrics clock opts events train =
     (let es = map je_data events; ts = map je_data train in
      case foldRun es of
        None \<Rightarrow> Inl ''the journal holds no run record''
      | Some run \<Rightarrow>
          (let git = mx_git opts; pre = predates git run train;
               board = jm_vals (foldBoard es); bundles = bundles_of es ts;
               levels0 = landed_levels pre run bundles board;
               (landed, un1) = row ''landed'' (case levels0 of Some ls \<Rightarrow> Inr (length ls)
                   | None \<Rightarrow> Inl (or_else pre (in_place @ '', and it has no board''))) [];
               (levels, un2) = row ''levels'' (case levels0 of Some ls \<Rightarrow> Inr (counts (map level_key ls))
                   | None \<Rightarrow> Inl (or_else (jm_get un1 ''landed'') [])) un1;
               us = usages_of es;
               (tokens, un3) = row ''tokens'' (case usageUnmeasured (Some run) of Some r \<Rightarrow> Inl r | None \<Rightarrow> Inr (tokens_of_run us)) un2;
               (dollars, un4) = row ''dollars'' (if tokens = None then Inl (or_else (jm_get un3 ''tokens'') [])
                   else dollars_of_run (mx_pricing opts) us) un3;
               (coord, un5) = (if tokens = None then row ''coordination'' (Inl (or_else (jm_get un4 ''tokens'') [])) un4
                   else (let (c, un') = coordination_of_run us un4 in (Some c, un')));
               (interventions, un6) = interventions_of_run es un5;
               (landing, un7) = landing_of_run git run train bundles un6;
               (tasks, un8) = row ''tasks'' (case rr_spec run of
                   Some (PeerTeamSpec s) \<Rightarrow> Inr (zero_loss (map pt_subject (ps_tasks s)) (map tk_subject board))
                 | _ \<Rightarrow> Inl ''only a peer-team seeds a board'') un7;
               severities = tamper_severities es ts;
               (cost, un9) = row ''costPerLanding''
                 (case (tokens, landed) of
                    (Some t, Some n) \<Rightarrow>
                      if n = 0 then Inl (or_else (jm_get un8 ''landed'') ''nothing landed'')
                      else Inr (nat (js_round (of_nat (tk_total t) / of_nat n)), map_option (\<lambda>d. dl_total d / of_nat n) dollars)
                  | (None, _) \<Rightarrow> Inl (or_else (jm_get un8 ''tokens'') [])
                  | (Some _, None) \<Rightarrow> Inl (or_else (jm_get un8 ''landed'') ''nothing landed'')) un8;
               un10 = (if cost \<noteq> None \<and> dollars = None
                       then jm_set ''costPerLanding.dollars'' (or_else (jm_get un9 ''dollars'') []) un9 else un9) in
           Inr \<lparr>mt_runId = rr_id run, mt_landed = landed, mt_levels = levels, mt_tokens = tokens, mt_dollars = dollars,
                mt_wallClockMs = wall_clock (mx_now opts) clock run events, mt_coordination = coord,
                mt_interventions = interventions, mt_landing = landing, mt_tasks = tasks,
                mt_tamper = (length (filter (\<lambda>s. s = Incident) severities), length (filter (\<lambda>s. s = Advisory) severities)),
                mt_costPerLanding = cost, mt_unsupported = un10\<rparr>))"

definition duration :: "rat \<Rightarrow> string" where
  "duration ms =
     (if ms < 1000 then int_str (js_round ms) @ ''ms''
      else
        (let s = js_round (ms / 1000) in
         if s < 60 then int_str s @ ''s''
         else if s < 3600 then int_str (s div 60) @ ''m '' @ int_str (s mod 60) @ ''s''
         else int_str (s div 3600) @ ''h '' @ int_str (s mod 3600 div 60) @ ''m''))"

end
