(* ===== verification/MetricsProperties.thy ===== *)
theory MetricsProperties
  imports Metrics "HOL-Library.Multiset"
begin

text \<open>
  What the metrics promise: tokens are conserved by every split, dollars priced run by run
  are the dollars of the whole, the zero-loss row is the multiset difference of the seeded and
  final subjects, and a row without a value says why.
\<close>

section \<open>Tokens\<close>

lemma tokensOf_add [simp]: "tokensOf (addUsage a b) = tokensOf a + tokensOf b"
  by (simp add: tokensOf_def addUsage_def)

lemma tokensOf_empty [simp]: "tokensOf emptyUsage = 0"
  by (simp add: tokensOf_def emptyUsage_def)

lemma addUsage_assoc: "addUsage (addUsage a b) c = addUsage a (addUsage b c)"
  by (simp add: addUsage_def)

lemma tokens_foldl: "tokensOf (foldl addUsage u us) = tokensOf u + sum_list (map tokensOf us)"
  by (induction us arbitrary: u) simp_all

text \<open>A weight that is additive over usage survives grouping by model.\<close>

lemma usage_by_model_snoc:
  "usage_by_model (us @ [u]) =
     jm_set (model_key u) (addUsage (or_else (jm_get (usage_by_model us) (model_key u)) emptyUsage) (ue_usage u)) (usage_by_model us)"
  by (simp add: usage_by_model_def)

lemma usage_by_model_wf [simp]: "jm_wf (usage_by_model us)"
  by (induction us rule: rev_induct) (simp_all add: usage_by_model_snoc, simp add: usage_by_model_def)

lemma weight_set:
  fixes w :: "string \<Rightarrow> usage \<Rightarrow> 'n::comm_monoid_add"
  assumes add: "\<And>m a b. w m (addUsage a b) = w m a + w m b" and zero: "\<And>m. w m emptyUsage = 0" and "jm_wf xs"
  shows "sum_list (map (\<lambda>(m, u). w m u) (jm_set k (addUsage (or_else (jm_get xs k) emptyUsage) u) xs)) =
    sum_list (map (\<lambda>(m, u). w m u) xs) + w k u"
  using assms(3)
proof (induction xs)
  case Nil
  then show ?case by (simp add: jm_set_def add zero)
next
  case (Cons x xs)
  obtain k' v where x: "x = (k', v)" by force
  from Cons.prems have "jm_wf xs" by (simp add: jm_wf_def)
  with Cons x show ?case
    by (cases "k' = k") (simp_all add: jm_set_def jm_get_def add ac_simps)
qed

lemma usage_by_model_weight:
  fixes w :: "string \<Rightarrow> usage \<Rightarrow> 'n::comm_monoid_add"
  assumes add: "\<And>m a b. w m (addUsage a b) = w m a + w m b" and zero: "\<And>m. w m emptyUsage = 0"
  shows "sum_list (map (\<lambda>(m, u). w m u) (usage_by_model us)) = sum_list (map (\<lambda>u. w (model_key u) (ue_usage u)) us)"
proof (induction us rule: rev_induct)
  case Nil
  then show ?case by (simp add: usage_by_model_def)
next
  case (snoc u us)
  then show ?case by (simp add: usage_by_model_snoc weight_set [of w, OF add zero])
qed

lemma sum_list_partition:
  fixes f :: "'a \<Rightarrow> nat"
  shows "sum_list (map f (filter P xs)) + sum_list (map f (filter (\<lambda>x. \<not> P x) xs)) = sum_list (map f xs)"
  by (induction xs) auto

lemma role_tokens_total:
  "role_tokens TaskRole us + (role_tokens ReviewRole us + role_tokens RepairRole us + role_tokens ResolveRole us
     + role_tokens LeadRole us) = sum_list (map (\<lambda>u. tokensOf (ue_usage u)) us)"
proof (induction us)
  case Nil
  then show ?case by (simp add: role_tokens_def)
next
  case (Cons u us)
  then show ?case by (cases "ue_role u") (simp_all add: role_tokens_def)
qed

text \<open>no split of the tokens loses or doubles any: by principal, by model and by runtime they sum to the total,
  which is what every member run journaled, and task work and coordination together are that total again.\<close>

theorem tokens_conserved:
  "(let row = tokens_of_run us; c = fst (coordination_of_run us un); n = sum_list (map (\<lambda>u. tokensOf (ue_usage u)) us) in
    tk_total row = n \<and> sum_list (jm_vals (tk_byPrincipal row)) = n \<and> sum_list (jm_vals (tk_byModel row)) = n \<and>
    sum_list (jm_vals (tk_byRuntime row)) = n \<and> cn_task c + cn_coordination c = n)"
proof -
  have "sum_list (map tokensOf (jm_vals (usage_by_model us))) = sum_list (map (\<lambda>u. tokensOf (ue_usage u)) us)"
    using usage_by_model_weight [of "\<lambda>_. tokensOf" us] by (simp add: jm_vals_def comp_def split_def)
  then show ?thesis
    using role_tokens_total [of us]
    by (simp add: tokens_of_run_def coordination_of_run_def Let_def tally_by_sum tokens_foldl split: prod.splits)
qed

section \<open>Dollars\<close>

lemma price_add: "price_of p (addUsage a b) = price_of p a + price_of p b"
  by (simp add: price_of_def addUsage_def add_divide_distrib distrib_right)

lemma price_empty: "price_of p emptyUsage = 0"
  by (simp add: price_of_def emptyUsage_def)

lemma price_no_tokens: "tokensOf u = 0 \<Longrightarrow> price_of p u = 0"
  by (simp add: price_of_def tokensOf_def)

lemma foldl_plus: "foldl (\<lambda>s x. s + f x) a xs = a + sum_list (map f xs)" for a :: rat
  by (induction xs arbitrary: a) simp_all

lemma sum_filter_zero:
  fixes f :: "'a \<Rightarrow> rat"
  shows "(\<And>x. \<not> P x \<Longrightarrow> f x = 0) \<Longrightarrow> sum_list (map f (filter P xs)) = sum_list (map f xs)"
  by (induction xs) auto

lemma priced_Inr:
  assumes "priced m (Some pricing) = Inr usd"
  shows "usd = sum_list (map (\<lambda>(k, u). price_of (the (jm_get pricing k)) u) m)"
    and "\<And>k u. (k, u) \<in> set m \<Longrightarrow> tokensOf u > 0 \<Longrightarrow> jm_has pricing k"
proof -
  from assms have c: "filter (\<lambda>k. \<not> jm_has pricing k) (map fst (filter (\<lambda>(_, u). tokensOf u > 0) m)) = []"
    and usd: "usd = foldl (\<lambda>s (k, u). s + price_of (the (jm_get pricing k)) u) 0 (filter (\<lambda>(_, u). tokensOf u > 0) m)"
    by (auto simp: priced_def Let_def split: if_splits)
  from c show "jm_has pricing k" if "(k, u) \<in> set m" "tokensOf u > 0" for k u
    using that by (force simp: filter_empty_conv)
  have "usd = sum_list (map (\<lambda>x. price_of (the (jm_get pricing (fst x))) (snd x)) (filter (\<lambda>(_, u). tokensOf u > 0) m))"
    using foldl_plus [of "\<lambda>x. price_of (the (jm_get pricing (fst x))) (snd x)" 0]
    by (simp add: usd split_def)
  also have "\<dots> = sum_list (map (\<lambda>x. price_of (the (jm_get pricing (fst x))) (snd x)) m)"
    by (rule sum_filter_zero) (auto simp: price_no_tokens)
  finally show "usd = sum_list (map (\<lambda>(k, u). price_of (the (jm_get pricing k)) u) m)"
    by (simp add: split_def)
qed

lemma usage_by_model_mem:
  assumes "u \<in> set us"
  shows "\<exists>v. (model_key u, v) \<in> set (usage_by_model us) \<and> tokensOf (ue_usage u) \<le> tokensOf v"
  using assms
proof (induction us rule: rev_induct)
  case Nil
  then show ?case by simp
next
  case (snoc x us)
  let ?m = "usage_by_model us"
  let ?v = "addUsage (or_else (jm_get ?m (model_key x)) emptyUsage) (ue_usage x)"
  show ?case
  proof (cases "u = x \<or> u \<notin> set us")
    case True
    with snoc.prems have "u = x" by auto
    then show ?thesis
      by (intro exI [of _ ?v]) (simp add: usage_by_model_snoc jm_set_mem)
  next
    case False
    with snoc.IH obtain v where v: "(model_key u, v) \<in> set ?m" "tokensOf (ue_usage u) \<le> tokensOf v" by auto
    show ?thesis
    proof (cases "model_key u = model_key x")
      case True
      with v have "jm_get ?m (model_key x) = Some v" by (simp add: jm_get_Some_iff)
      with True v(2) show ?thesis
        by (intro exI [of _ ?v]) (simp add: usage_by_model_snoc jm_set_mem)
    next
      case False
      with v show ?thesis by (intro exI [of _ v]) (simp add: usage_by_model_snoc jm_set_mem)
    qed
  qed
qed

text \<open>when no runtime reported dollars and every run was measured, pricing each run by itself and adding up is
  pricing the whole by model: the dollars row's total is exactly what the table says the usage cost.\<close>

theorem dollars_priced:
  assumes "dollars_of_run (Some pricing) us = Inr d" "\<forall>u \<in> set us. ue_costUsd u = None \<and> \<not> ue_unmeasured u"
  shows "priced (usage_by_model us) (Some pricing) = Inr (dl_total d) \<and> dl_source d = FromPricing \<and> dl_unreported d = None"
proof -
  from assms obtain usd where usd: "priced (usage_by_model us) (Some pricing) = Inr usd"
    by (auto simp: dollars_of_run_def Let_def split: sum.splits)
  have each_run: "runUsd u (Some pricing) = Some (price_of (the (jm_get pricing (model_key u))) (ue_usage u))"
    if u: "u \<in> set us" for u
  proof (cases "tokensOf (ue_usage u) = 0")
    case True
    with u assms(2) show ?thesis by (simp add: runUsd_def price_no_tokens)
  next
    case False
    obtain v where "(model_key u, v) \<in> set (usage_by_model us)" "tokensOf v > 0"
      using usage_by_model_mem [OF u] False by auto
    then have "jm_has pricing (model_key u)" by (rule priced_Inr(2) [OF usd])
    with u False assms(2) show ?thesis by (simp add: runUsd_def priced_def Let_def)
  qed
  have "sum_list (map (\<lambda>u. or_else (runUsd u (Some pricing)) 0) us) =
      sum_list (map (\<lambda>u. price_of (the (jm_get pricing (model_key u))) (ue_usage u)) us)"
    by (rule arg_cong [of _ _ sum_list]) (simp add: each_run)
  also have "\<dots> = sum_list (map (\<lambda>(m, u). price_of (the (jm_get pricing m)) u) (usage_by_model us))"
    by (rule usage_by_model_weight [symmetric]) (simp_all add: price_add price_empty)
  also have "\<dots> = usd" by (rule priced_Inr(1) [OF usd, symmetric])
  finally have total: "sum_list (map (\<lambda>u. or_else (runUsd u (Some pricing)) 0) us) = usd" .
  have none: "filter (\<lambda>u. runUsd u (Some pricing) = None) us = []"
    by (simp add: filter_empty_conv each_run)
  show ?thesis
    using assms usd total none by (auto simp: dollars_of_run_def Let_def tally_by_sum)
qed

definition demo_usage :: "string \<Rightarrow> usage_event" where
  "demo_usage m = \<lparr>ue_member = ''a'', ue_role = TaskRole, ue_taskKey = None, ue_runtime = ''dsh'', ue_provider = None,
     ue_model = Some m, ue_runId = ''r'', ue_usage = emptyUsage\<lparr>us_input := 2, us_output := 1\<rparr>, ue_costUsd = None,
     ue_unmeasured = False, ue_startedAt = 0\<rparr>"

definition demo_pricing :: pricing where
  "demo_pricing = [(''m'', \<lparr>pr_input = 3, pr_output = 5, pr_cacheRead = None, pr_cacheWrite = None\<rparr>)]"

theorem dollars_priced_witness:
  "priced (usage_by_model [demo_usage ''m'', demo_usage ''m'']) (Some demo_pricing) =
     Inr (dl_total (projr (dollars_of_run (Some demo_pricing) [demo_usage ''m'', demo_usage ''m''])))"
proof -
  have a: "dollars_of_run (Some demo_pricing) [demo_usage ''m'', demo_usage ''m''] =
    Inr (projr (dollars_of_run (Some demo_pricing) [demo_usage ''m'', demo_usage ''m'']))" by code_simp
  have b: "\<forall>u \<in> set [demo_usage ''m'', demo_usage ''m'']. ue_costUsd u = None \<and> \<not> ue_unmeasured u"
    by (simp add: demo_usage_def)
  from dollars_priced [OF a b] show ?thesis by blast
qed

section \<open>Zero loss\<close>

lemma counts_get: "or_else (jm_get (counts ks) k) 0 = count (mset ks) k"
proof -
  have "or_else (jm_get (counts ks) k) 0 = sum_list (map (\<lambda>_. 1) (filter (\<lambda>x. x = k) ks))"
    unfolding counts_def by (rule tally_by_get)
  also have "\<dots> = count (mset ks) k" by (induction ks) auto
  finally show ?thesis .
qed

lemma counts_keys: "set (jm_keys (counts ks)) = set ks"
  by (simp add: counts_def tally_by_keys)

lemma loss_fold:
  fixes d :: "string \<Rightarrow> int"
  shows "foldl (\<lambda>n x. if d x < 0 then n - d x else n) a xs = a + sum_list (map (\<lambda>x. int (nat (- d x))) xs)"
    and "foldl (\<lambda>n x. if d x < 0 then n else n + d x) a xs = a + sum_list (map (\<lambda>x. int (nat (d x))) xs)"
  by (induction xs arbitrary: a) auto

lemma size_diff:
  assumes "distinct xs" "set_mset A \<subseteq> set xs"
  shows "sum_list (map (\<lambda>x. int (nat (int (count A x) - int (count B x)))) xs) = int (size (A - B))"
proof -
  have "size (A - B) = (\<Sum>x \<in> set_mset (A - B). count (A - B) x)" by (rule size_multiset_overloaded_eq)
  also have "\<dots> = (\<Sum>x \<in> set xs. count (A - B) x)"
  proof (rule sum.mono_neutral_left)
    show "set_mset (A - B) \<subseteq> set xs" using assms(2) by (meson in_diffD subset_iff)
  qed (auto simp: not_in_iff)
  finally show ?thesis
    using assms(1) by (simp add: sum_list_distinct_conv_sum_set nat_diff_distrib flip: of_nat_sum)
      (simp add: nat_minus_as_int of_nat_diff)
qed

text \<open>the zero-loss row is exact: lost is how many seeded subjects the final board is short of, duplicated how
  many it has too many, as multisets; so both are zero exactly when the board ends with the tasks it was seeded with.\<close>

theorem zero_loss_exact:
  "tsk_lost (zero_loss seeded final) = size (mset seeded - mset final) \<and>
   tsk_duplicated (zero_loss seeded final) = size (mset final - mset seeded) \<and>
   (tsk_lost (zero_loss seeded final) = 0 \<and> tsk_duplicated (zero_loss seeded final) = 0 \<longleftrightarrow> mset seeded = mset final)"
proof -
  let ?xs = "js_uniq (jm_keys (counts seeded) @ jm_keys (counts final))"
  have s: "set ?xs = set seeded \<union> set final" by (simp add: counts_keys)
  have "tsk_lost (zero_loss seeded final) = size (mset seeded - mset final)"
    using size_diff [of ?xs "mset seeded" "mset final"] s
    unfolding zero_loss_def Let_def counts_get loss_fold by simp
  moreover have "tsk_duplicated (zero_loss seeded final) = size (mset final - mset seeded)"
    using size_diff [of ?xs "mset final" "mset seeded"] s
    unfolding zero_loss_def Let_def counts_get loss_fold by simp
  moreover have "mset seeded = mset final" if "mset seeded - mset final = {#}" "mset final - mset seeded = {#}"
    using that by (simp add: Diff_eq_empty_iff_mset subset_mset.antisym)
  ultimately show ?thesis by auto
qed

section \<open>Nothing reads as measured that is not\<close>

definition says :: "unsupported \<Rightarrow> string \<Rightarrow> bool" where
  "says un k \<longleftrightarrow> k \<in> set (jm_keys un)"

lemma says_set [simp]: "says (jm_set k v un) k' \<longleftrightarrow> k' = k \<or> says un k'"
  by (auto simp: says_def jm_keys_set)

lemma row_says: "row k v un = (r, un') \<Longrightarrow> (r = None \<longrightarrow> says un' k) \<and> (\<forall>k'. says un k' \<longrightarrow> says un' k')"
  by (auto simp: row_def split: sum.splits)

lemma row_Inr [simp]: "row k (Inr x) un = (Some x, un)"
  by (simp add: row_def)

lemma row_Inl [simp]: "row k (Inl e) un = (None, jm_set k e un)"
  by (simp add: row_def)

lemma coordination_says: "coordination_of_run us un = (c, un') \<Longrightarrow> (\<forall>k'. says un k' \<longrightarrow> says un' k')"
  by (auto simp: coordination_of_run_def Let_def split: prod.splits dest: row_says)

lemma interventions_says: "interventions_of_run es un = (c, un') \<Longrightarrow> (\<forall>k'. says un k' \<longrightarrow> says un' k')"
  by (auto simp: interventions_of_run_def Let_def split: prod.splits dest: row_says)

lemma train_health_says: "train_health ts bs un = (c, un') \<Longrightarrow> (\<forall>k'. says un k' \<longrightarrow> says un' k')"
  unfolding train_health_def Let_def by (auto split: prod.splits dest!: row_says)

lemma queue_health_says: "queue_health g un = (c, un') \<Longrightarrow> (\<forall>k'. says un k' \<longrightarrow> says un' k')"
  unfolding queue_health_def Let_def by (auto split: prod.splits dest!: row_says)

lemma landing_says:
  "landing_of_run git run train bundles un = (l, un') \<Longrightarrow> (l = None \<longrightarrow> says un' ''landing'') \<and> (\<forall>k'. says un k' \<longrightarrow> says un' k')"
  unfolding landing_of_run_def Let_def
  by (auto split: prod.splits option.splits landing_kind.splits dest!: train_health_says queue_health_says row_says)

lemma foldMetrics_rows:
  assumes "foldMetrics clock opts events train = Inr m"
  obtains run v1 v2 v3 v4 v5 v8 v9 c unc un1 un2 un3 un4 un5 un6 un7 un8 un9 where
    "row ''landed'' v1 [] = (mt_landed m, un1)" "row ''levels'' v2 un1 = (mt_levels m, un2)"
    "row ''tokens'' v3 un2 = (mt_tokens m, un3)" "row ''dollars'' v4 un3 = (mt_dollars m, un4)"
    "coordination_of_run (usages_of (map je_data events)) un4 = (c, unc)"
    "(if mt_tokens m = None then row ''coordination'' v5 un4 else (Some c, unc)) = (mt_coordination m, un5)"
    "interventions_of_run (map je_data events) un5 = (mt_interventions m, un6)"
    "landing_of_run (mx_git opts) run train (bundles_of (map je_data events) (map je_data train)) un6 = (mt_landing m, un7)"
    "row ''tasks'' v8 un7 = (mt_tasks m, un8)" "row ''costPerLanding'' v9 un8 = (mt_costPerLanding m, un9)"
    "mt_unsupported m = (if mt_costPerLanding m \<noteq> None \<and> mt_dollars m = None
       then jm_set ''costPerLanding.dollars'' (or_else (jm_get un9 ''dollars'') []) un9 else un9)"
proof (cases "foldRun (map je_data events)")
  case None
  with assms show ?thesis by (simp add: foldMetrics_def)
next
  case (Some run)
  with assms show ?thesis
    unfolding foldMetrics_def
    apply (simp only: Let_def option.case prod.case split: prod.split_asm)
    apply (drule sum.inject(2) [THEN iffD1])
    apply hypsubst
    apply (rule that; (simp only: run_metrics.simps prod.inject)?; (assumption)?)
    done
qed

lemmas rows_say = row_says coordination_says interventions_says landing_says

text \<open>a row the journals could not support is never silent: whenever the landed, levels, tokens, dollars,
  coordination, landing, tasks or cost row is empty, the unsupported map says why under its name.\<close>

theorem empty_rows_explained:
  assumes "foldMetrics clock opts events train = Inr m"
  shows "(mt_landed m = None \<longrightarrow> says (mt_unsupported m) ''landed'') \<and>
    (mt_levels m = None \<longrightarrow> says (mt_unsupported m) ''levels'') \<and>
    (mt_tokens m = None \<longrightarrow> says (mt_unsupported m) ''tokens'') \<and>
    (mt_dollars m = None \<longrightarrow> says (mt_unsupported m) ''dollars'') \<and>
    (mt_coordination m = None \<longrightarrow> says (mt_unsupported m) ''coordination'') \<and>
    (mt_landing m = None \<longrightarrow> says (mt_unsupported m) ''landing'') \<and>
    (mt_tasks m = None \<longrightarrow> says (mt_unsupported m) ''tasks'') \<and>
    (mt_costPerLanding m = None \<longrightarrow> says (mt_unsupported m) ''costPerLanding'')"
  using assms
proof (rule foldMetrics_rows)
  fix run :: run_record and v1 :: "string + nat" and v2 :: "string + (string, nat) jmap" and v3 :: "string + tokens_row"
    and v4 :: "string + dollars_row" and v5 :: "string + coordination_row" and v8 :: "string + tasks_row"
    and v9 :: "string + nat \<times> rat option" and c unc un1 un2 un3 un4 un5 un6 un7 un8 un9
  assume e: "row ''landed'' v1 [] = (mt_landed m, un1)" "row ''levels'' v2 un1 = (mt_levels m, un2)"
    "row ''tokens'' v3 un2 = (mt_tokens m, un3)" "row ''dollars'' v4 un3 = (mt_dollars m, un4)"
    "coordination_of_run (usages_of (map je_data events)) un4 = (c, unc)"
    "(if mt_tokens m = None then row ''coordination'' v5 un4 else (Some c, unc)) = (mt_coordination m, un5)"
    "interventions_of_run (map je_data events) un5 = (mt_interventions m, un6)"
    "landing_of_run (mx_git opts) run train (bundles_of (map je_data events) (map je_data train)) un6 = (mt_landing m, un7)"
    "row ''tasks'' v8 un7 = (mt_tasks m, un8)" "row ''costPerLanding'' v9 un8 = (mt_costPerLanding m, un9)"
    "mt_unsupported m = (if mt_costPerLanding m \<noteq> None \<and> mt_dollars m = None
       then jm_set ''costPerLanding.dollars'' (or_else (jm_get un9 ''dollars'') []) un9 else un9)"
  have co: "(mt_coordination m = None \<longrightarrow> says un5 ''coordination'') \<and> (\<forall>k. says un4 k \<longrightarrow> says un5 k)"
    using e(6) coordination_says [OF e(5)] by (auto split: if_splits dest: row_says)
  let ?says = "says (mt_unsupported m)"
  have s9: "\<And>k. says un9 k \<Longrightarrow> ?says k" by (simp add: e(11))
  have s8: "\<And>k. says un8 k \<Longrightarrow> ?says k" using row_says [OF e(10)] s9 by blast
  have s7: "\<And>k. says un7 k \<Longrightarrow> ?says k" using row_says [OF e(9)] s8 by blast
  have s6: "\<And>k. says un6 k \<Longrightarrow> ?says k" using landing_says [OF e(8)] s7 by blast
  have s5: "\<And>k. says un5 k \<Longrightarrow> ?says k" using interventions_says [OF e(7)] s6 by blast
  have s4: "\<And>k. says un4 k \<Longrightarrow> ?says k" using co s5 by blast
  have s3: "\<And>k. says un3 k \<Longrightarrow> ?says k" using row_says [OF e(4)] s4 by blast
  have s2: "\<And>k. says un2 k \<Longrightarrow> ?says k" using row_says [OF e(3)] s3 by blast
  have s1: "\<And>k. says un1 k \<Longrightarrow> ?says k" using row_says [OF e(2)] s2 by blast
  show ?thesis
    using row_says [OF e(1)] row_says [OF e(2)] row_says [OF e(3)] row_says [OF e(4)] co landing_says [OF e(8)]
      row_says [OF e(9)] row_says [OF e(10)] by (intro conjI impI) (simp_all add: s1 s2 s3 s4 s5 s7 s8 s9)
qed

definition demo_run :: run_record where
  "demo_run = \<lparr>rr_id = ''r'', rr_status = Running, rr_topology = Fanout, rr_parentSessionId = ''s'',
     rr_writer = \<lparr>rw_pid = 1, rw_host = ''h'', rw_incarnation = ''i''\<rparr>, rr_startedAt = 0, rr_endedAt = None,
     rr_landing = None, rr_usageJournaled = False, rr_error = None, rr_result = None, rr_resultGit = None,
     rr_git = None, rr_spec = None\<rparr>"

definition demo_metrics :: "string + run_metrics" where
  "demo_metrics = foldMetrics 9 \<lparr>mx_pricing = None, mx_now = None, mx_git = None\<rparr> [\<lparr>je_seq = 0, je_time = 1, je_data = RunEvent demo_run\<rparr>] []"

theorem empty_rows_explained_witness:
  "mt_landed (projr demo_metrics) = None \<and> says (mt_unsupported (projr demo_metrics)) ''landed''"
proof -
  have "demo_metrics = Inr (projr demo_metrics)" by code_simp
  note e = empty_rows_explained [OF this [unfolded demo_metrics_def], folded demo_metrics_def]
  have "mt_landed (projr demo_metrics) = None" by code_simp
  with e show ?thesis by blast
qed

end
