(* ===== verification/Budget.thy ===== *)
theory Budget
  imports Metrics
begin

text \<open>
  \<open>packages/swarm/src/budget.ts\<close>: a run's and its tasks' spend limits, checked before each
  member run starts. The question a scope out of budget asks is a parameter; other member runs may
  journal usage while it waits, so it returns the journal it leaves. Starts in one scope wait on one
  question, so a check is one sequential loop; it spends one unit of fuel per question.
\<close>

section \<open>Limits\<close>

text \<open>\<open>validateBudget\<close> of a parsed budget object: the first entry that is not a positive amount.\<close>

definition validateBudget :: "(string \<times> json) list option \<Rightarrow> string \<Rightarrow> string option" where
  "validateBudget budget pos =
     (case budget of
        None \<Rightarrow> None
      | Some entries \<Rightarrow>
          (case find (\<lambda>(u, n). u \<noteq> ''usd'' \<and> u \<noteq> ''tokens'' \<or> \<not> (case n of JNum q \<Rightarrow> q > 0 | _ \<Rightarrow> False)) entries of
             None \<Rightarrow> None
           | Some (u, n) \<Rightarrow>
               Some (if u \<noteq> ''usd'' \<and> u \<noteq> ''tokens'' then pos @ '': unknown budget unit '' @ [CHR 0x22] @ u @ [CHR 0x22] @ '' (usd, tokens)''
                     else pos @ '': budget '' @ u @ '' must be a positive number'')))"

record scope =
  sc_first :: budget
  sc_limit :: budget
  sc_stopped :: "string option"

datatype budget_error = BudgetStop budget_scope "string option" string

definition fmt :: "budget \<Rightarrow> string" where
  "fmt b = js_join '' and '' (filter (\<lambda>s. s \<noteq> [])
     [case bg_usd b of None \<Rightarrow> [] | Some q \<Rightarrow> ''$'' @ fixed2 q,
      case bg_tokens b of None \<Rightarrow> [] | Some q \<Rightarrow> num_str q @ '' tokens''])"

record guard_deps =
  gd_pricing :: "pricing option"
  gd_run :: "budget option"
  gd_task :: "string \<Rightarrow> budget option"

record budget_guard =
  bg_journal :: "swarm_event swarm_journal"
  bg_scopes :: "(string, scope) jmap"

type_synonym 'w ask_budget = "question_request \<Rightarrow> swarm_event swarm_journal \<Rightarrow> 'w \<Rightarrow> (string option \<times> swarm_event swarm_journal) \<times> 'w"

definition spent :: "pricing option \<Rightarrow> string option \<Rightarrow> swarm_event list \<Rightarrow> rat \<times> nat \<times> nat" where
  "spent pricing taskKey es =
     foldl (\<lambda>(usd, tokens, unpriced) u.
         (case runUsd u pricing of
            None \<Rightarrow> (usd, tokens + tokensOf (ue_usage u), unpriced + 1)
          | Some d \<Rightarrow> (usd + d, tokens + tokensOf (ue_usage u), unpriced)))
       (0, 0, 0) (filter (\<lambda>u. taskKey = None \<or> ue_taskKey u = taskKey) (usages_of es))"

definition scope_key :: "string option \<Rightarrow> string" where
  "scope_key taskKey = (case taskKey of None \<Rightarrow> ''run'' | Some k \<Rightarrow> ''task:'' @ k)"

text \<open>A scope's budget is taken when it is first checked.\<close>

definition scope_of :: "guard_deps \<Rightarrow> string option \<Rightarrow> budget_guard \<Rightarrow> scope option \<times> budget_guard" where
  "scope_of deps taskKey g =
     (case jm_get (bg_scopes g) (scope_key taskKey) of
        Some sc \<Rightarrow> (Some sc, g)
      | None \<Rightarrow>
          (case (case taskKey of None \<Rightarrow> gd_run deps | Some k \<Rightarrow> gd_task deps k) of
             None \<Rightarrow> (None, g)
           | Some b \<Rightarrow>
               if bg_usd b = None \<and> bg_tokens b = None then (None, g)
               else (let sc = \<lparr>sc_first = b, sc_limit = b, sc_stopped = None\<rparr> in
                     (Some sc, g\<lparr>bg_scopes := jm_set (scope_key taskKey) sc (bg_scopes g)\<rparr>))))"

text \<open>Why the scope is out of budget, and whether it is for want of a price.\<close>

definition over :: "guard_deps \<Rightarrow> string option \<Rightarrow> budget \<Rightarrow> swarm_event list \<Rightarrow> (string \<times> bool) option" where
  "over deps taskKey limit es =
     (let (usd, tokens, unpriced) = spent (gd_pricing deps) taskKey es in
      case (case bg_tokens limit of None \<Rightarrow> None | Some l \<Rightarrow>
              if l \<le> of_nat tokens then Some (''spent '' @ nat_str tokens @ '' of '' @ num_str l @ '' tokens'', False) else None) of
        Some r \<Rightarrow> Some r
      | None \<Rightarrow>
          (case bg_usd limit of
             None \<Rightarrow> None
           | Some l \<Rightarrow>
               if unpriced > 0
               then Some (nat_str unpriced @ '' member run(s) reported no dollars and have no price (SwarmConfig.pricing) for their model, so its $'' @ fixed2 l @ '' limit cannot be checked'', True)
               else if l \<le> usd then Some (''spent $'' @ fixed2 usd @ '' of $'' @ fixed2 l, False)
               else None))"

definition extended :: "bool \<Rightarrow> scope \<Rightarrow> scope" where
  "extended unpriced sc =
     (let l = sc_limit sc; f = sc_first sc in
      sc\<lparr>sc_limit :=
        (if unpriced then l\<lparr>bg_usd := None\<rparr>
         else l\<lparr>bg_usd := map_option (\<lambda>q. q + or_else (bg_usd f) 0) (bg_usd l),
                bg_tokens := map_option (\<lambda>q. q + or_else (bg_tokens f) 0) (bg_tokens l)\<rparr>)\<rparr>)"

definition budget_question :: "string option \<Rightarrow> scope \<Rightarrow> string \<times> bool \<Rightarrow> question_request" where
  "budget_question taskKey sc why =
     (let what = (case taskKey of None \<Rightarrow> ''the run'' | Some k \<Rightarrow> ''task '' @ k);
          stopping = (case taskKey of None \<Rightarrow> ''no member run starts again, and what passed still lands''
            | Some _ \<Rightarrow> ''it and its dependents are abandoned, its branch kept'');
          extending = (if snd why then ''continue without the dollar limit'' else ''extend it by '' @ fmt (sc_first sc)) in
      \<lparr>rq_trigger = BudgetTrigger,
       rq_prompt = what @ '' is out of budget: '' @ fst why @ ''. Stop it ('' @ stopping @ ''), or '' @ extending @ ''?'',
       rq_options = [''stop'', ''extend''], rq_default = ''stop'', rq_kind = Some Approval, rq_tier = Some High,
       rq_taskId = taskKey\<rparr>)"

text \<open>\<open>decide\<close>: a rejected question stops the scope; the decision is journaled with what is spent by then.\<close>

definition decide ::
  "'w ask_budget \<Rightarrow> guard_deps \<Rightarrow> int \<Rightarrow> string option \<Rightarrow> scope \<Rightarrow> string \<times> bool \<Rightarrow> budget_guard \<Rightarrow> 'w \<Rightarrow>
   (scope \<times> budget_guard) \<times> 'w" where
  "decide ask deps now taskKey sc why g w =
     (let what = (case taskKey of None \<Rightarrow> ''the run'' | Some k \<Rightarrow> ''task '' @ k);
          ((reply, j), w') = ask (budget_question taskKey sc why) (bg_journal g) w;
          yes = (reply = Some ''extend'');
          sc' = (if yes then extended (snd why) sc
                 else sc\<lparr>sc_stopped := Some (what @ '' stopped on its budget: '' @ fst why)\<rparr>);
          (usd, tokens, unpriced) = spent (gd_pricing deps) taskKey (payloads j);
          ev = BudgetEvent \<lparr>be_scope = (if taskKey = None then RunScope else TaskScope), be_taskId = taskKey,
            be_reason = fst why, be_spentUsd = (if unpriced > 0 then None else Some usd), be_spentTokens = tokens,
            be_outcome = (if yes then Extended else Stopped), be_limit = sc_limit sc'\<rparr> in
      ((sc', \<lparr>bg_journal = snd (journal_append now ev j), bg_scopes = jm_set (scope_key taskKey) sc' (bg_scopes g)\<rparr>), w'))"

fun check_loop ::
  "nat \<Rightarrow> 'w ask_budget \<Rightarrow> guard_deps \<Rightarrow> int \<Rightarrow> string option \<Rightarrow> scope \<Rightarrow> budget_guard \<Rightarrow> 'w \<Rightarrow>
   ((budget_error + unit) \<times> budget_guard \<times> 'w) option" where
  "check_loop fuel ask deps now taskKey sc g w =
     (case sc_stopped sc of
        Some why \<Rightarrow> Some (Inl (BudgetStop (if taskKey = None then RunScope else TaskScope) taskKey why), g, w)
      | None \<Rightarrow>
          (case over deps taskKey (sc_limit sc) (payloads (bg_journal g)) of
             None \<Rightarrow> Some (Inr (), g, w)
           | Some why \<Rightarrow>
               (case fuel of
                  0 \<Rightarrow> None
                | Suc n \<Rightarrow>
                    (let ((sc', g'), w') = decide ask deps now taskKey sc why g w in
                     check_loop n ask deps now taskKey sc' g' w'))))"

declare check_loop.simps [simp del]

definition check ::
  "nat \<Rightarrow> 'w ask_budget \<Rightarrow> guard_deps \<Rightarrow> int \<Rightarrow> string option \<Rightarrow> budget_guard \<Rightarrow> 'w \<Rightarrow>
   ((budget_error + unit) \<times> budget_guard \<times> 'w) option" where
  "check fuel ask deps now taskKey g w =
     (case scope_of deps taskKey g of
        (None, g') \<Rightarrow> Some (Inr (), g', w)
      | (Some sc, g') \<Rightarrow> check_loop fuel ask deps now taskKey sc g' w)"

definition admit ::
  "nat \<Rightarrow> 'w ask_budget \<Rightarrow> guard_deps \<Rightarrow> int \<Rightarrow> string option \<Rightarrow> budget_guard \<Rightarrow> 'w \<Rightarrow>
   ((budget_error + unit) \<times> budget_guard \<times> 'w) option" where
  "admit fuel ask deps now taskKey g w =
     (case taskKey of
        None \<Rightarrow> check fuel ask deps now None g w
      | Some k \<Rightarrow>
          (case check fuel ask deps now (Some k) g w of
             Some (Inr _, g', w') \<Rightarrow> check fuel ask deps now None g' w'
           | r \<Rightarrow> r))"

section \<open>One step of the loop\<close>

lemma payloads_decide:
  "decide ask deps now taskKey sc why g w = ((sc', g'), w') \<Longrightarrow>
   \<exists>j e. payloads (bg_journal g') = payloads j @ [e] \<and> (\<forall>u. e \<noteq> UsageEvent u) \<and>
     j = snd (fst (ask (budget_question taskKey sc why) (bg_journal g) w))"
  by (auto simp: decide_def Let_def split: prod.splits)

lemma decide_scope:
  "decide ask deps now taskKey sc why g w = ((sc', g'), w') \<Longrightarrow>
   jm_get (bg_scopes g') (scope_key taskKey) = Some sc' \<and>
   (if fst (fst (ask (budget_question taskKey sc why) (bg_journal g) w)) = Some ''extend''
    then sc' = extended (snd why) sc else sc_stopped sc' \<noteq> None \<and> sc_limit sc' = sc_limit sc)"
  by (auto simp: decide_def Let_def split: prod.splits)

lemma usages_append: "usages_of (es @ fs) = usages_of es @ usages_of fs"
  by (simp add: usages_of_def List.map_filter_def)

lemma usages_other: "(\<And>u. e \<noteq> UsageEvent u) \<Longrightarrow> usages_of [e] = []"
  by (cases e) (auto simp: usages_of_def List.map_filter_def)

lemma spent_usages: "usages_of es = usages_of fs \<Longrightarrow> spent p k es = spent p k fs"
  by (simp add: spent_def)

lemma over_usages: "usages_of es = usages_of fs \<Longrightarrow> over d k l es = over d k l fs"
  by (simp add: over_def spent_usages [of es fs])

section \<open>Properties\<close>

lemma check_loop_admits:
  "check_loop fuel ask deps now taskKey sc g w = Some (Inr (), g', w') \<Longrightarrow>
   jm_get (bg_scopes g) (scope_key taskKey) = Some sc \<Longrightarrow>
   \<exists>sc'. jm_get (bg_scopes g') (scope_key taskKey) = Some sc' \<and> sc_stopped sc' = None \<and>
     over deps taskKey (sc_limit sc') (payloads (bg_journal g')) = None"
proof (induction fuel arbitrary: sc g w)
  case 0
  then show ?case by (subst (asm) check_loop.simps) (auto split: option.splits)
next
  case (Suc n)
  show ?case
  proof (cases "sc_stopped sc = None \<and> over deps taskKey (sc_limit sc) (payloads (bg_journal g)) \<noteq> None")
    case True
    then obtain why where "over deps taskKey (sc_limit sc) (payloads (bg_journal g)) = Some why" by auto
    moreover obtain sc1 g1 w1 where d: "decide ask deps now taskKey sc why g w = ((sc1, g1), w1)"
      by (metis prod.exhaust)
    ultimately have "check_loop n ask deps now taskKey sc1 g1 w1 = Some (Inr (), g', w')"
      using Suc.prems(1) True by (subst (asm) check_loop.simps) simp
    with decide_scope [OF d] show ?thesis by (intro Suc.IH) auto
  next
    case False
    with Suc.prems show ?thesis by (subst (asm) check_loop.simps) (auto split: option.splits)
  qed
qed

text \<open>C16: a member run is admitted only within budget: when the check of a scope lets it start, the scope has no
  limit, or it is not stopped and what its runs spent so far is below each limit it has, with every run priced where
  it has a dollar limit.\<close>

theorem admitted_within_budget:
  assumes "check fuel ask deps now taskKey g w = Some (Inr (), g', w')"
  shows "fst (scope_of deps taskKey g') = None \<or>
    (\<exists>sc. jm_get (bg_scopes g') (scope_key taskKey) = Some sc \<and> sc_stopped sc = None \<and>
      (case spent (gd_pricing deps) taskKey (payloads (bg_journal g')) of (usd, tokens, unpriced) \<Rightarrow>
         (\<forall>l. bg_tokens (sc_limit sc) = Some l \<longrightarrow> of_nat tokens < l) \<and>
         (\<forall>l. bg_usd (sc_limit sc) = Some l \<longrightarrow> usd < l \<and> unpriced = 0)))"
proof (cases "fst (scope_of deps taskKey g)")
  case None
  then have "scope_of deps taskKey g = (None, g)"
    by (auto simp: scope_of_def Let_def split: option.splits if_splits)
  with assms None show ?thesis by (simp add: check_def)
next
  case (Some sc)
  then obtain g1 where g1: "scope_of deps taskKey g = (Some sc, g1)" by (metis prod.collapse)
  then have "jm_get (bg_scopes g1) (scope_key taskKey) = Some sc"
    by (auto simp: scope_of_def Let_def split: option.splits if_splits)
  with assms g1 obtain sc' where "jm_get (bg_scopes g') (scope_key taskKey) = Some sc'" "sc_stopped sc' = None"
    "over deps taskKey (sc_limit sc') (payloads (bg_journal g')) = None"
    using check_loop_admits [of fuel ask deps now taskKey sc g1 w g' w'] by (auto simp: check_def)
  then show ?thesis
    by (intro disjI2 exI [of _ sc']) (auto simp: over_def Let_def split: prod.splits option.splits if_splits)
qed

definition demo_deps :: guard_deps where
  "demo_deps = \<lparr>gd_pricing = None, gd_run = Some \<lparr>bg_usd = None, bg_tokens = Some 2\<rparr>, gd_task = (\<lambda>_. None)\<rparr>"

definition demo_guard :: budget_guard where
  "demo_guard = \<lparr>bg_journal = snd (journal_append 1 (UsageEvent
      \<lparr>ue_member = ''a'', ue_role = TaskRole, ue_taskKey = None, ue_runtime = ''dsh'', ue_provider = None,
       ue_model = None, ue_runId = ''r'', ue_usage = emptyUsage\<lparr>us_input := 3\<rparr>, ue_costUsd = None,
       ue_unmeasured = False, ue_startedAt = 0\<rparr>) (journal_new ''p'' [])), bg_scopes = []\<rparr>"

definition demo_ask :: "string option \<Rightarrow> nat ask_budget" where
  "demo_ask reply = (\<lambda>q j w. ((reply, j), w + 1))"

definition demo_guard1 :: budget_guard where
  "demo_guard1 = fst (snd (the (check 2 (demo_ask (Some ''extend'')) demo_deps 5 None demo_guard 0)))"

theorem admitted_within_budget_witness:
  "\<exists>sc. jm_get (bg_scopes demo_guard1) ''run'' = Some sc \<and> bg_tokens (sc_limit sc) = Some 4 \<and> (3::rat) < 4"
proof -
  have "check 2 (demo_ask (Some ''extend'')) demo_deps 5 None demo_guard 0 = Some (Inr (), demo_guard1, 1)"
    by code_simp
  moreover have "fst (scope_of demo_deps None demo_guard1) \<noteq> None" by code_simp
  ultimately obtain sc where sc: "jm_get (bg_scopes demo_guard1) ''run'' = Some sc"
    using admitted_within_budget by (fastforce simp: scope_key_def)
  moreover have "map_option (\<lambda>sc. bg_tokens (sc_limit sc)) (jm_get (bg_scopes demo_guard1) ''run'') = Some (Some 4)"
    by code_simp
  ultimately show ?thesis by auto
qed

text \<open>How many more extensions a limit can take before it covers what is spent.\<close>

definition steps_left :: "rat \<Rightarrow> rat option \<Rightarrow> rat option \<Rightarrow> nat" where
  "steps_left s l f = (case l of None \<Rightarrow> 0 | Some q \<Rightarrow> nat (\<lfloor>(s - q) / or_else f 0\<rfloor> + 1))"

definition scope_ok :: "scope \<Rightarrow> bool" where
  "scope_ok sc \<longleftrightarrow> (bg_usd (sc_limit sc) \<noteq> None \<longrightarrow> (\<exists>f > 0. bg_usd (sc_first sc) = Some f)) \<and>
     (bg_tokens (sc_limit sc) \<noteq> None \<longrightarrow> (\<exists>f > 0. bg_tokens (sc_first sc) = Some f))"

definition questions_left :: "guard_deps \<Rightarrow> string option \<Rightarrow> scope \<Rightarrow> swarm_event list \<Rightarrow> nat" where
  "questions_left deps taskKey sc es =
     (case spent (gd_pricing deps) taskKey es of (usd, tokens, unpriced) \<Rightarrow>
        steps_left (of_nat tokens) (bg_tokens (sc_limit sc)) (bg_tokens (sc_first sc)) +
        steps_left usd (bg_usd (sc_limit sc)) (bg_usd (sc_first sc)) +
        (if bg_usd (sc_limit sc) = None then 0 else 1))"

lemma steps_left_None [simp]: "steps_left s None f = 0"
  by (simp add: steps_left_def)

lemma steps_left_extend:
  assumes "f > 0"
  shows "steps_left s (Some (q + f)) (Some f) = steps_left s (Some q) (Some f) - 1"
proof -
  have "(s - (q + f)) / f = (s - q) / f - 1" using assms by (simp add: field_simps)
  then show ?thesis by (simp add: steps_left_def nat_diff_distrib')
qed

lemma steps_left_over: "f > 0 \<Longrightarrow> q \<le> s \<Longrightarrow> 0 < steps_left s (Some q) (Some f)"
  by (simp add: steps_left_def)

lemma extended_left:
  assumes ok: "scope_ok sc" and ov: "over deps taskKey (sc_limit sc) es = Some why"
  shows "scope_ok (extended (snd why) sc)" and "questions_left deps taskKey (extended (snd why) sc) es < questions_left deps taskKey sc es"
proof -
  obtain usd tokens unpriced where sp: "spent (gd_pricing deps) taskKey es = (usd, tokens, unpriced)"
    by (metis prod_cases3)
  show "scope_ok (extended (snd why) sc)"
    using ok by (auto simp: scope_ok_def extended_def Let_def)
  let ?lt = "bg_tokens (sc_limit sc)" and ?lu = "bg_usd (sc_limit sc)"
  have tok: "steps_left s (map_option (\<lambda>q. q + or_else (bg_tokens (sc_first sc)) 0) ?lt) (bg_tokens (sc_first sc))
      = steps_left s ?lt (bg_tokens (sc_first sc)) - 1" for s
    using ok steps_left_extend by (cases ?lt) (auto simp: scope_ok_def)
  have dol: "steps_left s (map_option (\<lambda>q. q + or_else (bg_usd (sc_first sc)) 0) ?lu) (bg_usd (sc_first sc))
      = steps_left s ?lu (bg_usd (sc_first sc)) - 1" for s
    using ok steps_left_extend by (cases ?lu) (auto simp: scope_ok_def)
  show "questions_left deps taskKey (extended (snd why) sc) es < questions_left deps taskKey sc es"
  proof (cases "snd why")
    case True
    with ov sp have "?lu \<noteq> None" by (auto simp: over_def split: option.splits if_splits)
    with True sp show ?thesis by (auto simp: questions_left_def extended_def Let_def steps_left_def)
  next
    case False
    with ov sp consider l where "?lt = Some l" "l \<le> of_nat tokens" | l where "?lu = Some l" "l \<le> usd"
      by (auto simp: over_def split: option.splits if_splits)
    then have "0 < steps_left (of_nat tokens) ?lt (bg_tokens (sc_first sc)) + steps_left usd ?lu (bg_usd (sc_first sc))"
      using ok by cases (use steps_left_over in \<open>fastforce simp: scope_ok_def\<close>)+
    with False sp show ?thesis
      by (auto simp: questions_left_def extended_def Let_def tok dol)
  qed
qed

lemma check_loop_ends:
  assumes quiet: "\<And>q j w. usages_of (payloads (snd (fst (ask q j w)))) = usages_of (payloads j)"
  shows "scope_ok sc \<Longrightarrow> questions_left deps taskKey sc (payloads (bg_journal g)) \<le> fuel \<Longrightarrow>
    check_loop fuel ask deps now taskKey sc g w \<noteq> None"
proof (induction fuel arbitrary: sc g w)
  case 0
  show ?case
  proof (cases "over deps taskKey (sc_limit sc) (payloads (bg_journal g))")
    case None
    then show ?thesis by (cases "sc_stopped sc") (subst check_loop.simps, simp)+
  next
    case (Some why)
    with extended_left(2) [OF 0(1) Some] 0(2) show ?thesis by simp
  qed
next
  case (Suc n)
  show ?case
  proof (cases "sc_stopped sc = None \<and> over deps taskKey (sc_limit sc) (payloads (bg_journal g)) \<noteq> None")
    case False
    then show ?thesis by (subst check_loop.simps) (auto split: option.splits)
  next
    case True
    then obtain why where why: "over deps taskKey (sc_limit sc) (payloads (bg_journal g)) = Some why" by auto
    obtain sc1 g1 w1 where d: "decide ask deps now taskKey sc why g w = ((sc1, g1), w1)" by (metis prod.exhaust)
    from why True d have loop: "check_loop (Suc n) ask deps now taskKey sc g w = check_loop n ask deps now taskKey sc1 g1 w1"
      by (subst check_loop.simps) simp
    show ?thesis
    proof (cases "sc_stopped sc1")
      case (Some r)
      then show ?thesis unfolding loop by (subst check_loop.simps) simp
    next
      case None
      with decide_scope [OF d] have sc1: "sc1 = extended (snd why) sc" by (auto split: if_splits)
      obtain e where "payloads (bg_journal g1) = payloads (snd (fst (ask (budget_question taskKey sc why) (bg_journal g) w))) @ [e]"
        "\<forall>u. e \<noteq> UsageEvent u"
        using payloads_decide [OF d] by blast
      then have "usages_of (payloads (bg_journal g1)) = usages_of (payloads (bg_journal g))"
        by (simp add: usages_append usages_other quiet)
      then have "questions_left deps taskKey sc1 (payloads (bg_journal g1)) = questions_left deps taskKey sc1 (payloads (bg_journal g))"
        by (simp add: questions_left_def spent_usages [of "payloads (bg_journal g1)" "payloads (bg_journal g)"])
      with extended_left [OF Suc.prems(1) why] Suc.prems(2) show ?thesis
        unfolding loop sc1 by (intro Suc.IH) simp_all
    qed
  qed
qed

text \<open>the check ends: with no usage journaled while its questions wait and positive first limits, fuel for the
  extensions still missing is enough, so even a person who answers extend every time is asked finitely often.\<close>

theorem check_terminates:
  assumes "\<And>q j w. usages_of (payloads (snd (fst (ask q j w)))) = usages_of (payloads j)"
    and "scope_of deps taskKey g = (Some sc, g1)" "scope_ok sc"
    and "questions_left deps taskKey sc (payloads (bg_journal g)) \<le> fuel"
  shows "check fuel ask deps now taskKey g w \<noteq> None"
proof -
  have "bg_journal g1 = bg_journal g"
    using assms(2) by (auto simp: scope_of_def Let_def split: option.splits if_splits)
  with check_loop_ends [where ask = ask and g = g1 and w = w and now = now, OF assms(1,3)] assms(2,4) show ?thesis
    by (simp add: check_def)
qed

theorem check_terminates_witness:
  "check 1 (demo_ask (Some ''extend'')) demo_deps 5 None demo_guard 0 \<noteq> None"
proof (rule check_terminates)
  show "usages_of (payloads (snd (fst (demo_ask (Some ''extend'') q j w)))) = usages_of (payloads j)" for q j w
    by (simp add: demo_ask_def)
  show "scope_of demo_deps None demo_guard =
    (Some (the (fst (scope_of demo_deps None demo_guard))), snd (scope_of demo_deps None demo_guard))" by code_simp
  show "scope_ok (the (fst (scope_of demo_deps None demo_guard)))"
    by (simp add: scope_of_def demo_deps_def demo_guard_def scope_ok_def Let_def)
  show "questions_left demo_deps None (the (fst (scope_of demo_deps None demo_guard))) (payloads (bg_journal demo_guard)) \<le> 1"
    by code_simp
qed

text \<open>A guard at work: checks of any scope, with any answers, and whatever else the run journals.\<close>

inductive guard_step :: "'w ask_budget \<Rightarrow> guard_deps \<Rightarrow> budget_guard \<Rightarrow> budget_guard \<Rightarrow> bool"
  for ask :: "'w ask_budget" and deps :: guard_deps where
  gs_check: "check fuel ask deps now taskKey g w = Some (r, g', w') \<Longrightarrow> guard_step ask deps g g'"
| gs_journal: "guard_step ask deps g (g\<lparr>bg_journal := snd (journal_append now e (bg_journal g))\<rparr>)"

lemma scope_key_inj [simp]: "scope_key a = scope_key b \<longleftrightarrow> a = b"
  by (auto simp: scope_key_def split: option.splits)

lemma decide_other:
  "decide ask deps now k sc why g w = ((sc', g'), w') \<Longrightarrow> k' \<noteq> k \<Longrightarrow>
   jm_get (bg_scopes g') (scope_key k') = jm_get (bg_scopes g) (scope_key k')"
  by (auto simp: decide_def Let_def split: prod.splits)

lemma check_loop_other:
  "check_loop fuel ask deps now k sc g w = Some (r, g', w') \<Longrightarrow> k' \<noteq> k \<Longrightarrow>
   jm_get (bg_scopes g') (scope_key k') = jm_get (bg_scopes g) (scope_key k')"
proof (induction fuel arbitrary: sc g w)
  case 0
  then show ?case by (subst (asm) check_loop.simps) (auto split: option.splits)
next
  case (Suc n)
  show ?case
  proof (cases "sc_stopped sc = None \<and> over deps k (sc_limit sc) (payloads (bg_journal g)) \<noteq> None")
    case True
    then obtain why where "over deps k (sc_limit sc) (payloads (bg_journal g)) = Some why" by auto
    moreover obtain sc1 g1 w1 where d: "decide ask deps now k sc why g w = ((sc1, g1), w1)"
      by (metis prod.exhaust)
    ultimately have "check_loop n ask deps now k sc1 g1 w1 = Some (r, g', w')"
      using Suc.prems(1) True by (subst (asm) check_loop.simps) simp
    with Suc.IH [of sc1 g1 w1] decide_other [OF d] Suc.prems(2) show ?thesis by simp
  next
    case False
    with Suc.prems show ?thesis by (subst (asm) check_loop.simps) (auto split: option.splits)
  qed
qed

lemma guard_step_stopped:
  assumes "guard_step ask deps g g'" "jm_get (bg_scopes g) (scope_key k) = Some sc" "sc_stopped sc = Some why"
  shows "jm_get (bg_scopes g') (scope_key k) = Some sc"
  using assms(1)
proof cases
  case (gs_check fuel now k' w r w')
  show ?thesis
  proof (cases "k' = k")
    case True
    with gs_check assms(2,3) show ?thesis
      by (auto simp: check_def scope_of_def) (subst (asm) check_loop.simps, simp)
  next
    case False
    have sc: "jm_get (bg_scopes (snd (scope_of deps k' g))) (scope_key k) = Some sc"
      using False assms(2) by (auto simp: scope_of_def Let_def split: option.splits)
    with gs_check False assms(2) show ?thesis
      by (auto simp: check_def check_loop_other split: prod.splits option.splits)
  qed
qed (simp add: assms(2))

text \<open>stopping is final: once a scope was stopped on its budget, every later start in it is refused with that
  reason, and asks nobody, whatever other scopes did and whatever was journaled since.\<close>

theorem stopped_stays_stopped:
  assumes "jm_get (bg_scopes g) (scope_key k) = Some sc" "sc_stopped sc = Some why" "(guard_step ask deps)\<^sup>*\<^sup>* g g'"
  shows "check fuel ask deps now k g' w =
    Some (Inl (BudgetStop (if k = None then RunScope else TaskScope) k why), g', w)"
proof -
  from assms(3) have "jm_get (bg_scopes g') (scope_key k) = Some sc"
    by (induction rule: rtranclp_induct) (use assms(1,2) guard_step_stopped in auto)
  with assms(2) show ?thesis
    by (cases k) (simp add: check_def scope_of_def, subst check_loop.simps, simp)+
qed

definition demo_guard2 :: budget_guard where
  "demo_guard2 = fst (snd (the (check 2 (demo_ask None) demo_deps 5 None demo_guard 0)))"

theorem stopped_stays_stopped_witness:
  "\<exists>why. check 0 (demo_ask (Some ''extend'')) demo_deps 9 None demo_guard2 7 = Some (Inl (BudgetStop RunScope None why), demo_guard2, 7)"
proof -
  let ?sc = "the (jm_get (bg_scopes demo_guard2) (scope_key None))"
  have "jm_get (bg_scopes demo_guard2) (scope_key None) = Some ?sc" by code_simp
  moreover have "sc_stopped ?sc = Some (the (sc_stopped ?sc))" by code_simp
  ultimately have "check 0 (demo_ask (Some ''extend'')) demo_deps 9 None demo_guard2 7 =
      Some (Inl (BudgetStop (if None = (None :: string option) then RunScope else TaskScope) None (the (sc_stopped ?sc))), demo_guard2, 7)"
    by (rule stopped_stays_stopped) simp
  then show ?thesis by simp
qed

end
