(* ===== verification/Gate.thy ===== *)
theory Gate
  imports RunLog
begin

text \<open>
  \<open>packages/swarm/src/gate.ts\<close>: the completion gate. A member works in rounds; each round's
  tree is measured by the strongest source there is (a hidden suite, declared commands or a
  reviewer), may need a sign-off, and passes or briefs the next round. Running a member, a command, a
  reviewer, the suite, a snapshot and a rollback are parameters over an environment's state; they may
  throw. Progress lines are not modelled.
\<close>

section \<open>Data\<close>

text \<open>What a JavaScript throw carries: its name decides, its message is shown.\<close>

datatype thrown = AbortError string | BudgetStopError string | OtherError string

fun message_of :: "thrown \<Rightarrow> string" where
  "message_of (AbortError m) = m"
| "message_of (BudgetStopError m) = m"
| "message_of (OtherError m) = m"

record hidden_summary =
  hd_passed :: bool
  hd_total :: nat
  hd_failed :: nat
  hd_durationMs :: rat
  hd_enforcement :: enforcement
  hd_refused :: "string option"

record snapshot =
  sn_commit :: string
  sn_tree :: string

record 'w hidden_suite =
  hs_suite :: string
  hs_allowPartial :: bool
  hs_run :: "string \<Rightarrow> ('w, thrown, hidden_summary) act"
  hs_scan :: "run_result \<Rightarrow> string \<Rightarrow> string \<Rightarrow> int \<Rightarrow> ('w, thrown, tamper_signal list) act"

record gate_evidence =
  gx_kind :: evidence_kind
  gx_level :: verifier_level
  gx_passed :: bool
  gx_score :: "rat option option"
  gx_targets :: "json list option"
  gx_regressions :: "json option"
  gx_failedCommands :: "string list option"
  gx_failedCommand :: "string option"
  gx_output :: "string option"
  gx_error :: "string option"
  gx_suite :: "string option"
  gx_total :: "nat option"
  gx_failed :: "nat option"
  gx_enforcement :: "enforcement option"
  gx_tamper :: "tamper_signal list option"
  gx_refused :: "string option"
  gx_signoff :: "signoff option"

definition plain_evidence :: "evidence_kind \<Rightarrow> verifier_level \<Rightarrow> bool \<Rightarrow> gate_evidence" where
  "plain_evidence k l p = \<lparr>gx_kind = k, gx_level = l, gx_passed = p, gx_score = None, gx_targets = None,
     gx_regressions = None, gx_failedCommands = None, gx_failedCommand = None, gx_output = None, gx_error = None,
     gx_suite = None, gx_total = None, gx_failed = None, gx_enforcement = None, gx_tamper = None, gx_refused = None,
     gx_signoff = None\<rparr>"

record gate_round =
  gr_round :: nat
  gr_result :: run_result
  gr_snapshot :: string
  gr_changed :: bool
  gr_evidence :: gate_evidence
  gr_rolledBack :: bool
  gr_feedback :: "gate_evidence option"
  gr_advisory :: "tamper_signal list"

datatype stop_reason = ReviewUnavailable | SuiteUnavailable | TamperStop | SuiteUnconfined

record gate_result =
  gt_accepted :: bool
  gt_level :: verifier_level
  gt_base :: string
  gt_rounds :: "gate_round list"
  gt_lastPassing :: "string option"
  gt_reason :: "stop_reason option"
  gt_final :: "run_result option"

record gate_spec =
  gp_task :: string
  gp_maxRounds :: "rat option"
  gp_commands :: "string list option"
  gp_minLevel :: "verifier_level option"
  gp_signoff :: "string option"

text \<open>The gate's dependencies; the member, its task key and the working tree are part of them.\<close>

record 'w gate_deps =
  gd_member :: "string \<Rightarrow> ('w, thrown, run_result) act"
  gd_snapshot :: "('w, thrown, snapshot) act"
  gd_review :: "(string \<Rightarrow> string \<Rightarrow> ('w, thrown, string) act) option"
  gd_rollback :: "(string \<Rightarrow> ('w, thrown, unit) act) option"
  gd_hidden :: "'w hidden_suite option"
  gd_diffBase :: "('w, thrown, string) act option"
  gd_command :: "string \<Rightarrow> ('w, thrown, bool \<times> string) act"
  gd_record :: "gate_round \<Rightarrow> ('w, thrown, unit) act"
  gd_abort :: "'w \<Rightarrow> thrown option"
  gd_now :: "'w \<Rightarrow> int"

section \<open>Reading a reviewer's reply\<close>

definition target_status_is :: "string \<Rightarrow> json \<Rightarrow> bool" where
  "target_status_is s t \<longleftrightarrow> jfield ''status'' t = Some (JStr s)"

definition target_notes :: "json \<Rightarrow> string option" where
  "target_notes t = (case jfield ''notes'' t of Some (JStr n) \<Rightarrow> Some n | _ \<Rightarrow> None)"

definition targetStatuses :: "json list \<Rightarrow> target_status list" where
  "targetStatuses ts = map (\<lambda>t. \<lparr>ts_target = jfield ''target'' t,
     ts_status = undef (map_option js_text (jfield ''status'' t)),
     ts_notes = (if target_status_is ''unverifiable'' t then target_notes t else None)\<rparr>) ts"

text \<open>The last line that opens a JSON object, parsed; no such line, or one that does not parse, is null.\<close>

definition last_verdict :: "string \<Rightarrow> json option" where
  "last_verdict text =
     (case find (\<lambda>l. starts_with (js_trim l) ''{'') (rev (split_on newline (js_trim text))) of
        None \<Rightarrow> None
      | Some l \<Rightarrow> json_parse l)"

definition unverifiable :: "json \<Rightarrow> bool" where
  "unverifiable t \<longleftrightarrow> target_status_is ''unverifiable'' t \<and>
     (case target_notes t of None \<Rightarrow> False | Some n \<Rightarrow> js_trim n \<noteq> [])"

definition passes :: "json list \<Rightarrow> bool" where
  "passes ts \<longleftrightarrow> list_all (\<lambda>t. target_status_is ''done'' t \<or> unverifiable t) ts \<and>
     length (filter unverifiable ts) \<le> length (filter (target_status_is ''done'') ts)"

definition verdictOf :: "string \<Rightarrow> gate_evidence" where
  "verdictOf text =
     (let v = last_verdict text;
          targets = (case Option.bind v (jfield ''targets'') of Some (JArr ts) \<Rightarrow> Some ts | _ \<Rightarrow> None) in
      (plain_evidence KReview L1 (case targets of None \<Rightarrow> False | Some ts \<Rightarrow> ts \<noteq> [] \<and> passes ts))
        \<lparr>gx_score := Some (case Option.bind v (jfield ''score'') of Some (JNum q) \<Rightarrow> Some q | _ \<Rightarrow> None),
         gx_targets := targets, gx_regressions := Option.bind v (jfield ''regressions'')\<rparr>)"

definition signoffOf :: "string \<Rightarrow> signoff" where
  "signoffOf text =
     (let v = last_verdict text in
      \<lparr>so_accepted = (Option.bind v (jfield ''accept'') = Some (JBool True)),
       so_reasons = (case Option.bind v (jfield ''reasons'') of
          Some (JStr r) \<Rightarrow> if js_trim r \<noteq> [] then js_trim r else ''no reasons given''
        | _ \<Rightarrow> if v = None then ''the reviewer gave no verdict'' else ''no reasons given'')\<rparr>)"

section \<open>What the member and the reviewer are told\<close>

definition REVIEW_BRIEF :: string where
  "REVIEW_BRIEF = ''You are reviewing another engineer'' @ [CHR 0x27] @ ''s implementation of the roadmap below, in this repository'' @ [CHR 0x27] @ ''s working tree. Do not fix anything: your job is to measure.'' @ nl @ nl @
     ''For each target in the roadmap, decide whether it works as specified: check that the specified exports, signatures and behaviors exist, and run the repository'' @ [CHR 0x27] @ ''s existing tests for the code involved plus small tests or scripts you write from the requirements. Everything you create or change in the repository is discarded after your review. A target is \"unverifiable\" when it appears implemented but this environment cannot run what would verify it (a database or service it needs is missing, say); its notes must say what you could not run.'' @ nl @ nl @
     ''End your reply with exactly one line of JSON and nothing after it:'' @ nl @
     ''{\"targets\":[{\"target\":<number>,\"status\":\"done\"|\"partial\"|\"missing\"|\"broken\"|\"unverifiable\",\"notes\":\"<one sentence: what fails or is missing>\"}],\"regressions\":\"<existing tests that fail because of the change, or none>\",\"score\":<0-100, your estimate of the share of the roadmap'' @ [CHR 0x27] @ ''s requirements that work as specified>}'' @ nl @ nl @
     ''# Roadmap'' @ nl @ nl"

definition REVIEWED :: string where
  "REVIEWED = ''A reviewer then checked the result against the roadmap; its report follows.''"

definition UNSIGNED :: string where
  "UNSIGNED = ''The checks passed; a reviewer then read the change and did not sign off. Its reasons follow.''"

definition CHECKED :: string where
  "CHECKED = ''The task'' @ [CHR 0x27] @ ''s checks then ran on the result; their report follows.''"

definition HIDDEN :: string where
  "HIDDEN = ''A hidden acceptance suite, which you cannot see, then ran on the result; the report follows.''"

definition continuation :: "string \<Rightarrow> string \<Rightarrow> string \<Rightarrow> string \<Rightarrow> string \<Rightarrow> string" where
  "continuation task base rnd checked report =
     task @ nl @ nl @ ''## Continue'' @ nl @ nl @
     ''You have already worked on this roadmap: your changes are in this working tree (`git diff '' @ base @ '' '' @ rnd @
     ''` shows them all). '' @ checked @ '' Finish what is missing or partial, fix what is broken, then stop.'' @ nl @ nl @ report"

definition failure :: "string \<Rightarrow> string \<Rightarrow> string" where
  "failure command output =
     ''Verification failed. This command exited non-zero:'' @ nl @ nl @ ''  '' @ command @ nl @ nl @ ''Its output ended with:'' @
     nl @ nl @ (if output = [] then ''(no output captured)'' else output)"

section \<open>Measuring a round\<close>

text \<open>One retry for what is infrastructure, not a verdict; a fatal throw ends the gate.\<close>

definition twice :: "('w \<Rightarrow> thrown \<Rightarrow> bool) \<Rightarrow> ('w, thrown, 'a) act \<Rightarrow> ('w, thrown, string + 'a) act" where
  "twice fatal m w =
     (case m w of
        (Inr x, w1) \<Rightarrow> (Inr (Inr x), w1)
      | (Inl e, w1) \<Rightarrow>
          if fatal w1 e then (Inl e, w1)
          else (case m w1 of
             (Inr x, w2) \<Rightarrow> (Inr (Inr x), w2)
           | (Inl e2, w2) \<Rightarrow> if fatal w2 e2 then (Inl e2, w2) else (Inr (Inl (message_of e2)), w2)))"

definition aborts :: "'w gate_deps \<Rightarrow> 'w \<Rightarrow> thrown \<Rightarrow> bool" where
  "aborts d w e \<longleftrightarrow> gd_abort d w \<noteq> None"

definition ends_review :: "'w gate_deps \<Rightarrow> 'w \<Rightarrow> thrown \<Rightarrow> bool" where
  "ends_review d w e \<longleftrightarrow> gd_abort d w \<noteq> None \<or> (case e of OtherError _ \<Rightarrow> False | _ \<Rightarrow> True)"

definition throwIfAborted :: "'w gate_deps \<Rightarrow> ('w, thrown, unit) act" where
  "throwIfAborted d w = (case gd_abort d w of None \<Rightarrow> (Inr (), w) | Some e \<Rightarrow> (Inl e, w))"

record outcome =
  oc_command :: string
  oc_ok :: bool
  oc_output :: string

definition run_checks :: "'w gate_deps \<Rightarrow> string list \<Rightarrow> ('w, thrown, outcome list) act" where
  "run_checks d commands =
     each (\<lambda>c. andThen (gd_command d c) (\<lambda>(ok, out). ret \<lparr>oc_command = c, oc_ok = ok, oc_output = out\<rparr>)) commands"

definition commands_evidence :: "outcome list \<Rightarrow> gate_evidence" where
  "commands_evidence ocs =
     (let failed = filter (\<lambda>oc. \<not> oc_ok oc) ocs in
      case failed of
        [] \<Rightarrow> plain_evidence KCommands L2 True
      | f # _ \<Rightarrow> (plain_evidence KCommands L2 False)\<lparr>gx_failedCommands := Some (map oc_command failed),
          gx_failedCommand := Some (oc_command f), gx_output := Some (oc_output f)\<rparr>)"

record kept =
  kp_round :: nat
  kp_snapshot :: snapshot
  kp_evidence :: gate_evidence
  kp_passing :: "string list"

record gate_state =
  gs_rounds :: "gate_round list"
  gs_tree :: snapshot
  gs_inPlace :: "gate_evidence option"
  gs_kept :: "kept option"
  gs_prompt :: string
  gs_lastPassing :: "string option"
  gs_reason :: "stop_reason option"

text \<open>A stage of a round ends the gate (\<open>Inl\<close> the state) or goes on with what it measured.\<close>

record measured =
  ms_evidence :: "gate_evidence option"
  ms_feedback :: string
  ms_rolledBack :: bool
  ms_lower :: "gate_evidence option"
  ms_unsigned :: bool
  ms_state :: gate_state

definition gate_level :: "gate_spec \<Rightarrow> 'w gate_deps \<Rightarrow> verifier_level" where
  "gate_level sp d = (if gd_hidden d \<noteq> None then L3 else if or_else (gp_commands sp) [] \<noteq> [] then L2 else L1)"

definition stop_gate :: "'w gate_deps \<Rightarrow> gate_round \<Rightarrow> stop_reason \<Rightarrow> gate_state \<Rightarrow> ('w, thrown, gate_state) act" where
  "stop_gate d r why st =
     andThen (gd_record d r) (\<lambda>_. ret (st\<lparr>gs_rounds := gs_rounds st @ [r], gs_reason := Some why\<rparr>))"

text \<open>The checks' stage: a round that broke a check the kept round passed is rolled back where it may be;
  otherwise it is the one kept, and the next is told what it broke.\<close>

definition rollback_feedback :: "kept \<Rightarrow> outcome \<Rightarrow> string" where
  "rollback_feedback k b =
     js_join (nl @ nl)
       ([''Your last round was rolled back: it broke a check that passed before it.'', failure (oc_command b) (oc_output b)] @
        (if map_option so_accepted (gx_signoff (kp_evidence k)) = Some False
         then [''The working tree is back as it was before that round, which passed its checks but was not signed off:'',
               (case gx_signoff (kp_evidence k) of None \<Rightarrow> [] | Some s \<Rightarrow> so_reasons s)]
         else [''The working tree is back as it was before that round, where a check still fails.'',
               failure (or_else (gx_failedCommand (kp_evidence k)) []) (or_else (gx_output (kp_evidence k)) [])]))"

definition keep_feedback :: "nat \<Rightarrow> kept option \<Rightarrow> outcome option \<Rightarrow> outcome option \<Rightarrow> string" where
  "keep_feedback n k failed broke =
     (let regression = (case (k, broke) of
            (Some k, Some b) \<Rightarrow> Some (''Round '' @ nat_str n @ '' broke '' @ oc_command b @ '', which passed in round '' @ nat_str (kp_round k) @ ''.'')
          | _ \<Rightarrow> None) in
      if failed = None \<and> regression = None then []
      else js_join (nl @ nl)
        ((case regression of None \<Rightarrow> [] | Some r \<Rightarrow> [r]) @
         [case failed of None \<Rightarrow> failure [] [] | Some f \<Rightarrow> failure (oc_command f) (oc_output f)] @
         (case broke of None \<Rightarrow> [] | Some b \<Rightarrow> if broke = failed then [] else [failure (oc_command b) (oc_output b)])))"

definition measure_commands ::
  "gate_spec \<Rightarrow> 'w gate_deps \<Rightarrow> nat \<Rightarrow> snapshot \<Rightarrow> gate_state \<Rightarrow> ('w, thrown, measured) act" where
  "measure_commands sp d n snap st =
     andThen (run_checks d (or_else (gp_commands sp) [])) (\<lambda>ocs.
       (let ev = commands_evidence ocs;
            failed = find (\<lambda>oc. \<not> oc_ok oc) ocs;
            broke = (case gs_kept st of None \<Rightarrow> None
              | Some k \<Rightarrow> find (\<lambda>oc. \<not> oc_ok oc \<and> oc_command oc \<in> set (kp_passing k)) ocs);
            keep = \<lparr>ms_evidence = Some ev, ms_feedback = keep_feedback n (gs_kept st) failed broke, ms_rolledBack = False,
              ms_lower = None, ms_unsigned = False,
              ms_state = st\<lparr>gs_inPlace := Some ev,
                gs_kept := Some \<lparr>kp_round = n, kp_snapshot = snap, kp_evidence = ev,
                  kp_passing = map oc_command (filter oc_ok ocs)\<rparr>\<rparr>\<rparr> in
        (case (gs_kept st, broke, gd_rollback d) of
          (Some k, Some b, Some rollback) \<Rightarrow>
            if gate_level sp d = L2 then
              andThen (rollback (sn_commit (kp_snapshot k))) (\<lambda>_.
                ret \<lparr>ms_evidence = Some ev, ms_feedback = rollback_feedback k b, ms_rolledBack = True, ms_lower = None,
                  ms_unsigned = False,
                  ms_state = st\<lparr>gs_tree := kp_snapshot k, gs_inPlace := Some (kp_evidence k)\<rparr>\<rparr>)
            else ret keep
        | _ \<Rightarrow> ret keep)))"

text \<open>The reviewer's stage: \<open>Inl\<close> ends the gate.\<close>

definition review_feedback :: "gate_evidence \<Rightarrow> string" where
  "review_feedback e =
     json_pretty 0 (JObj [
       (''targets'', case gx_targets e of None \<Rightarrow> JNull | Some ts \<Rightarrow> JArr ts),
       (''regressions'', or_else (gx_regressions e) JNull),
       (''score'', case gx_score e of Some (Some q) \<Rightarrow> JNum q | _ \<Rightarrow> JNull)])"

definition measure_review ::
  "gate_spec \<Rightarrow> 'w gate_deps \<Rightarrow> (string \<Rightarrow> string \<Rightarrow> ('w, thrown, string) act) \<Rightarrow> gate_round \<Rightarrow> gate_state \<Rightarrow>
   ('w, thrown, gate_state + measured) act" where
  "measure_review sp d review r st =
     andThen (twice (ends_review d) (review (REVIEW_BRIEF @ gp_task sp) (gr_snapshot r))) (\<lambda>reply.
       case reply of
         Inl why \<Rightarrow>
           (let ev = (plain_evidence KReview L1 False)\<lparr>gx_score := Some None, gx_error := Some why\<rparr> in
            if gate_level sp d = L1 then andThen (stop_gate d (r\<lparr>gr_evidence := ev\<rparr>) ReviewUnavailable st) (\<lambda>st. ret (Inl st))
            else ret (Inr \<lparr>ms_evidence = Some ev, ms_feedback = [], ms_rolledBack = False, ms_lower = None,
              ms_unsigned = False, ms_state = st\<rparr>))
       | Inr text \<Rightarrow>
           (let ev = verdictOf text in
            ret (Inr \<lparr>ms_evidence = Some ev, ms_feedback = review_feedback ev, ms_rolledBack = False, ms_lower = None,
              ms_unsigned = False, ms_state = st\<lparr>gs_inPlace := Some ev\<rparr>\<rparr>)))"

definition measure_lower ::
  "gate_spec \<Rightarrow> 'w gate_deps \<Rightarrow> nat \<Rightarrow> snapshot \<Rightarrow> gate_round \<Rightarrow> gate_state \<Rightarrow> ('w, thrown, gate_state + measured) act" where
  "measure_lower sp d n snap r st =
     (if or_else (gp_commands sp) [] \<noteq> [] then andThen (measure_commands sp d n snap st) (\<lambda>m. ret (Inr m))
      else (case gd_review d of
         Some review \<Rightarrow> measure_review sp d review r st
       | None \<Rightarrow> ret (Inr \<lparr>ms_evidence = None, ms_feedback = [], ms_rolledBack = False, ms_lower = None,
           ms_unsigned = False, ms_state = st\<rparr>)))"

text \<open>The hidden suite's stage: what the weaker source said becomes feedback.\<close>

definition hidden_told :: "hidden_summary \<Rightarrow> string" where
  "hidden_told s =
     (case hd_refused s of
        None \<Rightarrow> ''hidden acceptance suite: '' @ nat_str (hd_failed s) @ '' of '' @ nat_str (hd_total s) @ '' failing''
      | Some why \<Rightarrow> ''hidden suite: snapshot refused: '' @ why)"

definition hidden_evidence :: "string \<Rightarrow> hidden_summary \<Rightarrow> gate_evidence" where
  "hidden_evidence suite s =
     (plain_evidence KHidden L3 (hd_passed s))\<lparr>gx_suite := Some suite, gx_total := Some (hd_total s),
       gx_failed := Some (hd_failed s), gx_enforcement := Some (hd_enforcement s), gx_refused := hd_refused s\<rparr>"

definition measure_hidden ::
  "'w gate_deps \<Rightarrow> gate_round \<Rightarrow> measured \<Rightarrow> ('w, thrown, gate_state + measured) act" where
  "measure_hidden d r m =
     (case gd_hidden d of
        None \<Rightarrow> ret (Inr m)
      | Some h \<Rightarrow>
          andThen (twice (aborts d) (hs_run h (gr_snapshot r))) (\<lambda>summary.
            (let r = r\<lparr>gr_feedback := ms_evidence m\<rparr>; ev = (plain_evidence KHidden L3 False)\<lparr>gx_suite := Some (hs_suite h)\<rparr> in
             case summary of
               Inl why \<Rightarrow>
                 andThen (stop_gate d (r\<lparr>gr_evidence := ev\<lparr>gx_error := Some why\<rparr>\<rparr>) SuiteUnavailable (ms_state m)) (\<lambda>st. ret (Inl st))
             | Inr s \<Rightarrow>
                 if hd_enforcement s \<noteq> Full \<and> \<not> hs_allowPartial h
                 then andThen (stop_gate d (r\<lparr>gr_evidence := ev\<lparr>gx_enforcement := Some (hd_enforcement s)\<rparr>\<rparr>) SuiteUnconfined (ms_state m)) (\<lambda>st. ret (Inl st))
                 else
                   (let ev = hidden_evidence (hs_suite h) s in
                    ret (Inr (m\<lparr>ms_evidence := Some ev, ms_lower := ms_evidence m,
                      ms_feedback := js_join (nl @ nl) (hidden_told s # (if ms_feedback m = [] then [] else [ms_feedback m])),
                      ms_state := (ms_state m)\<lparr>gs_inPlace := Some ev\<rparr>\<rparr>))))))"

text \<open>The sign-off: evidence that passes is not acceptance until a reviewer has read the change and accepted it.\<close>

definition signoff_brief :: "string \<Rightarrow> string \<Rightarrow> string \<Rightarrow> string" where
  "signoff_brief opening from task =
     opening @ nl @ nl @ ''The change is `git diff '' @ from @ ''` in this working tree.'' @ nl @ nl @ ''# Task'' @ nl @ nl @ task"

definition signoff_failed :: "string \<Rightarrow> gate_evidence \<Rightarrow> gate_evidence" where
  "signoff_failed why ev = ev\<lparr>gx_passed := False, gx_error := Some (''sign-off review could not run: '' @ why)\<rparr>"

definition signoff_settle ::
  "'w gate_deps \<Rightarrow> gate_round \<Rightarrow> measured \<Rightarrow> gate_evidence \<Rightarrow> string + string \<Rightarrow> ('w, thrown, gate_state + measured) act" where
  "signoff_settle d r m ev reply =
     (case reply of
        Inl why \<Rightarrow>
          andThen (stop_gate d (r\<lparr>gr_evidence := signoff_failed why ev, gr_feedback := ms_lower m\<rparr>) ReviewUnavailable (ms_state m))
            (\<lambda>st. ret (Inl st))
      | Inr txt \<Rightarrow>
          andThen (throwIfAborted d) (\<lambda>_.
            (let so = signoffOf txt; ev = ev\<lparr>gx_passed := so_accepted so, gx_signoff := Some so\<rparr>; st = ms_state m in
             ret (Inr (m\<lparr>ms_evidence := Some ev, ms_unsigned := \<not> so_accepted so,
               ms_feedback := (if so_accepted so then ms_feedback m else so_reasons so),
               ms_state := st\<lparr>gs_inPlace := Some ev,
                 gs_kept := map_option (\<lambda>k. if kp_round k = gr_round r then k\<lparr>kp_evidence := ev\<rparr> else k) (gs_kept st)\<rparr>\<rparr>)))))"

definition measure_signoff ::
  "gate_spec \<Rightarrow> 'w gate_deps \<Rightarrow> string \<Rightarrow> gate_round \<Rightarrow> measured \<Rightarrow> ('w, thrown, gate_state + measured) act" where
  "measure_signoff sp d base r m =
     (case (gp_signoff sp, gd_review d, ms_evidence m) of
        (Some brief, Some review, Some ev) \<Rightarrow>
          if \<not> gx_passed ev then ret (Inr m)
          else
            andThen (case gd_diffBase d of None \<Rightarrow> ret base | Some f \<Rightarrow> f) (\<lambda>from.
            andThen (twice (ends_review d) (review (signoff_brief brief from (gp_task sp)) (gr_snapshot r)))
              (signoff_settle d r m ev))
      | _ \<Rightarrow> ret (Inr m))"

section \<open>The gate\<close>

definition finish_round ::
  "gate_spec \<Rightarrow> 'w gate_deps \<Rightarrow> string \<Rightarrow> gate_round \<Rightarrow> measured \<Rightarrow> ('w, thrown, gate_state + gate_state) act" where
  "finish_round sp d base r m =
     (let ev = or_else (ms_evidence m) (plain_evidence KReview L1 False);
          r = r\<lparr>gr_evidence := ev, gr_rolledBack := ms_rolledBack m, gr_feedback := ms_lower m\<rparr>;
          st = ms_state m; lvl = gate_level sp d in
      andThen (gd_record d r) (\<lambda>_.
        if gx_passed ev
        then ret (Inl (st\<lparr>gs_rounds := gs_rounds st @ [r], gs_lastPassing := Some (gr_snapshot r)\<rparr>))
        else ret (Inr (st\<lparr>gs_rounds := gs_rounds st @ [r],
          gs_prompt := continuation (gp_task sp) base (sn_commit (gs_tree st))
            (if ms_unsigned m then UNSIGNED else if lvl = L3 then HIDDEN else if lvl = L2 then CHECKED else REVIEWED)
            (ms_feedback m)\<rparr>))))"

definition stage :: "('w, thrown, gate_state + 'a) act \<Rightarrow> ('a \<Rightarrow> ('w, thrown, gate_state + 'b) act) \<Rightarrow> ('w, thrown, gate_state + 'b) act" where
  "stage m f = andThen m (\<lambda>x. case x of Inl st \<Rightarrow> ret (Inl st) | Inr y \<Rightarrow> f y)"

text \<open>One round: \<open>Inl\<close> ends the gate, \<open>Inr\<close> goes on.\<close>

definition scan_round ::
  "'w gate_deps \<Rightarrow> gate_round \<Rightarrow> string \<Rightarrow> int \<Rightarrow> gate_state \<Rightarrow> ('w, thrown, gate_state + gate_round) act" where
  "scan_round d r before startedAt st =
     (case gd_hidden d of
        None \<Rightarrow> ret (Inr r)
      | Some h \<Rightarrow>
          andThen (hs_scan h (gr_result r) before (gr_snapshot r) startedAt) (\<lambda>tamper.
            if \<exists>t \<in> set tamper. tm_severity t = Incident
            then andThen (stop_gate d (r\<lparr>gr_evidence := (plain_evidence KHidden L3 False)\<lparr>gx_suite := Some (hs_suite h),
                   gx_tamper := Some tamper\<rparr>\<rparr>) TamperStop st) (\<lambda>st. ret (Inl st))
            else ret (Inr (r\<lparr>gr_advisory := tamper\<rparr>))))"

definition unchanged_round :: "'w gate_deps \<Rightarrow> gate_round \<Rightarrow> gate_state \<Rightarrow> ('w, thrown, gate_state + unit) act" where
  "unchanged_round d r st =
     (if gr_round r > 1 \<and> \<not> gr_changed r
      then (let r = r\<lparr>gr_evidence := or_else (gs_inPlace st) (plain_evidence KReview L1 False)\<rparr> in
            andThen (gd_record d r) (\<lambda>_. ret (Inl (st\<lparr>gs_rounds := gs_rounds st @ [r]\<rparr>))))
      else ret (Inr ()))"

definition one_round :: "gate_spec \<Rightarrow> 'w gate_deps \<Rightarrow> string \<Rightarrow> nat \<Rightarrow> gate_state \<Rightarrow> ('w, thrown, gate_state + gate_state) act" where
  "one_round sp d base n st =
     andThen (throwIfAborted d) (\<lambda>_.
     andThen (\<lambda>w. (Inr (gd_now d w), w)) (\<lambda>startedAt.
     andThen (gd_member d (gs_prompt st)) (\<lambda>result.
     andThen (throwIfAborted d) (\<lambda>_.
     andThen (gd_snapshot d) (\<lambda>snap.
       (let r = \<lparr>gr_round = n, gr_result = result, gr_snapshot = sn_commit snap,
                gr_changed = (sn_tree snap \<noteq> sn_tree (gs_tree st)), gr_evidence = plain_evidence KReview L1 False,
                gr_rolledBack = False, gr_feedback = None, gr_advisory = []\<rparr>;
            st' = st\<lparr>gs_tree := snap\<rparr> in
        stage (scan_round d r (sn_commit (gs_tree st)) startedAt st') (\<lambda>r.
        stage (unchanged_round d r st') (\<lambda>_.
        stage (measure_lower sp d n snap r st') (\<lambda>m.
        stage (measure_hidden d r m) (\<lambda>m.
        stage (measure_signoff sp d base r m) (\<lambda>m.
          finish_round sp d base r m)))))))))))"

fun gate_loop :: "nat \<Rightarrow> gate_spec \<Rightarrow> 'w gate_deps \<Rightarrow> string \<Rightarrow> nat \<Rightarrow> gate_state \<Rightarrow> ('w, thrown, gate_state) act" where
  "gate_loop 0 sp d base n st = ret st"
| "gate_loop (Suc k) sp d base n st =
     andThen (one_round sp d base n st) (\<lambda>r. case r of Inl st \<Rightarrow> ret st | Inr st \<Rightarrow> gate_loop k sp d base (Suc n) st)"

text \<open>The refusals before any round.\<close>

definition gate_refusal :: "gate_spec \<Rightarrow> 'w gate_deps \<Rightarrow> string option" where
  "gate_refusal sp d =
     (let maxRounds = or_else (gp_maxRounds sp) 4; lvl = gate_level sp d in
      if of_int \<lfloor>maxRounds\<rfloor> \<noteq> maxRounds \<or> maxRounds < 1 then Some ''maxRounds must be a positive integer''
      else if or_else (gp_commands sp) [] = [] \<and> gd_review d = None \<and> gd_hidden d = None
        then Some ''the gate needs checks (spec.commands), a reviewer (deps.review) or a hidden suite (deps.hidden)''
      else if gp_signoff sp \<noteq> None \<and> gd_review d = None then Some ''a sign-off needs a reviewer (deps.review)''
      else if lvl < or_else (gp_minLevel sp) L0
        then Some (''the gate must reach L'' @ nat_str (level_num (or_else (gp_minLevel sp) L0)) @ '', but its strongest source is L'' @
          nat_str (level_num lvl) @ '' (L2 needs checks, L3 a hidden suite)'')
      else None)"

definition gate_outcome :: "gate_spec \<Rightarrow> 'w gate_deps \<Rightarrow> string \<Rightarrow> gate_state \<Rightarrow> gate_result" where
  "gate_outcome sp d base st =
     \<lparr>gt_accepted = (gs_lastPassing st \<noteq> None), gt_level = gate_level sp d, gt_base = base, gt_rounds = gs_rounds st,
      gt_lastPassing = gs_lastPassing st, gt_reason = gs_reason st, gt_final = map_option gr_result (js_last (gs_rounds st))\<rparr>"

definition runGate :: "gate_spec \<Rightarrow> 'w gate_deps \<Rightarrow> ('w, thrown, gate_result) act" where
  "runGate sp d =
     (case gate_refusal sp d of
        Some why \<Rightarrow> throw (OtherError why)
      | None \<Rightarrow>
          andThen (gd_snapshot d) (\<lambda>base.
          andThen (gate_loop (nat \<lfloor>or_else (gp_maxRounds sp) 4\<rfloor>) sp d (sn_commit base) 1
              \<lparr>gs_rounds = [], gs_tree = base, gs_inPlace = None, gs_kept = None, gs_prompt = gp_task sp,
               gs_lastPassing = None, gs_reason = None\<rparr>) (\<lambda>st.
            ret (gate_outcome sp d (sn_commit base) st))))"

end
