(* ===== verification/GateProperties.thy ===== *)
theory GateProperties
  imports Gate
begin

text \<open>
  What the gate promises: how many rounds it runs and how they are numbered, that it accepts exactly
  on the evidence of its last round, and what evidence that is, stage by stage.
\<close>

section \<open>What a stage keeps\<close>

text \<open>The rounds, the verdict and the reason are only written where a round ends.\<close>

definition same_log :: "gate_state \<Rightarrow> gate_state \<Rightarrow> bool" where
  "same_log st st' \<longleftrightarrow> gs_rounds st' = gs_rounds st \<and> gs_lastPassing st' = gs_lastPassing st \<and> gs_reason st' = gs_reason st"

definition round_ended :: "gate_round \<Rightarrow> gate_state \<Rightarrow> gate_state \<Rightarrow> bool" where
  "round_ended r st st' \<longleftrightarrow> (\<exists>rd. gs_rounds st' = gs_rounds st @ [rd] \<and> gr_round rd = gr_round r \<and>
     \<not> gx_passed (gr_evidence rd)) \<and> gs_lastPassing st' = gs_lastPassing st"

text \<open>Evidence the strongest source gives, when it passes.\<close>

definition source_ok :: "gate_spec \<Rightarrow> 'w gate_deps \<Rightarrow> gate_evidence \<Rightarrow> bool" where
  "source_ok sp d ev \<longleftrightarrow> gx_level ev = gate_level sp d \<and>
     (case gd_hidden d of
        Some h \<Rightarrow> gx_kind ev = KHidden \<and> gx_suite ev = Some (hs_suite h) \<and> (gx_enforcement ev = Some Full \<or> hs_allowPartial h)
      | None \<Rightarrow>
          if or_else (gp_commands sp) [] \<noteq> [] then gx_kind ev = KCommands \<and> gx_failedCommands ev = None
          else gx_kind ev = KReview \<and> (\<exists>ts. gx_targets ev = Some ts \<and> ts \<noteq> [] \<and> passes ts))"

lemma plain_evidence_fields [simp]:
  "gx_kind (plain_evidence k l p) = k" "gx_level (plain_evidence k l p) = l" "gx_passed (plain_evidence k l p) = p"
  "gx_failedCommands (plain_evidence k l p) = None" "gx_signoff (plain_evidence k l p) = None"
  by (simp_all add: plain_evidence_def)

lemma verdictOf_ok: "gx_passed (verdictOf t) \<Longrightarrow> \<exists>ts. gx_targets (verdictOf t) = Some ts \<and> ts \<noteq> [] \<and> passes ts"
  by (auto simp: verdictOf_def Let_def plain_evidence_def split: option.splits)

lemma verdictOf_fields [simp]: "gx_kind (verdictOf t) = KReview" "gx_level (verdictOf t) = L1"
  by (simp_all add: verdictOf_def Let_def)

lemma commands_evidence_fields [simp]:
  "gx_kind (commands_evidence ocs) = KCommands" "gx_level (commands_evidence ocs) = L2"
  by (simp_all add: commands_evidence_def Let_def split: list.splits)

lemma commands_evidence_ok: "gx_passed (commands_evidence ocs) \<Longrightarrow> gx_failedCommands (commands_evidence ocs) = None"
  by (auto simp: commands_evidence_def Let_def split: list.splits)

lemma hidden_evidence_fields [simp]:
  "gx_kind (hidden_evidence s h) = KHidden" "gx_level (hidden_evidence s h) = L3" "gx_suite (hidden_evidence s h) = Some s"
  "gx_enforcement (hidden_evidence s h) = Some (hd_enforcement h)"
  by (simp_all add: hidden_evidence_def)

lemma stageE:
  assumes "stage m f w = (Inr r, w')"
  obtains st where "m w = (Inr (Inl st), w')" "r = Inl st"
  | y w1 where "m w = (Inr (Inr y), w1)" "f y w1 = (Inr r, w')"
  using assms unfolding stage_def
  by (auto elim!: andThen_InrE simp: ret_def split: sum.splits)

lemma stop_gate_ended:
  "stop_gate d r why st w = (Inr st', w') \<Longrightarrow> \<not> gx_passed (gr_evidence r) \<Longrightarrow> gr_round r = gr_round q \<Longrightarrow>
   round_ended q st st' \<and> gs_reason st' = Some why"
  by (auto simp: stop_gate_def round_ended_def ret_def elim!: andThen_InrE)

lemma same_log_refl [simp]: "same_log st st"
  by (simp add: same_log_def)

lemma same_log_trans: "same_log a b \<Longrightarrow> same_log b c \<Longrightarrow> same_log a c"
  by (simp add: same_log_def)

lemma same_log_ended: "same_log a b \<Longrightarrow> round_ended r b c \<Longrightarrow> round_ended r a c"
  by (simp add: same_log_def round_ended_def)

section \<open>The stages\<close>

text \<open>What every stage hands on: the log untouched, and what the evidence rests on.\<close>

definition lower_ok :: "gate_spec \<Rightarrow> 'w gate_deps \<Rightarrow> nat \<Rightarrow> gate_state \<Rightarrow> measured \<Rightarrow> bool" where
  "lower_ok sp d n st m \<longleftrightarrow> same_log st (ms_state m) \<and>
     (gd_hidden d = None \<longrightarrow> (\<exists>ev. ms_evidence m = Some ev \<and> (gx_passed ev \<longrightarrow> source_ok sp d ev) \<and>
        (gs_inPlace (ms_state m) = Some ev \<or> ms_rolledBack m \<and> gate_level sp d = L2 \<and> \<not> gx_passed ev \<and>
           gs_kept (ms_state m) = gs_kept st \<and> gs_inPlace (ms_state m) = map_option kp_evidence (gs_kept st)) \<and>
        (gate_level sp d = L2 \<longrightarrow> ms_rolledBack m \<and> gs_kept (ms_state m) = gs_kept st \<and> \<not> gx_passed ev \<or> (\<exists>k. gs_kept (ms_state m) = Some k \<and> kp_evidence k = ev \<and> kp_round k = n))))"

lemma measure_commands_ok:
  assumes "measure_commands sp d n snap st w = (Inr m, w')" "or_else (gp_commands sp) [] \<noteq> []"
  shows "lower_ok sp d n st m"
proof -
  from assms(1) obtain ocs w1 where "run_checks d (or_else (gp_commands sp) []) w = (Inr ocs, w1)"
    and rest: "(let ev = commands_evidence ocs;
            failed = find (\<lambda>oc. \<not> oc_ok oc) ocs;
            broke = (case gs_kept st of None \<Rightarrow> None
              | Some k \<Rightarrow> find (\<lambda>oc. \<not> oc_ok oc \<and> oc_command oc \<in> set (kp_passing k)) ocs);
            keep = \<lparr>ms_evidence = Some ev, ms_feedback = keep_feedback n (gs_kept st) failed broke, ms_rolledBack = False,
              ms_lower = None, ms_unsigned = False,
              ms_state = st\<lparr>gs_inPlace := Some ev,
                gs_kept := Some \<lparr>kp_round = n, kp_snapshot = snap, kp_evidence = ev,
                  kp_passing = map oc_command (filter oc_ok ocs)\<rparr>\<rparr>\<rparr> in
        (case (gs_kept st, broke, gd_rollback d) of
          (Some k, Some b, Some rollback) \<Rightarrow>
            if gate_level sp d = L2 then
              andThen (rollback (sn_commit (kp_snapshot k))) (\<lambda>_.
                ret \<lparr>ms_evidence = Some ev, ms_feedback = rollback_feedback k b, ms_rolledBack = True, ms_lower = None,
                  ms_unsigned = False,
                  ms_state = st\<lparr>gs_tree := kp_snapshot k, gs_inPlace := Some (kp_evidence k)\<rparr>\<rparr>)
            else ret keep
        | _ \<Rightarrow> ret keep)) w1 = (Inr m, w')"
    unfolding measure_commands_def by (rule andThen_InrE)
  have lv: "gate_level sp d = (if gd_hidden d \<noteq> None then L3 else L2)" using assms(2) by (simp add: gate_level_def)
  have src: "gd_hidden d = None \<Longrightarrow> gx_passed (commands_evidence ocs) \<Longrightarrow> source_ok sp d (commands_evidence ocs)"
    using assms(2) lv by (simp add: source_ok_def commands_evidence_ok)
  have "\<not> gx_passed (commands_evidence ocs)" if "find (\<lambda>oc. \<not> oc_ok oc \<and> P oc) ocs = Some b" for P b
  proof -
    from that have "\<exists>oc \<in> set ocs. \<not> oc_ok oc" by (metis find_Some_iff nth_mem)
    then have "filter (\<lambda>oc. \<not> oc_ok oc) ocs \<noteq> []" by (simp add: filter_empty_conv)
    then show ?thesis by (auto simp: commands_evidence_def Let_def split: list.splits)
  qed
  with rest src lv show ?thesis
    unfolding Let_def lower_ok_def same_log_def
    by (auto simp: ret_def elim!: andThen_InrE split: option.splits if_splits)
qed

lemma measure_review_ok:
  assumes "measure_review sp d review r st w = (Inr res, w')" "or_else (gp_commands sp) [] = []"
  shows "case res of Inl st' \<Rightarrow> round_ended r st st' \<and> gs_reason st' \<noteq> None | Inr m \<Rightarrow> lower_ok sp d n st m"
proof -
  from assms(1) obtain reply w1 where
    rest: "(case reply of
         Inl why \<Rightarrow>
           (let ev = (plain_evidence KReview L1 False)\<lparr>gx_score := Some None, gx_error := Some why\<rparr> in
            if gate_level sp d = L1 then andThen (stop_gate d (r\<lparr>gr_evidence := ev\<rparr>) ReviewUnavailable st) (\<lambda>st. ret (Inl st))
            else ret (Inr \<lparr>ms_evidence = Some ev, ms_feedback = [], ms_rolledBack = False, ms_lower = None,
              ms_unsigned = False, ms_state = st\<rparr>))
       | Inr text \<Rightarrow>
           (let ev = verdictOf text in
            ret (Inr \<lparr>ms_evidence = Some ev, ms_feedback = review_feedback ev, ms_rolledBack = False, ms_lower = None,
              ms_unsigned = False, ms_state = st\<lparr>gs_inPlace := Some ev\<rparr>\<rparr>))) w1 = (Inr res, w')"
    unfolding measure_review_def by (rule andThen_InrE)
  have lv: "gate_level sp d = (if gd_hidden d \<noteq> None then L3 else L1)" using assms(2) by (simp add: gate_level_def)
  show ?thesis
  proof (cases reply)
    case (Inl why)
    with rest lv show ?thesis
      by (auto simp: Let_def ret_def lower_ok_def elim!: andThen_InrE split: if_splits
        dest!: stop_gate_ended [where q = r])
  next
    case (Inr txt0)
    with rest lv show ?thesis
      by (auto simp: Let_def ret_def lower_ok_def same_log_def source_ok_def assms(2) verdictOf_ok)
  qed
qed

lemma measure_lower_ok:
  assumes "measure_lower sp d n snap r st w = (Inr res, w')" "gate_refusal sp d = None"
  shows "case res of Inl st' \<Rightarrow> round_ended r st st' \<and> gs_reason st' \<noteq> None | Inr m \<Rightarrow> lower_ok sp d n st m"
proof (cases "or_else (gp_commands sp) [] = []")
  case False
  with assms(1) obtain m where "measure_commands sp d n snap st w = (Inr m, w')" "res = Inr m"
    by (auto simp: measure_lower_def ret_def elim!: andThen_InrE)
  with measure_commands_ok [OF this(1) False] show ?thesis by simp
next
  case True
  show ?thesis
  proof (cases "gd_review d")
    case None
    with True assms have "gd_hidden d \<noteq> None" by (auto simp: gate_refusal_def Let_def split: if_splits)
    with None True assms(1) show ?thesis by (auto simp: measure_lower_def ret_def lower_ok_def)
  next
    case (Some review)
    with True assms(1) have "measure_review sp d review r st w = (Inr res, w')" by (simp add: measure_lower_def)
    then show ?thesis using True by (rule measure_review_ok)
  qed
qed

text \<open>After the hidden suite's stage there is evidence of the strongest source.\<close>

definition measured_ok :: "gate_spec \<Rightarrow> 'w gate_deps \<Rightarrow> nat \<Rightarrow> gate_state \<Rightarrow> measured \<Rightarrow> bool" where
  "measured_ok sp d n st m \<longleftrightarrow> same_log st (ms_state m) \<and>
     (\<exists>ev. ms_evidence m = Some ev \<and> (gx_passed ev \<longrightarrow> source_ok sp d ev) \<and>
        (gs_inPlace (ms_state m) = Some ev \<or> ms_rolledBack m \<and> gate_level sp d = L2 \<and> \<not> gx_passed ev \<and>
           gs_kept (ms_state m) = gs_kept st \<and> gs_inPlace (ms_state m) = map_option kp_evidence (gs_kept st)) \<and>
        (gate_level sp d = L2 \<longrightarrow> ms_rolledBack m \<and> gs_kept (ms_state m) = gs_kept st \<and> \<not> gx_passed ev \<or> (\<exists>k. gs_kept (ms_state m) = Some k \<and> kp_evidence k = ev \<and> kp_round k = n)))"

lemma measure_hidden_ok:
  assumes "measure_hidden d r m w = (Inr res, w')" "lower_ok sp d n st m"
  shows "case res of Inl st' \<Rightarrow> round_ended r st st' \<and> gs_reason st' \<noteq> None | Inr m' \<Rightarrow> measured_ok sp d n st m'"
proof (cases "gd_hidden d")
  case None
  with assms show ?thesis by (auto simp: measure_hidden_def ret_def lower_ok_def measured_ok_def)
next
  case (Some h)
  have lv: "gate_level sp d = L3" using Some by (simp add: gate_level_def)
  have sl: "same_log st (ms_state m)" using assms(2) by (simp add: lower_ok_def)
  from assms(1) Some obtain s w1 where
    rest: "(let r = r\<lparr>gr_feedback := ms_evidence m\<rparr>; ev = (plain_evidence KHidden L3 False)\<lparr>gx_suite := Some (hs_suite h)\<rparr> in
             case s of
               Inl why \<Rightarrow>
                 andThen (stop_gate d (r\<lparr>gr_evidence := ev\<lparr>gx_error := Some why\<rparr>\<rparr>) SuiteUnavailable (ms_state m)) (\<lambda>st. ret (Inl st))
             | Inr s \<Rightarrow>
                 if hd_enforcement s \<noteq> Full \<and> \<not> hs_allowPartial h
                 then andThen (stop_gate d (r\<lparr>gr_evidence := ev\<lparr>gx_enforcement := Some (hd_enforcement s)\<rparr>\<rparr>) SuiteUnconfined (ms_state m)) (\<lambda>st. ret (Inl st))
                 else
                   (let ev = hidden_evidence (hs_suite h) s in
                    ret (Inr (m\<lparr>ms_evidence := Some ev, ms_lower := ms_evidence m,
                      ms_feedback := js_join (nl @ nl) (hidden_told s # (if ms_feedback m = [] then [] else [ms_feedback m])),
                      ms_state := (ms_state m)\<lparr>gs_inPlace := Some ev\<rparr>\<rparr>)))) w1 = (Inr res, w')"
    unfolding measure_hidden_def by (auto elim!: andThen_InrE)
  show ?thesis
  proof (cases s)
    case (Inl why)
    with rest sl show ?thesis
      by (auto simp: Let_def ret_def elim!: andThen_InrE dest!: stop_gate_ended [where q = r] dest: same_log_ended)
  next
    case (Inr s')
    with rest sl lv Some show ?thesis
      by (auto simp: Let_def ret_def measured_ok_def same_log_def source_ok_def round_ended_def elim!: andThen_InrE
          dest!: stop_gate_ended [where q = r] split: if_splits)
  qed
qed

text \<open>After the sign-off, evidence that passes was signed off where the task asks for it.\<close>

definition acceptance_ok :: "gate_spec \<Rightarrow> 'w gate_deps \<Rightarrow> gate_evidence \<Rightarrow> bool" where
  "acceptance_ok sp d ev \<longleftrightarrow> gx_passed ev \<and> source_ok sp d ev \<and>
     (gp_signoff sp \<noteq> None \<longrightarrow> (\<exists>s. gx_signoff ev = Some s \<and> so_accepted s))"

text \<open>Between rounds: no verdict yet, and neither what is in place nor what a rollback would restore passes.\<close>

definition undecided :: "gate_spec \<Rightarrow> 'w gate_deps \<Rightarrow> gate_state \<Rightarrow> bool" where
  "undecided sp d st \<longleftrightarrow> gs_lastPassing st = None \<and> gs_reason st = None \<and>
     (\<forall>e. gs_inPlace st = Some e \<longrightarrow> \<not> gx_passed e) \<and>
     (gate_level sp d = L2 \<longrightarrow> (\<forall>k. gs_kept st = Some k \<longrightarrow> \<not> gx_passed (kp_evidence k)))"

definition signed_ok :: "gate_spec \<Rightarrow> 'w gate_deps \<Rightarrow> gate_state \<Rightarrow> measured \<Rightarrow> bool" where
  "signed_ok sp d st m \<longleftrightarrow> same_log st (ms_state m) \<and>
     (\<exists>ev. ms_evidence m = Some ev \<and> (gx_passed ev \<longrightarrow> acceptance_ok sp d ev) \<and>
        (\<not> gx_passed ev \<longrightarrow> undecided sp d st \<longrightarrow> undecided sp d (ms_state m)))"

lemma measured_undecided:
  assumes "measured_ok sp d n st m" "ms_evidence m = Some ev" "\<not> gx_passed ev" "undecided sp d st"
  shows "undecided sp d (ms_state m)"
  using assms by (cases "gs_kept st") (auto simp: measured_ok_def undecided_def same_log_def)

lemma source_ok_update [simp]:
  "source_ok sp d (ev\<lparr>gx_passed := p, gx_signoff := so\<rparr>) = source_ok sp d ev"
  by (simp add: source_ok_def split: option.splits)

lemma measure_signoff_ok:
  assumes run: "measure_signoff sp d base r m w = (Inr res, w')" and m: "measured_ok sp d (gr_round r) st m"
    and ref: "gate_refusal sp d = None"
  shows "case res of Inl st' \<Rightarrow> round_ended r st st' \<and> gs_reason st' \<noteq> None | Inr m' \<Rightarrow> signed_ok sp d st m'"
proof -
  from m obtain ev where ev: "ms_evidence m = Some ev" "gx_passed ev \<Longrightarrow> source_ok sp d ev" and sl: "same_log st (ms_state m)"
    by (auto simp: measured_ok_def)
  show ?thesis
  proof (cases "gp_signoff sp \<noteq> None \<and> gx_passed ev")
    case False
    with run ev ref have "res = Inr m"
      by (auto simp: measure_signoff_def ret_def split: option.splits)
    with False ev sl measured_undecided [OF m ev(1)] show ?thesis
      by (auto simp: signed_ok_def acceptance_ok_def)
  next
    case True
    then obtain lead where op: "gp_signoff sp = Some lead" by auto
    with ref obtain review where rv: "gd_review d = Some review" by (auto simp: gate_refusal_def Let_def split: if_splits)
    from run op rv ev(1) True obtain reply w1 where rest: "signoff_settle d r m ev reply w1 = (Inr res, w')"
      unfolding measure_signoff_def by (auto elim!: andThen_InrE)
    show ?thesis
    proof (cases reply)
      case (Inl why)
      with rest sl show ?thesis
        by (auto simp: signoff_settle_def signoff_failed_def ret_def elim!: andThen_InrE
            dest!: stop_gate_ended [where q = r] dest: same_log_ended)
    next
      case (Inr reply_text)
      let ?so = "signoffOf reply_text"
      let ?ev = "ev\<lparr>gx_passed := so_accepted ?so, gx_signoff := Some ?so\<rparr>"
      from rest Inr have res: "res = Inr (m\<lparr>ms_evidence := Some ?ev, ms_unsigned := \<not> so_accepted ?so,
                       ms_feedback := (if so_accepted ?so then ms_feedback m else so_reasons ?so),
                       ms_state := (ms_state m)\<lparr>gs_inPlace := Some ?ev,
                         gs_kept := map_option (\<lambda>k. if kp_round k = gr_round r then k\<lparr>kp_evidence := ?ev\<rparr> else k) (gs_kept (ms_state m))\<rparr>\<rparr>)"
        by (auto simp: signoff_settle_def Let_def ret_def elim!: andThen_InrE)
      have kept: "\<exists>k. gs_kept (ms_state m) = Some k \<and> kp_round k = gr_round r" if "gate_level sp d = L2"
        using m ev True that by (auto simp: measured_ok_def)
      have "acceptance_ok sp d ?ev" if "so_accepted ?so"
        using that ev(2) True by (simp add: acceptance_ok_def)
      moreover have "undecided sp d ((ms_state m)\<lparr>gs_inPlace := Some ?ev,
          gs_kept := map_option (\<lambda>k. if kp_round k = gr_round r then k\<lparr>kp_evidence := ?ev\<rparr> else k) (gs_kept (ms_state m))\<rparr>)"
        if "\<not> so_accepted ?so" "undecided sp d st"
        using that kept sl by (cases "gs_kept (ms_state m)") (simp_all add: undecided_def same_log_def)
      ultimately show ?thesis
        using sl unfolding res by (auto simp: signed_ok_def same_log_def)
    qed
  qed
qed

section \<open>A round and the loop\<close>

text \<open>How a round ends: passing, with evidence of its own snapshot; ending the gate without passing; or going on.\<close>

definition round_result :: "gate_spec \<Rightarrow> 'w gate_deps \<Rightarrow> nat \<Rightarrow> gate_state \<Rightarrow> gate_state + gate_state \<Rightarrow> bool" where
  "round_result sp d n st res \<longleftrightarrow>
     (case res of
        Inl st' \<Rightarrow> (\<exists>rd. gs_rounds st' = gs_rounds st @ [rd] \<and> gr_round rd = n \<and>
          (acceptance_ok sp d (gr_evidence rd) \<and> gs_lastPassing st' = Some (gr_snapshot rd) \<and> gs_reason st' = None \<or>
           \<not> gx_passed (gr_evidence rd) \<and> gs_lastPassing st' = None))
      | Inr st' \<Rightarrow> (\<exists>rd. gs_rounds st' = gs_rounds st @ [rd] \<and> gr_round rd = n \<and> \<not> gx_passed (gr_evidence rd)) \<and>
          undecided sp d st')"

lemma ended_result: "undecided sp d st \<Longrightarrow> round_ended r st st' \<Longrightarrow> round_result sp d (gr_round r) st (Inl st')"
  by (auto simp: undecided_def round_ended_def round_result_def)

lemma finish_round_ok:
  assumes run: "finish_round sp d base r m w = (Inr res, w')" and m: "signed_ok sp d st m" and und: "undecided sp d st"
  shows "round_result sp d (gr_round r) st res"
proof -
  from m obtain ev where ev: "ms_evidence m = Some ev" "gx_passed ev \<Longrightarrow> acceptance_ok sp d ev"
    "\<not> gx_passed ev \<Longrightarrow> undecided sp d (ms_state m)"
    using und by (auto simp: signed_ok_def)
  from m und have log: "gs_rounds (ms_state m) = gs_rounds st" "gs_reason (ms_state m) = None"
    by (auto simp: signed_ok_def same_log_def undecided_def)
  let ?r = "r\<lparr>gr_evidence := ev, gr_rolledBack := ms_rolledBack m, gr_feedback := ms_lower m\<rparr>"
  let ?p = "continuation (gp_task sp) base (sn_commit (gs_tree (ms_state m)))
            (if ms_unsigned m then UNSIGNED else if gate_level sp d = L3 then HIDDEN else if gate_level sp d = L2 then CHECKED else REVIEWED)
            (ms_feedback m)"
  from run ev(1) have res: "res = (if gx_passed ev
      then Inl ((ms_state m)\<lparr>gs_rounds := gs_rounds (ms_state m) @ [?r], gs_lastPassing := Some (gr_snapshot r)\<rparr>)
      else Inr ((ms_state m)\<lparr>gs_rounds := gs_rounds (ms_state m) @ [?r], gs_prompt := ?p\<rparr>))"
    unfolding finish_round_def Let_def by (elim andThen_InrE) (simp add: ret_def split: if_splits)
  show ?thesis
  proof (cases "gx_passed ev")
    case True
    with ev(2) log show ?thesis unfolding res by (simp add: round_result_def)
  next
    case False
    with ev(3) have "undecided sp d ((ms_state m)\<lparr>gs_rounds := gs_rounds (ms_state m) @ [?r], gs_prompt := ?p\<rparr>)"
      by (simp add: undecided_def)
    with False log show ?thesis unfolding res by (simp add: round_result_def)
  qed
qed

lemma scan_round_ok:
  assumes "scan_round d r before t st w = (Inr res, w')"
  shows "case res of Inl st' \<Rightarrow> round_ended r st st' \<and> gs_reason st' = Some TamperStop
    | Inr r' \<Rightarrow> gr_round r' = gr_round r \<and> gr_snapshot r' = gr_snapshot r"
proof (cases "gd_hidden d")
  case None
  with assms show ?thesis by (auto simp: scan_round_def ret_def)
next
  case (Some h)
  with assms show ?thesis
    by (auto simp: scan_round_def ret_def elim!: andThen_InrE split: if_splits dest!: stop_gate_ended [where q = r])
qed

lemma unchanged_round_ok:
  assumes "unchanged_round d r st w = (Inr (Inl st'), w')" "undecided sp d st"
  shows "round_ended r st st'"
  using assms by (cases "gs_inPlace st")
    (auto simp: unchanged_round_def Let_def ret_def round_ended_def undecided_def elim!: andThen_InrE split: if_splits)

lemma undecided_tree [simp]: "undecided sp d (st\<lparr>gs_tree := t\<rparr>) = undecided sp d st"
  by (simp add: undecided_def)

lemma one_round_ok:
  assumes run: "one_round sp d base n st w = (Inr res, w')" and und: "undecided sp d st" and ref: "gate_refusal sp d = None"
  shows "round_result sp d n st res"
proof -
  from run obtain result snap t w1 where
    rest: "(let r = \<lparr>gr_round = n, gr_result = result, gr_snapshot = sn_commit snap,
                gr_changed = (sn_tree snap \<noteq> sn_tree (gs_tree st)), gr_evidence = plain_evidence KReview L1 False,
                gr_rolledBack = False, gr_feedback = None, gr_advisory = []\<rparr>;
            st' = st\<lparr>gs_tree := snap\<rparr> in
        stage (scan_round d r (sn_commit (gs_tree st)) t st') (\<lambda>r.
        stage (unchanged_round d r st') (\<lambda>_.
        stage (measure_lower sp d n snap r st') (\<lambda>m.
        stage (measure_hidden d r m) (\<lambda>m.
        stage (measure_signoff sp d base r m) (\<lambda>m.
          finish_round sp d base r m)))))) w1 = (Inr res, w')"
    unfolding one_round_def by (elim andThen_InrE) blast
  let ?st = "st\<lparr>gs_tree := snap\<rparr>"
  have und': "undecided sp d ?st" using und by simp
  have keep: "round_result sp d n ?st res \<Longrightarrow> round_result sp d n st res"
    by (cases res) (simp_all add: round_result_def)
  have ended: "round_ended q ?st st' \<Longrightarrow> gr_round q = n \<Longrightarrow> round_result sp d n st (Inl st')" for q st'
    using ended_result [OF und', of q st'] by (simp add: round_result_def)
  from rest[unfolded Let_def] show ?thesis
  proof (cases rule: stageE)
    case (1 st1)
    then show ?thesis using scan_round_ok [OF 1(1)] ended by auto
  next
    case (2 r1 w2)
    have r1: "gr_round r1 = n" using scan_round_ok [OF 2(1)] by simp
    from 2(2) show ?thesis
    proof (cases rule: stageE)
      case (1 st1)
      then show ?thesis using unchanged_round_ok [OF 1(1) und'] ended r1 by auto
    next
      case (2 u w3)
      from 2(2) show ?thesis
      proof (cases rule: stageE)
        case (1 st1)
        then show ?thesis using measure_lower_ok [OF 1(1) ref] ended r1 by auto
      next
        case (2 m w4)
        have lo: "lower_ok sp d n ?st m" using measure_lower_ok [OF 2(1) ref] by simp
        from 2(2) show ?thesis
        proof (cases rule: stageE)
          case (1 st1)
          then show ?thesis using measure_hidden_ok [OF 1(1) lo] ended r1 by auto
        next
          case (2 m2 w5)
          have me: "measured_ok sp d (gr_round r1) ?st m2" using measure_hidden_ok [OF 2(1) lo] r1 by simp
          from 2(2) show ?thesis
          proof (cases rule: stageE)
            case (1 st1)
            then show ?thesis using measure_signoff_ok [OF 1(1) me ref] ended r1 by auto
          next
            case (2 m3 w6)
            have "signed_ok sp d ?st m3" using measure_signoff_ok [OF 2(1) me ref] by simp
            from finish_round_ok [OF 2(2) this und'] r1 keep show ?thesis by simp
          qed
        qed
      qed
    qed
  qed
qed

text \<open>The loop from a state between rounds: where it can stop, and what its rounds are.\<close>

definition loop_result :: "gate_spec \<Rightarrow> 'w gate_deps \<Rightarrow> nat \<Rightarrow> nat \<Rightarrow> gate_state \<Rightarrow> gate_state \<Rightarrow> bool" where
  "loop_result sp d k n st st' \<longleftrightarrow>
     (\<exists>rds. gs_rounds st' = gs_rounds st @ rds \<and> map gr_round rds = [n..<n + length rds] \<and> length rds \<le> k \<and>
        (k \<noteq> 0 \<longrightarrow> rds \<noteq> []) \<and> (\<forall>rd \<in> set (butlast rds). \<not> gx_passed (gr_evidence rd)) \<and>
        (gs_lastPassing st' \<noteq> None \<longleftrightarrow> rds \<noteq> [] \<and> gx_passed (gr_evidence (last rds))) \<and>
        (gs_lastPassing st' \<noteq> None \<longrightarrow> acceptance_ok sp d (gr_evidence (last rds)) \<and> gs_reason st' = None \<and>
           gs_lastPassing st' = Some (gr_snapshot (last rds))))"

lemma gate_loop_ok:
  "gate_loop k sp d base n st w = (Inr st', w') \<Longrightarrow> undecided sp d st \<Longrightarrow> gate_refusal sp d = None \<Longrightarrow>
   loop_result sp d k n st st'"
proof (induction k arbitrary: n st w)
  case 0
  then show ?case by (auto simp: ret_def loop_result_def undecided_def)
next
  case (Suc k)
  from Suc.prems(1) obtain r w1 where one: "one_round sp d base n st w = (Inr r, w1)"
    and rest: "(case r of Inl st \<Rightarrow> ret st | Inr st \<Rightarrow> gate_loop k sp d base (Suc n) st) w1 = (Inr st', w')"
    unfolding gate_loop.simps by (rule andThen_InrE)
  note res = one_round_ok [OF one Suc.prems(2,3)]
  show ?case
  proof (cases r)
    case (Inl st1)
    with rest have "st' = st1" by (simp add: ret_def)
    with res Inl obtain rd where "gs_rounds st' = gs_rounds st @ [rd]" "gr_round rd = n"
      "acceptance_ok sp d (gr_evidence rd) \<and> gs_lastPassing st' = Some (gr_snapshot rd) \<and> gs_reason st' = None \<or>
       \<not> gx_passed (gr_evidence rd) \<and> gs_lastPassing st' = None"
      by (auto simp: round_result_def)
    then show ?thesis
      unfolding loop_result_def by (intro exI [of _ "[rd]"]) (auto simp: acceptance_ok_def)
  next
    case (Inr st1)
    with res obtain rd where rd: "gs_rounds st1 = gs_rounds st @ [rd]" "gr_round rd = n" "\<not> gx_passed (gr_evidence rd)"
      and und: "undecided sp d st1"
      by (auto simp: round_result_def)
    from rest Inr have "gate_loop k sp d base (Suc n) st1 w1 = (Inr st', w')" by simp
    then have "loop_result sp d k (Suc n) st1 st'" using und Suc.prems(3) by (rule Suc.IH)
    then obtain rds where rds: "gs_rounds st' = gs_rounds st1 @ rds" "map gr_round rds = [Suc n..<Suc n + length rds]"
      "length rds \<le> k" "\<forall>rd \<in> set (butlast rds). \<not> gx_passed (gr_evidence rd)"
      "gs_lastPassing st' \<noteq> None \<longleftrightarrow> rds \<noteq> [] \<and> gx_passed (gr_evidence (last rds))"
      "gs_lastPassing st' \<noteq> None \<longrightarrow> acceptance_ok sp d (gr_evidence (last rds)) \<and> gs_reason st' = None \<and>
           gs_lastPassing st' = Some (gr_snapshot (last rds))"
      unfolding loop_result_def by blast
    have num: "map gr_round (rd # rds) = [n..<n + length (rd # rds)]"
    proof -
      have "[n..<n + length (rd # rds)] = n # [Suc n..<Suc n + length rds]"
        by (subst upt_conv_Cons) simp_all
      then show ?thesis using rd(2) rds(2) by (simp only: list.map)
    qed
    show ?thesis
      unfolding loop_result_def
    proof (rule exI [of _ "rd # rds"], intro conjI)
      show "map gr_round (rd # rds) = [n..<n + length (rd # rds)]" by (rule num)
      show "gs_rounds st' = gs_rounds st @ rd # rds" using rd(1) rds(1) by simp
      show "length (rd # rds) \<le> Suc k" using rds(3) by simp
    qed (use rd rds in \<open>auto split: if_splits\<close>)
  qed
qed

section \<open>Properties\<close>

lemma runGate_loop:
  assumes "runGate sp d w = (Inr res, w')"
  obtains base st where "gate_refusal sp d = None" "res = gate_outcome sp d base st"
    "loop_result sp d (nat \<lfloor>or_else (gp_maxRounds sp) 4\<rfloor>) 1
       \<lparr>gs_rounds = [], gs_tree = \<lparr>sn_commit = base, sn_tree = []\<rparr>, gs_inPlace = None, gs_kept = None, gs_prompt = [],
        gs_lastPassing = None, gs_reason = None\<rparr> st"
proof (cases "gate_refusal sp d")
  case (Some why)
  with assms show ?thesis by (simp add: runGate_def throw_def)
next
  case None
  with assms obtain snap st w1 w2 where
    loop: "gate_loop (nat \<lfloor>or_else (gp_maxRounds sp) 4\<rfloor>) sp d (sn_commit snap) 1
      \<lparr>gs_rounds = [], gs_tree = snap, gs_inPlace = None, gs_kept = None, gs_prompt = gp_task sp,
       gs_lastPassing = None, gs_reason = None\<rparr> w1 = (Inr st, w2)" and res: "res = gate_outcome sp d (sn_commit snap) st"
    unfolding runGate_def by (auto simp: ret_def elim!: andThen_InrE)
  have "loop_result sp d (nat \<lfloor>or_else (gp_maxRounds sp) 4\<rfloor>) 1
      \<lparr>gs_rounds = [], gs_tree = snap, gs_inPlace = None, gs_kept = None, gs_prompt = gp_task sp,
       gs_lastPassing = None, gs_reason = None\<rparr> st"
    by (rule gate_loop_ok [OF loop _ None]) (simp add: undecided_def)
  then show ?thesis using None res by (intro that) (simp_all add: loop_result_def)
qed

text \<open>the gate runs at least one round and at most its maximum, numbered from 1; it accepts exactly when its
  last round's evidence passes, on that round's snapshot, and then gives no reason for stopping; no earlier round
  passed.\<close>

theorem gate_accepts_last_round:
  assumes "runGate sp d w = (Inr res, w')"
  shows "gt_rounds res \<noteq> [] \<and> of_nat (length (gt_rounds res)) \<le> or_else (gp_maxRounds sp) 4 \<and>
    map gr_round (gt_rounds res) = [1..<Suc (length (gt_rounds res))] \<and>
    list_all (\<lambda>r. \<not> gx_passed (gr_evidence r)) (butlast (gt_rounds res)) \<and>
    gt_accepted res = gx_passed (gr_evidence (last (gt_rounds res))) \<and>
    gt_lastPassing res = (if gt_accepted res then Some (gr_snapshot (last (gt_rounds res))) else None) \<and>
    (gt_accepted res \<longrightarrow> gt_reason res = None)"
  using assms
proof (rule runGate_loop)
  fix base st
  assume ref: "gate_refusal sp d = None" and res: "res = gate_outcome sp d base st"
    and loop: "loop_result sp d (nat \<lfloor>or_else (gp_maxRounds sp) 4\<rfloor>) 1
       \<lparr>gs_rounds = [], gs_tree = \<lparr>sn_commit = base, sn_tree = []\<rparr>, gs_inPlace = None, gs_kept = None, gs_prompt = [],
        gs_lastPassing = None, gs_reason = None\<rparr> st"
  from ref have m: "of_int \<lfloor>or_else (gp_maxRounds sp) 4\<rfloor> = or_else (gp_maxRounds sp) (4::rat)" "1 \<le> or_else (gp_maxRounds sp) (4::rat)"
    by (auto simp: gate_refusal_def Let_def split: if_splits)
  then have pos: "1 \<le> \<lfloor>or_else (gp_maxRounds sp) (4::rat)\<rfloor>" by simp
  have bound: "of_nat n \<le> or_else (gp_maxRounds sp) (4::rat)" if "n \<le> nat \<lfloor>or_else (gp_maxRounds sp) (4::rat)\<rfloor>" for n
  proof -
    from that pos have "int n \<le> \<lfloor>or_else (gp_maxRounds sp) (4::rat)\<rfloor>" by linarith
    then show ?thesis by (simp add: le_floor_iff)
  qed
  from loop pos show ?thesis
    unfolding loop_result_def res gate_outcome_def by (auto simp: bound list_all_iff)
qed


section \<open>A run of the gate\<close>

text \<open>A member whose second round makes the one declared check pass.\<close>

definition gate_wit_result :: run_result where
  "gate_wit_result = \<lparr>rs_member = ''m'', rs_runId = ''r'', rs_text = ''done'', rs_output = [], rs_stopReason = ''end_turn''\<rparr>"

definition gate_wit_deps :: "nat gate_deps" where
  "gate_wit_deps = \<lparr>gd_member = (\<lambda>_ w. (Inr gate_wit_result, w + 1)),
     gd_snapshot = (\<lambda>w. (Inr \<lparr>sn_commit = nat_str w, sn_tree = nat_str w\<rparr>, w)), gd_review = None, gd_rollback = None,
     gd_hidden = None, gd_diffBase = None, gd_command = (\<lambda>_ w. (Inr (2 \<le> w, ''1 failed''), w)),
     gd_record = (\<lambda>_. ret ()), gd_abort = (\<lambda>_. None), gd_now = (\<lambda>_. 0)\<rparr>"

definition gate_wit_spec :: gate_spec where
  "gate_wit_spec = \<lparr>gp_task = ''t'', gp_maxRounds = Some 3, gp_commands = Some [''check''], gp_minLevel = Some L2, gp_signoff = None\<rparr>"

definition gate_wit_run :: "gate_result" where
  "gate_wit_run = (case fst (runGate gate_wit_spec gate_wit_deps 0) of Inr res \<Rightarrow> res | Inl _ \<Rightarrow> undefined)"

lemma gate_wit_run: "fst (runGate gate_wit_spec gate_wit_deps 0) = Inr gate_wit_run \<and> gt_accepted gate_wit_run \<and> length (gt_rounds gate_wit_run) = 2"
  by code_simp

lemma gate_wit_run_pair: "runGate gate_wit_spec gate_wit_deps 0 = (Inr gate_wit_run, snd (runGate gate_wit_spec gate_wit_deps 0))"
  using gate_wit_run by (simp add: prod_eq_iff)

lemma gate_accepts_last_round_witness:
  "length (gt_rounds gate_wit_run) = 2 \<and> gt_accepted gate_wit_run \<and>
   map gr_round (gt_rounds gate_wit_run) = [1..<3] \<and> gx_passed (gr_evidence (last (gt_rounds gate_wit_run))) \<and>
   gt_lastPassing gate_wit_run = Some (gr_snapshot (last (gt_rounds gate_wit_run)))"
  using gate_accepts_last_round [OF gate_wit_run_pair] gate_wit_run by simp


end
