(* ===== verification/Topologies.thy ===== *)
theory Topologies
  imports Gate
begin

text \<open>
  \<open>packages/swarm/src/topologies.ts\<close>, the topologies that run members over prompts: fanout, critic
  loop, committee, pipeline, cascade and coordinator, the intent header and the numbered plan. A member
  run, a confidence run and a question are computations over the environment; what runs concurrently
  (\<open>Promise.all\<close>) takes the order its parts settle in as an argument. Progress lines are left out.
\<close>

type_synonym 'w run_member = "member_spec \<Rightarrow> string \<Rightarrow> string option \<Rightarrow> ('w, thrown, run_result) act"
type_synonym 'w ask_question = "question_request \<Rightarrow> ('w, thrown, string) act"

section \<open>Texts\<close>

text \<open>\<open>text.replace(/\s+/g, ' ')\<close>.\<close>

fun collapse_ws :: "string \<Rightarrow> string" where
  "collapse_ws [] = []"
| "collapse_ws (c # cs) =
     (if \<not> is_ws c then c # collapse_ws cs
      else (case cs of d # _ \<Rightarrow> if is_ws d then collapse_ws cs else CHR '' '' # collapse_ws cs
            | [] \<Rightarrow> '' ''))"

definition head :: "string \<Rightarrow> nat \<Rightarrow> string" where
  "head s n = take n (js_trim (collapse_ws s))"

text \<open>\<open>/^\s*APPROVED\b/i\<close>.\<close>

definition isApproved :: "string \<Rightarrow> bool" where
  "isApproved verdict =
     (let s = dropWhile is_ws verdict in
      map to_upper (take 8 s) = ''APPROVED'' \<and> (case drop 8 s of [] \<Rightarrow> True | c # _ \<Rightarrow> \<not> is_word_char c))"

definition intent_list :: "string \<Rightarrow> string list option \<Rightarrow> string list" where
  "intent_list title items =
     (case or_else items [] of [] \<Rightarrow> [] | is \<Rightarrow> (title @ '':'') # map (\<lambda>i. ''- '' @ i) is)"

definition renderIntent :: "intent \<Rightarrow> string" where
  "renderIntent i =
     js_join nl ([''## Intent'', ''Purpose: '' @ in_purpose i, ''End state (checkable): '' @ in_endState i] @
       intent_list ''Constraints'' (in_constraints i) @ intent_list ''Preferences'' (in_preferences i))"

definition withIntent :: "string \<Rightarrow> intent option \<Rightarrow> string" where
  "withIntent prompt i = (case i of None \<Rightarrow> prompt | Some i \<Rightarrow> renderIntent i @ nl @ nl @ prompt)"

text \<open>
  \<open>/^\s*\d+[.)]\s+(.+\S)\s*$/\<close> on a line. The group is at least two characters: it starts where the
  longest run of white space after the mark leaves it (one character earlier when only one character is
  left and the run has a character to give back), ends at the last character that is no white space, and
  does not cross a carriage return, which \<open>.\<close> does not match.
\<close>

definition rtrim :: "string \<Rightarrow> string" where
  "rtrim s = rev (dropWhile is_ws (rev s))"

definition plan_group :: "string \<Rightarrow> string option" where
  "plan_group r =
     (let ws = takeWhile is_ws r; core = rtrim (dropWhile is_ws r) in
      case core of
        [] \<Rightarrow> None
      | [c] \<Rightarrow> if length ws \<ge> 2 \<and> last ws \<noteq> CHR 0x0D \<and> last ws \<noteq> newline then Some [last ws, c] else None
      | _ \<Rightarrow> if ws = [] \<or> CHR 0x0D \<in> set core \<or> newline \<in> set core then None else Some core)"

definition plan_line :: "string \<Rightarrow> string option" where
  "plan_line line =
     (let s = dropWhile is_ws line; r = dropWhile is_digit s in
      if takeWhile is_digit s = [] then None
      else (case r of
          c # r \<Rightarrow> if c = CHR ''.'' \<or> c = CHR '')'' then plan_group r else None
        | [] \<Rightarrow> None))"

definition parseNumberedPlan :: "string \<Rightarrow> string list" where
  "parseNumberedPlan s = List.map_filter plan_line (split_on newline s)"

section \<open>Concurrent runs\<close>

text \<open>
  \<open>Promise.all\<close> over started runs: \<open>order\<close> is the order they settle in, completed with what it
  leaves out. Every one runs; the first to be rejected rejects the whole; the values come back in the
  order of the list.
\<close>

definition settling :: "nat \<Rightarrow> nat list \<Rightarrow> nat list" where
  "settling n order = js_uniq (filter (\<lambda>i. i < n) order) @ filter (\<lambda>i. i \<notin> set order) [0..<n]"

fun settle_all :: "(nat \<Rightarrow> ('w, 'e, 'a) act) \<Rightarrow> nat list \<Rightarrow> ('w, 'e, 'e option \<times> (nat \<times> 'a) list) act" where
  "settle_all f [] = ret (None, [])"
| "settle_all f (i # is) =
     andThen (attempt (f i)) (\<lambda>r. andThen (settle_all f is) (\<lambda>(e, vs).
       ret (case r of Inl x \<Rightarrow> (Some x, vs) | Inr v \<Rightarrow> (e, (i, v) # vs))))"

definition promise_all :: "nat list \<Rightarrow> ('a \<Rightarrow> ('w, 'e, 'b) act) \<Rightarrow> 'a list \<Rightarrow> ('w, 'e, 'b list) act" where
  "promise_all order f xs =
     andThen (settle_all (\<lambda>i. f (xs ! i)) (settling (length xs) order)) (\<lambda>(e, vs).
       case e of Some x \<Rightarrow> throw x | None \<Rightarrow> ret (map snd (sort_key fst vs)))"

section \<open>Fanout\<close>

text \<open>A name is looked up in \<open>new Map(members)\<close>; each task comes with its index.\<close>

definition fanout_member :: "fanout_spec \<Rightarrow> string \<Rightarrow> member_spec option" where
  "fanout_member sp name = find (\<lambda>m. mb_name m = name) (fs_members sp)"

definition fanout_run :: "fanout_spec \<Rightarrow> 'w run_member \<Rightarrow> nat \<times> fanout_task \<Rightarrow> ('w, thrown, run_result) act" where
  "fanout_run sp run t =
     (case fanout_member sp (ft_member (snd t)) of
        None \<Rightarrow> throw (OtherError (''fanout task names unknown member \"'' @ ft_member (snd t) @ ''\"''))
      | Some m \<Rightarrow> run m (ft_prompt (snd t)) (Some (''task-'' @ nat_str (fst t))))"

definition runFanout :: "nat list \<Rightarrow> fanout_spec \<Rightarrow> 'w run_member \<Rightarrow> ('w, thrown, run_result list) act" where
  "runFanout order sp run =
     (if \<not> distinct (map mb_name (fs_members sp)) then throw (OtherError ''duplicate member name in team spec'')
      else promise_all order (fanout_run sp run) (List.enumerate 0 (fs_tasks sp)))"

section \<open>Critic loop\<close>

definition worker_prompt :: "string \<Rightarrow> (string \<times> string) option \<Rightarrow> string" where
  "worker_prompt task prev =
     (case prev of
        None \<Rightarrow> task
      | Some (draft, feedback) \<Rightarrow>
          task @ nl @ nl @ ''Your previous draft:'' @ nl @ draft @ nl @ nl @ ''Reviewer feedback:'' @ nl @ feedback @
          nl @ nl @ ''Revise the draft to address the feedback.'')"

definition critic_prompt :: "string \<Rightarrow> string \<Rightarrow> string" where
  "critic_prompt task draft =
     ''Task:'' @ nl @ task @ nl @ nl @ ''Draft under review:'' @ nl @ draft @ nl @ nl @
     ''Reply with exactly APPROVED if the draft fully satisfies the task; otherwise reply REVISE: <specific feedback>.''"

text \<open>\<open>k\<close> rounds are left; the history holds the ones run.\<close>

fun critic_rounds ::
  "critic_loop_spec \<Rightarrow> 'w run_member \<Rightarrow> nat \<Rightarrow> (run_result \<times> run_result) list \<Rightarrow> ('w, thrown, critic_result) act" where
  "critic_rounds sp run 0 history =
     (case js_last history of
        None \<Rightarrow> throw (OtherError ''unreachable: critic loop ran zero rounds'')
      | Some (draft, _) \<Rightarrow>
          ret \<lparr>cr_approved = False, cr_rounds = length history, cr_final = draft, cr_history = history\<rparr>)"
| "critic_rounds sp run (Suc k) history =
     andThen (run (cl_worker sp)
       (worker_prompt (cl_task sp) (map_option (\<lambda>(d, v). (rs_text d, rs_text v)) (js_last history))) (Some ''task'')) (\<lambda>draft.
     andThen (run (cl_critic sp) (critic_prompt (cl_task sp) (rs_text draft)) (Some ''task'')) (\<lambda>verdict.
       (let history = history @ [(draft, verdict)] in
        if isApproved (rs_text verdict)
        then ret \<lparr>cr_approved = True, cr_rounds = length history, cr_final = draft, cr_history = history\<rparr>
        else critic_rounds sp run k history)))"

definition runCriticLoop :: "critic_loop_spec \<Rightarrow> 'w run_member \<Rightarrow> ('w, thrown, critic_result) act" where
  "runCriticLoop sp run =
     (let maxRounds = or_else (cl_maxRounds sp) 3 in
      if of_int \<lfloor>maxRounds\<rfloor> \<noteq> maxRounds \<or> maxRounds < 1 then throw (OtherError ''maxRounds must be a positive integer'')
      else critic_rounds sp run (nat \<lfloor>maxRounds\<rfloor>) [])"

section \<open>Committee\<close>

definition dossier :: "run_result list \<Rightarrow> string" where
  "dossier as = js_join (nl @ nl) (map (\<lambda>a. ''--- Answer from '' @ rs_member a @ '' ---'' @ nl @ rs_text a) as)"

definition judge_prompt :: "string \<Rightarrow> run_result list \<Rightarrow> string" where
  "judge_prompt task as =
     ''Task:'' @ nl @ task @ nl @ nl @ ''Independent answers:'' @ nl @ nl @ dossier as @ nl @ nl @
     ''Synthesize the best single answer, drawing on the strongest points of each.''"

definition runCommittee ::
  "nat list \<Rightarrow> committee_spec \<Rightarrow> 'w run_member \<Rightarrow> ('w, thrown, run_result list \<times> run_result option) act" where
  "runCommittee order sp run =
     andThen (promise_all order (\<lambda>m. run m (co_task sp) (Some (''answer-'' @ mb_name m))) (co_members sp)) (\<lambda>answers.
       case co_judge sp of
         None \<Rightarrow> ret (answers, None)
       | Some judge \<Rightarrow>
           andThen (run judge (judge_prompt (co_task sp) answers) None) (\<lambda>synthesis. ret (answers, Some synthesis)))"

section \<open>Pipeline\<close>

definition stage_prompt :: "string \<Rightarrow> string option \<Rightarrow> string" where
  "stage_prompt prompt carry =
     (case carry of None \<Rightarrow> prompt | Some c \<Rightarrow> prompt @ nl @ nl @ ''Input from the previous stage:'' @ nl @ c)"

fun run_stages ::
  "'w run_member \<Rightarrow> (member_spec \<times> string) list \<Rightarrow> string option \<Rightarrow> ('w, thrown, run_result list) act" where
  "run_stages run [] carry = ret []"
| "run_stages run ((m, prompt) # stages) carry =
     andThen (run m (stage_prompt prompt carry) (Some ''pipeline'')) (\<lambda>r.
     andThen (run_stages run stages (Some (rs_text r))) (\<lambda>rs. ret (r # rs)))"

definition runPipeline ::
  "pipeline_spec \<Rightarrow> 'w run_member \<Rightarrow> ('w, thrown, run_result list \<times> run_result) act" where
  "runPipeline sp run =
     (if pl_stages sp = [] then throw (OtherError ''pipeline needs at least one stage'')
      else andThen (run_stages run (pl_stages sp) None) (\<lambda>stages.
        case js_last stages of
          None \<Rightarrow> throw (OtherError ''unreachable: pipeline ran zero stages'')
        | Some final \<Rightarrow> ret (stages, final)))"

section \<open>Cascade\<close>

definition CASCADE_TASK_KEY :: string where
  "CASCADE_TASK_KEY = ''task''"

record confidence_outcome =
  cf_score :: rat
  cf_failedCommand :: "string option"
  cf_output :: "string option"

text \<open>A plain number is a bare score.\<close>

type_synonym 'w run_confidence = "string list \<Rightarrow> ('w, thrown, rat + confidence_outcome) act"

fun read_confidence :: "rat + confidence_outcome \<Rightarrow> confidence_outcome" where
  "read_confidence (Inl score) = \<lparr>cf_score = score, cf_failedCommand = None, cf_output = None\<rparr>"
| "read_confidence (Inr out) = out"

definition tier_prompt :: "string \<Rightarrow> string option \<Rightarrow> string" where
  "tier_prompt task feedback =
     (case feedback of
        None \<Rightarrow> task
      | Some f \<Rightarrow> task @ nl @ nl @ ''A previous attempt was rejected with this feedback:'' @ nl @ f)"

definition confidence_feedback :: "confidence_outcome \<Rightarrow> rat \<Rightarrow> string" where
  "confidence_feedback out tau =
     (case cf_failedCommand out of
        None \<Rightarrow> ''automated confidence '' @ num_str (cf_score out) @ '' was below the required threshold '' @ num_str tau @
          ''; the verification commands did not pass''
      | Some c \<Rightarrow> ''Verification failed. This command exited non-zero:'' @ nl @ nl @ ''  '' @ c @ nl @ nl @
          ''Its output ended with:'' @ nl @ nl @ or_else (cf_output out) ''(no output captured)'')"

definition gate_prompt :: "string \<Rightarrow> string \<Rightarrow> string" where
  "gate_prompt task result =
     ''Task:'' @ nl @ task @ nl @ nl @ ''Candidate result:'' @ nl @ result @ nl @ nl @
     ''Reply with exactly APPROVED if the result fully satisfies the task; otherwise reply REVISE: <specific feedback>.''"

record cascade_state =
  cc_attempts :: "cascade_attempt list"
  cc_feedback :: "string option"

definition plain_attempt :: "nat \<Rightarrow> run_result \<Rightarrow> cascade_attempt" where
  "plain_attempt tier r = \<lparr>at_tier = tier, at_result = r, at_verdict = None, at_confidence = None, at_failure = None\<rparr>"

text \<open>One tier: \<open>True\<close> when the cascade returns on it.\<close>

definition run_tier ::
  "cascade_spec \<Rightarrow> 'w run_member \<Rightarrow> 'w run_confidence option \<Rightarrow> nat \<Rightarrow> cascade_state \<Rightarrow> ('w, thrown, bool \<times> cascade_state) act" where
  "run_tier sp run conf tier st =
     andThen (run (ca_tiers sp ! tier) (tier_prompt (ca_task sp) (cc_feedback st)) (Some CASCADE_TASK_KEY)) (\<lambda>result.
       let add = (\<lambda>a. st\<lparr>cc_attempts := cc_attempts st @ [a]\<rparr>) in
       if rs_stopReason result \<noteq> ''completed'' then ret (False, add (plain_attempt tier result))
       else (case (ca_confidence sp, conf) of
           (Some cg, Some runConfidence) \<Rightarrow>
             andThen (runConfidence (cg_commands cg)) (\<lambda>raw.
               let out = read_confidence raw;
                   st = add ((plain_attempt tier result)\<lparr>at_confidence := Some (cf_score out),
                     at_failure := map_option (\<lambda>c. (c, or_else (cf_output out) [])) (cf_failedCommand out)\<rparr>) in
               if cf_score out \<ge> cg_tau cg then ret (True, st)
               else ret (False, st\<lparr>cc_feedback := Some (confidence_feedback out (cg_tau cg))\<rparr>))
         | _ \<Rightarrow>
             (case ca_gate sp of
                None \<Rightarrow> ret (True, add (plain_attempt tier result))
              | Some gate \<Rightarrow>
                  andThen (run gate (gate_prompt (ca_task sp) (rs_text result)) (Some CASCADE_TASK_KEY)) (\<lambda>verdict.
                    let st = add ((plain_attempt tier result)\<lparr>at_verdict := Some verdict\<rparr>) in
                    if isApproved (rs_text verdict) then ret (True, st)
                    else ret (False, st\<lparr>cc_feedback := Some (rs_text verdict)\<rparr>)))))"

fun run_tiers ::
  "cascade_spec \<Rightarrow> 'w run_member \<Rightarrow> 'w run_confidence option \<Rightarrow> nat list \<Rightarrow> cascade_state \<Rightarrow> ('w, thrown, bool \<times> cascade_state) act" where
  "run_tiers sp run conf [] st = ret (False, st)"
| "run_tiers sp run conf (t # ts) st =
     andThen (run_tier sp run conf t st) (\<lambda>(done, st). if done then ret (True, st) else run_tiers sp run conf ts st)"

text \<open>The question put when every tier failed.\<close>

definition cascade_question :: "cascade_spec \<Rightarrow> cascade_state \<Rightarrow> question_request" where
  "cascade_question sp st =
     (let why = (case js_last (cc_attempts st) of
            None \<Rightarrow> []
          | Some l \<Rightarrow> if rs_stopReason (at_result l) = ''completed'' then ''last feedback: '' @ head (or_else (cc_feedback st) []) 160
              else rs_member (at_result l) @ '' stopped ('' @ rs_stopReason (at_result l) @ '')'');
          top = ca_tiers sp ! (length (ca_tiers sp) - 1) in
      \<lparr>rq_trigger = VerifierFailure,
       rq_prompt = ''cascade task \"'' @ head (ca_task sp) 80 @ ''\" failed on all '' @ nat_str (length (ca_tiers sp)) @ '' tier(s) ('' @
         nat_str (length (cc_attempts st)) @ '' attempt(s)); '' @ why @ ''. Retry '' @ mb_name top @
         '' once more with that feedback, or stop?'',
       rq_options = [''stop'', ''retry''], rq_default = ''stop'', rq_kind = None, rq_tier = None,
       rq_taskId = Some CASCADE_TASK_KEY\<rparr>)"

definition cascade_result_of :: "bool \<Rightarrow> cascade_state \<Rightarrow> ('w, thrown, cascade_result) act" where
  "cascade_result_of accepted st =
     (case js_last (cc_attempts st) of
        None \<Rightarrow> throw (OtherError ''unreachable: cascade ran zero tiers'')
      | Some l \<Rightarrow> ret \<lparr>cs_accepted = accepted, cs_tier = at_tier l, cs_final = at_result l, cs_attempts = cc_attempts st\<rparr>)"

definition runCascade ::
  "cascade_spec \<Rightarrow> 'w run_member \<Rightarrow> 'w run_confidence option \<Rightarrow> 'w ask_question \<Rightarrow> ('w, thrown, cascade_result) act" where
  "runCascade sp run conf ask =
     (if ca_tiers sp = [] then throw (OtherError ''cascade needs at least one tier'')
      else if ca_confidence sp \<noteq> None \<and> conf = None
        then throw (OtherError ''cascade confidence gate requires a confidence runner'')
      else
        andThen (run_tiers sp run conf [0..<length (ca_tiers sp)] \<lparr>cc_attempts = [], cc_feedback = None\<rparr>) (\<lambda>(done, st).
          if done then cascade_result_of True st
          else
            andThen (ask (cascade_question sp st)) (\<lambda>answer.
              if answer = ''retry''
              then andThen (run_tier sp run conf (length (ca_tiers sp) - 1) st) (\<lambda>(done, st). cascade_result_of done st)
              else cascade_result_of False st)))"

section \<open>Coordinator\<close>

definition worker_name :: "nat \<Rightarrow> string" where
  "worker_name i = ''worker-'' @ nat_str (i + 1)"

definition coordinatorSpec :: "string \<Rightarrow> nat \<Rightarrow> coordinator_spec" where
  "coordinatorSpec task n =
     \<lparr>sb_intent = None, sb_budget = None, cd_coordinator = plain_member ''coordinator'',
      cd_workers = map (\<lambda>i. plain_member (worker_name i)) [0..<n], cd_task = task\<rparr>"

definition plan_prompt :: "string \<Rightarrow> string" where
  "plan_prompt task =
     ''Task:'' @ nl @ task @ nl @ nl @
     ''Decompose this task into independent subtasks, one per line, as a numbered list (1. '' @ ellipsis @
     ''). Reply with only the list.''"

definition synthesis_prompt :: "string \<Rightarrow> subtask_result list \<Rightarrow> string" where
  "synthesis_prompt task subs =
     ''Task:'' @ nl @ task @ nl @ nl @ ''Subtask results:'' @ nl @ nl @
     js_join (nl @ nl) (map (\<lambda>s. ''--- Subtask: '' @ st_prompt s @ '' (by '' @ st_worker s @ '') ---'' @ nl @ rs_text (st_result s)) subs) @
     nl @ nl @ ''Synthesize the final deliverable for the task.''"

definition subtask_run ::
  "coordinator_spec \<Rightarrow> 'w run_member \<Rightarrow> nat \<times> string \<Rightarrow> ('w, thrown, subtask_result) act" where
  "subtask_run sp run t =
     (let worker = cd_workers sp ! (fst t mod length (cd_workers sp)) in
      andThen (run worker (snd t) (Some (''subtask-'' @ nat_str (fst t)))) (\<lambda>r.
        ret \<lparr>st_prompt = snd t, st_worker = mb_name worker, st_result = r\<rparr>))"

definition runCoordinator ::
  "nat list \<Rightarrow> coordinator_spec \<Rightarrow> 'w run_member \<Rightarrow> ('w, thrown, run_result \<times> subtask_result list \<times> run_result) act" where
  "runCoordinator order sp run =
     (if cd_workers sp = [] then throw (OtherError ''coordinator needs at least one worker'')
      else
        andThen (run (cd_coordinator sp) (plan_prompt (cd_task sp)) None) (\<lambda>plan.
          let prompts = parseNumberedPlan (rs_text plan) in
          if prompts = [] then throw (OtherError ''coordinator produced no parseable numbered subtasks'')
          else
            andThen (promise_all order (subtask_run sp run) (List.enumerate 0 prompts)) (\<lambda>subtasks.
            andThen (run (cd_coordinator sp) (synthesis_prompt (cd_task sp) subtasks) None) (\<lambda>synthesis.
              ret (plan, subtasks, synthesis)))))"

end
