(* ===== verification/TopologyProperties.thy ===== *)
theory TopologyProperties
  imports Topologies
begin

text \<open>
  What the prompt-running topologies promise: concurrent results come back in the order of their tasks,
  the critic loop and the cascade stop at the first acceptance and say truthfully whether there was one,
  and a plan printed as a numbered list is read back.
\<close>

section \<open>Concurrent runs\<close>

lemma set_settling: "set (settling n order) = {..<n}"
  by (auto simp: settling_def)

lemma distinct_settling: "distinct (settling n order)"
  by (auto simp: settling_def)

text \<open>What a computation gives in some environment.\<close>

definition may_give :: "('w, 'e, 'a) act \<Rightarrow> 'e + 'a \<Rightarrow> bool" where
  "may_give m r \<longleftrightarrow> (\<exists>w w'. m w = (r, w'))"

lemma may_giveI: "m w = (r, w') \<Longrightarrow> may_give m r"
  by (auto simp: may_give_def)

text \<open>What the settled runs hold: every value is what its run returned, a rejection is some run's.\<close>

lemma settle_all_result:
  "settle_all f is w = (r, w') \<Longrightarrow> \<exists>e vs. r = Inr (e, vs) \<and> (e = None \<longrightarrow> map fst vs = is) \<and>
     list_all (\<lambda>(i, v). may_give (f i) (Inr v)) vs \<and> (\<forall>x. e = Some x \<longrightarrow> (\<exists>i \<in> set is. may_give (f i) (Inl x)))"
proof (induction "is" arbitrary: w r w')
  case Nil
  then show ?case by (auto simp: ret_def)
next
  case (Cons i "is")
  obtain s w1 where s: "f i w = (s, w1)" by force
  obtain q w2 where q: "settle_all f is w1 = (q, w2)" by force
  from Cons.IH [OF q] obtain e vs where rest: "q = Inr (e, vs)" "e = None \<longrightarrow> map fst vs = is"
    "list_all (\<lambda>(i, v). may_give (f i) (Inr v)) vs" "\<forall>x. e = Some x \<longrightarrow> (\<exists>i \<in> set is. may_give (f i) (Inl x))"
    by blast
  from s have "may_give (f i) s" by (rule may_giveI)
  with Cons.prems s q rest show ?case by (cases s) (auto simp: act_simps)
qed

lemma sorted_by_index:
  assumes "distinct (map fst vs)" "set (map fst vs) = {..<n}"
  shows "map fst (sort_key fst vs) = [0..<n]"
proof (rule sorted_distinct_set_unique)
  show "sorted (map fst (sort_key fst vs))" by (rule sorted_sort_key)
  show "distinct (map fst (sort_key fst vs))" using assms(1) by (simp only: distinct_map distinct_sort set_sort)
  show "set (map fst (sort_key fst vs)) = set [0..<n]" using assms(2) by (simp only: set_map set_sort) auto
qed simp_all

lemma promise_all_Inr:
  assumes "promise_all order f xs w = (Inr ys, w')"
  shows "length ys = length xs" "i < length xs \<Longrightarrow> may_give (f (xs ! i)) (Inr (ys ! i))"
proof -
  obtain r w1 where s: "settle_all (\<lambda>i. f (xs ! i)) (settling (length xs) order) w = (r, w1)" by force
  from settle_all_result [OF this] obtain e vs where r: "r = Inr (e, vs)"
    and vs: "e = None \<longrightarrow> map fst vs = settling (length xs) order" "list_all (\<lambda>(i, v). may_give (f (xs ! i)) (Inr v)) vs"
    by blast
  define us where "us = sort_key fst vs"
  from assms s r have e: "e = None" and ys: "ys = map snd us"
    by (auto simp: promise_all_def act_simps us_def split: option.splits)
  have idx: "map fst us = [0..<length xs]"
    unfolding us_def using vs(1) e by (intro sorted_by_index) (simp_all add: distinct_settling set_settling)
  have len: "length us = length xs" using arg_cong [OF idx, of length] by simp
  then show "length ys = length xs" by (simp add: ys)
  show "may_give (f (xs ! i)) (Inr (ys ! i))" if i: "i < length xs"
  proof -
    have "fst (us ! i) = i" using arg_cong [OF idx, of "\<lambda>l. l ! i"] i len by simp
    moreover have "us ! i \<in> set vs" using nth_mem [of i us] i len by (simp add: us_def)
    ultimately show ?thesis using vs(2) i len by (auto simp: ys list_all_iff split_beta)
  qed
qed

lemma promise_all_Inl:
  assumes "promise_all order f xs w = (Inl e, w')"
  shows "\<exists>i < length xs. may_give (f (xs ! i)) (Inl e)"
proof -
  obtain r w1 where s: "settle_all (\<lambda>i. f (xs ! i)) (settling (length xs) order) w = (r, w1)" by force
  from settle_all_result [OF this] obtain e' vs where r: "r = Inr (e', vs)"
    and e: "\<forall>x. e' = Some x \<longrightarrow> (\<exists>i \<in> set (settling (length xs) order). may_give (f (xs ! i)) (Inl x))"
    by blast
  from assms s r have "e' = Some e" by (auto simp: promise_all_def act_simps split: option.splits)
  with e show ?thesis by (auto simp: set_settling)
qed

text \<open>whatever order a fanout's runs settle in, its results come back in task order, each what the run of its own
  task, on the member it names, returned; and when it fails, one of its tasks did.\<close>

theorem fanout_in_task_order:
  assumes "runFanout order sp run w = (r, w')" "distinct (map mb_name (fs_members sp))"
  shows "case r of
      Inr rs \<Rightarrow> length rs = length (fs_tasks sp) \<and>
        (\<forall>i < length rs. \<exists>m. fanout_member sp (ft_member (fs_tasks sp ! i)) = Some m \<and>
           may_give (run m (ft_prompt (fs_tasks sp ! i)) (Some (''task-'' @ nat_str i))) (Inr (rs ! i)))
    | Inl e \<Rightarrow> \<exists>i < length (fs_tasks sp). may_give (fanout_run sp run (i, fs_tasks sp ! i)) (Inl e)"
proof -
  from assms have p: "promise_all order (fanout_run sp run) (List.enumerate 0 (fs_tasks sp)) w = (r, w')"
    by (simp add: runFanout_def)
  show ?thesis
  proof (cases r)
    case (Inl e)
    from promise_all_Inl [OF p [unfolded Inl]] show ?thesis
      unfolding Inl sum.case by (simp add: nth_enumerate_eq cong: conj_cong)
  next
    case (Inr rs)
    have "\<exists>m. fanout_member sp (ft_member (fs_tasks sp ! i)) = Some m \<and>
        may_give (run m (ft_prompt (fs_tasks sp ! i)) (Some (''task-'' @ nat_str i))) (Inr (rs ! i))"
      if "i < length (fs_tasks sp)" for i
      using promise_all_Inr(2) [OF p [unfolded Inr], of i] that
      by (auto simp: nth_enumerate_eq fanout_run_def throw_def may_give_def split: option.splits)
    with promise_all_Inr(1) [OF p [unfolded Inr]] Inr show ?thesis by simp
  qed
qed

section \<open>The critic loop\<close>

definition critic_ok :: "nat \<Rightarrow> critic_result \<Rightarrow> bool" where
  "critic_ok most c \<longleftrightarrow>
     (let H = cr_history c; approves = (\<lambda>p. isApproved (rs_text (snd p))) in
      H \<noteq> [] \<and> cr_rounds c = length H \<and> cr_rounds c \<le> most \<and> cr_final c = fst (last H) \<and>
      list_all (\<lambda>p. \<not> approves p) (butlast H) \<and> cr_approved c = approves (last H) \<and>
      (\<not> cr_approved c \<longrightarrow> cr_rounds c = most))"

lemma critic_rounds_ok:
  "critic_rounds sp run k h w = (Inr c, w') \<Longrightarrow> list_all (\<lambda>p. \<not> isApproved (rs_text (snd p))) h \<Longrightarrow>
   critic_ok (length h + k) c"
proof (induction k arbitrary: h w)
  case 0
  then show ?case
    by (cases h rule: rev_cases)
      (auto simp: ret_def throw_def critic_ok_def list_all_iff Let_def dest: in_set_butlastD split: prod.splits)
next
  case (Suc k)
  from Suc.prems(1) obtain draft verdict w2 where
    rest: "(let history = h @ [(draft, verdict)] in
       if isApproved (rs_text verdict)
       then ret \<lparr>cr_approved = True, cr_rounds = length history, cr_final = draft, cr_history = history\<rparr>
       else critic_rounds sp run k history) w2 = (Inr c, w')"
    unfolding critic_rounds.simps by (blast elim!: andThen_InrE)
  show ?case
  proof (cases "isApproved (rs_text verdict)")
    case True
    with rest Suc.prems(2) show ?thesis by (auto simp: Let_def ret_def critic_ok_def)
  next
    case False
    with rest have "critic_rounds sp run k (h @ [(draft, verdict)]) w2 = (Inr c, w')" by (simp add: Let_def)
    from Suc.IH [OF this] Suc.prems(2) False show ?thesis by simp
  qed
qed

text \<open>the critic loop runs at least one round and at most its maximum; it stops at the first verdict that approves,
  its result is the last draft, it says approved exactly when the last verdict does, and without approval it ran every
  round.\<close>

theorem critic_loop_verdict:
  assumes "runCriticLoop sp run w = (Inr c, w')"
  shows "critic_ok (nat \<lfloor>or_else (cl_maxRounds sp) 3\<rfloor>) c \<and> of_nat (cr_rounds c) \<le> or_else (cl_maxRounds sp) 3"
proof -
  let ?q = "or_else (cl_maxRounds sp) (3::rat)"
  from assms have pos: "1 \<le> ?q" and loop: "critic_rounds sp run (nat \<lfloor>?q\<rfloor>) [] w = (Inr c, w')"
    by (auto simp: runCriticLoop_def Let_def throw_def split: if_splits)
  have ok: "critic_ok (nat \<lfloor>?q\<rfloor>) c" using critic_rounds_ok [OF loop] by simp
  then have "cr_rounds c \<le> nat \<lfloor>?q\<rfloor>" by (simp add: critic_ok_def Let_def)
  moreover have "1 \<le> \<lfloor>?q\<rfloor>" using pos by simp
  ultimately have "int (cr_rounds c) \<le> \<lfloor>?q\<rfloor>" by linarith
  with ok show ?thesis by (simp add: le_floor_iff)
qed

section \<open>The cascade\<close>

text \<open>An attempt the cascade may accept.\<close>

definition attempt_ok :: "cascade_spec \<Rightarrow> cascade_attempt \<Rightarrow> bool" where
  "attempt_ok sp a \<longleftrightarrow> rs_stopReason (at_result a) = ''completed'' \<and>
     (case ca_confidence sp of
        Some cg \<Rightarrow> (case at_confidence a of None \<Rightarrow> False | Some q \<Rightarrow> cg_tau cg \<le> q)
      | None \<Rightarrow> (case ca_gate sp of
          None \<Rightarrow> True
        | Some _ \<Rightarrow> (case at_verdict a of None \<Rightarrow> False | Some v \<Rightarrow> isApproved (rs_text v))))"

lemma run_tier_ok:
  assumes "run_tier sp run conf t st w = (Inr (d, st'), w')" "ca_confidence sp \<noteq> None \<longrightarrow> conf \<noteq> None"
  shows "\<exists>a. cc_attempts st' = cc_attempts st @ [a] \<and> at_tier a = t \<and> d = attempt_ok sp a"
  using assms
  by (cases "ca_confidence sp"; cases conf; cases "ca_gate sp")
    (auto simp: run_tier_def ret_def Let_def plain_attempt_def attempt_ok_def elim!: andThen_InrE split: if_splits)

lemma run_tiers_ok:
  "run_tiers sp run conf ts st w = (Inr (d, st'), w') \<Longrightarrow> ca_confidence sp \<noteq> None \<longrightarrow> conf \<noteq> None \<Longrightarrow>
   \<exists>as. cc_attempts st' = cc_attempts st @ as \<and> map at_tier as = take (length as) ts \<and> length as \<le> length ts \<and>
     list_all (\<lambda>a. \<not> attempt_ok sp a) (butlast as) \<and>
     (if d then as \<noteq> [] \<and> attempt_ok sp (last as) else length as = length ts \<and> list_all (\<lambda>a. \<not> attempt_ok sp a) as)"
proof (induction ts arbitrary: st w)
  case Nil
  then show ?case by (auto simp: ret_def)
next
  case (Cons t ts)
  from Cons.prems(1) obtain e st1 w1 where one: "run_tier sp run conf t st w = (Inr (e, st1), w1)"
    and rest: "(if e then ret (True, st1) else run_tiers sp run conf ts st1) w1 = (Inr (d, st'), w')"
    by (auto elim!: andThen_InrE)
  from run_tier_ok [OF one Cons.prems(2)] obtain a where a: "cc_attempts st1 = cc_attempts st @ [a]" "at_tier a = t"
    "e = attempt_ok sp a" by blast
  show ?case
  proof (cases e)
    case True
    with rest a show ?thesis by (intro exI [of _ "[a]"]) (auto simp: ret_def)
  next
    case False
    with rest have "run_tiers sp run conf ts st1 w1 = (Inr (d, st'), w')" by simp
    from Cons.IH [OF this Cons.prems(2)] obtain as where
      "cc_attempts st' = cc_attempts st1 @ as" "map at_tier as = take (length as) ts" "length as \<le> length ts"
      "list_all (\<lambda>a. \<not> attempt_ok sp a) (butlast as)"
      "if d then as \<noteq> [] \<and> attempt_ok sp (last as) else length as = length ts \<and> list_all (\<lambda>a. \<not> attempt_ok sp a) as"
      by blast
    with a False show ?thesis by (intro exI [of _ "a # as"]) auto
  qed
qed

lemma cascade_result_ok:
  "cascade_result_of acc st w = (Inr c, w') \<Longrightarrow> cs_accepted c = acc \<and> cs_attempts c = cc_attempts st \<and>
     cc_attempts st \<noteq> [] \<and> cs_tier c = at_tier (last (cc_attempts st)) \<and> cs_final c = at_result (last (cc_attempts st))"
  by (auto simp: cascade_result_of_def ret_def throw_def js_last_def split: if_splits)

text \<open>C13: a cascade accepts exactly its last attempt, and only one that completed and met its confidence threshold, else
  its gate's approval; no earlier attempt qualified; the tiers were tried in order from the first, and only after all of
  them failed may the top one have run once more; a cascade that does not accept tried every tier.\<close>

theorem cascade_verdict:
  assumes "runCascade sp run conf ask w = (Inr c, w')"
  shows "cs_attempts c \<noteq> [] \<and> cs_tier c = at_tier (last (cs_attempts c)) \<and> cs_final c = at_result (last (cs_attempts c)) \<and>
    cs_accepted c = attempt_ok sp (last (cs_attempts c)) \<and> list_all (\<lambda>a. \<not> attempt_ok sp a) (butlast (cs_attempts c)) \<and>
    prefix (map at_tier (cs_attempts c)) ([0..<length (ca_tiers sp)] @ [length (ca_tiers sp) - 1]) \<and>
    (\<not> cs_accepted c \<longrightarrow> length (ca_tiers sp) \<le> length (cs_attempts c))"
proof -
  let ?n = "length (ca_tiers sp)"
  from assms have conf: "ca_confidence sp \<noteq> None \<longrightarrow> conf \<noteq> None" and "ca_tiers sp \<noteq> []"
    by (auto simp: runCascade_def throw_def split: if_splits)
  with assms obtain d st w1 where
    tiers: "run_tiers sp run conf [0..<?n] \<lparr>cc_attempts = [], cc_feedback = None\<rparr> w = (Inr (d, st), w1)" and
    rest: "(if d then cascade_result_of True st
          else
            andThen (ask (cascade_question sp st)) (\<lambda>answer.
              if answer = ''retry''
              then andThen (run_tier sp run conf (?n - 1) st) (\<lambda>(done, st). cascade_result_of done st)
              else cascade_result_of False st)) w1 = (Inr c, w')"
    by (auto simp: runCascade_def throw_def split: if_splits elim!: andThen_InrE)
  from run_tiers_ok [OF tiers conf] have as: "map at_tier (cc_attempts st) = take (length (cc_attempts st)) [0..<?n]"
    "length (cc_attempts st) \<le> ?n" "list_all (\<lambda>a. \<not> attempt_ok sp a) (butlast (cc_attempts st))"
    "if d then cc_attempts st \<noteq> [] \<and> attempt_ok sp (last (cc_attempts st))
      else length (cc_attempts st) = ?n \<and> list_all (\<lambda>a. \<not> attempt_ok sp a) (cc_attempts st)"
    by auto
  have pre: "prefix (map at_tier (cc_attempts st)) ([0..<?n] @ [?n - 1])"
    unfolding as(1) by (intro prefix_prefix take_is_prefix)
  show ?thesis
  proof (cases d)
    case True
    with rest have "cascade_result_of True st w1 = (Inr c, w')" by simp
    from cascade_result_ok [OF this] as pre True show ?thesis by simp
  next
    case False
    with rest obtain answer w2 where
      r: "(if answer = ''retry'' then andThen (run_tier sp run conf (?n - 1) st) (\<lambda>(done, st). cascade_result_of done st)
          else cascade_result_of False st) w2 = (Inr c, w')"
      by (auto elim: andThen_InrE)
    from as(4) False have none: "length (cc_attempts st) = ?n" "list_all (\<lambda>a. \<not> attempt_ok sp a) (cc_attempts st)" by auto
    show ?thesis
    proof (cases "answer = ''retry''")
      case True
      with r obtain e st2 w3 where one: "run_tier sp run conf (?n - 1) st w2 = (Inr (e, st2), w3)"
        and res: "cascade_result_of e st2 w3 = (Inr c, w')"
        by (auto elim!: andThen_InrE)
      from run_tier_ok [OF one conf] obtain a where "cc_attempts st2 = cc_attempts st @ [a]" "at_tier a = ?n - 1"
        "e = attempt_ok sp a" by blast
      with cascade_result_ok [OF res] none as(1) show ?thesis by simp
    next
      case False
      with r have "cascade_result_of False st w2 = (Inr c, w')" by simp
      from cascade_result_ok [OF this] none as(3) pre show ?thesis by (auto simp: list_all_iff)
    qed
  qed
qed

section \<open>Numbered plans\<close>

lemma digit_not_ws: "is_digit c \<Longrightarrow> \<not> is_ws c"
  by (auto simp: is_digit_def is_ws_def)

lemma plan_mark:
  assumes "\<not> is_digit (hd r)" "r \<noteq> []"
  shows "takeWhile is_digit (nat_str n @ r) = nat_str n" "dropWhile is_digit (nat_str n @ r) = r"
    "dropWhile is_ws (nat_str n @ r) = nat_str n @ r"
proof -
  from assms nat_str_digits [of n] show "takeWhile is_digit (nat_str n @ r) = nat_str n"
    "dropWhile is_digit (nat_str n @ r) = r"
    by (cases r; auto simp: takeWhile_append2 dropWhile_append2 list_all_iff)+
  show "dropWhile is_ws (nat_str n @ r) = nat_str n @ r"
    using nat_str_digits [of n] nat_str_nonempty [of n] by (cases "nat_str n") (auto dest: digit_not_ws)
qed

lemma plan_line_mark: "plan_line (nat_str n @ ''. '' @ p) = plan_group ('' '' @ p)"
  using nat_str_nonempty [of n]
  by (simp add: plan_line_def plan_mark [of "''. '' @ p", simplified] is_digit_def Let_def)

lemma map_filter_all: "map f xs = map Some ys \<Longrightarrow> List.map_filter f xs = ys"
  by (induction xs arbitrary: ys) (auto simp: List.map_filter_def)

text \<open>A subtask that survives being printed on one numbered line.\<close>

definition plan_item :: "string \<Rightarrow> bool" where
  "plan_item p \<longleftrightarrow> 2 \<le> length p \<and> \<not> is_ws (hd p) \<and> \<not> is_ws (last p) \<and> newline \<notin> set p \<and> CHR 0x0D \<notin> set p"

lemma rtrim_id: "p \<noteq> [] \<Longrightarrow> \<not> is_ws (last p) \<Longrightarrow> rtrim p = p"
  by (cases p rule: rev_cases) (auto simp: rtrim_def)

lemma plan_group_item:
  assumes "plan_item p"
  shows "plan_group ('' '' @ p) = Some p"
proof -
  from assms obtain a b q where p: "p = a # b # q"
    by (cases p; cases "tl p") (auto simp: plan_item_def)
  have "takeWhile is_ws p = []" "dropWhile is_ws p = p" using assms p by (simp_all add: plan_item_def)
  moreover have "rtrim p = p" using assms p by (intro rtrim_id) (simp_all add: plan_item_def)
  ultimately show ?thesis using assms p by (simp add: plan_group_def is_ws_def Let_def plan_item_def)
qed

text \<open>The list a coordinator is asked for.\<close>

definition numbered :: "string list \<Rightarrow> string list" where
  "numbered ps = map (\<lambda>(i, p). nat_str (i + 1) @ ''. '' @ p) (List.enumerate 0 ps)"

lemma nat_str_no_newline: "newline \<notin> set (nat_str n)"
  using nat_str_digits [of n] by (auto simp: list_all_iff newline_def is_digit_def)


text \<open>A subtask of a single character is dropped: the group after the mark wants two.\<close>

theorem one_character_subtask_lost: "parseNumberedPlan (nat_str n @ ''. '' @ [c]) = []"
proof -
  have "plan_group ('' '' @ [c]) = None" "plan_group '' '' = None" "plan_line [] = None"
    by (simp_all add: plan_group_def plan_line_def is_ws_def rtrim_def Let_def)
  moreover have "split_on newline (nat_str n @ ''. '' @ [c]) = (if c = newline then [nat_str n @ ''. '', []] else [nat_str n @ ''. '' @ [c]])"
  proof (cases "c = newline")
    case True
    have "newline \<notin> set (nat_str n @ ''. '')" using nat_str_no_newline by (simp add: newline_def)
    from split_on_append [OF this, of "[]"] True show ?thesis by simp
  next
    case False
    then have "newline \<notin> set (nat_str n @ ''. '' @ [c])" using nat_str_no_newline by (auto simp: newline_def)
    from split_on_none [OF this] False show ?thesis by simp
  qed
  ultimately show ?thesis
    using plan_line_mark [of n "[]"] plan_line_mark [of n "[c]"]
    by (simp add: parseNumberedPlan_def List.map_filter_def)
qed

section \<open>Example runs\<close>

text \<open>Members whose reply depends on how many ran before: the reviewer (and the gate) approves from the fourth run on.\<close>

definition demo_reply :: "string \<Rightarrow> string \<Rightarrow> run_result" where
  "demo_reply m s = \<lparr>rs_member = m, rs_runId = ''r'', rs_text = s, rs_output = [], rs_stopReason = ''completed''\<rparr>"

definition demo_run_member :: "nat run_member" where
  "demo_run_member m p k w =
     (Inr (demo_reply (mb_name m) (if mb_name m = ''critic'' then if 3 \<le> w then ''approved!'' else ''REVISE: more'' else ''draft'')), w + 1)"

definition demo_critic :: critic_loop_spec where
  "demo_critic = \<lparr>sb_intent = None, sb_budget = None, cl_worker = plain_member ''w'', cl_critic = plain_member ''critic'',
     cl_task = ''t'', cl_maxRounds = None\<rparr>"

definition demo_cascade :: cascade_spec where
  "demo_cascade = \<lparr>sb_intent = None, sb_budget = None, ca_tiers = [plain_member ''a'', plain_member ''b''], ca_task = ''t'',
     ca_gate = Some (plain_member ''critic''), ca_confidence = None\<rparr>"

definition demo_fanout :: fanout_spec where
  "demo_fanout = \<lparr>sb_intent = None, sb_budget = None, fs_members = [plain_member ''a'', plain_member ''b''],
     fs_tasks = [\<lparr>ft_member = ''b'', ft_prompt = ''x''\<rparr>, \<lparr>ft_member = ''a'', ft_prompt = ''y''\<rparr>]\<rparr>"

theorem fanout_in_task_order_witness:
  "\<exists>rs. fst (runFanout [1] demo_fanout demo_run_member 0) = Inr rs \<and> map rs_member rs = [''b'', ''a''] \<and> length rs = 2"
proof -
  let ?rs = "[demo_reply ''b'' ''draft'', demo_reply ''a'' ''draft'']"
  have d: "distinct (map mb_name (fs_members demo_fanout))" by code_simp
  have r: "fst (runFanout [1] demo_fanout demo_run_member 0) = Inr ?rs" by code_simp
  then have "runFanout [1] demo_fanout demo_run_member 0 = (Inr ?rs, snd (runFanout [1] demo_fanout demo_run_member 0))"
    by (simp add: prod_eq_iff)
  from fanout_in_task_order [OF this d] r show ?thesis by (auto simp: demo_reply_def demo_fanout_def)
qed

definition demo_critic_run :: critic_result where
  "demo_critic_run = (case fst (runCriticLoop demo_critic demo_run_member 0) of Inr c \<Rightarrow> c | Inl _ \<Rightarrow> undefined)"

theorem critic_loop_verdict_witness:
  "cr_approved demo_critic_run \<and> cr_rounds demo_critic_run = 2 \<and> critic_ok 3 demo_critic_run"
proof -
  have r: "fst (runCriticLoop demo_critic demo_run_member 0) = Inr demo_critic_run \<and> cr_approved demo_critic_run \<and>
    cr_rounds demo_critic_run = 2" by code_simp
  then have "runCriticLoop demo_critic demo_run_member 0 = (Inr demo_critic_run, snd (runCriticLoop demo_critic demo_run_member 0))"
    by (simp add: prod_eq_iff)
  from critic_loop_verdict [OF this] r show ?thesis by (simp add: demo_critic_def)
qed

definition demo_cascade_run :: cascade_result where
  "demo_cascade_run =
     (case fst (runCascade demo_cascade demo_run_member None (\<lambda>q. ret (rq_default q)) 0) of Inr c \<Rightarrow> c | Inl _ \<Rightarrow> undefined)"

theorem cascade_verdict_witness:
  "cs_accepted demo_cascade_run \<and> length (cs_attempts demo_cascade_run) = 2 \<and>
   attempt_ok demo_cascade (last (cs_attempts demo_cascade_run)) \<and> cs_tier demo_cascade_run = at_tier (last (cs_attempts demo_cascade_run))"
proof -
  let ?run = "runCascade demo_cascade demo_run_member None (\<lambda>q. ret (rq_default q)) (0::nat)"
  have r: "fst ?run = Inr demo_cascade_run \<and> cs_accepted demo_cascade_run \<and> length (cs_attempts demo_cascade_run) = 2"
    by code_simp
  then have "?run = (Inr demo_cascade_run, snd ?run)" by (simp add: prod_eq_iff)
  from cascade_verdict [OF this] r show ?thesis by simp
qed


end
