(* ===== verification/Workers.thy ===== *)
theory Workers
  imports BoardSafety Topologies
begin

text \<open>
  The peer team (\<open>seedBoard\<close>, \<open>runBoardWorkers\<close> and \<open>runPeerTeam\<close> of
  \<open>packages/swarm/src/topologies.ts\<close>): members that loop claim, run (or gate), complete over a
  shared board. Each member is at one of its awaits, a phase; a step is what one member does between two
  awaits, so the steps interleave as the event loop interleaves them. What is awaited (a member run, a
  gate run, an answer, another member's commit) settles in any way: a gate run in any way
  \<open>runGate\<close> can return.
\<close>

section \<open>Seeding the board\<close>

definition seed_input :: "string list \<Rightarrow> peer_task \<Rightarrow> create_input" where
  "seed_input blockedBy t =
     \<lparr>ci_subject = pt_subject t, ci_prompt = pt_prompt t, ci_blockedBy = Some blockedBy, ci_intent = pt_intent t,
      ci_checks = pt_checks t, ci_minLevel = pt_minLevel t, ci_suite = pt_suite t, ci_budget = pt_budget t\<rparr>"

datatype seed_error = NotPreceding nat | SeedRefused board_error

text \<open>The ids of a task's blockers: an index that is not created yet is an error.\<close>

definition resolve_blockers :: "string list \<Rightarrow> nat list \<Rightarrow> nat + string list" where
  "resolve_blockers created is =
     (case find (\<lambda>i. length created \<le> i) is of Some i \<Rightarrow> Inl i | None \<Rightarrow> Inr (map (\<lambda>i. created ! i) is))"

fun seed_tasks :: "int \<Rightarrow> peer_task list \<Rightarrow> string list \<Rightarrow> board \<Rightarrow> (seed_error + string list) \<times> board" where
  "seed_tasks now [] created b = (Inr created, b)"
| "seed_tasks now (t # ts) created b =
     (case resolve_blockers created (or_else (pt_blockedBy t) []) of
        Inl i \<Rightarrow> (Inl (NotPreceding i), b)
      | Inr blockedBy \<Rightarrow>
          (case create now (seed_input blockedBy t) b of
             (Inl e, b') \<Rightarrow> (Inl (SeedRefused e), b')
           | (Inr task, b') \<Rightarrow> seed_tasks now ts (created @ [tk_id task]) b'))"

definition seedBoard :: "int \<Rightarrow> peer_task list \<Rightarrow> string list \<Rightarrow> board \<Rightarrow> (seed_error + string list) \<times> board" where
  "seedBoard now tasks have b =
     (let created = take (length tasks) have in seed_tasks now (drop (length created) tasks) created b)"

section \<open>Gate rounds on the board\<close>

record board_gate =
  bt_rounds :: "rat option"
  bt_checks :: "string list option"
  bt_minLevel :: "verifier_level option"
  bt_signoff :: "string option"

definition claim_gate_spec :: "board_gate \<Rightarrow> task \<Rightarrow> gate_spec" where
  "claim_gate_spec g t =
     \<lparr>gp_task = tk_prompt t, gp_maxRounds = bt_rounds g,
      gp_commands = Some (or_else (or_opt (tk_checks t) (bt_checks g)) []),
      gp_minLevel = or_opt (tk_minLevel t) (bt_minLevel g), gp_signoff = bt_signoff g\<rparr>"

definition evidenceOf :: "gate_round \<Rightarrow> task_evidence" where
  "evidenceOf r =
     (let e = gr_evidence r in
      \<lparr>ev_kind = gx_kind e, ev_passed = gx_passed e, ev_level = Some (gx_level e), ev_round = Some (gr_round r),
       ev_score = gx_score e, ev_targets = map_option targetStatuses (gx_targets e),
       ev_failedCommands = gx_failedCommands e, ev_suite = gx_suite e, ev_total = gx_total e,
       ev_failed = (if gx_total e = None then None else gx_failed e), ev_enforcement = gx_enforcement e,
       ev_refused = gx_refused e, ev_signoff = gx_signoff e, ev_snapshot = Some (gr_snapshot r), ev_by = None\<rparr>)"

definition round_feedback :: "gate_evidence option \<Rightarrow> gate_feedback option" where
  "round_feedback f =
     (case f of
        None \<Rightarrow> None
      | Some f \<Rightarrow> if gx_kind f = KHidden then None
          else Some \<lparr>gf_kind = gx_kind f, gf_level = (if gx_kind f = KReview then L1 else L2), gf_passed = gx_passed f,
            gf_score = gx_score f, gf_failedCommands = gx_failedCommands f\<rparr>)"

definition gate_event_of :: "string \<Rightarrow> string \<Rightarrow> gate_round \<Rightarrow> gate_event" where
  "gate_event_of taskId member r =
     (let e = gr_evidence r in
      \<lparr>gv_taskId = taskId, gv_member = member, gv_round = gr_round r, gv_changed = gr_changed r, gv_kind = gx_kind e,
       gv_level = Some (gx_level e), gv_passed = gx_passed e, gv_score = gx_score e,
       gv_targets = map_option targetStatuses (gx_targets e), gv_failedCommands = gx_failedCommands e,
       gv_rolledBack = gr_rolledBack r, gv_error = gx_error e, gv_suite = gx_suite e, gv_total = gx_total e,
       gv_failed = (if gx_total e = None then None else gx_failed e), gv_enforcement = gx_enforcement e,
       gv_tamper = (gx_tamper e \<noteq> None), gv_signoff = gx_signoff e, gv_refused = gx_refused e,
       gv_feedback = round_feedback (gr_feedback r), gv_snapshot = Some (gr_snapshot r)\<rparr>)"

definition tamper_event_of :: "string \<Rightarrow> string \<Rightarrow> gate_round \<Rightarrow> tamper_event option" where
  "tamper_event_of taskId member r =
     (let e = gr_evidence r; advisory = (if gr_advisory r = [] then None else Some (gr_advisory r)) in
      map_option (\<lambda>signals. \<lparr>te_taskId = taskId, te_member = member, te_round = gr_round r, te_suite = or_else (gx_suite e) [],
        te_severity = Some (if gx_tamper e = None then Advisory else Incident), te_signals = signals\<rparr>)
        (or_opt (gx_tamper e) advisory))"

definition record_round :: "int \<Rightarrow> string \<Rightarrow> string \<Rightarrow> gate_round \<Rightarrow> board \<Rightarrow> board" where
  "record_round now taskId member r b =
     (let b = recordGate now (gate_event_of taskId member r) b in
      case tamper_event_of taskId member r of None \<Rightarrow> b | Some te \<Rightarrow> recordTamper now te b)"

section \<open>Abandoning\<close>

text \<open>
  A task and everything transitively waiting on it, depth first; the fuel is the number of tasks on the
  board and one more, which \<open>abandon_closed\<close> shows is enough.
\<close>

definition blocked_reason :: "string \<Rightarrow> string" where
  "blocked_reason i = ''blocked by abandoned task '' @ i"

fun abandon :: "nat \<Rightarrow> task list \<Rightarrow> string list \<Rightarrow> string \<Rightarrow> string \<Rightarrow> (string, string) jmap \<Rightarrow> (string, string) jmap" where
  "abandon 0 tasks seeded i why ab = ab"
| "abandon (Suc k) tasks seeded i why ab =
     (if jm_has ab i then ab
      else foldl (\<lambda>ab t. if tk_id t \<in> set seeded \<and> i \<in> set (tk_blockedBy t)
             then abandon k tasks seeded (tk_id t) (blocked_reason i) ab else ab) (jm_set i why ab) tasks)"

section \<open>The workers\<close>

text \<open>Where a member's loop awaits, with the claim it holds there.\<close>

datatype phase =
    Looping
  | Claiming
  | Working task
  | Closing task run_result "task_evidence option"
  | AskTamper task gate_result
  | AskAccept task gate_result string
  | AskRetry task string nat nat
  | Releasing task bool
  | Left

fun holds :: "phase \<Rightarrow> task option" where
  "holds Looping = None"
| "holds Claiming = None"
| "holds (Working t) = Some t"
| "holds (Closing t _ _) = Some t"
| "holds (AskTamper t _) = Some t"
| "holds (AskAccept t _ _) = Some t"
| "holds (AskRetry t _ _ _) = Some t"
| "holds (Releasing t _) = Some t"
| "holds Left = None"

record workers =
  ws_board :: board
  ws_runs :: "(string, run_result) jmap"
  ws_attempts :: "(string, nat) jmap"
  ws_extra :: "(string, nat) jmap"
  ws_abandoned :: "(string, string) jmap"
  ws_active :: int
  ws_phases :: "phase list"

record worker_config =
  wc_members :: "member_spec list"
  wc_seeded :: "string list"
  wc_maxTaskAttempts :: nat
  wc_gate :: "board_gate option"

definition member_name :: "worker_config \<Rightarrow> nat \<Rightarrow> string" where
  "member_name c i = mb_name (wc_members c ! i)"

definition goto :: "nat \<Rightarrow> phase \<Rightarrow> workers \<Rightarrow> workers" where
  "goto i p s = s\<lparr>ws_phases := (ws_phases s)[i := p]\<rparr>"

definition record_abandoned :: "int \<Rightarrow> (string \<times> string) list \<Rightarrow> board \<Rightarrow> board" where
  "record_abandoned now news b = foldl (\<lambda>b (i, why). recordAbandoned now i why b) b news"

text \<open>The newly abandoned are journaled in the order they were abandoned, the first unless its journal has it.\<close>

definition mark_abandoned :: "worker_config \<Rightarrow> int \<Rightarrow> bool \<Rightarrow> string \<Rightarrow> string \<Rightarrow> workers \<Rightarrow> workers" where
  "mark_abandoned c now journaled i why s =
     (let tasks = board_list (ws_board s); ab = ws_abandoned s;
          ab' = abandon (Suc (length tasks)) tasks (wc_seeded c) i why ab;
          news = drop (length ab) ab' in
      s\<lparr>ws_abandoned := ab', ws_board := record_abandoned now (if journaled then tl news else news) (ws_board s)\<rparr>)"

definition all_done :: "worker_config \<Rightarrow> workers \<Rightarrow> bool" where
  "all_done c s \<longleftrightarrow>
     list_all (\<lambda>t. tk_id t \<notin> set (wc_seeded c) \<or> tk_status t = Completed \<or> jm_has (ws_abandoned s) (tk_id t)) (board_list (ws_board s))"

definition worker_claim :: "worker_config \<Rightarrow> int \<Rightarrow> nat \<Rightarrow> workers \<Rightarrow> workers" where
  "worker_claim c now i s =
     (case claimNextReady now (member_name c i) (\<lambda>t. jm_has (ws_abandoned s) (tk_id t)) (ws_board s) of
        (None, b) \<Rightarrow> goto i Looping (s\<lparr>ws_board := b\<rparr>)
      | (Some t, b) \<Rightarrow> goto i (Working t) (s\<lparr>ws_board := b\<rparr>))"

text \<open>\<open>closed\<close>: the run is kept, then the completion is awaited.\<close>

definition start_closing :: "nat \<Rightarrow> task \<Rightarrow> run_result \<Rightarrow> task_evidence option \<Rightarrow> workers \<Rightarrow> workers" where
  "start_closing i t r ev s = goto i (Closing t r ev) (s\<lparr>ws_runs := jm_set (tk_id t) r (ws_runs s)\<rparr>)"

definition next_attempt :: "task \<Rightarrow> workers \<Rightarrow> nat" where
  "next_attempt t s = or_else (jm_get (ws_attempts s) (tk_id t)) 0 + 1"

definition allowed_attempts :: "worker_config \<Rightarrow> task \<Rightarrow> workers \<Rightarrow> nat" where
  "allowed_attempts c t s = wc_maxTaskAttempts c + or_else (jm_get (ws_extra s) (tk_id t)) 0"

definition count_attempt :: "task \<Rightarrow> workers \<Rightarrow> workers" where
  "count_attempt t s = s\<lparr>ws_attempts := jm_set (tk_id t) (next_attempt t s) (ws_attempts s)\<rparr>"

text \<open>A member's failure: it leaves the pool, and out of attempts a sibling may be asked to retry.\<close>

definition fail_settled :: "worker_config \<Rightarrow> int \<Rightarrow> nat \<Rightarrow> task \<Rightarrow> string \<Rightarrow> nat \<Rightarrow> nat \<Rightarrow> bool \<Rightarrow> workers \<Rightarrow> workers" where
  "fail_settled c now i t reason n allowed retry s =
     (let s = (if retry then s\<lparr>ws_extra := jm_set (tk_id t) (or_else (jm_get (ws_extra s) (tk_id t)) 0 + 1) (ws_extra s)\<rparr> else s);
          s = (if n \<ge> allowed \<and> \<not> retry then mark_abandoned c now False (tk_id t) reason s else s) in
      goto i (Releasing t True) s)"

definition member_failed :: "worker_config \<Rightarrow> int \<Rightarrow> nat \<Rightarrow> task \<Rightarrow> string \<Rightarrow> workers \<Rightarrow> workers" where
  "member_failed c now i t reason s =
     (let n = next_attempt t s; allowed = allowed_attempts c t s;
          s = count_attempt t (s\<lparr>ws_active := ws_active s - 1\<rparr>) in
      if n \<ge> allowed \<and> ws_active s > 0 then goto i (AskRetry t reason n allowed) s
      else fail_settled c now i t reason n allowed False s)"

text \<open>A budget stop: the task is abandoned, and on a run's stop every pending one with it.\<close>

definition budget_stopped :: "worker_config \<Rightarrow> int \<Rightarrow> nat \<Rightarrow> task \<Rightarrow> budget_scope \<Rightarrow> string \<Rightarrow> workers \<Rightarrow> workers" where
  "budget_stopped c now i t sc why s =
     (let s = mark_abandoned c now False (tk_id t) why s;
          s = (if sc \<noteq> RunScope then s
               else foldl (\<lambda>s u. if tk_id u \<in> set (wc_seeded c) \<and> tk_status u = Pending
                      then mark_abandoned c now False (tk_id u) why s else s) s (board_list (ws_board s))) in
      goto i (Releasing t False) s)"

definition no_result :: run_result where
  "no_result = \<lparr>rs_member = [], rs_runId = [], rs_text = [], rs_output = [], rs_stopReason = []\<rparr>"

definition gated_final :: "gate_result \<Rightarrow> run_result" where
  "gated_final res = or_else (gt_final res) no_result"

definition last_evidence :: "gate_result \<Rightarrow> gate_evidence option" where
  "last_evidence res = map_option gr_evidence (js_last (gt_rounds res))"

fun stop_reason_str :: "stop_reason \<Rightarrow> string" where
  "stop_reason_str ReviewUnavailable = ''review unavailable''"
| "stop_reason_str SuiteUnavailable = ''hidden suite unavailable''"
| "stop_reason_str TamperStop = ''tamper''"
| "stop_reason_str SuiteUnconfined = ''hidden suite unconfined''"

definition not_accepted :: "gate_result \<Rightarrow> string" where
  "not_accepted res =
     (let n = nat_str (length (gt_rounds res)) in
      case gt_reason res of
        None \<Rightarrow> ''not accepted after '' @ n @ '' gate round(s)''
      | Some TamperStop \<Rightarrow> ''tamper incident in gate round '' @ n
      | Some r \<Rightarrow> stop_reason_str r @ '': '' @
          head (case last_evidence res of None \<Rightarrow> [] | Some e \<Rightarrow> or_else (gx_error e) []) 160)"

text \<open>Work that never passed is a failed attempt; out of attempts, a person is asked while the claim holds.\<close>

definition gate_failed :: "worker_config \<Rightarrow> nat \<Rightarrow> task \<Rightarrow> gate_result \<Rightarrow> workers \<Rightarrow> workers" where
  "gate_failed c i t res s =
     (let n = next_attempt t s; allowed = allowed_attempts c t s; s = count_attempt t s in
      if n \<ge> allowed then goto i (AskAccept t res (not_accepted res)) s else goto i (Releasing t False) s)"

definition gate_settled :: "worker_config \<Rightarrow> nat \<Rightarrow> task \<Rightarrow> gate_result \<Rightarrow> workers \<Rightarrow> workers" where
  "gate_settled c i t res s =
     (if gt_accepted res
      then start_closing i t (gated_final res) (map_option evidenceOf (js_last (gt_rounds res))) s
      else if gt_reason res = Some TamperStop then goto i (AskTamper t res) s
      else gate_failed c i t res s)"

definition tamper_answered :: "worker_config \<Rightarrow> int \<Rightarrow> nat \<Rightarrow> task \<Rightarrow> gate_result \<Rightarrow> string \<Rightarrow> workers \<Rightarrow> workers" where
  "tamper_answered c now i t res answer s =
     (if answer \<noteq> ''continue''
      then goto i (Releasing t False)
        (mark_abandoned c now False (tk_id t) (''tamper incident in gate round '' @ nat_str (length (gt_rounds res))) s)
      else gate_failed c i t res s)"

definition human_evidence :: "string \<Rightarrow> task_evidence" where
  "human_evidence who = no_evidence\<lparr>ev_kind := KHuman, ev_passed := True, ev_by := Some who\<rparr>"

definition accept_answered ::
  "worker_config \<Rightarrow> int \<Rightarrow> nat \<Rightarrow> task \<Rightarrow> gate_result \<Rightarrow> string \<Rightarrow> string \<Rightarrow> string option \<Rightarrow> workers \<Rightarrow> workers" where
  "accept_answered c now i t res why answer who s =
     (case who of
        Some w \<Rightarrow>
          if answer = ''accept'' then start_closing i t (gated_final res) (Some (human_evidence w)) s
          else goto i (Releasing t False) (mark_abandoned c now False (tk_id t) why s)
      | None \<Rightarrow> goto i (Releasing t False) (mark_abandoned c now False (tk_id t) why s))"

definition close_settled ::
  "worker_config \<Rightarrow> int \<Rightarrow> nat \<Rightarrow> task \<Rightarrow> run_result \<Rightarrow> task_evidence option \<Rightarrow> string \<Rightarrow> workers \<Rightarrow> workers" where
  "close_settled c now i t r ev why s =
     (case complete now (tk_id t) (member_name c i) (tk_revision t) (Some (rs_text r)) ev (ws_board s) of
        (Inr _, b) \<Rightarrow> goto i Looping (s\<lparr>ws_board := b\<rparr>)
      | (Inl _, b) \<Rightarrow> member_failed c now i t why (s\<lparr>ws_board := b\<rparr>))"

definition release_settled :: "worker_config \<Rightarrow> int \<Rightarrow> nat \<Rightarrow> task \<Rightarrow> bool \<Rightarrow> workers \<Rightarrow> workers" where
  "release_settled c now i t leaves s =
     goto i (if leaves then Left else Looping)
       (s\<lparr>ws_board := snd (release now (tk_id t) (member_name c i) (tk_revision t) (ws_board s))\<rparr>)"

text \<open>One step of one member; \<open>deps\<close> is the gate's tree for each claim.\<close>

inductive worker_step :: "worker_config \<Rightarrow> (member_spec \<Rightarrow> task \<Rightarrow> 'w gate_deps) \<Rightarrow> workers \<Rightarrow> workers \<Rightarrow> bool"
  for c :: worker_config and deps :: "member_spec \<Rightarrow> task \<Rightarrow> 'w gate_deps" where
  w_leave: "i < length (ws_phases s) \<Longrightarrow> ws_phases s ! i = Looping \<Longrightarrow> all_done c s \<Longrightarrow> worker_step c deps s (goto i Left s)"
| w_head: "i < length (ws_phases s) \<Longrightarrow> ws_phases s ! i = Looping \<Longrightarrow> \<not> all_done c s \<Longrightarrow> worker_step c deps s (goto i Claiming s)"
| w_claim: "i < length (ws_phases s) \<Longrightarrow> ws_phases s ! i = Claiming \<Longrightarrow> worker_step c deps s (worker_claim c now i s)"
| w_ran: "i < length (ws_phases s) \<Longrightarrow> ws_phases s ! i = Working t \<Longrightarrow> wc_gate c = None \<Longrightarrow>
     worker_step c deps s (start_closing i t r None s)"
| w_threw: "i < length (ws_phases s) \<Longrightarrow> ws_phases s ! i = Working t \<Longrightarrow> worker_step c deps s (member_failed c now i t why s)"
| w_budget: "i < length (ws_phases s) \<Longrightarrow> ws_phases s ! i = Working t \<Longrightarrow> worker_step c deps s (budget_stopped c now i t sc why s)"
| w_round: "i < length (ws_phases s) \<Longrightarrow> ws_phases s ! i = Working t \<Longrightarrow> wc_gate c = Some g \<Longrightarrow>
     worker_step c deps s (s\<lparr>ws_board := record_round now (tk_id t) (member_name c i) r (ws_board s)\<rparr>)"
| w_gated: "i < length (ws_phases s) \<Longrightarrow> ws_phases s ! i = Working t \<Longrightarrow> wc_gate c = Some g \<Longrightarrow>
     runGate (claim_gate_spec g t) (deps (wc_members c ! i) t) w = (Inr res, w') \<Longrightarrow>
     worker_step c deps s (gate_settled c i t res s)"
| w_tamper: "i < length (ws_phases s) \<Longrightarrow> ws_phases s ! i = AskTamper t res \<Longrightarrow>
     worker_step c deps s (tamper_answered c now i t res answer s)"
| w_accept: "i < length (ws_phases s) \<Longrightarrow> ws_phases s ! i = AskAccept t res why \<Longrightarrow>
     worker_step c deps s (accept_answered c now i t res why answer who s)"
| w_retry: "i < length (ws_phases s) \<Longrightarrow> ws_phases s ! i = AskRetry t why n allowed \<Longrightarrow>
     worker_step c deps s (fail_settled c now i t why n allowed (answer = ''retry'') s)"
| w_close: "i < length (ws_phases s) \<Longrightarrow> ws_phases s ! i = Closing t r ev \<Longrightarrow>
     worker_step c deps s (close_settled c now i t r ev why s)"
| w_release: "i < length (ws_phases s) \<Longrightarrow> ws_phases s ! i = Releasing t leaves \<Longrightarrow>
     worker_step c deps s (release_settled c now i t leaves s)"

text \<open>The start: a resumed run's abandoned tasks are marked with their dependents.\<close>

definition workers_new :: "worker_config \<Rightarrow> int \<Rightarrow> board \<Rightarrow> workers" where
  "workers_new c now b =
     foldl (\<lambda>s (i, why). if i \<in> set (wc_seeded c) then mark_abandoned c now True i why s else s)
       \<lparr>ws_board = b, ws_runs = [], ws_attempts = [], ws_extra = [], ws_abandoned = [],
        ws_active = int (length (wc_members c)), ws_phases = replicate (length (wc_members c)) Looping\<rparr>
       (board_abandoned b)"

text \<open>The end, once every member's loop has returned.\<close>

record abandoned_error =
  ae_message :: string
  ae_abandoned :: "(string, string) jmap"
  ae_runs :: "(string, run_result) jmap"

definition abandon_rest :: "worker_config \<Rightarrow> int \<Rightarrow> workers \<Rightarrow> workers" where
  "abandon_rest c now s =
     foldl (\<lambda>s t. if tk_id t \<in> set (wc_seeded c) \<and> tk_status t \<noteq> Completed
        then mark_abandoned c now False (tk_id t) ''no members left to run it'' s else s) s (board_list (ws_board s))"

definition workers_end :: "worker_config \<Rightarrow> int \<Rightarrow> workers \<Rightarrow> (abandoned_error + (string, run_result) jmap) \<times> workers" where
  "workers_end c now s =
     (let s = abandon_rest c now s; ab = ws_abandoned s in
      (if ab = [] then Inr (ws_runs s)
       else Inl \<lparr>ae_message = ''swarm board abandoned '' @ nat_str (length ab) @ '' task(s) '' @ em_dash @ '' '' @
           js_join ''; '' (map (\<lambda>(i, why). i @ '': '' @ why) ab), ae_abandoned = ab, ae_runs = ws_runs s\<rparr>, s))"

section \<open>The peer team\<close>

definition peer_config :: "peer_team_spec \<Rightarrow> board_gate option \<Rightarrow> string list \<Rightarrow> worker_config" where
  "peer_config sp gate seeded =
     \<lparr>wc_members = ps_members sp, wc_seeded = js_uniq seeded, wc_maxTaskAttempts = or_else (ps_maxTaskAttempts sp) 2, wc_gate = gate\<rparr>"

datatype peer_error = NoMembers | PeerSeed seed_error

text \<open>Up to the workers' start, and the tasks it reports when they ended well.\<close>

definition peer_start ::
  "int \<Rightarrow> peer_team_spec \<Rightarrow> board_gate option \<Rightarrow> string list \<Rightarrow> board \<Rightarrow> (peer_error + worker_config \<times> workers) \<times> board" where
  "peer_start now sp gate existing b =
     (if ps_members sp = [] then (Inl NoMembers, b)
      else (case seedBoard now (ps_tasks sp) existing b of
          (Inl e, b') \<Rightarrow> (Inl (PeerSeed e), b')
        | (Inr seeded, b') \<Rightarrow> (let c = peer_config sp gate seeded in (Inr (c, workers_new c now b'), b'))))"

definition peer_tasks :: "worker_config \<Rightarrow> workers \<Rightarrow> task list" where
  "peer_tasks c s = filter (\<lambda>t. tk_id t \<in> set (wc_seeded c)) (board_list (ws_board s))"

end
