(* ===== verification/WorkersSafety.thy ===== *)
theory WorkersSafety
  imports Workers
begin

text \<open>
  The invariant of the peer team's workers, over every interleaving of their steps: each claim is held by
  one member and current, nothing abandoned is running or completed, and abandoning is closed under the
  tasks that wait.
\<close>

section \<open>Abandoning is closed\<close>

lemma jm_has_keys: "jm_has m k \<longleftrightarrow> k \<in> set (jm_keys m)"
  by (simp add: jm_has_get jm_get_None_iff)

lemma jm_keys_set_insert: "set (jm_keys (jm_set k v m)) = insert k (set (jm_keys m))"
  by (auto simp: jm_keys_set)

lemma abandon_grows: "set (jm_keys ab) \<subseteq> set (jm_keys (abandon k tasks seeded i why ab))"
proof (induction k arbitrary: i why ab)
  case 0
  then show ?case by simp
next
  case (Suc k)
  have "set (jm_keys ab0) \<subseteq> set (jm_keys (foldl (\<lambda>ab t. if tk_id t \<in> set seeded \<and> i \<in> set (tk_blockedBy t)
      then abandon k tasks seeded (tk_id t) (blocked_reason i) ab else ab) ab0 ts))" for ab0 ts
    by (induction ts arbitrary: ab0) (auto dest: subsetD [OF Suc.IH])
  from this [of "jm_set i why ab" tasks] show ?case by (auto simp: jm_keys_set_insert)
qed

lemma abandon_fold_grows:
  "set (jm_keys ab) \<subseteq> set (jm_keys (foldl (\<lambda>ab t. if P t then abandon k tasks seeded (tk_id t) why ab else ab) ab ts))"
  by (induction ts arbitrary: ab) (auto dest: subsetD [OF abandon_grows])

lemma abandon_root: "i \<in> set (jm_keys (abandon (Suc k) tasks seeded i why ab))"
  using abandon_fold_grows [of "jm_set i why ab" "\<lambda>t. tk_id t \<in> set seeded \<and> i \<in> set (tk_blockedBy t)" k tasks seeded
      "blocked_reason i" tasks] by (auto simp: jm_has_keys jm_keys_set_insert)

text \<open>Whatever is newly abandoned has every property that passes from a task to the seeded ones it blocks.\<close>

lemma abandon_new:
  assumes pass: "\<And>t y. t \<in> set tasks \<Longrightarrow> tk_id t \<in> set seeded \<Longrightarrow> y \<in> set (tk_blockedBy t) \<Longrightarrow> P y \<Longrightarrow> P (tk_id t)"
  shows "P i \<Longrightarrow> x \<in> set (jm_keys (abandon k tasks seeded i why ab)) \<Longrightarrow> x \<in> set (jm_keys ab) \<or> P x"
proof (induction k arbitrary: i why ab)
  case 0
  then show ?case by simp
next
  case (Suc k)
  have fold: "set ts \<subseteq> set tasks \<Longrightarrow> x \<in> set (jm_keys (foldl (\<lambda>ab t. if tk_id t \<in> set seeded \<and> i \<in> set (tk_blockedBy t)
      then abandon k tasks seeded (tk_id t) (blocked_reason i) ab else ab) ab0 ts)) \<Longrightarrow> x \<in> set (jm_keys ab0) \<or> P x" for ab0 ts
  proof (induction ts arbitrary: ab0)
    case Nil
    then show ?case by simp
  next
    case (Cons t ts)
    show ?case
    proof (cases "tk_id t \<in> set seeded \<and> i \<in> set (tk_blockedBy t)")
      case True
      then have "P (tk_id t)" using Cons.prems(1) Suc.prems(1) by (intro pass [of t i]) auto
      moreover have "x \<in> set (jm_keys (abandon k tasks seeded (tk_id t) (blocked_reason i) ab0)) \<or> P x"
        using Cons True by simp
      ultimately show ?thesis using Suc.IH by blast
    next
      case False
      with Cons.prems(2) have "x \<in> set (jm_keys (foldl (\<lambda>ab t. if tk_id t \<in> set seeded \<and> i \<in> set (tk_blockedBy t)
        then abandon k tasks seeded (tk_id t) (blocked_reason i) ab else ab) ab0 ts))"
        by (simp only: foldl.simps if_False)
      with Cons show ?thesis by simp
    qed
  qed
  show ?case
  proof (cases "jm_has ab i")
    case True
    with Suc.prems(2) show ?thesis by simp
  next
    case False
    with Suc.prems fold [of tasks "jm_set i why ab"] show ?thesis by (auto simp: jm_keys_set_insert)
  qed
qed

definition dep_closed :: "task list \<Rightarrow> string list \<Rightarrow> string set \<Rightarrow> string \<Rightarrow> bool" where
  "dep_closed tasks seeded X x \<longleftrightarrow> (\<forall>t \<in> set tasks. tk_id t \<in> set seeded \<longrightarrow> x \<in> set (tk_blockedBy t) \<longrightarrow> tk_id t \<in> X)"

lemma dep_closed_mono: "dep_closed tasks seeded X x \<Longrightarrow> X \<subseteq> Y \<Longrightarrow> dep_closed tasks seeded Y x"
  by (auto simp: dep_closed_def)

lemma abandon_closed:
  assumes "card (tk_id ` set tasks - set (jm_keys ab)) < k" "i \<in> tk_id ` set tasks"
  shows "i \<in> set (jm_keys (abandon k tasks seeded i why ab)) \<and>
    (\<forall>x \<in> set (jm_keys (abandon k tasks seeded i why ab)) - set (jm_keys ab).
       dep_closed tasks seeded (set (jm_keys (abandon k tasks seeded i why ab))) x)"
  using assms
proof (induction k arbitrary: i why ab)
  case 0
  then show ?case by simp
next
  case (Suc k)
  let ?ids = "tk_id ` set tasks"
  let ?go = "\<lambda>ab t. if tk_id t \<in> set seeded \<and> i \<in> set (tk_blockedBy t)
      then abandon k tasks seeded (tk_id t) (blocked_reason i) ab else ab"
  let ?K = "\<lambda>ab. set (jm_keys ab)"
  show ?case
  proof (cases "jm_has ab i")
    case True
    then show ?thesis by (simp add: jm_has_keys)
  next
    case False
    define ab0 where "ab0 = jm_set i why ab"
    have K0: "?K ab0 = insert i (?K ab)" by (simp add: ab0_def jm_keys_set_insert)
    have "card (?ids - ?K ab0) < card (?ids - ?K ab)"
      using Suc.prems(2) False by (intro psubset_card_mono) (auto simp: K0 jm_has_keys)
    with Suc.prems(1) have fuel: "card (?ids - ?K ab0) < k" by simp
    have fold: "set ts \<subseteq> set tasks \<Longrightarrow> ?K ab0 \<subseteq> ?K a \<Longrightarrow> \<forall>x \<in> ?K a - ?K ab0. dep_closed tasks seeded (?K a) x \<Longrightarrow>
        ?K a \<subseteq> ?K (foldl ?go a ts) \<and> (\<forall>x \<in> ?K (foldl ?go a ts) - ?K ab0. dep_closed tasks seeded (?K (foldl ?go a ts)) x) \<and>
        dep_closed ts seeded (?K (foldl ?go a ts)) i" for a ts
    proof (induction ts arbitrary: a)
      case Nil
      then show ?case by (simp add: dep_closed_def)
    next
      case (Cons t ts)
      let ?a = "?go a t"
      have up: "?K a \<subseteq> ?K ?a" using abandon_grows by auto
      have new: "\<forall>x \<in> ?K ?a - ?K a. dep_closed tasks seeded (?K ?a) x"
        and here: "tk_id t \<in> set seeded \<longrightarrow> i \<in> set (tk_blockedBy t) \<longrightarrow> tk_id t \<in> ?K ?a"
      proof -
        have "card (?ids - ?K a) \<le> card (?ids - ?K ab0)" using Cons.prems(2) by (intro card_mono) auto
        with fuel have "card (?ids - ?K a) < k" by simp
        moreover have "tk_id t \<in> ?ids" using Cons.prems(1) by simp
        ultimately show "\<forall>x \<in> ?K ?a - ?K a. dep_closed tasks seeded (?K ?a) x"
          "tk_id t \<in> set seeded \<longrightarrow> i \<in> set (tk_blockedBy t) \<longrightarrow> tk_id t \<in> ?K ?a"
          using Suc.IH [of a "tk_id t" "blocked_reason i"] by auto
      qed
      have all: "\<forall>x \<in> ?K ?a - ?K ab0. dep_closed tasks seeded (?K ?a) x"
        using new Cons.prems(3) up dep_closed_mono by blast
      from Cons.IH [of ?a] Cons.prems(1,2) up all have
        IH: "?K ?a \<subseteq> ?K (foldl ?go ?a ts)" "\<forall>x \<in> ?K (foldl ?go ?a ts) - ?K ab0. dep_closed tasks seeded (?K (foldl ?go ?a ts)) x"
        "dep_closed ts seeded (?K (foldl ?go ?a ts)) i" by auto
      then have "dep_closed (t # ts) seeded (?K (foldl ?go ?a ts)) i" using here by (auto simp: dep_closed_def)
      with IH up show ?case by simp
    qed
    from fold [of tasks ab0] have res: "?K ab0 \<subseteq> ?K (foldl ?go ab0 tasks)"
      "\<forall>x \<in> ?K (foldl ?go ab0 tasks) - ?K ab0. dep_closed tasks seeded (?K (foldl ?go ab0 tasks)) x"
      "dep_closed tasks seeded (?K (foldl ?go ab0 tasks)) i" by auto
    have "abandon (Suc k) tasks seeded i why ab = foldl ?go ab0 tasks" using False by (simp add: ab0_def)
    with res K0 show ?thesis by auto
  qed
qed

section \<open>The invariant\<close>

text \<open>
  Over the folded board \<open>m\<close>, the phases and the abandoned ids \<open>X\<close>. While a member settles what it
  awaited, its own claim may be abandoned already: \<open>ex\<close> holds such members, none between steps.
\<close>

fun running :: "phase \<Rightarrow> bool" where
  "running Looping = False"
| "running Claiming = False"
| "running (Releasing _ _) = False"
| "running Left = False"
| "running _ = True"

definition claims_current :: "worker_config \<Rightarrow> (string, task) jmap \<Rightarrow> phase list \<Rightarrow> bool" where
  "claims_current c m ph \<longleftrightarrow> (\<forall>i < length ph. \<forall>t. holds (ph ! i) = Some t \<longrightarrow>
     jm_get m (tk_id t) = Some t \<and> tk_status t = InProgress \<and> tk_owner t = Some (member_name c i))"

definition claims_once :: "phase list \<Rightarrow> bool" where
  "claims_once ph \<longleftrightarrow> (\<forall>i < length ph. \<forall>j < length ph. \<forall>t u. holds (ph ! i) = Some t \<longrightarrow> holds (ph ! j) = Some u \<longrightarrow>
     tk_id t = tk_id u \<longrightarrow> i = j)"

definition claims_all :: "(string, task) jmap \<Rightarrow> phase list \<Rightarrow> bool" where
  "claims_all m ph \<longleftrightarrow> (\<forall>x t. jm_get m x = Some t \<longrightarrow> tk_status t = InProgress \<longrightarrow> (\<exists>i < length ph. holds (ph ! i) = Some t))"

definition blockers_done :: "(string, task) jmap \<Rightarrow> bool" where
  "blockers_done m \<longleftrightarrow> (\<forall>x t. jm_get m x = Some t \<longrightarrow> tk_status t \<noteq> Pending \<longrightarrow>
     (\<forall>k \<in> set (tk_blockedBy t). map_option tk_status (jm_get m k) = Some Completed))"

definition abandoned_open :: "(string, task) jmap \<Rightarrow> string set \<Rightarrow> bool" where
  "abandoned_open m X \<longleftrightarrow> (\<forall>x \<in> X. \<exists>t. jm_get m x = Some t \<and> tk_status t \<noteq> Completed)"

definition abandoned_idle :: "phase list \<Rightarrow> string set \<Rightarrow> nat set \<Rightarrow> bool" where
  "abandoned_idle ph X ex \<longleftrightarrow> (\<forall>i < length ph. i \<notin> ex \<longrightarrow> running (ph ! i) \<longrightarrow> (\<forall>t. holds (ph ! i) = Some t \<longrightarrow> tk_id t \<notin> X))"

definition abandoned_closed :: "worker_config \<Rightarrow> (string, task) jmap \<Rightarrow> string set \<Rightarrow> bool" where
  "abandoned_closed c m X \<longleftrightarrow> (\<forall>x \<in> X. \<forall>y t. jm_get m y = Some t \<longrightarrow> y \<in> set (wc_seeded c) \<longrightarrow> x \<in> set (tk_blockedBy t) \<longrightarrow> y \<in> X)"

text \<open>What waits for a seeded task to run is seeded too.\<close>

definition seeds_closed :: "worker_config \<Rightarrow> (string, task) jmap \<Rightarrow> bool" where
  "seeds_closed c m \<longleftrightarrow> (\<forall>x t. jm_get m x = Some t \<longrightarrow> x \<in> set (wc_seeded c) \<longrightarrow> set (tk_blockedBy t) \<subseteq> set (wc_seeded c))"

definition view_inv :: "worker_config \<Rightarrow> (string, task) jmap \<Rightarrow> phase list \<Rightarrow> string set \<Rightarrow> nat set \<Rightarrow> bool" where
  "view_inv c m ph X ex \<longleftrightarrow> jm_wf m \<and> jm_keyed tk_id m \<and> blockers_precede m \<and> claims_current c m ph \<and> claims_once ph \<and>
     claims_all m ph \<and> blockers_done m \<and> abandoned_open m X \<and> abandoned_idle ph X ex \<and> abandoned_closed c m X \<and>
     seeds_closed c m"

lemma running_holds: "running p \<Longrightarrow> \<exists>t. holds p = Some t"
  by (cases p) auto

lemma holds_update: "holds (ph[i := p] ! j) = (if j = i \<and> i < length ph then holds p else holds (ph ! j))"
  by (cases "i < length ph") (auto simp: nth_list_update list_update_beyond)

text \<open>A member moves on with the claim it holds.\<close>

lemma view_move:
  assumes inv: "view_inv c m ph X ex" and i: "i < length ph" and same: "holds p = holds (ph ! i)"
    and ok: "running p \<Longrightarrow> i \<notin> ex' \<Longrightarrow> i \<notin> ex \<and> running (ph ! i)" and sub: "ex \<subseteq> insert i ex'"
  shows "view_inv c m (ph[i := p]) X ex'"
proof -
  have hold: "holds (ph[i := p] ! j) = holds (ph ! j)" for j using i same by (auto simp: holds_update)
  have idle: "abandoned_idle (ph[i := p]) X ex'"
    unfolding abandoned_idle_def
  proof (intro allI impI)
    fix j t
    assume j: "j < length (ph[i := p])" "j \<notin> ex'" "running (ph[i := p] ! j)" "holds (ph[i := p] ! j) = Some t"
    then have "j \<notin> ex \<and> running (ph ! j)" using ok sub i by (cases "j = i") auto
    with inv j hold show "tk_id t \<notin> X" by (simp add: view_inv_def abandoned_idle_def)
  qed
  show ?thesis
    using inv idle unfolding view_inv_def
    by (simp add: claims_current_def claims_once_def claims_all_def hold)
qed

text \<open>A task is claimed.\<close>

lemma view_claim:
  assumes inv: "view_inv c m ph X ex" and i: "i < length ph" and none: "holds (ph ! i) = None"
    and t: "jm_get m (tk_id t) = Some t" "ready t m" "tk_id t \<notin> X"
  shows "view_inv c (jm_set (tk_id t) (claimed_by (member_name c i) l t) m) (ph[i := Working (claimed_by (member_name c i) l t)]) X ex"
proof -
  let ?t = "claimed_by (member_name c i) l t" and ?ph = "ph[i := Working (claimed_by (member_name c i) l t)]"
  let ?m = "jm_set (tk_id t) ?t m"
  from t(2) have pend: "tk_status t = Pending" and rdy: "\<forall>k \<in> set (tk_blockedBy t). map_option tk_status (jm_get m k) = Some Completed"
    by (auto simp: ready_def list_all_iff)
  have other: "tk_id u \<noteq> tk_id t" if "j < length ph" "holds (ph ! j) = Some u" for j u
  proof
    assume e: "tk_id u = tk_id t"
    from that inv have "jm_get m (tk_id u) = Some u" "tk_status u = InProgress"
      by (auto simp: view_inv_def claims_current_def)
    with e t(1) pend show False by simp
  qed
  have "jm_wf ?m" "jm_keyed tk_id ?m" "blockers_precede ?m"
    using inv t(1) by (auto simp: view_inv_def intro: blockers_precede_next)
  moreover have "claims_current c ?m ?ph"
    using inv other i unfolding view_inv_def claims_current_def by (auto simp: holds_update)
  moreover have "claims_once ?ph"
    unfolding claims_once_def
  proof (intro allI impI)
    fix j k u v assume a: "j < length ?ph" "k < length ?ph" "holds (?ph ! j) = Some u" "holds (?ph ! k) = Some v" "tk_id u = tk_id v"
    have "tk_id w \<noteq> tk_id t" if "n < length ?ph" "holds (?ph ! n) = Some w" "n \<noteq> i" for n w
      using that other [of n w] by (simp add: holds_update)
    moreover have "tk_id w = tk_id t" if "holds (?ph ! i) = Some w" for w
      using that i by (auto simp: holds_update)
    ultimately have "j = i \<longleftrightarrow> k = i" using a by metis
    then show "j = k" using a inv by (cases "j = i") (auto simp: holds_update view_inv_def claims_once_def)
  qed
  moreover have "claims_all ?m ?ph"
    unfolding claims_all_def
  proof (intro allI impI)
    fix x u assume u: "jm_get ?m x = Some u" "tk_status u = InProgress"
    show "\<exists>j < length ?ph. holds (?ph ! j) = Some u"
    proof (cases "x = tk_id t")
      case True
      with u i show ?thesis by (auto simp: holds_update intro!: exI [of _ i])
    next
      case False
      with u inv obtain j where "j < length ph" "holds (ph ! j) = Some u"
        by (auto simp: view_inv_def claims_all_def)
      with none show ?thesis by (intro exI [of _ j]) (auto simp: holds_update)
    qed
  qed
  moreover have "blockers_done ?m"
  proof -
    have "map_option tk_status (jm_get ?m k) = Some Completed" if "map_option tk_status (jm_get m k) = Some Completed" for k
      using that t(1) pend by auto
    with inv rdy show ?thesis by (auto simp: view_inv_def blockers_done_def)
  qed
  moreover have "abandoned_open ?m X"
    using inv t(3) by (auto simp: view_inv_def abandoned_open_def)
  moreover have "abandoned_idle ?ph X ex"
    using inv t(3) i unfolding view_inv_def abandoned_idle_def by (auto simp: nth_list_update)
  moreover have "abandoned_closed c ?m X"
    using inv t(1) unfolding view_inv_def abandoned_closed_def by (auto split: if_splits)
  moreover have "seeds_closed c ?m"
    using inv t(1) unfolding view_inv_def seeds_closed_def by (auto split: if_splits)
  ultimately show ?thesis by (simp add: view_inv_def)
qed

text \<open>A claim ends: the task is completed, or released.\<close>

lemma view_drop:
  assumes inv: "view_inv c m ph X {}" and i: "i < length ph" and held: "holds (ph ! i) = Some t" and p: "holds p = None"
    and t': "tk_id t' = tk_id t" "tk_blockedBy t' = tk_blockedBy t" "tk_status t' \<noteq> InProgress"
      "tk_status t' = Completed \<Longrightarrow> running (ph ! i)"
  shows "view_inv c (jm_set (tk_id t) t' m) (ph[i := p]) X {}"
proof -
  let ?m = "jm_set (tk_id t) t' m" and ?ph = "ph[i := p]"
  from inv i held have t: "jm_get m (tk_id t) = Some t" "tk_status t = InProgress"
    by (auto simp: view_inv_def claims_current_def)
  have other: "tk_id u \<noteq> tk_id t" if "j < length ph" "holds (ph ! j) = Some u" "j \<noteq> i" for j u
    using inv i held that unfolding view_inv_def claims_once_def by metis
  have np: "\<not> running p" using p by (cases p) auto
  have "jm_wf ?m" "jm_keyed tk_id ?m" "blockers_precede ?m"
    using inv t(1) t'(1,2) by (auto simp: view_inv_def intro: blockers_precede_next)
  moreover have "claims_current c ?m ?ph"
    using inv other i p unfolding view_inv_def claims_current_def by (auto simp: holds_update split: if_splits)
  moreover have "claims_once ?ph"
    unfolding claims_once_def
  proof (intro allI impI)
    fix j k u v assume a: "j < length ?ph" "k < length ?ph" "holds (?ph ! j) = Some u" "holds (?ph ! k) = Some v" "tk_id u = tk_id v"
    then have "j \<noteq> i" "k \<noteq> i" using i p by (auto simp: holds_update)
    with a inv show "j = k" by (simp add: holds_update view_inv_def claims_once_def)
  qed
  moreover have "claims_all ?m ?ph"
    unfolding claims_all_def
  proof (intro allI impI)
    fix x u assume u: "jm_get ?m x = Some u" "tk_status u = InProgress"
    with t'(3) have x: "x \<noteq> tk_id t" "jm_get m x = Some u" by (auto split: if_splits)
    with u inv obtain j where j: "j < length ph" "holds (ph ! j) = Some u"
      by (auto simp: view_inv_def claims_all_def)
    from inv x(2) have "tk_id u = x" by (auto simp: view_inv_def dest: jm_keyed_get)
    with x held j have "j \<noteq> i" by auto
    with j show "\<exists>j < length ?ph. holds (?ph ! j) = Some u" by (intro exI [of _ j]) (auto simp: holds_update)
  qed
  moreover have "blockers_done ?m"
  proof -
    have keep: "map_option tk_status (jm_get ?m k) = Some Completed" if "map_option tk_status (jm_get m k) = Some Completed" for k
      using that t by auto
    have "\<forall>k \<in> set (tk_blockedBy t). map_option tk_status (jm_get m k) = Some Completed"
      using inv t by (auto simp: view_inv_def blockers_done_def)
    with inv keep t'(2) show ?thesis by (auto simp: view_inv_def blockers_done_def)
  qed
  moreover have "abandoned_open ?m X"
  proof -
    have "tk_id t \<notin> X" if "tk_status t' = Completed"
      using inv i held t'(4) [OF that] by (auto simp: view_inv_def abandoned_idle_def)
    with inv show ?thesis by (auto simp: view_inv_def abandoned_open_def)
  qed
  moreover have "abandoned_idle ?ph X {}"
    using inv np i unfolding view_inv_def abandoned_idle_def by (auto simp: nth_list_update)
  moreover have "abandoned_closed c ?m X"
    using inv t(1) t'(2) unfolding view_inv_def abandoned_closed_def by (auto split: if_splits)
  moreover have "seeds_closed c ?m"
    using inv t(1) t'(2) unfolding view_inv_def seeds_closed_def by (auto split: if_splits)
  ultimately show ?thesis by (simp add: view_inv_def)
qed

text \<open>A task is abandoned: one that is pending, or the claim of a member that settles.\<close>

lemma view_abandon:
  assumes inv: "view_inv c m ph (set (jm_keys ab)) ex" and m: "m = board_fold b"
    and root: "jm_get m i = Some t" "tk_status t = Pending \<or> (\<exists>j \<in> ex. j < length ph \<and> holds (ph ! j) = Some t)"
  shows "view_inv c m ph (set (jm_keys (abandon (Suc (length (board_list b))) (board_list b) (wc_seeded c) i why ab))) ex"
proof -
  let ?X = "set (jm_keys ab)" and ?ts = "board_list b"
  let ?Y = "set (jm_keys (abandon (Suc (length ?ts)) ?ts (wc_seeded c) i why ab))"
  define P where "P x \<longleftrightarrow> (\<exists>u. jm_get m x = Some u \<and> tk_status u \<noteq> Completed \<and>
     (tk_status u = Pending \<or> (\<exists>j \<in> ex. j < length ph \<and> holds (ph ! j) = Some u)))" for x
  have get: "u \<in> set ?ts \<longleftrightarrow> jm_get m (tk_id u) = Some u" for u by (simp add: board_list_iff m)
  have root': "P i"
    using root inv by (auto simp: P_def view_inv_def claims_current_def)
  have pass: "P (tk_id u)" if "u \<in> set ?ts" "y \<in> set (tk_blockedBy u)" "P y" for u y
  proof -
    from that get have u: "jm_get m (tk_id u) = Some u" by simp
    have "tk_status u = Pending"
    proof (rule ccontr)
      assume "tk_status u \<noteq> Pending"
      with inv u that(2) have "map_option tk_status (jm_get m y) = Some Completed"
        by (auto simp: view_inv_def blockers_done_def)
      with that(3) show False by (auto simp: P_def)
    qed
    with u show ?thesis by (simp add: P_def)
  qed
  have new: "x \<in> ?X \<or> P x" if "x \<in> ?Y" for x
    by (rule abandon_new [where P = P, OF _ root' that]) (blast intro: pass)
  have grows: "?X \<subseteq> ?Y" by (rule abandon_grows)
  have "i \<in> tk_id ` set ?ts"
    using root(1) inv get by (metis image_eqI jm_keyed_get view_inv_def)
  moreover have "card (tk_id ` set ?ts - ?X) < Suc (length ?ts)"
    using card_mono [of "tk_id ` set ?ts" "tk_id ` set ?ts - ?X"] card_image_le [of "set ?ts" tk_id] card_length [of ?ts] by auto
  ultimately have closed: "\<forall>x \<in> ?Y - ?X. dep_closed ?ts (wc_seeded c) ?Y x"
    using abandon_closed by blast
  have "abandoned_open m ?Y"
    using new inv by (fastforce simp: view_inv_def abandoned_open_def P_def)
  moreover have "abandoned_idle ph ?Y ex"
    unfolding abandoned_idle_def
  proof (intro allI impI notI)
    fix j u assume j: "j < length ph" "j \<notin> ex" "running (ph ! j)" "holds (ph ! j) = Some u" "tk_id u \<in> ?Y"
    from j inv have u: "jm_get m (tk_id u) = Some u" "tk_status u = InProgress" "tk_id u \<notin> ?X"
      by (auto simp: view_inv_def claims_current_def abandoned_idle_def)
    with new [OF j(5)] obtain k where k: "k \<in> ex" "k < length ph" "holds (ph ! k) = Some u" by (auto simp: P_def)
    with inv j have "k = j" by (auto simp: view_inv_def claims_once_def)
    with k j show False by simp
  qed
  moreover have "abandoned_closed c m ?Y"
    unfolding abandoned_closed_def
  proof (intro ballI allI impI)
    fix x y u assume x: "x \<in> ?Y" and u: "jm_get m y = Some u" "y \<in> set (wc_seeded c)" "x \<in> set (tk_blockedBy u)"
    from u inv have id: "tk_id u = y" by (auto simp: view_inv_def dest: jm_keyed_get)
    show "y \<in> ?Y"
    proof (cases "x \<in> ?X")
      case True
      with inv u have "y \<in> ?X" by (auto simp: view_inv_def abandoned_closed_def)
      with grows show ?thesis by blast
    next
      case False
      with x closed u id get show ?thesis by (auto simp: dep_closed_def)
    qed
  qed
  ultimately show ?thesis using inv by (simp add: view_inv_def)
qed

section \<open>Every step keeps it\<close>

definition workers_inv :: "worker_config \<Rightarrow> nat set \<Rightarrow> workers \<Rightarrow> bool" where
  "workers_inv c ex s \<longleftrightarrow> view_inv c (board_fold (ws_board s)) (ws_phases s) (set (jm_keys (ws_abandoned s))) ex"

lemma goto_fields [simp]:
  "ws_board (goto i p s) = ws_board s" "ws_abandoned (goto i p s) = ws_abandoned s" "ws_phases (goto i p s) = (ws_phases s)[i := p]"
  by (simp_all add: goto_def)

lemma record_abandoned_fold [simp]: "board_fold (record_abandoned now news b) = board_fold b"
  unfolding record_abandoned_def by (induction news arbitrary: b) auto

lemma board_list_fold: "board_fold b = board_fold b' \<Longrightarrow> board_list b = board_list b'"
  by (simp add: board_list_def)

lemma mark_abandoned_fields [simp]:
  "board_fold (ws_board (mark_abandoned c now j i why s)) = board_fold (ws_board s)"
  "ws_phases (mark_abandoned c now j i why s) = ws_phases s" "ws_runs (mark_abandoned c now j i why s) = ws_runs s"
  by (simp_all add: mark_abandoned_def Let_def)

lemma record_round_fold [simp]: "board_fold (record_round now i m r b) = board_fold b"
  by (simp add: record_round_def Let_def split: option.splits)

lemma view_ex_mono: "view_inv c m ph X ex \<Longrightarrow> ex \<subseteq> ex' \<Longrightarrow> view_inv c m ph X ex'"
  by (auto simp: view_inv_def abandoned_idle_def)

lemma inv_mark:
  assumes "workers_inv c ex s" "jm_get (board_fold (ws_board s)) x = Some t"
    "tk_status t = Pending \<or> (\<exists>j \<in> ex. j < length (ws_phases s) \<and> holds (ws_phases s ! j) = Some t)"
  shows "workers_inv c ex (mark_abandoned c now j x why s)"
  using view_abandon [OF assms(1) [unfolded workers_inv_def] refl assms(2,3)]
  by (simp add: workers_inv_def mark_abandoned_def Let_def)

lemma inv_move:
  assumes "workers_inv c ex s" "i < length (ws_phases s)" "holds p = holds (ws_phases s ! i)"
    "running p \<Longrightarrow> i \<notin> ex \<and> running (ws_phases s ! i)" "ex \<subseteq> {i}"
  shows "workers_inv c {} (goto i p s)"
  using view_move [OF assms(1) [unfolded workers_inv_def] assms(2,3)] assms(4,5) by (simp add: workers_inv_def)

text \<open>What the steps of a member holding a claim rest on.\<close>

definition at_claim :: "worker_config \<Rightarrow> nat \<Rightarrow> task \<Rightarrow> workers \<Rightarrow> bool" where
  "at_claim c i t s \<longleftrightarrow> workers_inv c {} s \<and> i < length (ws_phases s) \<and> holds (ws_phases s ! i) = Some t \<and> running (ws_phases s ! i)"

lemma at_claim_get:
  "at_claim c i t s \<Longrightarrow> jm_get (board_fold (ws_board s)) (tk_id t) = Some t \<and> tk_status t = InProgress \<and> tk_owner t = Some (member_name c i)"
  by (auto simp: at_claim_def workers_inv_def view_inv_def claims_current_def)

lemma at_claim_fields:
  "at_claim c i t s \<Longrightarrow> board_fold (ws_board s') = board_fold (ws_board s) \<Longrightarrow> ws_phases s' = ws_phases s \<Longrightarrow>
   ws_abandoned s' = ws_abandoned s \<Longrightarrow> at_claim c i t s'"
  by (simp add: at_claim_def workers_inv_def)

lemma claim_moves: "at_claim c i t s \<Longrightarrow> holds p = Some t \<Longrightarrow> workers_inv c {} (goto i p s)"
  unfolding at_claim_def by (rule inv_move) auto

lemma claim_marked: "at_claim c i t s \<Longrightarrow> workers_inv c {i} (mark_abandoned c now j (tk_id t) why s)"
  using at_claim_get [of c i t s]
  by (intro inv_mark) (auto simp: at_claim_def workers_inv_def intro: view_ex_mono)

lemma marked_releases:
  assumes "workers_inv c {i} s" "i < length (ws_phases s)" "holds (ws_phases s ! i) = Some t"
  shows "workers_inv c {} (goto i (Releasing t l) s)"
  by (rule inv_move [OF assms(1,2)]) (simp_all add: assms(3))

lemma claim_abandons:
  assumes "at_claim c i t s"
  shows "workers_inv c {} (goto i (Releasing t l) (mark_abandoned c now j (tk_id t) why s))"
  by (rule marked_releases [OF claim_marked [OF assms]]) (use assms in \<open>simp_all add: at_claim_def\<close>)

lemma inv_start_closing: "at_claim c i t s \<Longrightarrow> workers_inv c {} (start_closing i t r ev s)"
  unfolding start_closing_def by (rule claim_moves [OF at_claim_fields [of c i t s]]) simp_all

lemma count_attempt_fields [simp]:
  "ws_board (count_attempt t s) = ws_board s" "ws_phases (count_attempt t s) = ws_phases s"
  "ws_abandoned (count_attempt t s) = ws_abandoned s"
  by (simp_all add: count_attempt_def)

lemma inv_gate_failed: "at_claim c i t s \<Longrightarrow> workers_inv c {} (gate_failed c i t res s)"
  unfolding gate_failed_def Let_def
  by (auto intro!: claim_moves intro: at_claim_fields [of c i t s])

lemma inv_gate_settled: "at_claim c i t s \<Longrightarrow> workers_inv c {} (gate_settled c i t res s)"
  by (auto simp: gate_settled_def inv_start_closing inv_gate_failed intro!: claim_moves)

lemma inv_fail_settled:
  assumes "at_claim c i t s"
  shows "workers_inv c {} (fail_settled c now i t why n allowed retry s)"
proof -
  have "at_claim c i t (if retry then s\<lparr>ws_extra := jm_set (tk_id t) (or_else (jm_get (ws_extra s) (tk_id t)) 0 + 1) (ws_extra s)\<rparr> else s)"
    by (rule at_claim_fields [OF assms]) simp_all
  then show ?thesis
    unfolding fail_settled_def Let_def by (auto intro: claim_abandons claim_moves simp: not_le)
qed

lemma inv_member_failed: "at_claim c i t s \<Longrightarrow> workers_inv c {} (member_failed c now i t why s)"
  unfolding member_failed_def Let_def
  by (auto intro!: claim_moves inv_fail_settled intro: at_claim_fields [of c i t s])

lemma inv_budget_stopped:
  assumes "at_claim c i t s"
  shows "workers_inv c {} (budget_stopped c now i t sc why s)"
proof -
  let ?s = "mark_abandoned c now False (tk_id t) why s"
  let ?go = "\<lambda>s u. if tk_id u \<in> set (wc_seeded c) \<and> tk_status u = Pending then mark_abandoned c now False (tk_id u) why s else s"
  have "workers_inv c {i} (foldl ?go a us) \<and> ws_phases (foldl ?go a us) = ws_phases s"
    if "workers_inv c {i} a" "ws_phases a = ws_phases s" "\<forall>u \<in> set us. jm_get (board_fold (ws_board a)) (tk_id u) = Some u" for us a
    using that
  proof (induction us arbitrary: a)
    case Nil
    then show ?case by simp
  next
    case (Cons u us)
    have "workers_inv c {i} (?go a u)" using Cons.prems by (auto intro!: inv_mark)
    moreover have "ws_phases (?go a u) = ws_phases s" "board_fold (ws_board (?go a u)) = board_fold (ws_board a)"
      using Cons.prems(2) by simp_all
    ultimately show ?case using Cons.IH [of "?go a u"] Cons.prems(3) by simp
  qed
  from this [of ?s "board_list (ws_board ?s)"] claim_marked [OF assms]
  have "workers_inv c {i} (foldl ?go ?s (board_list (ws_board ?s))) \<and> ws_phases (foldl ?go ?s (board_list (ws_board ?s))) = ws_phases s"
    by (simp add: board_list_iff)
  moreover have "i < length (ws_phases s)" "holds (ws_phases s ! i) = Some t" using assms by (auto simp: at_claim_def)
  ultimately show ?thesis
    unfolding budget_stopped_def Let_def using claim_marked [OF assms] by (auto intro!: marked_releases)
qed

lemma inv_close_settled:
  assumes "at_claim c i t s"
  shows "workers_inv c {} (close_settled c now i t r ev why s)"
proof -
  obtain q b where q: "complete now (tk_id t) (member_name c i) (tk_revision t) (Some (rs_text r)) ev (ws_board s) = (q, b)" by force
  show ?thesis
    using q
  proof (cases rule: complete_cases)
    case (1 e)
    with q assms show ?thesis by (simp add: close_settled_def inv_member_failed)
  next
    case (2 u)
    from at_claim_get [OF assms] 2(1) have [simp]: "u = t" by simp
    have "view_inv c (jm_set (tk_id t) (completed_with (Some (rs_text r)) ev t) (board_fold (ws_board s))) ((ws_phases s)[i := Looping])
        (set (jm_keys (ws_abandoned s))) {}"
      by (rule view_drop) (use assms in \<open>auto simp: at_claim_def workers_inv_def\<close>)
    with q 2 show ?thesis by (simp add: close_settled_def workers_inv_def)
  qed
qed

lemma inv_release_settled:
  assumes inv: "workers_inv c {} s" "i < length (ws_phases s)" and held: "ws_phases s ! i = Releasing t leaves"
  shows "workers_inv c {} (release_settled c now i t leaves s)"
proof -
  have t: "jm_get (board_fold (ws_board s)) (tk_id t) = Some t" "tk_owner t = Some (member_name c i)"
    using assms by (auto simp: workers_inv_def view_inv_def claims_current_def)
  then have r: "release now (tk_id t) (member_name c i) (tk_revision t) (ws_board s) = (Inr (released t), commit now (released t) (ws_board s))"
    by (simp add: release_def expect_def Let_def)
  have "view_inv c (jm_set (tk_id t) (released t) (board_fold (ws_board s))) ((ws_phases s)[i := (if leaves then Left else Looping)])
      (set (jm_keys (ws_abandoned s))) {}"
    by (rule view_drop) (use assms in \<open>auto simp: workers_inv_def\<close>)
  with r show ?thesis by (simp add: release_settled_def workers_inv_def)
qed

lemma inv_claim:
  assumes inv: "workers_inv c {} s" "i < length (ws_phases s)" and ph: "ws_phases s ! i = Claiming"
  shows "workers_inv c {} (worker_claim c now i s)"
proof -
  obtain q b where q: "claimNextReady now (member_name c i) (\<lambda>t. jm_has (ws_abandoned s) (tk_id t)) (ws_board s) = (q, b)" by force
  show ?thesis
    using q
  proof (cases rule: claimNextReady_cases)
    case 1
    with q assms show ?thesis by (auto simp: worker_claim_def intro!: inv_move)
  next
    case (2 t)
    have "view_inv c (jm_set (tk_id t) (claimed_by (member_name c i) (sj_incarnation (bd_journal (ws_board s))) t) (board_fold (ws_board s)))
        ((ws_phases s)[i := Working (claimed_by (member_name c i) (sj_incarnation (bd_journal (ws_board s))) t)])
        (set (jm_keys (ws_abandoned s))) {}"
      by (rule view_claim) (use assms 2 in \<open>auto simp: workers_inv_def jm_has_keys\<close>)
    with q 2 show ?thesis by (simp add: worker_claim_def workers_inv_def)
  qed
qed

lemma worker_step_inv: "worker_step c deps s s' \<Longrightarrow> workers_inv c {} s \<Longrightarrow> workers_inv c {} s'"
proof (induction rule: worker_step.induct)
  case (w_leave i s)
  then show ?case by (intro inv_move) auto
next
  case (w_head i s)
  then show ?case by (intro inv_move) auto
next
  case (w_claim i s now)
  then show ?case by (intro inv_claim)
next
  case (w_ran i s t r)
  then show ?case by (intro inv_start_closing) (simp add: at_claim_def)
next
  case (w_threw i s t now why)
  then show ?case by (intro inv_member_failed) (simp add: at_claim_def)
next
  case (w_budget i s t now sc why)
  then show ?case by (intro inv_budget_stopped) (simp add: at_claim_def)
next
  case (w_round i s t g now r)
  then show ?case by (simp add: workers_inv_def)
next
  case (w_gated i s t g w res w')
  then show ?case by (intro inv_gate_settled) (simp add: at_claim_def)
next
  case (w_tamper i s t res now answer)
  then have "at_claim c i t s" by (simp add: at_claim_def)
  then show ?case by (auto simp: tamper_answered_def claim_abandons inv_gate_failed)
next
  case (w_accept i s t res why now answer who)
  then have "at_claim c i t s" by (simp add: at_claim_def)
  then show ?case by (auto simp: accept_answered_def claim_abandons inv_start_closing split: option.splits)
next
  case (w_retry i s t why n allowed now answer)
  then show ?case by (intro inv_fail_settled) (simp add: at_claim_def)
next
  case (w_close i s t r ev now why)
  then show ?case by (intro inv_close_settled) (simp add: at_claim_def)
next
  case (w_release i s t leaves now)
  then show ?case by (intro inv_release_settled)
qed

section \<open>The start\<close>

text \<open>
  A board the workers may start on: no claim is open, nothing is done before its blockers, a seeded task waits
  only for seeded ones, and what its
  journal says was abandoned is pending. A fresh board seeded by \<open>seedBoard\<close> is one, and one whose
  orphans were released.
\<close>

definition workers_ready :: "worker_config \<Rightarrow> board \<Rightarrow> bool" where
  "workers_ready c b \<longleftrightarrow> blockers_precede (board_fold b) \<and> blockers_done (board_fold b) \<and> seeds_closed c (board_fold b) \<and>
     (\<forall>t \<in> set (board_list b). tk_status t \<noteq> InProgress) \<and>
     (\<forall>i \<in> set (jm_keys (board_abandoned b)). i \<in> set (wc_seeded c) \<longrightarrow>
        map_option tk_status (jm_get (board_fold b) i) = Some Pending)"

definition workers_start :: "worker_config \<Rightarrow> workers \<Rightarrow> bool" where
  "workers_start c s \<longleftrightarrow> (\<exists>now b. workers_ready c b \<and> s = workers_new c now b)"

lemma workers_new_inv:
  assumes "workers_ready c b"
  shows "workers_inv c {} (workers_new c now b)"
proof -
  let ?go = "\<lambda>s (i, why). if i \<in> set (wc_seeded c) then mark_abandoned c now True i why s else s"
  let ?s = "\<lparr>ws_board = b, ws_runs = [], ws_attempts = [], ws_extra = [], ws_abandoned = [],
        ws_active = int (length (wc_members c)), ws_phases = replicate (length (wc_members c)) Looping\<rparr>"
  have "tk_status t \<noteq> InProgress" if "jm_get (board_fold b) x = Some t" for x t
    using assms that board_get_id [OF that] by (auto simp: workers_ready_def board_list_iff)
  then have start: "workers_inv c {} ?s"
    using assms by (auto simp: workers_inv_def view_inv_def workers_ready_def claims_current_def claims_once_def claims_all_def
        abandoned_open_def abandoned_idle_def abandoned_closed_def)
  have "workers_inv c {} (foldl ?go a xs)"
    if "workers_inv c {} a" "board_fold (ws_board a) = board_fold b" "set xs \<subseteq> set (board_abandoned b)" for a xs
    using that
  proof (induction xs arbitrary: a)
    case Nil
    then show ?case by simp
  next
    case (Cons x xs)
    obtain i why where x: "x = (i, why)" by force
    with Cons.prems(3) have "i \<in> set (jm_keys (board_abandoned b))" by (force simp: jm_keys_def)
    with assms have pend: "i \<in> set (wc_seeded c) \<Longrightarrow> \<exists>t. jm_get (board_fold b) i = Some t \<and> tk_status t = Pending"
      by (auto simp: workers_ready_def)
    have "workers_inv c {} (?go a x)"
    proof (cases "i \<in> set (wc_seeded c)")
      case True
      with pend obtain t where "jm_get (board_fold (ws_board a)) i = Some t" "tk_status t = Pending"
        using Cons.prems(2) by auto
      then show ?thesis using Cons.prems(1) x True by (simp add: inv_mark)
    next
      case False
      then show ?thesis using Cons.prems(1) x by simp
    qed
    moreover have "board_fold (ws_board (?go a x)) = board_fold b" using Cons.prems(2) x by simp
    ultimately show ?case using Cons.IH [of "?go a x"] Cons.prems(3) by simp
  qed
  from this [OF start] show ?thesis by (simp add: workers_new_def)
qed

interpretation teams: inductive_invariant "workers_start c" "worker_step c deps" "workers_inv c {}"
  by unfold_locales (auto simp: workers_start_def workers_new_inv worker_step_inv)

end
