(* ===== verification/WorkersProperties.thy ===== *)
theory WorkersProperties
  imports WorkersSafety BoardProperties
begin

text \<open>
  What the peer team promises: no claim is left stuck, nothing abandoned runs, waiting members always have
  someone to wait for, and the end of the run accounts for every seeded task; and that seeding a fresh
  board puts exactly the spec's tasks on it, ready for the workers.
\<close>

abbreviation team_reachable :: "worker_config \<Rightarrow> (member_spec \<Rightarrow> task \<Rightarrow> 'w gate_deps) \<Rightarrow> workers \<Rightarrow> bool" where
  "team_reachable c deps \<equiv> reachable (workers_start c) (worker_step c deps)"

lemma team_view:
  "team_reachable c deps s \<Longrightarrow> view_inv c (board_fold (ws_board s)) (ws_phases s) (set (jm_keys (ws_abandoned s))) {}"
  using teams.reachable_inv [of c deps s] by (simp add: workers_inv_def)

lemma idle_not_in_progress:
  assumes "view_inv c m ph X ex" "list_all (\<lambda>p. holds p = None) ph" "jm_get m x = Some t"
  shows "tk_status t \<noteq> InProgress"
  using assms unfolding view_inv_def claims_all_def list_all_length by (metis option.distinct(1))

section \<open>Claims\<close>

text \<open>C12: however the members' steps interleave, and whatever their runs, gates and questions come to, a task in
  progress is held by exactly one member, who holds its current snapshot; so once every member has left, none is
  in progress.\<close>

theorem team_claims:
  assumes "team_reachable c deps s" "jm_get (board_fold (ws_board s)) x = Some t" "tk_status t = InProgress"
  shows "\<exists>!i. i < length (ws_phases s) \<and> holds (ws_phases s ! i) = Some t"
proof -
  from team_view [OF assms(1)] assms(2,3) obtain i where "i < length (ws_phases s)" "holds (ws_phases s ! i) = Some t"
    by (auto simp: view_inv_def claims_all_def)
  moreover have "j = i" if "j < length (ws_phases s)" "holds (ws_phases s ! j) = Some t" for j
    using team_view [OF assms(1)] calculation that by (auto simp: view_inv_def claims_once_def)
  ultimately show ?thesis by blast
qed

text \<open>a task a member works on was not abandoned, and everything it waits for is completed.\<close>

theorem team_works_on_ready:
  assumes "team_reachable c deps s" "i < length (ws_phases s)" "ws_phases s ! i = Working t"
  shows "\<not> jm_has (ws_abandoned s) (tk_id t) \<and> jm_get (board_fold (ws_board s)) (tk_id t) = Some t \<and>
    list_all (\<lambda>k. map_option tk_status (jm_get (board_fold (ws_board s)) k) = Some Completed) (tk_blockedBy t)"
proof -
  note inv = team_view [OF assms(1)]
  from inv assms(2,3) have t: "jm_get (board_fold (ws_board s)) (tk_id t) = Some t" "tk_status t = InProgress"
    by (auto simp: view_inv_def claims_current_def)
  from inv assms(2,3) have "tk_id t \<notin> set (jm_keys (ws_abandoned s))"
    by (auto simp: view_inv_def abandoned_idle_def)
  moreover from inv t have "\<forall>k \<in> set (tk_blockedBy t). map_option tk_status (jm_get (board_fold (ws_board s)) k) = Some Completed"
    unfolding view_inv_def blockers_done_def by (metis task_status.distinct(1))
  ultimately show ?thesis using t by (simp add: jm_has_keys list_all_iff)
qed

section \<open>Progress\<close>

lemma claimable_find:
  assumes "jm_get (board_fold b) (tk_id t) = Some t" "ready t (board_fold b)" "\<not> skip t"
  shows "fst (claimNextReady now owner skip b) \<noteq> None"
proof -
  have "t \<in> set (jm_vals (board_fold b))" using assms(1) board_list_iff [of t b] by (simp add: board_list_def)
  with assms(2,3) have "find (\<lambda>t. ready t (board_fold b) \<and> \<not> skip t) (jm_vals (board_fold b)) \<noteq> None"
    by (auto simp: find_None_iff)
  then show ?thesis by (auto simp: claimNextReady_def Let_def split: option.splits)
qed

text \<open>C11: no member parks for nothing: when work is outstanding and nobody holds a claim, the next member to ask is given
  a task, because what can no longer become ready was abandoned with what it waits for.\<close>

theorem team_never_parks:
  assumes "team_reachable c deps s" "\<not> all_done c s" "list_all (\<lambda>p. holds p = None) (ws_phases s)"
  shows "fst (claimNextReady now owner (\<lambda>t. jm_has (ws_abandoned s) (tk_id t)) (ws_board s)) \<noteq> None"
proof -
  let ?m = "board_fold (ws_board s)" and ?X = "set (jm_keys (ws_abandoned s))"
  note inv = team_view [OF assms(1)]
  define open_seed :: "string \<times> task \<Rightarrow> bool" where "open_seed p = (fst p \<in> set (wc_seeded c) \<and> tk_status (snd p) \<noteq> Completed \<and> fst p \<notin> ?X)" for p
  from assms(2) obtain t where "t \<in> set (board_list (ws_board s))" "open_seed (tk_id t, t)"
    by (auto simp: all_done_def list_all_iff jm_has_keys open_seed_def)
  then have "\<exists>p \<in> set ?m. open_seed p"
    by (auto simp: board_list_iff intro: jm_get_Some_mem)
  then obtain pre q post where m: "?m = pre @ q # post" and q: "open_seed q" and pre: "\<forall>p \<in> set pre. \<not> open_seed p"
    using split_list_first_prop by metis
  obtain x u where xu: "q = (x, u)" by force
  have get: "jm_get ?m x = Some u"
    using inv m xu by (simp add: view_inv_def jm_get_Some_iff)
  then have id: "tk_id u = x" by (rule board_get_id)
  have np: "tk_status u \<noteq> InProgress"
    by (rule idle_not_in_progress [OF inv assms(3) get])
  have "map_option tk_status (jm_get ?m k) = Some Completed" if k: "k \<in> set (tk_blockedBy u)" for k
  proof -
    have "blockers_precede ?m" using inv by (simp add: view_inv_def)
    with m xu k have "k \<in> set (map fst pre)" unfolding blockers_precede_def by blast
    then obtain v where v: "(k, v) \<in> set pre" by auto
    with m have kv: "jm_get ?m k = Some v" using inv by (simp add: view_inv_def jm_get_Some_iff)
    have seeded: "x \<in> set (wc_seeded c)" "x \<notin> ?X" using q xu by (auto simp: open_seed_def)
    have "k \<in> set (wc_seeded c)" using inv get k seeded(1) by (auto simp: view_inv_def seeds_closed_def)
    moreover have "k \<notin> ?X" using inv get k seeded by (auto simp: view_inv_def abandoned_closed_def)
    ultimately have "tk_status v = Completed" using pre v by (auto simp: open_seed_def)
    with kv show ?thesis by simp
  qed
  with np q xu have "ready u ?m" by (auto simp: ready_def list_all_iff open_seed_def intro: task_status.exhaust [of "tk_status u"])
  with get id q xu show ?thesis
    by (intro claimable_find [of "ws_board s" u]) (auto simp: open_seed_def jm_has_keys)
qed

section \<open>The end\<close>

lemma abandon_rest_inv:
  fixes now :: int
  assumes "workers_inv c {} s" "\<forall>t \<in> set ts. jm_get (board_fold (ws_board s)) (tk_id t) = Some t \<and> tk_status t \<noteq> InProgress"
  defines "go \<equiv> \<lambda>s t. if tk_id t \<in> set (wc_seeded c) \<and> tk_status t \<noteq> Completed
        then mark_abandoned c now False (tk_id t) ''no members left to run it'' s else s"
  shows "workers_inv c {} (foldl go s ts) \<and> board_fold (ws_board (foldl go s ts)) = board_fold (ws_board s) \<and>
    ws_runs (foldl go s ts) = ws_runs s \<and> set (jm_keys (ws_abandoned s)) \<subseteq> set (jm_keys (ws_abandoned (foldl go s ts))) \<and>
    (\<forall>t \<in> set ts. tk_id t \<in> set (wc_seeded c) \<longrightarrow> tk_status t \<noteq> Completed \<longrightarrow> tk_id t \<in> set (jm_keys (ws_abandoned (foldl go s ts))))"
  using assms(1,2)
proof (induction ts arbitrary: s)
  case Nil
  then show ?case by simp
next
  case (Cons t ts)
  have t: "jm_get (board_fold (ws_board s)) (tk_id t) = Some t" "tk_status t \<noteq> InProgress" using Cons.prems(2) by auto
  then have "tk_status t \<noteq> Completed \<Longrightarrow> tk_status t = Pending" by (cases "tk_status t") auto
  then have 1: "workers_inv c {} (go s t)" using t Cons.prems(1) by (auto simp: go_def intro: inv_mark)
  have 2: "board_fold (ws_board (go s t)) = board_fold (ws_board s)" "ws_runs (go s t) = ws_runs s" by (simp_all add: go_def)
  have 3: "set (jm_keys (ws_abandoned s)) \<subseteq> set (jm_keys (ws_abandoned (go s t)))"
    using abandon_grows by (auto simp: go_def mark_abandoned_def Let_def simp del: abandon.simps)
  have 4: "tk_id t \<in> set (wc_seeded c) \<longrightarrow> tk_status t \<noteq> Completed \<longrightarrow> tk_id t \<in> set (jm_keys (ws_abandoned (go s t)))"
    using abandon_root by (auto simp: go_def mark_abandoned_def Let_def simp del: abandon.simps)
  from Cons.IH [OF 1] Cons.prems(2) 2 3 4 show ?case by auto
qed

text \<open>C10: the end accounts for every seeded task: when every member has left, the run returns only if all seeded tasks
  are completed; else it fails naming every seeded task that is not, and none that is, with the completed tasks'
  runs.\<close>

theorem team_end_accounts:
  assumes "team_reachable c deps s" "list_all (\<lambda>p. p = Left) (ws_phases s)" "workers_end c now s = (r, s')"
  shows "board_fold (ws_board s') = board_fold (ws_board s) \<and>
    (case r of
       Inr runs \<Rightarrow> runs = ws_runs s \<and> list_all (\<lambda>t. tk_id t \<in> set (wc_seeded c) \<longrightarrow> tk_status t = Completed) (board_list (ws_board s))
     | Inl e \<Rightarrow> ae_runs e = ws_runs s \<and>
         list_all (\<lambda>t. tk_id t \<in> set (wc_seeded c) \<longrightarrow> (jm_has (ae_abandoned e) (tk_id t) \<longleftrightarrow> tk_status t \<noteq> Completed)) (board_list (ws_board s)))"
proof -
  note inv = team_view [OF assms(1)]
  have "list_all (\<lambda>p. holds p = None) (ws_phases s)" using assms(2) by (auto simp: list_all_iff)
  then have idle: "jm_get (board_fold (ws_board s)) (tk_id t) = Some t \<and> tk_status t \<noteq> InProgress"
    if "t \<in> set (board_list (ws_board s))" for t
    using that idle_not_in_progress [OF inv] by (simp add: board_list_iff)
  define s1 where "s1 = abandon_rest c now s"
  have "workers_inv c {} s" using inv by (simp add: workers_inv_def)
  from abandon_rest_inv [OF this, of "board_list (ws_board s)" now] idle
  have s1: "workers_inv c {} s1" "board_fold (ws_board s1) = board_fold (ws_board s)" "ws_runs s1 = ws_runs s"
    "\<forall>t \<in> set (board_list (ws_board s)). tk_id t \<in> set (wc_seeded c) \<longrightarrow> tk_status t \<noteq> Completed \<longrightarrow> tk_id t \<in> set (jm_keys (ws_abandoned s1))"
    unfolding s1_def abandon_rest_def by blast+
  have abandoned_not_done: "tk_status t \<noteq> Completed" if "t \<in> set (board_list (ws_board s))" "tk_id t \<in> set (jm_keys (ws_abandoned s1))" for t
    using that s1(1,2) by (auto simp: workers_inv_def view_inv_def abandoned_open_def board_list_iff)
  have "s' = s1" "r = (if ws_abandoned s1 = [] then Inr (ws_runs s1) else r)"
    "ws_abandoned s1 \<noteq> [] \<Longrightarrow> \<exists>e. r = Inl e \<and> ae_abandoned e = ws_abandoned s1 \<and> ae_runs e = ws_runs s1"
    using assms(3) by (auto simp: workers_end_def Let_def s1_def split: if_splits)
  then show ?thesis
    using s1 abandoned_not_done
    by (cases "ws_abandoned s1 = []") (auto simp: list_all_iff jm_has_keys)
qed

section \<open>Seeding\<close>

text \<open>The board's task a spec's task becomes: \<open>ids\<close> are the ids of the tasks in spec order.\<close>

definition seeds :: "string list \<Rightarrow> nat \<Rightarrow> peer_task \<Rightarrow> task \<Rightarrow> bool" where
  "seeds ids n p t \<longleftrightarrow> tk_subject t = pt_subject p \<and> tk_prompt t = pt_prompt p \<and> tk_status t = Pending \<and> tk_revision t = 0 \<and>
     tk_checks t = pt_checks p \<and> tk_minLevel t = pt_minLevel p \<and> tk_suite t = pt_suite p \<and> tk_budget t = pt_budget p \<and>
     tk_intent t = pt_intent p \<and> list_all (\<lambda>k. k < n) (or_else (pt_blockedBy p) []) \<and>
     tk_blockedBy t = map (\<lambda>k. ids ! k) (or_else (pt_blockedBy p) [])"

lemma create_appends:
  assumes "create now ci b = (Inr t, b')"
  obtains n where "t = new_task n ci" "board_fold b' = board_fold b @ [(tk_id t, t)]" "board_abandoned b' = board_abandoned b"
    "set (tk_blockedBy t) \<subseteq> set (jm_keys (board_fold b))"
proof -
  have ab: "board_abandoned b' = board_abandoned b"
    using assms by (auto simp: create_def Let_def board_abandoned_def abandonedlog.folded_other abandoned_of_def split: option.splits)
  from assms show ?thesis
  proof (cases rule: create_cases)
    case (1 k)
    then show ?thesis by simp
  next
    case (2 n)
    then have "t = new_task n ci" by simp
    moreover have "board_fold b' = board_fold b @ [(tk_id t, t)]"
      using 2 by (simp add: jm_set_snoc jm_has_keys)
    moreover have "set (tk_blockedBy t) \<subseteq> set (jm_keys (board_fold b))"
      using 2 by (auto simp: jm_has_keys)
    ultimately show ?thesis using ab that by blast
  qed
qed

lemma resolve_Inr:
  "resolve_blockers created is = Inr ks \<longleftrightarrow> list_all (\<lambda>k. k < length created) is \<and> ks = map (\<lambda>k. created ! k) is"
proof (cases "find (\<lambda>i. length created \<le> i) is")
  case None
  then have "\<forall>k \<in> set is. k < length created" by (auto simp: find_None_iff not_le)
  with None show ?thesis by (auto simp: resolve_blockers_def list_all_iff)
next
  case (Some i)
  then have "i \<in> set is" "length created \<le> i" by (auto simp: find_Some_iff)
  then have "\<not> list_all (\<lambda>k. k < length created) is" by (auto simp: list_all_iff intro!: bexI [of _ i])
  with Some show ?thesis by (simp add: resolve_blockers_def)
qed

lemma js_uniq_distinct: "distinct xs \<Longrightarrow> js_uniq xs = xs"
proof (induction xs)
  case (Cons x xs)
  then have "filter (\<lambda>y. y \<noteq> x) xs = xs" by (intro filter_True) auto
  with Cons show ?case by simp
qed simp

lemma seed_tasks_ok:
  "seed_tasks now ts created b = (Inr ids, b') \<Longrightarrow> created = jm_keys (board_fold b) \<Longrightarrow> blockers_precede (board_fold b) \<Longrightarrow>
   \<exists>new. board_fold b' = board_fold b @ new \<and> ids = jm_keys (board_fold b') \<and> length new = length ts \<and>
     blockers_precede (board_fold b') \<and> board_abandoned b' = board_abandoned b \<and>
     (\<forall>j < length ts. seeds ids (length created + j) (ts ! j) (snd (new ! j)))"
proof (induction ts arbitrary: created b)
  case Nil
  then show ?case by auto
next
  case (Cons p ts)
  from Cons.prems(1) obtain ks t b1 where
    ks: "resolve_blockers created (or_else (pt_blockedBy p) []) = Inr ks" and
    c: "create now (seed_input ks p) b = (Inr t, b1)" and rest: "seed_tasks now ts (created @ [tk_id t]) b1 = (Inr ids, b')"
    by (auto split: sum.splits prod.splits)
  from c obtain n where t: "t = new_task n (seed_input ks p)" "board_fold b1 = board_fold b @ [(tk_id t, t)]"
    "board_abandoned b1 = board_abandoned b" "set (tk_blockedBy t) \<subseteq> set (jm_keys (board_fold b))"
    by (rule create_appends)
  from t(2) Cons.prems(2) have keys: "created @ [tk_id t] = jm_keys (board_fold b1)" by (simp add: jm_keys_def)
  have "blockers_precede (board_fold b1)" using t(2,4) Cons.prems(3) by (simp add: blockers_precede_snoc)
  from Cons.IH [OF rest keys this] obtain new where new: "board_fold b' = board_fold b1 @ new" "ids = jm_keys (board_fold b')"
    "length new = length ts" "blockers_precede (board_fold b')" "board_abandoned b' = board_abandoned b1"
    "\<forall>j < length ts. seeds ids (length (created @ [tk_id t]) + j) (ts ! j) (snd (new ! j))"
    by blast
  have "\<forall>k < length created. ids ! k = created ! k"
    using new(1,2) t(2) Cons.prems(2) by (simp add: jm_keys_def nth_append)
  with ks have "seeds ids (length created) p t"
    by (auto simp: t(1) seeds_def new_task_def seed_input_def resolve_Inr list_all_iff)
  with new t(2,3) show ?case
    by (intro exI [of _ "(tk_id t, t) # new"]) (auto simp: nth_Cons split: nat.splits)
qed

lemma peer_start_ready:
  assumes "peer_start now sp gate [] b = (Inr (c, s), b')" "board_fold b = []" "board_abandoned b = []"
  shows "workers_start c s \<and> wc_seeded c = map tk_id (board_list b') \<and> length (board_list b') = length (ps_tasks sp) \<and>
    (\<forall>i < length (ps_tasks sp). seeds (wc_seeded c) i (ps_tasks sp ! i) (board_list b' ! i))"
proof -
  from assms(1) obtain ids where seed: "seed_tasks now (ps_tasks sp) [] b = (Inr ids, b')"
    and c: "c = peer_config sp gate ids" "s = workers_new c now b'"
    by (auto simp: peer_start_def seedBoard_def Let_def split: if_splits prod.splits sum.splits)
  from seed_tasks_ok [OF seed] assms(2) obtain new where new: "board_fold b' = new" "ids = jm_keys new" "length new = length (ps_tasks sp)"
    "blockers_precede new" "board_abandoned b' = board_abandoned b" "\<forall>j < length (ps_tasks sp). seeds ids j (ps_tasks sp ! j) (snd (new ! j))"
    by (auto simp: blockers_precede_def)
  have list: "board_list b' = map snd new" using new(1) by (simp add: board_list_def jm_vals_def)
  have keys: "ids = map tk_id (board_list b')" using new(1,2) board_fold_keyed [of b'] by (simp add: board_list_def jm_keyed_vals)
  have "distinct ids" using board_list_distinct [of b'] keys by simp
  then have seeded: "wc_seeded c = ids" by (simp add: c peer_config_def js_uniq_distinct)
  have nth: "\<forall>i < length (ps_tasks sp). seeds ids i (ps_tasks sp ! i) (board_list b' ! i)"
    using new(3,6) list by simp
  have pend: "tk_status t = Pending \<and> set (tk_blockedBy t) \<subseteq> set ids" if "t \<in> set (board_list b')" for t
  proof -
    from that list new(3) obtain i where i: "i < length (ps_tasks sp)" "t = board_list b' ! i" by (metis in_set_conv_nth length_map)
    with nth have "seeds ids i (ps_tasks sp ! i) t" by simp
    with i(1) new(3) list keys show ?thesis by (fastforce simp: seeds_def list_all_iff)
  qed
  have get: "t \<in> set (board_list b')" if "jm_get (board_fold b') x = Some t" for x t
    using that board_get_id [OF that] by (simp add: board_list_iff)
  have "workers_ready c b'"
    using pend get new(1,4,5) assms(3) seeded
    by (fastforce simp: workers_ready_def blockers_done_def seeds_closed_def)
  then have "workers_start c s" using c(2) by (auto simp: workers_start_def)
  with seeded keys nth list new(3) show ?thesis by simp
qed

text \<open>seeding a fresh board puts exactly the spec's tasks on it, in spec order, each pending with the ids of the tasks
  its indices name as blockers, all earlier ones; and the team starts on it ready.\<close>

theorem peer_start_seeds:
  assumes "peer_start now sp gate [] b = (Inr (c, s), b')" "board_fold b = []" "board_abandoned b = []"
  shows "workers_start c s \<and> wc_seeded c = map tk_id (board_list b') \<and> length (board_list b') = length (ps_tasks sp) \<and>
    (\<forall>i < length (ps_tasks sp). seeds (wc_seeded c) i (ps_tasks sp ! i) (board_list b' ! i))"
  by (rule peer_start_ready [OF assms])

section \<open>A run of two members\<close>

definition team_spec2 :: peer_team_spec where
  "team_spec2 = \<lparr>sb_intent = None, sb_budget = None, ps_members = [plain_member ''ann'', plain_member ''bob''],
     ps_tasks = [\<lparr>pt_subject = ''a'', pt_prompt = ''do a'', pt_blockedBy = None, pt_intent = None, pt_checks = None,
        pt_budget = None, pt_minLevel = None, pt_suite = None\<rparr>,
       \<lparr>pt_subject = ''b'', pt_prompt = ''do b'', pt_blockedBy = Some [0], pt_intent = None, pt_checks = None,
        pt_budget = None, pt_minLevel = None, pt_suite = None\<rparr>],
     ps_messaging = None, ps_maxTaskAttempts = Some 1, ps_maxMemberRestarts = None, ps_memberIdleTimeoutMs = None, ps_gate = None\<rparr>"

definition team_board0 :: board where
  "team_board0 = board_open (journal_new ''p1'' []) False None"

definition team_config2 :: worker_config where
  "team_config2 = peer_config team_spec2 None [''task-0'', ''task-1'']"

definition team_board1 :: board where
  "team_board1 = snd (seedBoard 1 (ps_tasks team_spec2) [] team_board0)"

definition team0 :: workers where
  "team0 = workers_new team_config2 1 team_board1"

definition team1 :: workers where "team1 = goto 0 Claiming team0"
definition team2 :: workers where "team2 = worker_claim team_config2 2 0 team1"
definition team_task :: task where "team_task = the (holds (ws_phases team2 ! 0))"

text \<open>Ann's run fails, which out of attempts and with no answer abandons both tasks; then both members leave.\<close>

definition team3 :: workers where "team3 = member_failed team_config2 3 0 team_task ''boom'' team2"
definition team4 :: workers where "team4 = fail_settled team_config2 4 0 team_task ''boom'' 1 1 False team3"
definition team5 :: workers where "team5 = release_settled team_config2 5 0 team_task True team4"
definition team6 :: workers where "team6 = goto 1 Left team5"

definition team_deps :: "member_spec \<Rightarrow> task \<Rightarrow> unit gate_deps" where
  "team_deps m t = \<lparr>gd_member = (\<lambda>_. ret no_result), gd_snapshot = ret \<lparr>sn_commit = [], sn_tree = []\<rparr>, gd_review = None,
     gd_rollback = None, gd_hidden = None, gd_diffBase = None, gd_command = (\<lambda>_. ret (True, [])), gd_record = (\<lambda>_. ret ()),
     gd_abort = (\<lambda>_. None), gd_now = (\<lambda>_. 0)\<rparr>"

lemma team_start2: "peer_start 1 team_spec2 None [] team_board0 = (Inr (team_config2, team0), team_board1)"
proof -
  have "seedBoard 1 (ps_tasks team_spec2) [] team_board0 = (Inr [''task-0'', ''task-1''], team_board1)" by code_simp
  moreover have "ps_members team_spec2 \<noteq> []" by code_simp
  ultimately show ?thesis by (simp add: peer_start_def team_config2_def team0_def Let_def)
qed

lemma team_board0_empty: "board_fold team_board0 = []" "board_abandoned team_board0 = []"
  by code_simp+

lemma team_at0: "team_reachable team_config2 team_deps team0"
  using peer_start_ready [OF team_start2 team_board0_empty] by (intro reach_start) simp

lemma team_at1: "team_reachable team_config2 team_deps team1"
  unfolding team1_def by (rule reach_step [OF team_at0 w_head]) code_simp+

lemma team_at2: "team_reachable team_config2 team_deps team2"
  unfolding team2_def by (rule reach_step [OF team_at1 w_claim]) code_simp+

lemma team_at3: "team_reachable team_config2 team_deps team3"
  unfolding team3_def by (rule reach_step [OF team_at2 w_threw]) code_simp+

lemma team_at4: "team_reachable team_config2 team_deps team4"
proof -
  have "worker_step team_config2 team_deps team3 (fail_settled team_config2 4 0 team_task ''boom'' 1 1 (''stop'' = ''retry'') team3)"
    by (rule w_retry) code_simp+
  moreover have "(''stop'' = ''retry'') = False" by code_simp
  ultimately have "worker_step team_config2 team_deps team3 team4" by (simp only: team4_def)
  then show ?thesis by (rule reach_step [OF team_at3])
qed

lemma team_at5: "team_reachable team_config2 team_deps team5"
  unfolding team5_def by (rule reach_step [OF team_at4 w_release]) code_simp+

lemma team_at6: "team_reachable team_config2 team_deps team6"
  unfolding team6_def by (rule reach_step [OF team_at5 w_leave]) code_simp+

theorem peer_start_seeds_witness:
  "workers_start team_config2 team0 \<and> length (board_list team_board1) = 2 \<and>
   seeds (wc_seeded team_config2) 1 (ps_tasks team_spec2 ! 1) (board_list team_board1 ! 1)"
proof -
  note w = peer_start_seeds [OF team_start2 team_board0_empty]
  have n: "length (ps_tasks team_spec2) = 2" "1 < length (ps_tasks team_spec2)" by code_simp+
  show ?thesis
  proof (intro conjI)
    show "workers_start team_config2 team0" using w by blast
    show "length (board_list team_board1) = 2" using w n(1) by metis
    show "seeds (wc_seeded team_config2) 1 (ps_tasks team_spec2 ! 1) (board_list team_board1 ! 1)" using w n(2) by blast
  qed
qed

theorem team_claims_witness: "\<exists>!i. i < length (ws_phases team2) \<and> holds (ws_phases team2 ! i) = Some team_task"
  by (rule team_claims [OF team_at2, of "''task-0''"]) code_simp+

theorem team_works_on_ready_witness:
  "\<not> jm_has (ws_abandoned team2) (tk_id team_task) \<and> jm_get (board_fold (ws_board team2)) (tk_id team_task) = Some team_task"
proof -
  have "ws_phases team2 ! 0 = Working team_task" "0 < length (ws_phases team2)" by code_simp+
  from team_works_on_ready [OF team_at2 this(2,1)] show ?thesis by simp
qed

theorem team_never_parks_witness:
  "fst (claimNextReady 2 ''bob'' (\<lambda>t. jm_has (ws_abandoned team1) (tk_id t)) (ws_board team1)) \<noteq> None"
  by (rule team_never_parks [OF team_at1]) code_simp+

theorem team_end_accounts_witness:
  "\<exists>e. fst (workers_end team_config2 6 team6) = Inl e \<and> ae_runs e = [] \<and>
     list_all (\<lambda>t. jm_has (ae_abandoned e) (tk_id t)) (board_list (ws_board team6))"
proof -
  have left: "list_all (\<lambda>p. p = Left) (ws_phases team6)" by code_simp
  have "ws_abandoned team6 \<noteq> [] \<and> ws_runs team6 = [] \<and>
      list_all (\<lambda>t. tk_id t \<in> set (wc_seeded team_config2) \<and> tk_status t \<noteq> Completed) (board_list (ws_board team6))
      \<and> isl (fst (workers_end team_config2 6 team6))"
    by code_simp
  moreover have "workers_end team_config2 6 team6 = (fst (workers_end team_config2 6 team6), snd (workers_end team_config2 6 team6))"
    by simp
  note team_end_accounts [OF team_at6 left this]
  ultimately show ?thesis by (auto simp: list_all_iff isl_def)
qed

end
