(* ===== verification/Evidence.thy ===== *)
theory Evidence
  imports Metrics "HOL-Library.Multiset"
begin

text \<open>
  \<open>packages/swarm/src/evidence.ts\<close>: the reviewer's bundle for one landing, folded from the run's
  journal and the train's, the landing queue and a landing as lines; and \<open>trainVerdictText\<close> of
  \<open>train.ts\<close>, which they print.
\<close>

section \<open>A train verdict in a few words\<close>

definition hidden_counts :: "train_verdict \<Rightarrow> string" where
  "hidden_counts v =
     (if tv_refused v \<noteq> None then ''refused the tree''
      else if tv_passed v then nat_opt (tv_total v) @ '' of '' @ nat_opt (tv_total v) @ '' passing''
      else nat_opt (tv_failed v) @ '' of '' @ nat_opt (tv_total v) @ '' failing'')"

definition trainVerdictText :: "train_verdict \<Rightarrow> string" where
  "trainVerdictText v =
     (if tv_level v = L3
      then ''L3 hidden suite '' @ undef (tv_suite v) @ '' '' @ pass_text (tv_passed v) @ '' ('' @ hidden_counts v @ '')''
      else if tv_passed v then ''L2 checks passed'' else ''L2 check failed: '' @ undef (tv_failedCommand v))"

section \<open>The bundle\<close>

text \<open>The run's part: gate rounds, tamper signs and usage of the entry's task key.\<close>

definition entry_usages :: "string \<Rightarrow> swarm_event list \<Rightarrow> usage_event list" where
  "entry_usages key es = filter (\<lambda>u. ue_taskKey u = Some key) (usages_of es)"

definition gate_rounds_of :: "string \<Rightarrow> swarm_event list \<Rightarrow> nat" where
  "gate_rounds_of key es = length (filter (\<lambda>e. case e of GateEvent g \<Rightarrow> gv_taskId g = key | _ \<Rightarrow> False) es)"

definition gate_tamper_of :: "string \<Rightarrow> swarm_event list \<Rightarrow> tamper_record list" where
  "gate_tamper_of key es = List.map_filter (\<lambda>e. case e of
     TamperEvent t \<Rightarrow> if te_taskId t = key
       then Some \<lparr>tr_step = GateStep, tr_severity = or_else (te_severity t) Incident, tr_signals = signal_texts (te_signals t)\<rparr>
       else None
   | _ \<Rightarrow> None) es"

definition reported_usd :: "usage_event list \<Rightarrow> rat option" where
  "reported_usd us = foldl (\<lambda>r u. case ue_costUsd u of None \<Rightarrow> r | Some usd \<Rightarrow> Some (or_else r 0 + usd)) None us"

definition unreported_runs :: "usage_event list \<Rightarrow> (string \<times> usage) list" where
  "unreported_runs us =
     map (\<lambda>u. (model_key u, ue_usage u)) (filter (\<lambda>u. ue_costUsd u = None \<and> tokensOf (ue_usage u) > 0) us)"

definition entry_cost :: "usage_event list \<Rightarrow> landing_cost" where
  "entry_cost us =
     \<lparr>lc_tokens = sum_list (map (\<lambda>u. tokensOf (ue_usage u)) us),
      lc_byRole = tally_by ue_role (\<lambda>u. tokensOf (ue_usage u)) us, lc_byModel = usage_by_model us,
      lc_reported = map_option (\<lambda>usd. (usd, unreported_runs us)) (reported_usd us)\<rparr>"

text \<open>The train's part: the last verification that holds the entry, its agent steps and their tamper signs.\<close>

definition entry_verdict :: "landing_at \<Rightarrow> train_event list \<Rightarrow> (train_verdict \<times> int) option" where
  "entry_verdict la es = foldl (\<lambda>r e. case e of
     TrVerified v batch tip entries \<Rightarrow>
       if (case la_batch la of None \<Rightarrow> la_key la \<in> set entries | Some b \<Rightarrow> batch = b) then Some (v\<lparr>tv_output := None\<rparr>, batch) else r
   | _ \<Rightarrow> r) None es"

fun repair_str :: "repair_outcome \<Rightarrow> string" where
  "repair_str Committed = ''committed''"
| "repair_str Unchanged = ''unchanged''"
| "repair_str RepairFailed = ''failed''"

fun resolve_str :: "resolve_outcome \<Rightarrow> string" where
  "resolve_str Resolved = ''resolved''"
| "resolve_str GaveUp = ''gave-up''"
| "resolve_str Tampered = ''tamper''"

definition entry_steps :: "string \<Rightarrow> train_event list \<Rightarrow> step_record list" where
  "entry_steps key es = List.map_filter (\<lambda>e. case e of
     TrRepair r member n failure out err \<Rightarrow>
       if er_key r = key then Some \<lparr>sp_step = Repair, sp_member = Some member, sp_attempt = Some n, sp_outcome = repair_str out\<rparr> else None
   | TrResolve r member tip files out err \<Rightarrow>
       if er_key r = key then Some \<lparr>sp_step = Resolve, sp_member = member, sp_attempt = None, sp_outcome = resolve_str out\<rparr> else None
   | TrRemoteResolve r member n out failure err \<Rightarrow>
       if er_key r = key then Some \<lparr>sp_step = Resolve, sp_member = Some member, sp_attempt = None, sp_outcome = repair_str out\<rparr> else None
   | _ \<Rightarrow> None) es"

definition train_tamper_of :: "string \<Rightarrow> train_event list \<Rightarrow> tamper_record list" where
  "train_tamper_of key es = List.map_filter (\<lambda>e. case e of
     TrTamper r member st sev sigs \<Rightarrow>
       if er_key r = key then Some \<lparr>tr_step = FixStep st, tr_severity = sev, tr_signals = signal_texts sigs\<rparr> else None
   | _ \<Rightarrow> None) es"

definition entry_questions :: "string \<Rightarrow> swarm_event list \<Rightarrow> question_record list" where
  "entry_questions key es =
     map (\<lambda>q. \<lparr>qr_id = qn_id q, qr_trigger = qn_trigger q, qr_status = qn_status q, qr_answer = qn_answer q, qr_by = qn_by q,
           qr_raisedAt = qn_raisedAt q, qr_closedAt = qn_closedAt q\<rparr>)
       (filter (\<lambda>q. qn_taskId q = Some key) (jm_vals (foldQuestions es)))"

text \<open>The level: the strongest passing verifier's; a waiver is none.\<close>

definition gate_gives :: "task_evidence option \<Rightarrow> verifier_level" where
  "gate_gives g = (case g of None \<Rightarrow> L0 | Some e \<Rightarrow> if ev_passed e \<and> ev_kind e \<noteq> KHuman then effectiveLevel e else L0)"

definition train_gives :: "(train_verdict \<times> int) option \<Rightarrow> verifier_level" where
  "train_gives t =
     (case t of None \<Rightarrow> L0
      | Some (v, _) \<Rightarrow> if tv_passed v then if tv_level v = L3 \<and> tv_enforcement v = Some Partial then L2 else tv_level v else L0)"

fun tamper_step_str :: "tamper_step \<Rightarrow> string" where
  "tamper_step_str GateStep = ''gate''"
| "tamper_step_str (FixStep Repair) = ''repair''"
| "tamper_step_str (FixStep Resolve) = ''resolve''"

definition partly_enforced :: "task_evidence option \<Rightarrow> (train_verdict \<times> int) option \<Rightarrow> bool" where
  "partly_enforced g t \<longleftrightarrow> (case g of None \<Rightarrow> False | Some e \<Rightarrow> ev_enforcement e = Some Partial) \<or>
     (case t of None \<Rightarrow> False | Some (v, _) \<Rightarrow> tv_enforcement v = Some Partial)"

definition risk_reasons ::
  "landing_at \<Rightarrow> task_evidence option \<Rightarrow> (train_verdict \<times> int) option \<Rightarrow> tamper_record list \<Rightarrow> step_record list \<Rightarrow> verifier_level \<Rightarrow> string list" where
  "risk_reasons la g t tampers steps lvl =
     (case g of Some e \<Rightarrow> if ev_kind e = KHuman then [''gate waived by '' @ undef (ev_by e)] else [] | None \<Rightarrow> []) @
     (if partly_enforced g t then [''L3 only partly enforced''] else []) @
     map (\<lambda>t. ''tamper '' @ severity_str (tr_severity t) @ '' in its '' @ tamper_step_str (tr_step t)) tampers @
     (if \<exists>s \<in> set steps. sp_step s = Repair then [''repaired''] else []) @
     (if \<exists>s \<in> set steps. sp_step s = Resolve then [''went to the resolver''] else []) @
     (if la_unverified la then [''merged unverified''] else []) @
     (if la_outcome la = OutConflicted then [''conflicted in the queue''] else []) @
     (if lvl < L2 then [''verified only to L'' @ nat_str (level_num lvl)] else [])"

definition buildEvidence :: "landing_at \<Rightarrow> swarm_event list \<Rightarrow> train_event list \<Rightarrow> landing_evidence" where
  "buildEvidence la runEvents trainEvents =
     (let key = la_key la; task = jm_get (foldBoard runEvents) key; run = foldRun runEvents;
          gate = Option.bind task tk_evidence; train = entry_verdict la trainEvents;
          tampers = gate_tamper_of key runEvents @ train_tamper_of key trainEvents;
          steps = entry_steps key trainEvents; unmeasured = usageUnmeasured run;
          lvl = max (gate_gives gate) (train_gives train);
          why = risk_reasons la gate train tampers steps lvl in
      landing_at.extend la
        (landing_evidence.fields (map_option tk_subject task)
          (or_opt (Option.bind task tk_intent) (Option.bind (Option.bind run rr_spec) spec_intent))
          lvl gate (gate_rounds_of key runEvents) train
          (if unmeasured = None then Some (entry_cost (entry_usages key runEvents)) else None) unmeasured
          (entry_questions key runEvents) steps tampers
          (if why \<noteq> [] then RiskHigh else if L3 \<le> lvl then RiskLow else RiskMedium) (js_uniq why)))"

section \<open>The landing queue\<close>

fun risk_rank :: "risk_tier \<Rightarrow> nat" where
  "risk_rank RiskHigh = 0"
| "risk_rank RiskMedium = 1"
| "risk_rank RiskLow = 2"

definition train_bundles :: "train_event list \<Rightarrow> landing_evidence list" where
  "train_bundles es = List.map_filter (\<lambda>e. case e of TrEvidence b \<Rightarrow> Some b | _ \<Rightarrow> None) es"

definition run_bundles :: "swarm_event list \<Rightarrow> landing_evidence list" where
  "run_bundles es = List.map_filter (\<lambda>e. case e of EvidenceEvent b \<Rightarrow> Some b | _ \<Rightarrow> None) es"

text \<open>\<open>sort\<close> is stable: sorted by the second criterion, then stably by the first.\<close>

definition landingsOf :: "swarm_event list \<Rightarrow> train_event list \<Rightarrow> landing_evidence list" where
  "landingsOf runEvents trainEvents =
     sort_key (\<lambda>e. risk_rank (le_risk e)) (sort_key la_at (train_bundles trainEvents @ run_bundles runEvents))"

section \<open>A landing as lines\<close>

definition minus_sign :: string where "minus_sign = [CHR 0xE2, CHR 0x88, CHR 0x92]"

definition first100 :: "string \<Rightarrow> string" where
  "first100 s = (let line = first_line s in if length line > 100 then take 99 line @ ellipsis else line)"

text \<open>\<open>n.toLocaleString('en-US')\<close>: digits in threes.\<close>

fun group3 :: "string \<Rightarrow> string" where
  "group3 (a # b # c # d # ds) = a # b # c # CHR '','' # group3 (d # ds)"
| "group3 ds = ds"

definition count :: "nat \<Rightarrow> string" where
  "count n = rev (group3 (rev (nat_str n)))"

fun role_str :: "usage_role \<Rightarrow> string" where
  "role_str TaskRole = ''task''"
| "role_str ReviewRole = ''review''"
| "role_str RepairRole = ''repair''"
| "role_str ResolveRole = ''resolve''"
| "role_str LeadRole = ''lead''"

fun tier_label :: "risk_tier \<Rightarrow> string" where
  "tier_label RiskHigh = ''HIGH  ''"
| "tier_label RiskMedium = ''MEDIUM''"
| "tier_label RiskLow = ''LOW   ''"

fun outcome_str :: "landing_outcome \<Rightarrow> string" where
  "outcome_str OutLanded = ''landed''"
| "outcome_str OutEjected = ''ejected''"
| "outcome_str OutConflicted = ''conflicted''"

definition landing_where :: "landing_evidence \<Rightarrow> string" where
  "landing_where e =
     (case la_outcome e of
        OutEjected \<Rightarrow> ''branch '' @ la_branch e @ '' kept: '' @ first100 (or_else (la_reason e) [])
      | OutConflicted \<Rightarrow> ''queue, branch '' @ la_branch e @ '' kept''
      | OutLanded \<Rightarrow>
          (case la_via e of
             ViaTrain \<Rightarrow> ''train batch '' @ undef (map_option int_str (la_batch e)) @ '', '' @ undef (map_option (take 8) (la_commit e))
           | ViaForge \<Rightarrow> ''merge queue'' @ (case la_commit e of None \<Rightarrow> [] | Some c \<Rightarrow> if c = [] then [] else '', '' @ take 8 c)
           | ViaQueue \<Rightarrow> ''queue'' @ (if la_unverified e then '' unverified'' else []) @ '', branch '' @ la_branch e))"

definition diff_text :: "diff_summary option \<Rightarrow> string" where
  "diff_text d =
     (case d of
        None \<Rightarrow> ''unavailable''
      | Some d \<Rightarrow>
          (let files = js_join '', '' (take 5 (ds_files d)) @
             (if length (ds_files d) > 5 then '', +'' @ nat_str (length (ds_files d) - 5) @ '' more'' else []) in
           nat_str (length (ds_files d)) @ '' file(s), +'' @ nat_str (ds_insertions d) @ '' '' @ minus_sign @ nat_str (ds_deletions d) @
           (if files = [] then [] else '': '' @ files)))"

definition rest_usd :: "pricing option \<Rightarrow> string \<times> usage \<Rightarrow> rat option" where
  "rest_usd pricing r = (if tokensOf (snd r) = 0 then Some 0
     else (case priced [r] pricing of Inl _ \<Rightarrow> None | Inr usd \<Rightarrow> Some usd))"

definition cost_dollars :: "landing_cost \<Rightarrow> pricing option \<Rightarrow> string" where
  "cost_dollars c pricing =
     (let others = (case lc_reported c of None \<Rightarrow> [] | Some (_, rest) \<Rightarrow> map (rest_usd pricing) rest);
          short = length (filter (\<lambda>usd. usd = None) others);
          usd = (case lc_reported c of
              None \<Rightarrow> (case priced (lc_byModel c) pricing of Inl _ \<Rightarrow> None | Inr usd \<Rightarrow> Some usd)
            | Some (own, _) \<Rightarrow> Some (foldl (\<lambda>sum usd. sum + or_else usd 0) own others)) in
      case usd of
        None \<Rightarrow> []
      | Some usd \<Rightarrow>
          if lc_tokens c = 0 then []
          else if short = 0 then '', $'' @ fixed2 usd
          else '', at least $'' @ fixed2 usd @ '' ('' @ nat_str short @ '' run(s) neither reported nor priced)'')"

definition cost_line :: "landing_evidence \<Rightarrow> pricing option \<Rightarrow> string" where
  "cost_line e pricing =
     (case le_cost e of
        None \<Rightarrow> ''cost: '' @ em_dash @ '' '' @ undef (le_unmeasured e)
      | Some c \<Rightarrow>
          (let roles = map (\<lambda>(r, n). role_str r @ '' '' @ count n) (lc_byRole c) in
           ''cost: '' @ count (lc_tokens c) @ '' tokens'' @
             (if roles = [] then [] else '' ('' @ js_join '', '' roles @ '')'') @ cost_dollars c pricing))"

fun status_str :: "question_status \<Rightarrow> string" where
  "status_str Open = ''open''"
| "status_str Answered = ''answered''"
| "status_str Defaulted = ''defaulted''"
| "status_str Capped = ''capped''"

definition asked_text :: "question_record \<Rightarrow> string" where
  "asked_text q =
     (let closed = (case qr_closedAt q of None \<Rightarrow> [] | Some at' \<Rightarrow> '' after '' @ duration (of_int (at' - qr_raisedAt q))) in
      qr_id q @ '' '' @ trigger_str (qr_trigger q) @ '': '' @
      (if qr_status q = Open then ''open''
       else undef (qr_answer q) @ '' ('' @
         (if qr_status q = Answered then ''answered by '' @ undef (qr_by q) else status_str (qr_status q)) @ closed @ '')''))"

definition step_text :: "step_record \<Rightarrow> string" where
  "step_text s =
     (if sp_step s = Repair then ''repair '' @ nat_opt (sp_attempt s) else ''resolver'') @
     (case sp_member s of None \<Rightarrow> [] | Some m \<Rightarrow> '' by '' @ m) @ '': '' @ sp_outcome s"

definition gate_text :: "task_evidence option \<Rightarrow> string" where
  "gate_text g =
     (case g of
        None \<Rightarrow> ''none''
      | Some g \<Rightarrow> if ev_kind g = KHuman then ''waived by '' @ undef (ev_by g)
          else evidenceText g @ '' '' @ pass_text (ev_passed g))"

definition verified_line :: "landing_evidence \<Rightarrow> string" where
  "verified_line e =
     ''verified: L'' @ nat_str (level_num (le_level e)) @ '' (gate: '' @ gate_text (le_gate e) @ '', '' @ nat_str (le_gateRounds e) @ '' round(s)'' @
     (case le_train e of None \<Rightarrow> [] | Some (v, b) \<Rightarrow> ''; train batch '' @ int_str b @ '': '' @ trainVerdictText v) @ '')''"

definition landingText :: "landing_evidence \<Rightarrow> pricing option \<Rightarrow> string list" where
  "landingText e pricing =
     (tier_label (le_risk e) @ '' '' @ la_key e @ '' '' @ outcome_str (la_outcome e) @ '' ('' @ landing_where e @ '')'' @
       (case le_subject e of None \<Rightarrow> [] | Some s \<Rightarrow> '' '' @ em_dash @ '' '' @ first100 s)) #
     map (\<lambda>line. ''       '' @ line)
       ((if le_why e = [] then [] else [''why: '' @ js_join ''; '' (le_why e)]) @
        (case le_intent e of None \<Rightarrow> []
         | Some i \<Rightarrow> [''intent: '' @ first100 (in_purpose i) @ '' '' @ em_dash @ '' end state: '' @ first100 (in_endState i)]) @
        [''diff on '' @ take 8 (la_base e) @ '': '' @ diff_text (la_diff e), verified_line e, cost_line e pricing] @
        (if le_questions e = [] then [] else [''questions: '' @ js_join ''; '' (map asked_text (le_questions e))]) @
        (if le_steps e = [] then [] else [''steps: '' @ js_join ''; '' (map step_text (le_steps e))]) @
        map (\<lambda>t. ''tamper '' @ severity_str (tr_severity t) @ '' in its '' @ tamper_step_str (tr_step t) @ '': '' @
               js_join '', '' (tr_signals t)) (le_tamper e))"

end
