(* ===== verification/EvidenceProperties.thy ===== *)
theory EvidenceProperties
  imports Evidence
begin

text \<open>
  When a landing is high, medium or low risk, what its level rests on, and the order of the landing queue.
\<close>

section \<open>The bundle's fields\<close>

lemma build_fields:
  fixes la runEvents trainEvents
  defines "b \<equiv> buildEvidence la runEvents trainEvents"
  defines "gate \<equiv> Option.bind (jm_get (foldBoard runEvents) (la_key la)) tk_evidence" and "train \<equiv> entry_verdict la trainEvents"
  shows "le_gate b = gate" and "le_train b = train" and "le_steps b = entry_steps (la_key la) trainEvents"
    and "le_tamper b = gate_tamper_of (la_key la) runEvents @ train_tamper_of (la_key la) trainEvents"
    and "le_level b = max (gate_gives gate) (train_gives train)"
    and "le_why b = js_uniq (risk_reasons la gate train (le_tamper b) (le_steps b) (le_level b))"
    and "le_risk b = (if risk_reasons la gate train (le_tamper b) (le_steps b) (le_level b) \<noteq> [] then RiskHigh
       else if L3 \<le> le_level b then RiskLow else RiskMedium)"
    and "la_key b = la_key la" and "la_outcome b = la_outcome la" and "la_unverified b = la_unverified la"
  unfolding assms(1) buildEvidence_def Let_def assms(2,3) by (simp_all add: landing_at.defs landing_evidence.defs)

definition waived :: "landing_evidence \<Rightarrow> bool" where
  "waived b \<longleftrightarrow> (case le_gate b of None \<Rightarrow> False | Some e \<Rightarrow> ev_kind e = KHuman)"

lemma entry_steps_kinds: "s \<in> set (entry_steps key es) \<Longrightarrow> sp_step s = Repair \<or> sp_step s = Resolve"
  by (cases "sp_step s") auto

lemma no_reasons_iff:
  "risk_reasons la g t tampers steps lvl = [] \<longleftrightarrow>
     (case g of None \<Rightarrow> True | Some e \<Rightarrow> ev_kind e \<noteq> KHuman) \<and> \<not> partly_enforced g t \<and> tampers = [] \<and> steps = [] \<and>
     \<not> la_unverified la \<and> la_outcome la \<noteq> OutConflicted \<and> L2 \<le> lvl"
proof -
  have "(\<forall>s \<in> set steps. sp_step s \<noteq> Repair) \<and> (\<forall>s \<in> set steps. sp_step s \<noteq> Resolve) \<longleftrightarrow> steps = []"
    by (cases steps) (auto, metis fix_step.exhaust)
  then show ?thesis unfolding risk_reasons_def by (auto split: option.splits)
qed

text \<open>a landing is low risk exactly when it is verified to L3 or above, its gate was not waived, neither verification was only
  partly confined, no sign of tampering and no repair or resolver step is recorded for it, and it neither merged unverified
  nor conflicted.\<close>

theorem low_risk_iff:
  "le_risk (buildEvidence la runEvents trainEvents) = RiskLow \<longleftrightarrow>
     (let b = buildEvidence la runEvents trainEvents in
      L3 \<le> le_level b \<and> \<not> waived b \<and> \<not> partly_enforced (le_gate b) (le_train b) \<and> le_tamper b = [] \<and> le_steps b = [] \<and>
      \<not> la_unverified b \<and> la_outcome b \<noteq> OutConflicted)"
proof -
  have "L3 \<le> l \<Longrightarrow> L2 \<le> (l :: verifier_level)" for l
    by (cases l) (simp_all add: less_eq_verifier_level_def)
  then show ?thesis
    unfolding Let_def waived_def by (auto simp: build_fields no_reasons_iff split: option.splits)
qed

lemma gate_gives_L3:
  "L3 \<le> gate_gives g \<Longrightarrow> \<exists>e. g = Some e \<and> ev_passed e \<and> ev_kind e \<noteq> KHuman \<and> L3 \<le> effectiveLevel e"
  by (auto simp: gate_gives_def less_eq_verifier_level_def split: option.splits if_splits)

lemma train_gives_L3:
  "L3 \<le> train_gives t \<Longrightarrow> \<exists>v i. t = Some (v, i) \<and> tv_passed v \<and> L3 \<le> tv_level v \<and> \<not> (tv_level v = L3 \<and> tv_enforcement v = Some Partial)"
  by (auto simp: train_gives_def less_eq_verifier_level_def split: option.splits if_splits)

text \<open>a bundle says L3 only on a verification that passed at that level and was not partly enforced: the task's own
  evidence, by a verifier and not a person, or the train's verdict on a batch.\<close>

theorem level_is_earned:
  assumes "L3 \<le> le_level (buildEvidence la runEvents trainEvents)"
  shows "(\<exists>e. le_gate (buildEvidence la runEvents trainEvents) = Some e \<and> ev_passed e \<and> ev_kind e \<noteq> KHuman \<and> L3 \<le> effectiveLevel e) \<or>
    (\<exists>v i. le_train (buildEvidence la runEvents trainEvents) = Some (v, i) \<and> tv_passed v \<and> L3 \<le> tv_level v \<and>
      \<not> (tv_level v = L3 \<and> tv_enforcement v = Some Partial))"
proof -
  let ?b = "buildEvidence la runEvents trainEvents"
  have "L3 \<le> gate_gives (le_gate ?b) \<or> L3 \<le> train_gives (le_train ?b)"
    using assms unfolding build_fields(1,2,5) by (simp add: max_def split: if_splits)
  then show ?thesis using gate_gives_L3[of "le_gate ?b"] train_gives_L3[of "le_train ?b"] by blast
qed

definition demo_landing :: landing_at where
  "demo_landing = \<lparr>la_key = ''a'', la_outcome = OutLanded, la_via = ViaTrain, la_unverified = False, la_branch = ''b'', la_base = ''t'',
     la_at = 5, la_batch = Some 1, la_commit = Some ''x'', la_reason = None, la_diff = None\<rparr>"

definition demo_verified :: train_event where
  "demo_verified = TrVerified \<lparr>tv_level = L3, tv_passed = True, tv_failedCommand = None, tv_output = None, tv_suite = Some ''s'',
     tv_total = Some 2, tv_failed = Some 0, tv_enforcement = Some Full, tv_refused = None\<rparr> 1 ''x'' [''a'']"

lemma demo_level: "L3 \<le> le_level (buildEvidence demo_landing [] [demo_verified])"
  by (simp add: build_fields entry_verdict_def demo_verified_def demo_landing_def train_gives_def gate_gives_def foldBoard_def
      less_eq_verifier_level_def max_def)

theorem level_is_earned_witness:
  "\<exists>v i. le_train (buildEvidence demo_landing [] [demo_verified]) = Some (v, i) \<and> tv_passed v \<and> L3 \<le> tv_level v"
  using level_is_earned[OF demo_level] by (auto simp: build_fields foldBoard_def)

section \<open>The landing queue's order\<close>

definition queued_before :: "landing_evidence \<Rightarrow> landing_evidence \<Rightarrow> bool" where
  "queued_before a b \<longleftrightarrow> risk_rank (le_risk a) < risk_rank (le_risk b) \<or> (risk_rank (le_risk a) = risk_rank (le_risk b) \<and> la_at a \<le> la_at b)"

lemma sort_key_stable_sorted:
  fixes f :: "'a \<Rightarrow> 'b::linorder" and g :: "'a \<Rightarrow> 'c::linorder"
  shows "sorted_wrt (\<lambda>a b. f a < f b \<or> (f a = f b \<and> g a \<le> g b)) (sort_key f (sort_key g xs))"
  unfolding sorted_wrt_iff_nth_less
proof (intro allI impI)
  let ?ys = "sort_key g xs"
  let ?zs = "sort_key f ?ys"
  fix i j assume ij: "i < j" "j < length ?zs"
  have "f (?zs ! i) \<le> f (?zs ! j)" using sorted_sort_key[of f ?ys] ij by (simp add: sorted_iff_nth_mono_less)
  moreover have "g (?zs ! i) \<le> g (?zs ! j)" if eq: "f (?zs ! i) = f (?zs ! j)"
  proof -
    let ?P = "\<lambda>x. f x = f (?zs ! i)"
    have part: "filter ?P ?zs = filter ?P ?ys" by (simp add: sort_key_stable)
    have "sorted (map g (filter ?P ?ys))" by (rule sorted_filter) simp
    then have s: "sorted_wrt (\<lambda>a b. g a \<le> g b) (filter ?P ?zs)" unfolding part by (simp add: sorted_map)
    have "filter ?P ?zs = filter ?P (take i ?zs) @ ?zs ! i # filter ?P (drop (Suc i) ?zs)"
      using ij id_take_nth_drop[of i ?zs] by (metis (mono_tags, lifting) filter.simps(2) filter_append less_trans)
    moreover have "?zs ! j \<in> set (filter ?P (drop (Suc i) ?zs))"
      using ij eq by (auto simp: in_set_conv_nth intro!: exI[of _ "j - Suc i"])
    ultimately have "\<exists>us vs. filter ?P ?zs = us @ ?zs ! i # vs \<and> ?zs ! j \<in> set vs" by blast
    then show ?thesis using s by (auto simp: sorted_wrt_append)
  qed
  ultimately show "f (?zs ! i) < f (?zs ! j) \<or> (f (?zs ! i) = f (?zs ! j) \<and> g (?zs ! i) \<le> g (?zs ! j))" by fastforce
qed

text \<open>the landing queue holds every bundle the two journals hold, each once, highest risk first and the oldest first among
  those of one tier.\<close>

theorem landing_queue_ordered:
  "mset (landingsOf runEvents trainEvents) = mset (train_bundles trainEvents) + mset (run_bundles runEvents) \<and>
   sorted_wrt queued_before (landingsOf runEvents trainEvents)"
  unfolding landingsOf_def queued_before_def using sort_key_stable_sorted by simp

end
