(* ===== verification/Train.thy ===== *)
theory Train
  imports Evidence Topologies
begin

text \<open>
  \<open>packages/swarm/src/train.ts\<close>: the landing train. Git, the verifier, member runs, questions and the
  tamper scan are computations over the environment; the train's own state (its entries, its outcome, its
  journal) is threaded beside it, so what happened before a throw stays happened. The two loops without a
  bound of their own (waves, and retries of a resolver a person asks for) take fuel.
\<close>

section \<open>Configuration\<close>

record train_config =
  tc_checks :: "string list option"
  tc_suite :: "string option"
  tc_batchSize :: "rat option"
  tc_maxRepairs :: "rat option"
  tc_url :: "string option"
  tc_token :: "string option"
  tc_remote :: "string option"

definition is_int_rat :: "rat \<Rightarrow> bool" where
  "is_int_rat q \<longleftrightarrow> of_int \<lfloor>q\<rfloor> = q"

text \<open>\<open>/^[a-z0-9-]{1,64}$/\<close>.\<close>

definition suite_char :: "char \<Rightarrow> bool" where
  "suite_char c \<longleftrightarrow> (97 \<le> (of_char c :: nat) \<and> (of_char c :: nat) \<le> 122) \<or> is_digit c \<or> c = CHR ''-''"

definition suite_name :: "string \<Rightarrow> bool" where
  "suite_name s \<longleftrightarrow> s \<noteq> [] \<and> length s \<le> 64 \<and> list_all suite_char s"

definition validateTrain :: "train_config \<Rightarrow> bool option \<Rightarrow> string option" where
  "validateTrain c autoCommit =
     (if tc_url c \<noteq> None \<and> (tc_token c = None \<or> tc_token c = Some [])
        then Some ''worktrees.train.url needs the token its owner invited this swarm with''
      else if tc_url c \<noteq> None \<and> (or_else (tc_checks c) [] \<noteq> [] \<or> tc_suite c \<noteq> None \<or> tc_batchSize c \<noteq> None)
        then Some ''worktrees.train.url lands through a remote train, which runs its own checks and batches: drop checks, suite and batchSize''
      else if tc_url c = None \<and> or_else (tc_checks c) [] = [] \<and> tc_suite c = None
        then Some ''worktrees.train needs checks (L2) or a hidden suite (L3) to verify its batches''
      else if autoCommit = Some False
        then Some ''worktrees.train needs autoCommit: the train lands committed branches and commits its repairs''
      else if (case tc_suite c of None \<Rightarrow> False | Some s \<Rightarrow> \<not> suite_name s)
        then Some (''worktrees.train names suite \"'' @ undef (tc_suite c) @ ''\"; a suite name is 1-64 of [a-z0-9-]'')
      else if (case tc_batchSize c of None \<Rightarrow> False | Some q \<Rightarrow> \<not> is_int_rat q \<or> q < 1)
        then Some ''worktrees.train.batchSize must be a positive integer''
      else if (case tc_maxRepairs c of None \<Rightarrow> False | Some q \<Rightarrow> \<not> is_int_rat q \<or> q < 0)
        then Some ''worktrees.train.maxRepairs must be a non-negative integer''
      else None)"

section \<open>The verifier\<close>

text \<open>A verification throws with whether it is marked unconfined.\<close>

type_synonym 'w train_verify = "string \<Rightarrow> string \<Rightarrow> ('w, thrown \<times> bool, train_verdict) act"

definition plainly :: "('w, thrown, 'a) act \<Rightarrow> ('w, thrown \<times> bool, 'a) act" where
  "plainly m = (\<lambda>w. case m w of (Inl e, w') \<Rightarrow> (Inl (e, False), w') | (Inr x, w') \<Rightarrow> (Inr x, w'))"

text \<open>The checks, each until one fails.\<close>

fun first_failing ::
  "(string \<Rightarrow> ('w, thrown, bool \<times> string) act) \<Rightarrow> string list \<Rightarrow> ('w, thrown, (string \<times> string) option) act" where
  "first_failing cmd [] = ret None"
| "first_failing cmd (c # cs) =
     andThen (cmd c) (\<lambda>(ok, out). if ok then first_failing cmd cs else ret (Some (c, out)))"

definition verdict_plain :: "verifier_level \<Rightarrow> bool \<Rightarrow> (string \<times> string) option \<Rightarrow> train_verdict" where
  "verdict_plain l p failing = \<lparr>tv_level = l, tv_passed = p, tv_failedCommand = map_option fst failing,
     tv_output = map_option snd failing, tv_suite = None, tv_total = None, tv_failed = None, tv_enforcement = None, tv_refused = None\<rparr>"

definition unconfined_text :: "string \<Rightarrow> enforcement \<Rightarrow> string" where
  "unconfined_text suite e =
     ''the verifier could not confine hidden suite '' @ suite @ '' (enforcement '' @ enforcement_str e @ '')''"

text \<open>\<open>suite_run\<close> is the verifier session's run of the suite on a commit, with whether it allows partial enforcement.\<close>

definition trainVerify ::
  "train_config \<Rightarrow> (string \<Rightarrow> string \<Rightarrow> ('w, thrown, bool \<times> string) act) \<Rightarrow>
   ((string \<Rightarrow> string \<Rightarrow> string \<Rightarrow> ('w, thrown, hidden_summary) act) \<times> bool) option \<Rightarrow> thrown + 'w train_verify" where
  "trainVerify c cmd suite_run =
     (if tc_suite c \<noteq> None \<and> suite_run = None then Inl (OtherError ''a train with a suite needs the L3 verifier'')
      else Inr (\<lambda>cwd tip.
        andThen (plainly (first_failing (cmd cwd) (or_else (tc_checks c) []))) (\<lambda>failing.
          case (tc_suite c, suite_run) of
            (Some suite, Some (run, allowPartial)) \<Rightarrow>
              andThen (plainly (run suite cwd tip)) (\<lambda>s.
                if hd_enforcement s \<noteq> Full \<and> \<not> allowPartial
                then throw (OtherError (unconfined_text suite (hd_enforcement s)), True)
                else ret ((verdict_plain L3 (hd_passed s) failing)\<lparr>tv_suite := Some suite, tv_total := Some (hd_total s),
                  tv_failed := Some (hd_failed s), tv_enforcement := Some (hd_enforcement s), tv_refused := hd_refused s\<rparr>))
          | _ \<Rightarrow> ret (verdict_plain L2 (failing = None) failing))))"

definition failureText :: "train_verdict \<Rightarrow> string" where
  "failureText v =
     (let check = map_option (\<lambda>c. ''`'' @ c @ ''` exited non-zero; its output ended with:'' @ nl @ nl @
            (if or_else (tv_output v) [] = [] then ''(no output captured)'' else or_else (tv_output v) [])) (tv_failedCommand v);
          suite = (case tv_refused v of
              Some why \<Rightarrow> ''the hidden suite refused the tree: '' @ why
            | None \<Rightarrow> ''a hidden acceptance suite, which you cannot see, has '' @ nat_opt (tv_failed v) @ '' of '' @ nat_opt (tv_total v) @ '' failing'') in
      if tv_level v = L2 then or_else check ''(no check failed)''
      else js_join (nl @ nl) (suite # (case check of None \<Rightarrow> [] | Some c \<Rightarrow> [''A check also failed: '' @ c])))"

text \<open>\<open>output.slice(-1_000)\<close>.\<close>

definition kept_verdict :: "train_verdict \<Rightarrow> train_verdict" where
  "kept_verdict v = v\<lparr>tv_output := map_option (\<lambda>out. drop (length out - 1000) out) (tv_output v)\<rparr>"

text \<open>\<open>/^(<{7}|>{7})( |$)/m\<close> on a file's text: a line that starts with seven of either, then a space or its end.\<close>

definition marker_line :: "string \<Rightarrow> bool" where
  "marker_line l \<longleftrightarrow> (take 7 l = replicate 7 CHR ''<'' \<or> take 7 l = replicate 7 CHR ''>'') \<and>
     (case drop 7 l of [] \<Rightarrow> True | c # _ \<Rightarrow> c = CHR '' '' \<or> c = CHR 0x0D)"

definition markers :: "string option \<Rightarrow> bool" where
  "markers file = (case file of None \<Rightarrow> False | Some s \<Rightarrow> (\<exists>l \<in> set (split_on newline s). marker_line l))"

section \<open>The train's state\<close>

datatype entry_state = Queued | ToRepair | ToResolve | Landed | Ejected

record worktree =
  wt_taskKey :: string
  wt_path :: string
  wt_branch :: string

record entry =
  en_key :: string
  en_worktree :: worktree
  en_blockedBy :: "string list"
  en_priority :: nat
  en_created :: nat
  en_state :: entry_state
  en_repairs :: nat
  en_extra :: nat
  en_verdict :: "train_verdict option"

record train_state =
  tn_entries :: "(string, entry) jmap"
  tn_journal :: "train_event list"
  tn_merged :: "merged_branch list"
  tn_conflicts :: "branch_ref list"
  tn_empty :: "branch_ref list"
  tn_withheld :: "branch_ref list"
  tn_landed :: "merged_branch list"
  tn_ejected :: "ejected_branch list"
  tn_resolved :: "branch_ref list"
  tn_stopped :: "string option"
  tn_fixes :: "string list"
  tn_batches :: int
  tn_unavailable :: "string option"

definition train_new :: "train_event list \<Rightarrow> train_state" where
  "train_new j = \<lparr>tn_entries = [], tn_journal = j, tn_merged = [], tn_conflicts = [], tn_empty = [], tn_withheld = [],
     tn_landed = [], tn_ejected = [], tn_resolved = [], tn_stopped = None, tn_fixes = [], tn_batches = 0, tn_unavailable = None\<rparr>"

text \<open>\<open>SwarmGit\<close> as the train calls it, and the rest of its dependencies.\<close>

record 'w train_git =
  tg_target :: string
  tg_list :: "('w, thrown, worktree list) act"
  tg_commitCount :: "string \<Rightarrow> string option \<Rightarrow> ('w, thrown, nat) act"
  tg_diffStat :: "string \<Rightarrow> string \<Rightarrow> ('w, thrown, diff_summary) act"
  tg_targetTip :: "('w, thrown, string) act"
  tg_revParse :: "string \<Rightarrow> ('w, thrown, string) act"
  tg_speculate :: "string \<Rightarrow> string list \<Rightarrow> ('w, thrown, string \<times> string \<times> string list) act"
  tg_advanceTarget :: "string \<Rightarrow> ('w, thrown, unit) act"
  tg_removeWorktree :: "worktree \<Rightarrow> ('w, thrown, unit) act"
  tg_mergeAll :: "('w, thrown, merge_outcome) act"
  tg_mergeInto :: "worktree \<Rightarrow> string \<Rightarrow> ('w, thrown, string list) act"
  tg_abortMerge :: "worktree \<Rightarrow> ('w, thrown, unit) act"
  tg_concludeMerge :: "worktree \<Rightarrow> string \<Rightarrow> ('w, thrown, unit) act"
  tg_contains :: "string \<Rightarrow> string \<Rightarrow> ('w, thrown, bool) act"
  tg_autoCommit :: "worktree \<Rightarrow> string \<Rightarrow> ('w, thrown, bool) act"
  tg_snapshot :: "string \<Rightarrow> ('w, thrown, snapshot) act"
  tg_readFile :: "string \<Rightarrow> ('w, thrown, string option) act"

record 'w train_deps =
  td_git :: "'w train_git"
  td_tasks :: "(string \<times> string list) list"
  td_owners :: "(string, member_spec \<times> string) jmap"
  td_members :: "member_spec list"
  td_run :: "member_spec \<Rightarrow> string \<Rightarrow> string \<Rightarrow> fix_step \<Rightarrow> ('w, thrown, run_result) act"
  td_append :: "train_event \<Rightarrow> ('w, thrown, unit) act"
  td_runEvents :: "'w \<Rightarrow> swarm_event list"
  td_verify :: "'w train_verify"
  td_scan :: "(string \<Rightarrow> run_result \<Rightarrow> string \<Rightarrow> string \<Rightarrow> int \<Rightarrow> ('w, thrown, tamper_signal list) act) option"
  td_ask :: "'w ask_question option"
  td_abort :: "'w \<Rightarrow> thrown option"
  td_now :: "'w \<Rightarrow> int"

datatype train_stop = Threw thrown | OutOfFuel

type_synonym ('w, 'a) tr = "(train_state \<times> 'w, train_stop, 'a) act"

text \<open>An await, a read and a write of a computation that threads a state of its own beside the environment.\<close>

definition env :: "('w, thrown, 'a) act \<Rightarrow> ('s \<times> 'w, train_stop, 'a) act" where
  "env m = (\<lambda>(s, w). case m w of (Inl e, w') \<Rightarrow> (Inl (Threw e), (s, w')) | (Inr x, w') \<Rightarrow> (Inr x, (s, w')))"

definition reads :: "('w \<Rightarrow> 'a) \<Rightarrow> ('w, thrown, 'a) act" where
  "reads f = (\<lambda>w. (Inr (f w), w))"

definition gets :: "('s \<Rightarrow> 'a) \<Rightarrow> ('s \<times> 'w, train_stop, 'a) act" where
  "gets f = (\<lambda>(s, w). (Inr (f s), (s, w)))"

definition modify :: "('s \<Rightarrow> 's) \<Rightarrow> ('s \<times> 'w, train_stop, unit) act" where
  "modify f = (\<lambda>(s, w). (Inr (), (f s, w)))"

definition log_event :: "train_event \<Rightarrow> train_state \<Rightarrow> train_state" where
  "log_event e s = s\<lparr>tn_journal := tn_journal s @ [e]\<rparr>"

text \<open>\<open>SwarmJournal.append\<close>: an event is in the journal once its line is written.\<close>

definition record_event :: "'w train_deps \<Rightarrow> train_event \<Rightarrow> ('w, unit) tr" where
  "record_event d e = andThen (env (td_append d e)) (\<lambda>_. modify (log_event e))"

definition live :: "'w train_deps \<Rightarrow> ('w, unit) tr" where
  "live d = env (\<lambda>w. case td_abort d w of None \<Rightarrow> (Inr (), w) | Some e \<Rightarrow> (Inl e, w))"

primrec each_do :: "('a \<Rightarrow> ('w, 'e, unit) act) \<Rightarrow> 'a list \<Rightarrow> ('w, 'e, unit) act" where
  "each_do f [] = ret ()"
| "each_do f (x # xs) = andThen (f x) (\<lambda>_. each_do f xs)"

text \<open>An entry's fields, the changes of its state, and the lists of the outcome.\<close>

definition en_branch :: "entry \<Rightarrow> string" where
  "en_branch e = wt_branch (en_worktree e)"

definition byPriority :: "train_state \<Rightarrow> entry list" where
  "byPriority s = sort_key en_priority (jm_vals (tn_entries s))"

definition update_entry :: "string \<Rightarrow> (entry \<Rightarrow> entry) \<Rightarrow> train_state \<Rightarrow> train_state" where
  "update_entry k f s =
     (case jm_get (tn_entries s) k of None \<Rightarrow> s | Some e \<Rightarrow> s\<lparr>tn_entries := jm_set k (f e) (tn_entries s)\<rparr>)"

definition set_state :: "entry_state \<Rightarrow> string \<Rightarrow> train_state \<Rightarrow> train_state" where
  "set_state st k = update_entry k (\<lambda>e. e\<lparr>en_state := st\<rparr>)"

definition state_of :: "train_state \<Rightarrow> string \<Rightarrow> entry_state option" where
  "state_of s k = map_option en_state (jm_get (tn_entries s) k)"

definition mark_ejected :: "entry \<Rightarrow> string \<Rightarrow> train_state \<Rightarrow> train_state" where
  "mark_ejected e why s =
     (let s = set_state Ejected (en_key e) s in
      s\<lparr>tn_ejected := tn_ejected s @ [\<lparr>br_taskKey = en_key e, br_branch = en_branch e, br_reason = why\<rparr>]\<rparr>)"

definition mark_landed :: "entry \<Rightarrow> entry_ref \<Rightarrow> train_state \<Rightarrow> train_state" where
  "mark_landed e r s =
     (let s = set_state Landed (en_key e) s; item = \<lparr>br_taskKey = en_key e, br_branch = er_branch r, br_commits = er_commits r\<rparr> in
      s\<lparr>tn_merged := tn_merged s @ [item], tn_landed := tn_landed s @ [item]\<rparr>)"

definition send_to_resolver :: "string \<Rightarrow> train_state \<Rightarrow> train_state" where
  "send_to_resolver k s = (set_state ToResolve k s)\<lparr>tn_fixes := tn_fixes s @ [k]\<rparr>"

definition send_to_repair :: "string \<Rightarrow> train_verdict \<Rightarrow> train_state \<Rightarrow> train_state" where
  "send_to_repair k v s =
     (update_entry k (\<lambda>e. e\<lparr>en_state := ToRepair, en_verdict := Some v\<rparr>) s)\<lparr>tn_fixes := tn_fixes s @ [k]\<rparr>"

definition train_result :: "'w train_deps \<Rightarrow> train_state \<Rightarrow> merge_outcome" where
  "train_result d s =
     \<lparr>mo_targetBranch = tg_target (td_git d), mo_merged = tn_merged s, mo_conflicts = tn_conflicts s, mo_empty = tn_empty s,
      mo_withheld = tn_withheld s, mo_landed = Some (tn_landed s), mo_ejected = Some (tn_ejected s),
      mo_repaired = Some (map (\<lambda>e. \<lparr>br_taskKey = en_key e, br_branch = en_branch e, br_repairs = en_repairs e\<rparr>)
        (filter (\<lambda>e. en_repairs e > 0) (byPriority s))),
      mo_resolved = Some (tn_resolved s), mo_stopped = tn_stopped s\<rparr>"

section \<open>What every step uses\<close>

definition asked :: "'w train_deps \<Rightarrow> question_request \<Rightarrow> string \<Rightarrow> ('w, string) tr" where
  "asked d q refused = env (catching (case td_ask d of None \<Rightarrow> ret (rq_default q) | Some ask \<Rightarrow> ask q) (\<lambda>_. ret refused))"

definition ref :: "'w train_deps \<Rightarrow> entry \<Rightarrow> ('w, entry_ref) tr" where
  "ref d e = env (andThen (tg_commitCount (td_git d) (en_branch e) (Some (tg_target (td_git d))))
     (\<lambda>n. ret \<lparr>er_key = en_key e, er_branch = en_branch e, er_commits = n\<rparr>))"

definition ownerOf :: "'w train_deps \<Rightarrow> entry \<Rightarrow> member_spec option" where
  "ownerOf d e = or_opt (map_option fst (jm_get (td_owners d) (en_key e)))
     (or_opt (find (\<lambda>m. mb_name m = en_key e) (td_members d)) (case td_members d of [] \<Rightarrow> None | m # _ \<Rightarrow> Some m))"

definition promptOf :: "'w train_deps \<Rightarrow> entry \<Rightarrow> string" where
  "promptOf d e = (let p = or_else (map_option snd (jm_get (td_owners d) (en_key e))) [] in if p = [] then [] else p @ nl @ nl)"

definition resolverPrompt :: "string \<Rightarrow> string \<Rightarrow> string list \<Rightarrow> string" where
  "resolverPrompt pre target files = pre @ ''## Integrate'' @ nl @ nl @ ''Landing this work on '' @ target @
     '' conflicts. The lead has merged '' @ target @ [CHR 0x27] @ ''s tip into this worktree, and these files hold conflicts: '' @
     js_join '', '' files @ ''. Resolve every conflict, keeping the intent of both sides, and leave no conflict markers. Do not commit, abort or redo the merge; the lead commits when you stop.''"

definition repairPrompt :: "string \<Rightarrow> string \<Rightarrow> string \<Rightarrow> string" where
  "repairPrompt pre target broke = pre @ ''## Landing'' @ nl @ nl @
     ''The landing check failed on the integrated tree ('' @ target @ [CHR 0x27] @ ''s tip with this branch merged in): '' @ broke @ nl @ nl @
     ''Fix it in this worktree, where '' @ target @ [CHR 0x27] @ ''s tip is now merged in. Change what the fix needs, then stop; the lead commits.''"

definition landing_of :: "entry \<Rightarrow> landing_outcome \<Rightarrow> landing_via \<Rightarrow> string \<Rightarrow> landing_at" where
  "landing_of e out via base = \<lparr>la_key = en_key e, la_outcome = out, la_via = via, la_unverified = False, la_branch = en_branch e,
     la_base = base, la_at = 0, la_batch = None, la_commit = None, la_reason = None, la_diff = None\<rparr>"

definition evidence :: "'w train_deps \<Rightarrow> landing_at \<Rightarrow> ('w, unit) tr" where
  "evidence d la =
     andThen (env (attempt (tg_diffStat (td_git d) (la_base la) (la_branch la)))) (\<lambda>diff.
     andThen (env (reads (td_now d))) (\<lambda>now.
     andThen (env (reads (td_runEvents d))) (\<lambda>runEvents.
     andThen (gets tn_journal) (\<lambda>trainEvents.
       record_event d (TrEvidence (buildEvidence (la\<lparr>la_at := now, la_diff := (case diff of Inl _ \<Rightarrow> None | Inr x \<Rightarrow> Some x)\<rparr>)
         runEvents trainEvents))))))"

definition unsettled :: "train_state \<Rightarrow> entry list" where
  "unsettled s = filter (\<lambda>e. en_state e \<noteq> Landed \<and> en_state e \<noteq> Ejected) (byPriority s)"

definition mark_stopped :: "string \<Rightarrow> train_state \<Rightarrow> train_state" where
  "mark_stopped why s = s\<lparr>tn_stopped := Some why,
     tn_withheld := tn_withheld s @ map (\<lambda>e. \<lparr>br_taskKey = en_key e, br_branch = en_branch e\<rparr>) (unsettled s)\<rparr>"

definition stop_train :: "'w train_deps \<Rightarrow> string \<Rightarrow> ('w, unit) tr" where
  "stop_train d why =
     andThen (modify (mark_stopped why)) (\<lambda>_.
     andThen (gets (\<lambda>s. (map br_taskKey (tn_landed s), map br_taskKey (tn_withheld s)))) (\<lambda>(landed, withheld).
     andThen (record_event d (TrStopped why landed withheld)) (\<lambda>_.
     andThen (env (tg_list (td_git d))) (\<lambda>ws.
       each_do (\<lambda>wt. env (tg_removeWorktree (td_git d) wt)) ws))))"

text \<open>One attempt of the verifier: its verdict, or why it could not run; an unconfined run throws on.\<close>

definition verify_attempt :: "'w train_deps \<Rightarrow> string \<Rightarrow> string \<Rightarrow> ('w, thrown, string + train_verdict) act" where
  "verify_attempt d cwd tip = (\<lambda>w.
     case td_verify d cwd tip w of
       (Inr v, w') \<Rightarrow> (Inr (Inr v), w')
     | (Inl (e, unconfined), w') \<Rightarrow>
         if unconfined then (Inl e, w')
         else (case td_abort d w' of Some a \<Rightarrow> (Inl a, w') | None \<Rightarrow> (Inr (Inl (message_of e)), w')))"

definition verifyOnce :: "'w train_deps \<Rightarrow> string \<Rightarrow> string \<Rightarrow> ('w, thrown, string + train_verdict) act" where
  "verifyOnce d cwd tip =
     andThen (verify_attempt d cwd tip) (\<lambda>r. case r of Inr v \<Rightarrow> ret (Inr v) | Inl _ \<Rightarrow> verify_attempt d cwd tip)"

text \<open>An ejection takes everything waiting on the entry with it; the chain is no longer than the entries (\<open>eject\<close>).\<close>

primrec eject_chain :: "nat \<Rightarrow> 'w train_deps \<Rightarrow> entry \<Rightarrow> string \<Rightarrow> ('w, unit) tr" where
  "eject_chain 0 d e why = throw OutOfFuel"
| "eject_chain (Suc n) d e why =
     andThen (gets (\<lambda>s. state_of s (en_key e))) (\<lambda>st.
       if st = Some Ejected \<or> st = Some Landed then ret ()
       else
         andThen (modify (mark_ejected e why)) (\<lambda>_.
         andThen (ref d e) (\<lambda>r.
         andThen (record_event d (TrEjected r why)) (\<lambda>_.
         andThen (env (tg_targetTip (td_git d))) (\<lambda>tip.
         andThen (evidence d ((landing_of e OutEjected ViaTrain tip)\<lparr>la_reason := Some why\<rparr>)) (\<lambda>_.
         andThen (gets (\<lambda>s. jm_vals (tn_entries s))) (\<lambda>es.
           each_do (\<lambda>x. if en_key e \<in> set (en_blockedBy x)
             then eject_chain n d x (''blocked by ejected '' @ en_key e) else ret ()) es)))))))"

definition eject :: "'w train_deps \<Rightarrow> entry \<Rightarrow> string \<Rightarrow> ('w, unit) tr" where
  "eject d e why = andThen (gets (\<lambda>s. length (unsettled s))) (\<lambda>n. eject_chain (Suc n) d e why)"

definition enqueue :: "'w train_deps \<Rightarrow> entry \<Rightarrow> fix_step option \<Rightarrow> ('w, unit) tr" where
  "enqueue d e after =
     andThen (modify (set_state Queued (en_key e))) (\<lambda>_.
     andThen (env (tg_revParse (td_git d) (en_branch e))) (\<lambda>tip.
     andThen (ref d e) (\<lambda>r.
       record_event d (TrEnqueued r tip (en_created e) (en_blockedBy e) (en_priority e) after))))"

section \<open>One batch\<close>

definition land_one :: "'w train_deps \<Rightarrow> int \<Rightarrow> string \<Rightarrow> string \<Rightarrow> entry \<times> entry_ref \<Rightarrow> ('w, unit) tr" where
  "land_one d batch tip target_commit = (\<lambda>(e, r).
     andThen (modify (mark_landed e r)) (\<lambda>_.
     andThen (record_event d (TrLanded r batch target_commit False)) (\<lambda>_.
     andThen (evidence d ((landing_of e OutLanded ViaTrain tip)\<lparr>la_batch := Some batch, la_commit := Some target_commit\<rparr>)) (\<lambda>_.
       env (tg_removeWorktree (td_git d) (en_worktree e))))))"

text \<open>A passing batch: the target moves to its commit, and each of its entries lands.\<close>

definition land_verified :: "'w train_deps \<Rightarrow> int \<Rightarrow> string \<Rightarrow> string \<Rightarrow> entry list \<Rightarrow> ('w, unit) tr" where
  "land_verified d batch tip target_commit es =
     andThen (each (ref d) es) (\<lambda>refs.
     andThen (live d) (\<lambda>_.
     andThen (env (tg_advanceTarget (td_git d) target_commit)) (\<lambda>_.
       each_do (land_one d batch tip target_commit) (zip es refs))))"

definition next_batch :: "('w, int) tr" where
  "next_batch = (\<lambda>(s, w). (Inr (tn_batches s + 1), (s\<lparr>tn_batches := tn_batches s + 1\<rparr>, w)))"

text \<open>The batch's speculative merge and its verification: what merged, on which commit, with which verdict.\<close>

definition try_batch ::
  "'w train_deps \<Rightarrow> entry list \<Rightarrow> int option \<Rightarrow> ('w, (int \<times> string \<times> string \<times> entry list) \<times> (string + train_verdict) option) tr" where
  "try_batch d batch parent =
     andThen next_batch (\<lambda>i.
     andThen (env (tg_targetTip (td_git d))) (\<lambda>tip.
     andThen (env (tg_speculate (td_git d) tip (map en_branch batch))) (\<lambda>(cwd, target_commit, conflicted).
     let merged = filter (\<lambda>e. en_branch e \<notin> set conflicted) batch; rest = filter (\<lambda>e. en_branch e \<in> set conflicted) batch in
     andThen (each (ref d) batch) (\<lambda>refs.
     andThen (record_event d (TrBatch i parent tip refs (map en_key rest))) (\<lambda>_.
     andThen (each_do (\<lambda>e. modify (send_to_resolver (en_key e))) rest) (\<lambda>_.
       if merged = [] then ret ((i, tip, target_commit, merged), None)
       else andThen (env (verifyOnce d cwd target_commit)) (\<lambda>v. ret ((i, tip, target_commit, merged), Some v))))))))"

definition half_up :: "'a list \<Rightarrow> nat" where
  "half_up xs = (length xs + 1) div 2"

text \<open>The bisection halves the batch, so its length bounds the depth (\<open>land\<close>).\<close>

primrec land_within :: "nat \<Rightarrow> 'w train_deps \<Rightarrow> entry list \<Rightarrow> int option \<Rightarrow> ('w, unit) tr" where
  "land_within 0 d batch parent = throw OutOfFuel"
| "land_within (Suc n) d batch parent =
     andThen (gets tn_unavailable) (\<lambda>un.
     if un \<noteq> None then ret ()
     else andThen (try_batch d batch parent) (\<lambda>((i, tip, target_commit, merged), tried).
       case tried of
         None \<Rightarrow> ret ()
       | Some (Inl why) \<Rightarrow>
           andThen (modify (\<lambda>s. s\<lparr>tn_unavailable := Some why\<rparr>)) (\<lambda>_.
             record_event d (TrUnverified i target_commit (map en_key merged) why))
       | Some (Inr v) \<Rightarrow>
           andThen (record_event d (TrVerified (kept_verdict v) i target_commit (map en_key merged))) (\<lambda>_.
             if tv_passed v then land_verified d i tip target_commit merged
             else if length merged = 1 then modify (send_to_repair (en_key (hd merged)) v)
             else andThen (land_within n d (take (half_up merged) merged) (Some i)) (\<lambda>_.
               land_within n d (drop (half_up merged) merged) (Some i)))))"

definition land :: "'w train_deps \<Rightarrow> entry list \<Rightarrow> ('w, unit) tr" where
  "land d batch = land_within (Suc (length batch)) d batch None"

section \<open>Agent steps\<close>

datatype agent_end = AgentDone "string option" "tamper_signal list option" | AgentBudget string

fun agent_error :: "agent_end \<Rightarrow> string option" where
  "agent_error (AgentDone e _) = e"
| "agent_error (AgentBudget m) = Some m"

definition failed_run :: "member_spec \<Rightarrow> run_result" where
  "failed_run m = \<lparr>rs_member = mb_name m, rs_runId = [], rs_text = [], rs_output = [], rs_stopReason = ''error''\<rparr>"

text \<open>The run, as its result and what it threw; a refusal by the budget is neither.\<close>

definition agent_run :: "'w train_deps \<Rightarrow> entry \<Rightarrow> member_spec \<Rightarrow> fix_step \<Rightarrow> string \<Rightarrow> ('w, string + (run_result \<times> string option)) tr" where
  "agent_run d e m st prompt =
     andThen (env (attempt (td_run d m prompt (en_key e) st))) (\<lambda>r. case r of
       Inr res \<Rightarrow> ret (Inr (res, None))
     | Inl (BudgetStopError why) \<Rightarrow> ret (Inl why)
     | Inl err \<Rightarrow> ret (Inr (failed_run m, Some (message_of err))))"

definition scanned ::
  "'w train_deps \<Rightarrow> entry \<Rightarrow> member_spec \<Rightarrow> fix_step \<Rightarrow> run_result \<Rightarrow> snapshot option \<Rightarrow> int \<Rightarrow> ('w, tamper_signal list option) tr" where
  "scanned d e m st res before startedAt =
     (case (before, td_scan d) of
        (Some b, Some scan) \<Rightarrow>
          andThen (env (tg_snapshot (td_git d) (wt_path (en_worktree e)))) (\<lambda>a.
          andThen (env (scan (en_key e) res (sn_commit b) (sn_commit a) startedAt)) (\<lambda>signals.
            if signals = [] then ret None
            else
              let incident = (\<exists>s \<in> set signals. tm_severity s = Incident) in
              andThen (ref d e) (\<lambda>r.
              andThen (record_event d (TrTamper r (mb_name m) st (if incident then Incident else Advisory) signals)) (\<lambda>_.
                ret (if incident then Some signals else None)))))
      | _ \<Rightarrow> ret None)"

definition agent :: "'w train_deps \<Rightarrow> entry \<Rightarrow> member_spec \<Rightarrow> fix_step \<Rightarrow> string \<Rightarrow> ('w, agent_end) tr" where
  "agent d e m st prompt =
     andThen (live d) (\<lambda>_.
     andThen (if td_scan d = None then ret None
              else andThen (env (tg_snapshot (td_git d) (wt_path (en_worktree e)))) (\<lambda>b. ret (Some b))) (\<lambda>before.
     andThen (env (reads (td_now d))) (\<lambda>startedAt.
     andThen (agent_run d e m st prompt) (\<lambda>run. case run of
       Inl why \<Rightarrow> ret (AgentBudget why)
     | Inr (res, err) \<Rightarrow>
         andThen (live d) (\<lambda>_.
         andThen (scanned d e m st res before startedAt) (\<lambda>incident. ret (AgentDone err incident)))))))"

definition step_noun :: "fix_step \<Rightarrow> string" where
  "step_noun st = (case st of Repair \<Rightarrow> ''repair'' | Resolve \<Rightarrow> ''resolver'')"

definition carryOn :: "'w train_deps \<Rightarrow> entry \<Rightarrow> fix_step \<Rightarrow> tamper_signal list \<Rightarrow> ('w, bool) tr" where
  "carryOn d e st signals =
     andThen (asked d \<lparr>rq_trigger = TamperTrigger,
       rq_prompt = ''landing '' @ en_key e @ '': its '' @ step_noun st @ '' reached for the hidden suite ('' @
         js_join '', '' (signal_texts signals) @ ''). Eject it (its branch '' @ en_branch e @ '' is kept), or continue?'',
       rq_options = [''eject'', ''continue''], rq_default = ''eject'', rq_kind = Some Escalation, rq_tier = Some High,
       rq_taskId = Some (en_key e)\<rparr> ''eject'') (\<lambda>answer.
     andThen (live d) (\<lambda>_. ret (answer = ''continue'')))"

section \<open>The resolver\<close>

datatype resolution = Clean | How resolve_outcome | GaveEjected

definition still_marked :: "'w train_deps \<Rightarrow> entry \<Rightarrow> string list \<Rightarrow> ('w, string list) tr" where
  "still_marked d e files =
     andThen (each (\<lambda>f. andThen (env (tg_readFile (td_git d) (wt_path (en_worktree e) @ ''/'' @ f))) (\<lambda>c. ret (f, markers c))) files)
       (\<lambda>fs. ret (map fst (filter snd fs)))"

text \<open>What the resolver left: concluded, or the merge aborted, with the step's outcome and error.\<close>

definition conclude :: "'w train_deps \<Rightarrow> entry \<Rightarrow> string \<Rightarrow> string list \<Rightarrow> string option \<Rightarrow> ('w, resolve_outcome \<times> string option) tr" where
  "conclude d e tip files err =
     (let g = td_git d in
      andThen (if err \<noteq> None then ret files else still_marked d e files) (\<lambda>left.
        if left = [] then
          andThen (env (tg_concludeMerge g (en_worktree e) (''swarm: merge '' @ tg_target g @ '' into '' @ en_branch e @ '' (resolved)''))) (\<lambda>_.
          andThen (env (tg_contains g (en_branch e) tip)) (\<lambda>ok.
            ret (if ok then (Resolved, err)
                 else (GaveUp, Some (tg_target g @ [CHR 0x27] @ ''s tip is not in the branch after the resolver'')))))
        else
          andThen (env (tg_abortMerge g (en_worktree e))) (\<lambda>_.
            ret (GaveUp, Some (or_else err (''conflict markers remain in '' @ js_join '', '' left))))))"

definition resolver_step :: "'w train_deps \<Rightarrow> entry \<Rightarrow> string list \<Rightarrow> ('w, agent_end) tr" where
  "resolver_step d e files =
     (case ownerOf d e of
        None \<Rightarrow> ret (AgentDone (Some ''no member to run the resolver'') None)
      | Some m \<Rightarrow> agent d e m Resolve (resolverPrompt (promptOf d e) (tg_target (td_git d)) files))"

definition record_resolve ::
  "'w train_deps \<Rightarrow> entry \<Rightarrow> string \<Rightarrow> string list \<Rightarrow> resolve_outcome \<Rightarrow> string option \<Rightarrow> ('w, unit) tr" where
  "record_resolve d e tip files how err =
     andThen (ref d e) (\<lambda>r. record_event d (TrResolve r (map_option mb_name (ownerOf d e)) tip files how err))"

definition resolve :: "'w train_deps \<Rightarrow> entry \<Rightarrow> ('w, resolution) tr" where
  "resolve d e =
     (let g = td_git d in
      andThen (live d) (\<lambda>_.
      andThen (env (tg_targetTip g)) (\<lambda>tip.
      andThen (env (tg_mergeInto g (en_worktree e) tip)) (\<lambda>files.
      if files = [] then ret Clean
      else andThen (resolver_step d e files) (\<lambda>st. case st of
        AgentBudget why \<Rightarrow>
          andThen (env (tg_abortMerge g (en_worktree e))) (\<lambda>_.
          andThen (record_resolve d e tip files GaveUp (Some why)) (\<lambda>_.
          andThen (eject d e why) (\<lambda>_. ret GaveEjected)))
      | AgentDone err incident \<Rightarrow>
          andThen (case incident of None \<Rightarrow> ret True | Some signals \<Rightarrow> carryOn d e Resolve signals) (\<lambda>go.
          andThen (if go then conclude d e tip files err
                   else andThen (env (tg_abortMerge g (en_worktree e))) (\<lambda>_. ret (Tampered, Some ''tamper incident''))) (\<lambda>(how, err).
          andThen (record_resolve d e tip files how err) (\<lambda>_.
            if how = Tampered then andThen (eject d e ''tamper incident in its resolver'') (\<lambda>_. ret GaveEjected)
            else ret (How how)))))))))"

definition note_resolved :: "entry \<Rightarrow> train_state \<Rightarrow> train_state" where
  "note_resolved e s =
     (if \<exists>r \<in> set (tn_resolved s). br_taskKey r = en_key e then s
      else s\<lparr>tn_resolved := tn_resolved s @ [\<lparr>br_taskKey = en_key e, br_branch = en_branch e\<rparr>]\<rparr>)"

text \<open>A person may ask for the resolver again without bound (\<open>integrate\<close>).\<close>

primrec integrate :: "nat \<Rightarrow> 'w train_deps \<Rightarrow> entry \<Rightarrow> ('w, bool) tr" where
  "integrate 0 d e = throw OutOfFuel"
| "integrate (Suc n) d e =
     andThen (resolve d e) (\<lambda>how. case how of
       GaveEjected \<Rightarrow> ret False
     | Clean \<Rightarrow> ret True
     | How out \<Rightarrow>
         if out \<noteq> GaveUp
         then andThen (if out = Resolved then modify (note_resolved e) else ret ()) (\<lambda>_. ret True)
         else
           andThen (asked d \<lparr>rq_trigger = Conflict,
             rq_prompt = ''landing '' @ en_key e @ '' conflicts with '' @ tg_target (td_git d) @
               ''; resolver gave up. Eject it (its branch '' @ en_branch e @ '' is kept), or retry the resolver?'',
             rq_options = [''eject'', ''retry''], rq_default = ''eject'', rq_kind = None, rq_tier = None,
             rq_taskId = Some (en_key e)\<rparr> ''eject'') (\<lambda>answer.
           andThen (live d) (\<lambda>_.
             if answer \<noteq> ''retry'' then
               andThen (modify (\<lambda>s. s\<lparr>tn_conflicts := tn_conflicts s @ [\<lparr>br_taskKey = en_key e, br_branch = en_branch e\<rparr>]\<rparr>)) (\<lambda>_.
               andThen (eject d e (''conflicts with '' @ tg_target (td_git d) @ ''; the resolver gave up'')) (\<lambda>_. ret False))
             else integrate n d e)))"

section \<open>A repair\<close>

definition verdict_of :: "entry \<Rightarrow> ('w, train_verdict) tr" where
  "verdict_of e = (case en_verdict e of
     Some v \<Rightarrow> ret v
   | None \<Rightarrow> throw (Threw (OtherError ''Cannot read properties of undefined'')))"

definition repair_bound :: "train_config \<Rightarrow> entry \<Rightarrow> rat" where
  "repair_bound c e = or_else (tc_maxRepairs c) 1 + of_nat (en_extra e)"

text \<open>Past its repairs a person is asked; one more is granted, or the entry ejected.\<close>

definition granted :: "train_config \<Rightarrow> 'w train_deps \<Rightarrow> entry \<Rightarrow> string \<Rightarrow> ('w, bool) tr" where
  "granted c d e broke =
     (if of_nat (en_repairs e) < repair_bound c e then ret True
      else
        andThen (asked d \<lparr>rq_trigger = VerifierFailure,
          rq_prompt = ''landing '' @ en_key e @ '' on '' @ tg_target (td_git d) @ '' still fails on the integrated tree ('' @ broke @
            '') after '' @ nat_str (en_repairs e) @ '' repair(s). Eject it (its branch '' @ en_branch e @ '' is kept), or retry one more repair?'',
          rq_options = [''eject'', ''retry''], rq_default = ''eject'', rq_kind = None, rq_tier = None,
          rq_taskId = Some (en_key e)\<rparr> ''eject'') (\<lambda>answer.
        andThen (live d) (\<lambda>_.
          if answer \<noteq> ''retry'' then
            andThen (eject d e (''fails on the integrated tree after '' @ nat_str (en_repairs e) @ '' repair(s): '' @ broke)) (\<lambda>_. ret False)
          else andThen (modify (update_entry (en_key e) (\<lambda>e. e\<lparr>en_extra := en_extra e + 1\<rparr>))) (\<lambda>_. ret True))))"

definition finish_repair :: "'w train_deps \<Rightarrow> entry \<Rightarrow> member_spec \<Rightarrow> nat \<Rightarrow> string \<Rightarrow> string option \<Rightarrow> ('w, unit) tr" where
  "finish_repair d e m n broke err =
     andThen (env (tg_autoCommit (td_git d) (en_worktree e) (''swarm: repair '' @ en_key e @ '' (train)''))) (\<lambda>committed.
     andThen (ref d e) (\<lambda>r.
     andThen (record_event d (TrRepair r (mb_name m) n broke
       (if err \<noteq> None then RepairFailed else if committed then Committed else Unchanged) err)) (\<lambda>_.
       enqueue d e (Some Repair))))"

definition repair :: "nat \<Rightarrow> train_config \<Rightarrow> 'w train_deps \<Rightarrow> entry \<Rightarrow> ('w, unit) tr" where
  "repair fuel c d e =
     andThen (verdict_of e) (\<lambda>v.
     let broke = trainVerdictText v in
     andThen (granted c d e broke) (\<lambda>go.
     if \<not> go then ret ()
     else case ownerOf d e of
       None \<Rightarrow> eject d e ''no member to repair it''
     | Some m \<Rightarrow>
         andThen (integrate fuel d e) (\<lambda>ok.
         if \<not> ok then ret ()
         else
           andThen (modify (update_entry (en_key e) (\<lambda>e. e\<lparr>en_repairs := en_repairs e + 1\<rparr>))) (\<lambda>_.
           let n = en_repairs e + 1 in
           andThen (agent d e m Repair (repairPrompt (promptOf d e) (tg_target (td_git d)) (failureText v))) (\<lambda>st. case st of
             AgentBudget why \<Rightarrow> eject d e why
           | AgentDone err incident \<Rightarrow>
               andThen (case incident of None \<Rightarrow> ret True | Some signals \<Rightarrow> carryOn d e Repair signals) (\<lambda>go.
                 if \<not> go then eject d e (''tamper incident in repair '' @ nat_str n)
                 else finish_repair d e m n broke err))))))"

definition fix_entry :: "nat \<Rightarrow> train_config \<Rightarrow> 'w train_deps \<Rightarrow> string \<Rightarrow> ('w, unit) tr" where
  "fix_entry fuel c d k =
     andThen (gets (\<lambda>s. jm_get (tn_entries s) k)) (\<lambda>found. case found of
       None \<Rightarrow> ret ()
     | Some e \<Rightarrow>
         if en_state e = ToResolve
         then andThen (integrate fuel d e) (\<lambda>ok. if ok then enqueue d e (Some Resolve) else ret ())
         else repair fuel c d e)"

section \<open>The train\<close>

definition add_entry :: "'w train_deps \<Rightarrow> nat \<times> worktree \<Rightarrow> ('w, unit) tr" where
  "add_entry d = (\<lambda>(i, wt).
     andThen (env (tg_commitCount (td_git d) (wt_branch wt) None)) (\<lambda>n.
       if n = 0 then
         andThen (modify (\<lambda>s. s\<lparr>tn_empty := tn_empty s @ [\<lparr>br_taskKey = wt_taskKey wt, br_branch = wt_branch wt\<rparr>]\<rparr>)) (\<lambda>_.
           env (tg_removeWorktree (td_git d) wt))
       else
         let place = find (\<lambda>j. fst (td_tasks d ! j) = wt_taskKey wt) [0..<length (td_tasks d)] in
         modify (\<lambda>s. s\<lparr>tn_entries := jm_set (wt_taskKey wt)
           \<lparr>en_key = wt_taskKey wt, en_worktree = wt,
            en_blockedBy = (case place of None \<Rightarrow> [] | Some j \<Rightarrow> snd (td_tasks d ! j)),
            en_priority = (case place of None \<Rightarrow> length (td_tasks d) + i | Some j \<Rightarrow> j), en_created = i,
            en_state = Queued, en_repairs = 0, en_extra = 0, en_verdict = None\<rparr> (tn_entries s)\<rparr>)))"

definition known_blockers :: "train_state \<Rightarrow> train_state" where
  "known_blockers s = s\<lparr>tn_entries := map (\<lambda>(k, e).
     (k, e\<lparr>en_blockedBy := filter (\<lambda>b. jm_has (tn_entries s) b) (en_blockedBy e)\<rparr>)) (tn_entries s)\<rparr>"

definition setup_train :: "'w train_deps \<Rightarrow> ('w, unit) tr" where
  "setup_train d =
     andThen (env (tg_list (td_git d))) (\<lambda>ws.
     andThen (each_do (add_entry d) (List.enumerate 0 ws)) (\<lambda>_. modify known_blockers))"

definition ready_entries :: "train_state \<Rightarrow> entry list" where
  "ready_entries s =
     filter (\<lambda>e. en_state e = Queued \<and> (\<forall>b \<in> set (en_blockedBy e). state_of s b = Some Landed)) (byPriority s)"

definition batch_size :: "train_config \<Rightarrow> nat" where
  "batch_size c = nat \<lfloor>or_else (tc_batchSize c) 4\<rfloor>"

definition take_fixes :: "('w, string list) tr" where
  "take_fixes = (\<lambda>(s, w). (Inr (tn_fixes s), (s\<lparr>tn_fixes := []\<rparr>, w)))"

definition eject_queued :: "'w train_deps \<Rightarrow> ('w, unit) tr" where
  "eject_queued d =
     andThen (gets byPriority) (\<lambda>es. each_do (\<lambda>e.
       andThen (gets (\<lambda>s. state_of s (en_key e))) (\<lambda>st.
         if st = Some Queued then eject d e ''blocked by an entry that did not land'' else ret ())) es)"

text \<open>Waves, until nothing is ready and nothing to fix, or the verifier cannot run.\<close>

primrec waves :: "nat \<Rightarrow> train_config \<Rightarrow> 'w train_deps \<Rightarrow> ('w, unit) tr" where
  "waves 0 c d = throw OutOfFuel"
| "waves (Suc n) c d =
     andThen (live d) (\<lambda>_.
     andThen (gets ready_entries) (\<lambda>ready.
     if ready \<noteq> [] then
       andThen (land d (take (batch_size c) ready)) (\<lambda>_.
       andThen (gets tn_unavailable) (\<lambda>un. case un of
         None \<Rightarrow> waves n c d
       | Some why \<Rightarrow> stop_train d (''verifier unavailable: '' @ why)))
     else
       andThen take_fixes (\<lambda>fixes.
         if fixes = [] then eject_queued d
         else andThen (each_do (fix_entry n c d) fixes) (\<lambda>_. waves n c d))))"

text \<open>A failing baseline, and the owner chose to merge: the sequential queue lands what it can, unverified.\<close>

definition queue_landed ::
  "'w train_deps \<Rightarrow> (string \<times> entry_ref) list \<Rightarrow> string \<Rightarrow> string \<Rightarrow> merged_branch \<Rightarrow> ('w, unit) tr" where
  "queue_landed d refs tip merged_tip m =
     andThen (gets (\<lambda>s. (jm_get (tn_entries s) (br_taskKey m), map_of refs (br_taskKey m)))) (\<lambda>found. case found of
       (Some e, Some r) \<Rightarrow>
         andThen (modify (set_state Landed (en_key e))) (\<lambda>_.
         andThen (record_event d (TrLanded r 0 merged_tip True)) (\<lambda>_.
           evidence d ((landing_of e OutLanded ViaQueue tip)\<lparr>la_unverified := True\<rparr>)))
     | _ \<Rightarrow> throw (Threw (OtherError ''Cannot set properties of undefined'')))"

definition queue_conflicted :: "'w train_deps \<Rightarrow> string \<Rightarrow> branch_ref \<Rightarrow> ('w, unit) tr" where
  "queue_conflicted d merged_tip b =
     andThen (gets (\<lambda>s. jm_get (tn_entries s) (br_taskKey b))) (\<lambda>found. case found of
       Some e \<Rightarrow> evidence d ((landing_of e OutConflicted ViaQueue merged_tip)\<lparr>la_unverified := True\<rparr>)
     | None \<Rightarrow> throw (Threw (OtherError ''Cannot read properties of undefined'')))"

definition queue_path :: "'w train_deps \<Rightarrow> string \<Rightarrow> string \<Rightarrow> ('w, merge_outcome) tr" where
  "queue_path d tip failing =
     andThen (gets byPriority) (\<lambda>es.
     andThen (each (\<lambda>e. andThen (ref d e) (\<lambda>r. ret (en_key e, r))) es) (\<lambda>refs.
     andThen (env (tg_mergeAll (td_git d))) (\<lambda>queued.
     andThen (env (tg_targetTip (td_git d))) (\<lambda>merged_tip.
     andThen (each_do (queue_landed d refs tip merged_tip) (mo_merged queued)) (\<lambda>_.
     andThen (each_do (queue_conflicted d merged_tip) (mo_conflicts queued)) (\<lambda>_.
     let why = ''baseline failing ('' @ failing @ ''): merged unverified through the sequential queue'' in
     andThen (record_event d (TrStopped why (map br_taskKey (mo_merged queued)) (map br_taskKey (mo_conflicts queued)))) (\<lambda>_.
     andThen (gets tn_empty) (\<lambda>emptied.
       ret (queued\<lparr>mo_empty := emptied, mo_stopped := Some why\<rparr>)))))))))"

definition finished :: "'w train_deps \<Rightarrow> ('w, merge_outcome) tr" where
  "finished d = gets (train_result d)"

definition baseline_question :: "'w train_deps \<Rightarrow> string \<Rightarrow> string \<Rightarrow> question_request" where
  "baseline_question d tip failing = \<lparr>rq_trigger = VerifierFailure,
     rq_prompt = tg_target (td_git d) @ '' at '' @ take 8 tip @ '' already fails the train'' @ [CHR 0x27] @
       ''s verifier before anything lands ('' @ failing @ ''), so no entry could be told from a culprit. Merge the branches unverified through the sequential queue, or stop with them kept?'',
     rq_options = [''stop'', ''merge''], rq_default = ''stop'', rq_kind = None, rq_tier = None, rq_taskId = None\<rparr>"

definition failing_baseline :: "'w train_deps \<Rightarrow> string \<Rightarrow> train_verdict \<Rightarrow> ('w, merge_outcome) tr" where
  "failing_baseline d tip v =
     (let failing = trainVerdictText v in
      andThen (asked d (baseline_question d tip failing) ''stop'') (\<lambda>answer.
      andThen (live d) (\<lambda>_.
        if answer \<noteq> ''merge'' then andThen (stop_train d (''baseline failing: '' @ failing)) (\<lambda>_. finished d)
        else queue_path d tip failing)))"

definition train_body :: "nat \<Rightarrow> train_config \<Rightarrow> 'w train_deps \<Rightarrow> ('w, merge_outcome) tr" where
  "train_body fuel c d =
     andThen (setup_train d) (\<lambda>_.
     andThen (gets tn_entries) (\<lambda>es.
     if es = [] then finished d
     else
       andThen (env (tg_targetTip (td_git d))) (\<lambda>tip.
       andThen (gets byPriority) (\<lambda>order.
       andThen (each_do (\<lambda>e. enqueue d e None) order) (\<lambda>_.
       andThen (live d) (\<lambda>_.
       andThen (env (tg_speculate (td_git d) tip [])) (\<lambda>(cwd, _, _).
       andThen (env (verifyOnce d cwd tip)) (\<lambda>baseline. case baseline of
         Inl why \<Rightarrow>
           andThen (record_event d (TrUnverified 0 tip [] why)) (\<lambda>_.
           andThen (stop_train d (''verifier unavailable: '' @ why)) (\<lambda>_. finished d))
       | Inr v \<Rightarrow>
           andThen (record_event d (TrBaseline (kept_verdict v) tip)) (\<lambda>_.
             if tv_passed v then andThen (waves fuel c d) (\<lambda>_. finished d)
             else failing_baseline d tip v)))))))))"

datatype train_end = Returned merge_outcome | TrainStopped string merge_outcome | Unfinished

definition landTrain ::
  "nat \<Rightarrow> train_config \<Rightarrow> 'w train_deps \<Rightarrow> train_event list \<Rightarrow> 'w \<Rightarrow> train_end \<times> train_state \<times> 'w" where
  "landTrain fuel c d j w =
     (case train_body fuel c d (train_new j, w) of
        (Inr out, sw) \<Rightarrow> (Returned out, sw)
      | (Inl OutOfFuel, sw) \<Rightarrow> (Unfinished, sw)
      | (Inl (Threw e), (s, w)) \<Rightarrow>
          let (s', w') = (if tn_stopped s = None
                then snd (stop_train d (if td_abort d w \<noteq> None then ''aborted'' else message_of e) (s, w)) else (s, w)) in
          (TrainStopped (message_of e) (train_result d s'), s', w'))"

section \<open>The train's recap\<close>

definition fix_str :: "fix_step \<Rightarrow> string" where
  "fix_str st = (case st of Repair \<Rightarrow> ''repair'' | Resolve \<Rightarrow> ''resolve'')"

definition err_text :: "string option \<Rightarrow> string" where
  "err_text err = (case err of None \<Rightarrow> [] | Some m \<Rightarrow> '' ('' @ headline 80 m @ '')'')"

definition enqueued_notes :: "string list \<Rightarrow> fix_step option \<Rightarrow> string list" where
  "enqueued_notes blockedBy after =
     (if blockedBy = [] then [] else [''after '' @ js_join '', '' blockedBy]) @
     (case after of None \<Rightarrow> [] | Some st \<Rightarrow> [''again, after its '' @ fix_str st])"

definition train_text :: "train_event \<Rightarrow> string option" where
  "train_text e =
     (case e of
        TrEnqueued r _ _ blockedBy _ after \<Rightarrow>
          Some (er_key r @ '' enqueued ('' @ nat_str (er_commits r) @ '' commit(s)'' @
            (if enqueued_notes blockedBy after = [] then [] else ''; '' @ js_join ''; '' (enqueued_notes blockedBy after)) @ '')'')
      | TrBaseline v tip \<Rightarrow> Some (''baseline '' @ take 8 tip @ '' '' @ trainVerdictText v)
      | TrBatch i parent tip refs conflicted \<Rightarrow>
          Some (''batch '' @ int_str i @ (case parent of None \<Rightarrow> [] | Some p \<Rightarrow> '' (bisecting '' @ int_str p @ '')'') @ '' on '' @ take 8 tip @
            '': '' @ js_join '', '' (map er_key refs) @ (if conflicted = [] then [] else ''; '' @ js_join '', '' conflicted @ '' conflicted''))
      | TrVerified v i _ _ \<Rightarrow> Some (''batch '' @ int_str i @ '' '' @ trainVerdictText v)
      | TrUnverified i _ _ err \<Rightarrow> Some ((if i = 0 then ''baseline'' else ''batch '' @ int_str i) @ '' unverified: '' @ headline 80 err)
      | TrLanded r i tip un \<Rightarrow>
          Some (er_key r @ '' landed ('' @ (if un then ''merged unverified by the queue'' else ''batch '' @ int_str i) @ '', '' @ take 8 tip @ '')'')
      | TrEjected r why \<Rightarrow> Some (er_key r @ '' ejected, branch '' @ er_branch r @ '' kept: '' @ why)
      | TrRepair r m n _ how err \<Rightarrow> Some (er_key r @ '' repair '' @ nat_str n @ '' by '' @ m @ '': '' @ repair_str how @ err_text err)
      | TrResolve r m _ files how err \<Rightarrow>
          Some (er_key r @ '' resolver'' @ (case m of None \<Rightarrow> [] | Some m \<Rightarrow> '' ('' @ m @ '')'') @ '' on '' @ nat_str (length files) @
            '' file(s): '' @ resolve_str how @ err_text err)
      | TrTamper r m st sev sigs \<Rightarrow>
          Some (er_key r @ '' tamper '' @ severity_str sev @ '' in its '' @ fix_str st @ '' ('' @ m @ ''): '' @ js_join '', '' (signal_texts sigs))
      | TrStopped why landed withheld \<Rightarrow>
          Some (''stopped: '' @ headline 80 why @ '' ('' @ nat_str (length landed) @ '' landed, '' @ nat_str (length withheld) @ '' withheld)'')
      | _ \<Rightarrow> None)"

text \<open>The resolver step of a run that lands through a remote train is journaled without the files it was on
  (\<open>train-client.ts\<close>), which the line counts.\<close>

definition train_line :: "train_event \<Rightarrow> thrown + string option" where
  "train_line e =
     (case e of
        TrRemoteResolve _ _ _ _ _ _ \<Rightarrow> Inl (OtherError (''Cannot read properties of undefined (reading '' @ [CHR 0x27] @ ''length'' @ [CHR 0x27] @ '')''))
      | _ \<Rightarrow> Inr (train_text e))"

primrec recapTrain :: "int \<Rightarrow> train_event jevent list \<Rightarrow> thrown + string list" where
  "recapTrain since [] = Inr []"
| "recapTrain since (e # es) =
     (if int (je_seq e) \<le> since then recapTrain since es
      else case train_line (je_data e) of
        Inl x \<Rightarrow> Inl x
      | Inr line \<Rightarrow> map_sum id (\<lambda>lines. (case line of None \<Rightarrow> [] | Some l \<Rightarrow> [''#t'' @ nat_str (je_seq e) @ '' train: '' @ l]) @ lines)
          (recapTrain since es))"

end
