(* ===== verification/TrainLogic.thy ===== *)
theory TrainLogic
  imports Train
begin

text \<open>
  How the train's computations are reasoned about: weakest preconditions over its state (the environment is
  arbitrary, so they quantify over it), and the steps that keep a reflexive and transitive relation between
  the states before and after, whatever is thrown. Calm steps, the first such relation, change neither an
  entry nor what landed, was ejected or was withheld, and journal no landing.
\<close>

named_theorems wp_intros "introduction rules for the weakest precondition of a computation of the train"
named_theorems keeps_intros "computations that keep a relation between the train's states"

section \<open>Weakest preconditions\<close>

definition wp ::
  "('s \<times> 'w, 'e, 'a) act \<Rightarrow> ('a \<Rightarrow> 's \<Rightarrow> bool) \<Rightarrow> ('e \<Rightarrow> 's \<Rightarrow> bool) \<Rightarrow> 's \<Rightarrow> bool" where
  "wp m Q E s \<longleftrightarrow> (\<forall>w. case m (s, w) of (Inl e, (s', _)) \<Rightarrow> E e s' | (Inr x, (s', _)) \<Rightarrow> Q x s')"

lemma wpD_Inr: "wp m Q E s \<Longrightarrow> m (s, w) = (Inr x, (s', w')) \<Longrightarrow> Q x s'"
  by (auto simp: wp_def dest: spec[of _ w])

lemma wpD_Inl: "wp m Q E s \<Longrightarrow> m (s, w) = (Inl e, (s', w')) \<Longrightarrow> E e s'"
  by (auto simp: wp_def dest: spec[of _ w])

lemma wpI:
  assumes "\<And>w x s' w'. m (s, w) = (Inr x, (s', w')) \<Longrightarrow> Q x s'"
    and "\<And>w e s' w'. m (s, w) = (Inl e, (s', w')) \<Longrightarrow> E e s'"
  shows "wp m Q E s"
  using assms by (fastforce simp: wp_def split: prod.splits sum.splits)

lemma wp_weaken:
  assumes "wp m Q E s" and "\<And>x s'. Q x s' \<Longrightarrow> Q' x s'" and "\<And>e s'. E e s' \<Longrightarrow> E' e s'"
  shows "wp m Q' E' s"
  using assms by (intro wpI) (blast dest: wpD_Inr wpD_Inl)+

lemma wp_ret [wp_intros]: "Q x s \<Longrightarrow> wp (ret x) Q E s"
  by (simp add: wp_def ret_def)

lemma wp_throw [wp_intros]: "E e s \<Longrightarrow> wp (throw e) Q E s"
  by (simp add: wp_def throw_def)

lemma wp_andThen [wp_intros]: "wp m (\<lambda>x. wp (f x) Q E) E s \<Longrightarrow> wp (andThen m f) Q E s"
  by (rule wpI) (auto elim!: andThen_cases dest: wpD_Inr wpD_Inl)

lemma wp_env: "(\<And>x. Q x s) \<Longrightarrow> (\<And>e. E (Threw e) s) \<Longrightarrow> wp (env m) Q E s"
  by (rule wpI) (auto simp: env_def split: prod.splits sum.splits)

lemma wp_gets [wp_intros]: "Q (f s) s \<Longrightarrow> wp (gets f) Q E s"
  by (simp add: wp_def gets_def)

lemma wp_modify [wp_intros]: "Q () (f s) \<Longrightarrow> wp (modify f) Q E s"
  by (simp add: wp_def modify_def)

lemma wp_next_batch: "Q (tn_batches s + 1) (s\<lparr>tn_batches := tn_batches s + 1\<rparr>) \<Longrightarrow> wp next_batch Q E s"
  by (simp add: wp_def next_batch_def)

lemma wp_take_fixes: "Q (tn_fixes s) (s\<lparr>tn_fixes := []\<rparr>) \<Longrightarrow> wp take_fixes Q E s"
  by (simp add: wp_def take_fixes_def)

lemma wp_each_do:
  assumes "I xs s"
    and "\<And>y ys s. I (y # ys) s \<Longrightarrow> wp (f y) (\<lambda>_. I ys) E s"
  shows "wp (each_do f xs) (\<lambda>_. I []) E s"
  using assms(1)
  by (induction xs arbitrary: s) (auto intro!: wp_ret wp_andThen wp_weaken[OF assms(2)])

text \<open>What the environment answered, and computations of which only the answers matter, not what they throw.\<close>

lemma wp_env_run:
  assumes "\<And>w x w'. m w = (Inr x, w') \<Longrightarrow> Q x s" and "\<And>e. E (Threw e) s"
  shows "wp (env m) Q E s"
  by (rule wpI) (auto simp: env_def assms split: prod.splits sum.splits)

definition sometimes :: "'e \<Rightarrow> 's \<Rightarrow> bool" where
  "sometimes _ _ = True"

lemma wp_done: "(\<And>x. Q x s) \<Longrightarrow> wp (env m) Q sometimes s"
  by (rule wp_env) (simp_all add: sometimes_def)

lemma wp_fail: "wp (throw e) Q sometimes s"
  by (rule wp_throw) (simp add: sometimes_def)

section \<open>Steps that keep a relation\<close>

definition keeps :: "('s \<Rightarrow> 's \<Rightarrow> bool) \<Rightarrow> ('s \<times> 'w, 'e, 'a) act \<Rightarrow> bool" where
  "keeps R m \<longleftrightarrow> (\<forall>s w r s' w'. m (s, w) = (r, (s', w')) \<longrightarrow> R s s')"

lemma keepsD: "keeps R m \<Longrightarrow> m (s, w) = (r, (s', w')) \<Longrightarrow> R s s'"
  unfolding keeps_def by blast

lemma keepsI: "(\<And>s w r s' w'. m (s, w) = (r, (s', w')) \<Longrightarrow> R s s') \<Longrightarrow> keeps R m"
  by (simp add: keeps_def)

lemma wp_keeps: "keeps R m \<Longrightarrow> wp m (\<lambda>_ s'. R s s') (\<lambda>_ s'. R s s') s"
  by (rule wpI) (auto dest: keepsD)

lemma keeps_modify: "(\<And>s. R s (f s)) \<Longrightarrow> keeps R (modify f)"
  by (rule keepsI) (simp add: modify_def)

lemma keeps_weaken: "keeps R m \<Longrightarrow> (\<And>s s'. R s s' \<Longrightarrow> R' s s') \<Longrightarrow> keeps R' m"
  unfolding keeps_def by blast

lemma keeps_when [keeps_intros]: "(b \<Longrightarrow> keeps R x) \<Longrightarrow> (\<not> b \<Longrightarrow> keeps R y) \<Longrightarrow> keeps R (if b then x else y)"
  by simp

locale state_relation =
  fixes R :: "'s \<Rightarrow> 's \<Rightarrow> bool"
  assumes R_refl: "R s s"
    and R_trans: "R s s' \<Longrightarrow> R s' s'' \<Longrightarrow> R s s''"
begin

lemma keeps_ret [keeps_intros]: "keeps R (ret x)"
  by (rule keepsI) (simp add: ret_def R_refl)

lemma keeps_throw [keeps_intros]: "keeps R (throw e)"
  by (rule keepsI) (simp add: throw_def R_refl)

lemma keeps_andThen [keeps_intros]:
  assumes "keeps R m" and "\<And>x. keeps R (f x)"
  shows "keeps R (andThen m f)"
proof (rule keepsI)
  fix s w r s' w' assume "andThen m f (s, w) = (r, (s', w'))"
  then show "R s s'"
  proof (cases rule: andThen_cases)
    case (1 e)
    then show ?thesis using assms(1) by (rule_tac keepsD)
  next
    case (2 x sw)
    then show ?thesis
      by (cases sw) (blast intro: R_trans keepsD[OF assms(1)] keepsD[OF assms(2)])
  qed
qed

lemma keeps_each_do [keeps_intros]: "(\<And>x. x \<in> set xs \<Longrightarrow> keeps R (f x)) \<Longrightarrow> keeps R (each_do f xs)"
  by (induction xs) (auto intro: keeps_ret keeps_andThen)

lemma keeps_each [keeps_intros]: "(\<And>x. x \<in> set xs \<Longrightarrow> keeps R (f x)) \<Longrightarrow> keeps R (each f xs)"
  by (induction xs) (auto intro!: keeps_ret keeps_andThen)

lemma keeps_attempt [keeps_intros]: "keeps R m \<Longrightarrow> keeps R (attempt m)"
  unfolding keeps_def attempt_apply by (fastforce split: prod.splits)

end

locale train_relation = state_relation R for R :: "'s \<Rightarrow> 's \<Rightarrow> bool"
begin

lemma keeps_env [keeps_intros]: "keeps R (env m)"
  by (rule keepsI) (auto simp: env_def R_refl split: prod.splits sum.splits)

lemma keeps_gets [keeps_intros]: "keeps R (gets f)"
  by (rule keepsI) (simp add: gets_def R_refl)

end

section \<open>Calm steps\<close>

fun lands :: "train_event \<Rightarrow> bool" where
  "lands (TrLanded _ _ _ _) = True"
| "lands _ = False"

definition calm :: "train_state \<Rightarrow> train_state \<Rightarrow> bool" where
  "calm s s' \<longleftrightarrow> tn_entries s' = tn_entries s \<and> tn_landed s' = tn_landed s \<and> tn_ejected s' = tn_ejected s \<and>
     tn_withheld s' = tn_withheld s \<and> tn_stopped s' = tn_stopped s \<and> tn_fixes s' = tn_fixes s \<and>
     (\<exists>es. tn_journal s' = tn_journal s @ es \<and> (\<forall>e \<in> set es. \<not> lands e))"

interpretation calmly: train_relation calm
proof
  show "calm s s" for s
    by (simp add: calm_def)
  show "calm s s''" if "calm s s'" and "calm s' s''" for s s' s''
    using that unfolding calm_def by (auto simp: ball_Un)
qed

lemma calm_modify: "(\<And>s. calm s (f s)) \<Longrightarrow> keeps calm (modify f)"
  by (rule keeps_modify)

lemma calm_log: "\<not> lands e \<Longrightarrow> calm s (log_event e s)"
  by (simp add: calm_def log_event_def)

lemma calm_record [keeps_intros]: "\<not> lands e \<Longrightarrow> keeps calm (record_event d e)"
  unfolding record_event_def
  by (intro calmly.keeps_andThen calmly.keeps_env keeps_modify calm_log)

lemmas calm_basics =
  calmly.keeps_ret calmly.keeps_throw calmly.keeps_env calmly.keeps_gets calmly.keeps_andThen calmly.keeps_each_do
  calmly.keeps_each calm_record

lemma calm_if: "(b \<Longrightarrow> keeps calm x) \<Longrightarrow> (\<not> b \<Longrightarrow> keeps calm y) \<Longrightarrow> keeps calm (if b then x else y)"
  by simp

lemma calm_ref: "keeps calm (ref d e)"
  by (simp add: ref_def calm_basics)

lemma calm_live: "keeps calm (live d)"
  by (simp add: live_def calm_basics)

lemma calm_asked: "keeps calm (asked d q r)"
  by (simp add: asked_def calm_basics)

lemma calm_evidence: "keeps calm (evidence d la)"
  unfolding evidence_def by (intro calm_basics) simp

lemma calm_verify: "keeps calm (env (verifyOnce d cwd tip))"
  by (rule calmly.keeps_env)

lemma calm_next_batch: "keeps calm next_batch"
  by (rule keepsI) (auto simp: next_batch_def calm_def)

lemmas calm_parts = calm_ref calm_live calm_asked calm_evidence calm_next_batch

lemma calm_agent_run: "keeps calm (agent_run d e m st p)"
  unfolding agent_run_def by (auto intro!: calm_basics split: sum.split thrown.split)

lemma calm_scanned: "keeps calm (scanned d e m st res before t)"
  unfolding scanned_def Let_def
  by (cases before; cases "td_scan d") (auto intro!: calm_basics calm_parts calm_if)

lemma calm_agent: "keeps calm (agent d e m st p)"
  unfolding agent_def
  by (auto intro!: calm_basics calm_parts calm_agent_run calm_scanned calm_if split: sum.split)

lemma calm_carryOn: "keeps calm (carryOn d e st sigs)"
  unfolding carryOn_def by (intro calm_basics calm_parts)

lemma calm_resolver_step: "keeps calm (resolver_step d e files)"
  unfolding resolver_step_def by (auto intro!: calm_basics calm_agent split: option.split)

lemma calm_conclude: "keeps calm (conclude d e tip files err)"
  unfolding conclude_def Let_def still_marked_def by (auto intro!: calm_basics calm_if)

lemma calm_record_resolve: "keeps calm (record_resolve d e tip files how err)"
  unfolding record_resolve_def by (auto intro!: calm_basics calm_parts)

lemma calm_note_resolved: "calm s (note_resolved e s)"
  by (simp add: note_resolved_def calm_def)

lemmas calm_steps = calm_agent calm_carryOn calm_resolver_step calm_conclude calm_record_resolve

end
