(* ===== verification/TrainSafety.thy ===== *)
theory TrainSafety
  imports TrainLogic
begin

text \<open>
  The landing train's invariant. What holds of its state whatever is thrown (\<open>books_kept\<close>): its entries, the
  account of what landed and was ejected, its journal's landings backed by passing verifications, repairs
  within their bound. What holds besides between its steps (\<open>running\<close>): who waits for an agent step, and
  that those entries' blockers have landed.
\<close>

section \<open>The journal's landings\<close>

fun verifies :: "int \<Rightarrow> string \<Rightarrow> string \<Rightarrow> train_event \<Rightarrow> bool" where
  "verifies i tip k (TrVerified v j t ks) \<longleftrightarrow> j = i \<and> t = tip \<and> tv_passed v \<and> k \<in> set ks"
| "verifies i tip k _ \<longleftrightarrow> False"

fun lands_key :: "string \<Rightarrow> train_event \<Rightarrow> bool" where
  "lands_key k (TrLanded r _ _ _) \<longleftrightarrow> er_key r = k"
| "lands_key k _ \<longleftrightarrow> False"

text \<open>A landing is backed by a passing verification of its batch's commit and the landings of its blockers, or marked unverified.\<close>

fun landing_backed :: "(string \<Rightarrow> string list) \<Rightarrow> train_event list \<Rightarrow> train_event \<Rightarrow> bool" where
  "landing_backed B past (TrLanded r i tip un) \<longleftrightarrow>
     un \<or> list_ex (verifies i tip (er_key r)) past \<and> (\<forall>b \<in> set (B (er_key r)). list_ex (lands_key b) past)"
| "landing_backed B past _ \<longleftrightarrow> True"

fun backed :: "(string \<Rightarrow> string list) \<Rightarrow> train_event list \<Rightarrow> train_event list \<Rightarrow> bool" where
  "backed B past [] \<longleftrightarrow> True"
| "backed B past (e # es) \<longleftrightarrow> landing_backed B past e \<and> backed B (past @ [e]) es"

lemma backed_append [simp]: "backed B past (xs @ ys) \<longleftrightarrow> backed B past xs \<and> backed B (past @ xs) ys"
  by (induction xs arbitrary: past) auto

lemma not_lands_backed: "\<not> lands e \<Longrightarrow> landing_backed B past e"
  by (cases e) auto

lemma calm_backed: "\<forall>e \<in> set es. \<not> lands e \<Longrightarrow> backed B past es"
  by (induction es arbitrary: past) (auto intro: not_lands_backed)

lemma backed_split: "backed B [] (pre @ e # post) \<Longrightarrow> landing_backed B pre e"
  by simp

section \<open>The state's invariants\<close>

definition blockers :: "train_state \<Rightarrow> string \<Rightarrow> string list" where
  "blockers s k = (case jm_get (tn_entries s) k of None \<Rightarrow> [] | Some e \<Rightarrow> en_blockedBy e)"

definition cleared :: "train_state \<Rightarrow> string \<Rightarrow> bool" where
  "cleared s k \<longleftrightarrow> (\<forall>b \<in> set (blockers s k). state_of s b = Some Landed)"

definition active :: "train_state \<Rightarrow> string \<Rightarrow> bool" where
  "active s k \<longleftrightarrow> state_of s k = Some ToRepair \<or> state_of s k = Some ToResolve"

definition stored :: "train_state \<Rightarrow> bool" where
  "stored s \<longleftrightarrow> jm_wf (tn_entries s) \<and> jm_keyed en_key (tn_entries s)"

definition accounted :: "train_state \<Rightarrow> bool" where
  "accounted s \<longleftrightarrow>
     distinct (map br_taskKey (tn_landed s)) \<and> (\<forall>k. k \<in> br_taskKey ` set (tn_landed s) \<longleftrightarrow> state_of s k = Some Landed) \<and>
     distinct (map br_taskKey (tn_ejected s)) \<and> (\<forall>k. k \<in> br_taskKey ` set (tn_ejected s) \<longleftrightarrow> state_of s k = Some Ejected) \<and>
     map br_taskKey (tn_withheld s) = (if tn_stopped s = None then [] else map en_key (unsettled s))"

definition bounded_repairs :: "train_config \<Rightarrow> train_state \<Rightarrow> bool" where
  "bounded_repairs c s \<longleftrightarrow> (\<forall>k e. jm_get (tn_entries s) k = Some e \<longrightarrow> of_nat (en_repairs e) \<le> repair_bound c e)"

definition journal_backed :: "train_event list \<Rightarrow> train_state \<Rightarrow> bool" where
  "journal_backed j s \<longleftrightarrow> (\<exists>es. tn_journal s = j @ es \<and> backed (blockers s) [] es)"

definition books_kept :: "train_config \<Rightarrow> train_event list \<Rightarrow> train_state \<Rightarrow> bool" where
  "books_kept c j s \<longleftrightarrow> stored s \<and> accounted s \<and> bounded_repairs c s \<and> journal_backed j s \<and>
     (\<forall>k. state_of s k = Some Landed \<longrightarrow> cleared s k)"

text \<open>\<open>X\<close> are the fixes of the wave still to be taken.\<close>

definition running :: "train_config \<Rightarrow> train_event list \<Rightarrow> string set \<Rightarrow> train_state \<Rightarrow> bool" where
  "running c j X s \<longleftrightarrow> books_kept c j s \<and> tn_stopped s = None \<and> (\<forall>k. active s k \<longrightarrow> cleared s k) \<and>
     (\<forall>k. active s k \<longleftrightarrow> k \<in> set (tn_fixes s) \<or> k \<in> X) \<and> distinct (tn_fixes s) \<and> X \<inter> set (tn_fixes s) = {} \<and>
     (\<forall>k. state_of s k = Some Landed \<longrightarrow> list_ex (lands_key k) (drop (length j) (tn_journal s)))"

lemma running_books: "running c j X s \<Longrightarrow> books_kept c j s"
  by (simp add: running_def)

section \<open>Reading an updated state\<close>

named_theorems train_simps "what an update of the train's state leaves of each field"

lemma get_update [train_simps]:
  "jm_get (tn_entries (update_entry k f s)) k' =
     (if k' = k then map_option f (jm_get (tn_entries s) k) else jm_get (tn_entries s) k')"
  by (auto simp: update_entry_def split: option.split)

lemma update_fields [train_simps]:
  "tn_journal (update_entry k f s) = tn_journal s" "tn_landed (update_entry k f s) = tn_landed s"
  "tn_ejected (update_entry k f s) = tn_ejected s" "tn_withheld (update_entry k f s) = tn_withheld s"
  "tn_stopped (update_entry k f s) = tn_stopped s" "tn_fixes (update_entry k f s) = tn_fixes s"
  "tn_unavailable (update_entry k f s) = tn_unavailable s" "tn_batches (update_entry k f s) = tn_batches s"
  by (simp_all add: update_entry_def split: option.split)

lemma state_of_update: "state_of (update_entry k f s) k' =
     (if k' = k then map_option (en_state \<circ> f) (jm_get (tn_entries s) k) else state_of s k')"
  by (simp add: state_of_def get_update option.map_comp)

lemma state_of_set [train_simps]:
  "state_of (set_state st k s) k' = (if k' = k \<and> state_of s k \<noteq> None then Some st else state_of s k')"
  unfolding set_state_def state_of_update by (cases "jm_get (tn_entries s) k") (auto simp: state_of_def)

lemma set_state_fields [train_simps]:
  "tn_journal (set_state st k s) = tn_journal s" "tn_landed (set_state st k s) = tn_landed s"
  "tn_ejected (set_state st k s) = tn_ejected s" "tn_withheld (set_state st k s) = tn_withheld s"
  "tn_stopped (set_state st k s) = tn_stopped s" "tn_fixes (set_state st k s) = tn_fixes s"
  "tn_unavailable (set_state st k s) = tn_unavailable s" "tn_batches (set_state st k s) = tn_batches s"
  by (simp_all add: set_state_def train_simps)

lemma stored_update: "(\<And>e. en_key (f e) = en_key e) \<Longrightarrow> stored s \<Longrightarrow> stored (update_entry k f s)"
  by (auto simp: stored_def update_entry_def intro!: jm_keyed_set dest: jm_keyed_get split: option.split)

lemma blockers_update: "(\<And>e. en_blockedBy (f e) = en_blockedBy e) \<Longrightarrow> blockers (update_entry k f s) = blockers s"
  by (auto simp: blockers_def get_update fun_eq_iff split: option.split)

lemma blockers_set [train_simps]: "blockers (set_state st k s) = blockers s"
  by (simp add: set_state_def blockers_update)

lemma bounded_update:
  assumes "\<And>e. jm_get (tn_entries s) k = Some e \<Longrightarrow> of_nat (en_repairs e) \<le> repair_bound c e \<Longrightarrow>
      of_nat (en_repairs (f e)) \<le> repair_bound c (f e)"
    and "bounded_repairs c s"
  shows "bounded_repairs c (update_entry k f s)"
  using assms by (auto simp: bounded_repairs_def get_update)

lemma log_event_fields [train_simps]:
  "tn_entries (log_event e s) = tn_entries s" "tn_landed (log_event e s) = tn_landed s" "tn_ejected (log_event e s) = tn_ejected s"
  "tn_withheld (log_event e s) = tn_withheld s" "tn_stopped (log_event e s) = tn_stopped s"
  "tn_fixes (log_event e s) = tn_fixes s" "tn_unavailable (log_event e s) = tn_unavailable s"
  "tn_journal (log_event e s) = tn_journal s @ [e]" "tn_batches (log_event e s) = tn_batches s"
  by (simp_all add: log_event_def)

lemma entries_same:
  assumes "tn_entries s' = tn_entries s"
  shows "state_of s' = state_of s" and "blockers s' = blockers s" and "byPriority s' = byPriority s"
    and "unsettled s' = unsettled s" and "cleared s' = cleared s" and "active s' = active s" and "stored s' = stored s"
    and "bounded_repairs c s' = bounded_repairs c s"
  using assms
  by (simp_all add: fun_eq_iff state_of_def blockers_def byPriority_def unsettled_def cleared_def active_def stored_def bounded_repairs_def)

section \<open>Calm steps keep the invariants\<close>

lemma calm_same:
  assumes "calm s s'"
  shows "state_of s' = state_of s" and "blockers s' = blockers s" and "byPriority s' = byPriority s"
    and "unsettled s' = unsettled s" and "cleared s' = cleared s" and "active s' = active s" and "stored s' = stored s"
    and "bounded_repairs c s' = bounded_repairs c s" and "tn_landed s' = tn_landed s" and "tn_ejected s' = tn_ejected s"
    and "tn_withheld s' = tn_withheld s" and "tn_stopped s' = tn_stopped s" and "tn_fixes s' = tn_fixes s"
    and "tn_entries s' = tn_entries s"
  using assms entries_same[of s' s] by (simp_all add: calm_def)

lemma calm_journal:
  assumes "calm s s'"
  obtains es where "tn_journal s' = tn_journal s @ es" and "\<forall>e \<in> set es. \<not> lands e"
  using assms by (auto simp: calm_def)

lemma calm_journal_backed:
  assumes "calm s s'" and "journal_backed j s"
  shows "journal_backed j s'"
proof -
  obtain es where "tn_journal s' = tn_journal s @ es" and "\<forall>e \<in> set es. \<not> lands e" using assms(1) by (rule calm_journal)
  with assms show ?thesis by (auto simp: journal_backed_def calm_same(2) calm_backed)
qed

lemma calm_books: "calm s s' \<Longrightarrow> books_kept c j s \<Longrightarrow> books_kept c j s'"
  by (simp add: books_kept_def accounted_def calm_same calm_journal_backed)

lemma calm_running:
  assumes "calm s s'" and "running c j X s"
  shows "running c j X s'"
proof -
  obtain es where "tn_journal s' = tn_journal s @ es" using assms(1) by (rule calm_journal)
  with assms show ?thesis by (auto simp: running_def calm_same calm_books)
qed

section \<open>The changes of an entry's state\<close>

lemma unsettled_irrelevant: "tn_stopped s = None \<Longrightarrow> accounted s \<longleftrightarrow>
     distinct (map br_taskKey (tn_landed s)) \<and> (\<forall>k. k \<in> br_taskKey ` set (tn_landed s) \<longleftrightarrow> state_of s k = Some Landed) \<and>
     distinct (map br_taskKey (tn_ejected s)) \<and> (\<forall>k. k \<in> br_taskKey ` set (tn_ejected s) \<longleftrightarrow> state_of s k = Some Ejected) \<and>
     tn_withheld s = []"
  by (simp add: accounted_def)

lemma bounded_set: "bounded_repairs c s \<Longrightarrow> bounded_repairs c (set_state st k s)"
  unfolding set_state_def by (rule bounded_update) (auto simp: repair_bound_def)

lemma stored_set: "stored s \<Longrightarrow> stored (set_state st k s)"
  unfolding set_state_def by (rule stored_update) simp_all

text \<open>A change to a state that is neither landed nor ejected leaves the books as they are.\<close>

lemma books_unsettling:
  assumes "books_kept c j s" and "tn_stopped s = None"
    and "st \<noteq> Landed" and "st \<noteq> Ejected" and "state_of s k \<noteq> Some Landed" and "state_of s k \<noteq> Some Ejected"
  shows "books_kept c j (set_state st k s)"
  using assms
  by (auto simp: books_kept_def unsettled_irrelevant train_simps stored_set bounded_set journal_backed_def cleared_def)

lemma fixes_same [train_simps]:
  "state_of (s\<lparr>tn_fixes := fs\<rparr>) = state_of s" "blockers (s\<lparr>tn_fixes := fs\<rparr>) = blockers s"
  "unsettled (s\<lparr>tn_fixes := fs\<rparr>) = unsettled s" "cleared (s\<lparr>tn_fixes := fs\<rparr>) = cleared s"
  "active (s\<lparr>tn_fixes := fs\<rparr>) = active s" "stored (s\<lparr>tn_fixes := fs\<rparr>) = stored s"
  "bounded_repairs c (s\<lparr>tn_fixes := fs\<rparr>) = bounded_repairs c s"
  by (rule entries_same; simp)+

lemma books_fixes [train_simps]: "books_kept c j (s\<lparr>tn_fixes := fs\<rparr>) \<longleftrightarrow> books_kept c j s"
  by (simp add: books_kept_def accounted_def journal_backed_def train_simps)

text \<open>The states after an entry is ejected, and after it lands.\<close>

lemma marked_ejected:
  fixes e why s
  defines "s' \<equiv> mark_ejected e why s"
  assumes "state_of s (en_key e) \<noteq> None"
  shows "state_of s' k = (if k = en_key e then Some Ejected else state_of s k)" and "blockers s' = blockers s"
    and "stored s \<Longrightarrow> stored s'" and "bounded_repairs c s \<Longrightarrow> bounded_repairs c s'"
    and "tn_landed s' = tn_landed s" and "tn_withheld s' = tn_withheld s" and "tn_stopped s' = tn_stopped s"
    and "tn_fixes s' = tn_fixes s" and "tn_journal s' = tn_journal s" and "tn_unavailable s' = tn_unavailable s"
    and "tn_ejected s' = tn_ejected s @ [\<lparr>br_taskKey = en_key e, br_branch = en_branch e, br_reason = why\<rparr>]"
proof -
  have "tn_entries s' = tn_entries (set_state Ejected (en_key e) s)" by (simp add: s'_def mark_ejected_def Let_def)
  note same = entries_same [OF this]
  show "state_of s' k = (if k = en_key e then Some Ejected else state_of s k)" "blockers s' = blockers s"
    "stored s \<Longrightarrow> stored s'" "bounded_repairs c s \<Longrightarrow> bounded_repairs c s'"
    using assms(2) by (auto simp: same(1,2,7,8) train_simps stored_set bounded_set)
qed (simp_all add: s'_def mark_ejected_def Let_def train_simps)

lemma marked_landed:
  fixes e r s
  defines "s' \<equiv> mark_landed e r s"
  assumes "state_of s (en_key e) \<noteq> None"
  shows "state_of s' k = (if k = en_key e then Some Landed else state_of s k)" and "blockers s' = blockers s"
    and "stored s \<Longrightarrow> stored s'" and "bounded_repairs c s \<Longrightarrow> bounded_repairs c s'"
    and "tn_ejected s' = tn_ejected s" and "tn_withheld s' = tn_withheld s" and "tn_stopped s' = tn_stopped s"
    and "tn_fixes s' = tn_fixes s" and "tn_journal s' = tn_journal s" and "tn_unavailable s' = tn_unavailable s"
    and "tn_landed s' = tn_landed s @ [\<lparr>br_taskKey = en_key e, br_branch = er_branch r, br_commits = er_commits r\<rparr>]"
proof -
  have "tn_entries s' = tn_entries (set_state Landed (en_key e) s)" by (simp add: s'_def mark_landed_def Let_def)
  note same = entries_same [OF this]
  show "state_of s' k = (if k = en_key e then Some Landed else state_of s k)" "blockers s' = blockers s"
    "stored s \<Longrightarrow> stored s'" "bounded_repairs c s \<Longrightarrow> bounded_repairs c s'"
    using assms(2) by (auto simp: same(1,2,7,8) train_simps stored_set bounded_set)
qed (simp_all add: s'_def mark_landed_def Let_def train_simps)

lemma booksI:
  assumes "tn_stopped s = None" "tn_withheld s = []" "stored s" "bounded_repairs c s"
    "distinct (map br_taskKey (tn_landed s))" "\<And>k. k \<in> br_taskKey ` set (tn_landed s) \<longleftrightarrow> state_of s k = Some Landed"
    "distinct (map br_taskKey (tn_ejected s))" "\<And>k. k \<in> br_taskKey ` set (tn_ejected s) \<longleftrightarrow> state_of s k = Some Ejected"
    "tn_journal s = j @ es" "backed (blockers s) [] es" "\<And>k. state_of s k = Some Landed \<Longrightarrow> cleared s k"
  shows "books_kept c j s"
  using assms by (simp add: books_kept_def unsettled_irrelevant journal_backed_def)

lemma runningI:
  assumes "books_kept c j s" "tn_stopped s = None" "\<And>k. active s k \<Longrightarrow> cleared s k"
    "\<And>k. active s k \<longleftrightarrow> k \<in> set (tn_fixes s) \<or> k \<in> X" "distinct (tn_fixes s)" "X \<inter> set (tn_fixes s) = {}"
    "\<And>k. state_of s k = Some Landed \<Longrightarrow> list_ex (lands_key k) (drop (length j) (tn_journal s))"
  shows "running c j X s"
  using assms unfolding running_def by blast

lemma runningE:
  assumes "running c j X s"
  obtains es where "tn_stopped s = None" "tn_withheld s = []" "stored s" "bounded_repairs c s"
    "distinct (map br_taskKey (tn_landed s))" "\<And>k. k \<in> br_taskKey ` set (tn_landed s) \<longleftrightarrow> state_of s k = Some Landed"
    "distinct (map br_taskKey (tn_ejected s))" "\<And>k. k \<in> br_taskKey ` set (tn_ejected s) \<longleftrightarrow> state_of s k = Some Ejected"
    "tn_journal s = j @ es" "backed (blockers s) [] es" "\<And>k. state_of s k = Some Landed \<Longrightarrow> cleared s k"
    "\<And>k. active s k \<Longrightarrow> cleared s k" "\<And>k. active s k \<longleftrightarrow> k \<in> set (tn_fixes s) \<or> k \<in> X" "distinct (tn_fixes s)"
    "X \<inter> set (tn_fixes s) = {}" "\<And>k. state_of s k = Some Landed \<Longrightarrow> list_ex (lands_key k) es"
proof -
  have st: "tn_stopped s = None" using assms by (simp add: running_def)
  obtain es where es: "tn_journal s = j @ es" "backed (blockers s) [] es"
    using assms by (auto simp: running_def books_kept_def journal_backed_def)
  show ?thesis
    using assms st es unfolding running_def books_kept_def unsettled_irrelevant[OF st] by (intro that[of es]) simp_all
qed

lemma mark_ejected_running:
  assumes "running c j X s" and some: "state_of s (en_key e) \<noteq> None" and unlanded: "state_of s (en_key e) \<noteq> Some Landed"
    and un: "state_of s (en_key e) \<noteq> Some Ejected" and fx: "en_key e \<notin> set (tn_fixes s)"
  shows "running c j (X - {en_key e}) (mark_ejected e why s)"
  using assms(1)
proof (cases rule: runningE)
  case (1 es)
  let ?s = "mark_ejected e why s"
  note m = marked_ejected[OF some, where why = why]
  have cl: "cleared s k \<Longrightarrow> cleared ?s k" for k
    using unlanded by (auto simp: cleared_def m(1,2))
  have books: "books_kept c j ?s"
    by (rule booksI[where es = es]) (use 1 unlanded un in \<open>auto simp: m intro: cl split: if_splits\<close>)
  have act: "active ?s k \<longleftrightarrow> active s k \<and> k \<noteq> en_key e" for k
    by (simp add: active_def m(1))
  show ?thesis
    by (rule runningI) (use 1 books fx unlanded in \<open>auto simp: m act intro: cl split: if_splits\<close>)
qed

lemma mark_landed_books:
  assumes "running c j X s" and q: "state_of s (en_key e) = Some Queued" and "cleared s (en_key e)"
  shows "books_kept c j (mark_landed e r s)"
  using assms(1)
proof (cases rule: runningE)
  case (1 es)
  have some: "state_of s (en_key e) \<noteq> None" using q by simp
  note m = marked_landed[OF some, where r = r]
  have "cleared s k \<Longrightarrow> cleared (mark_landed e r s) k" for k
    by (auto simp: cleared_def m(1,2))
  then show ?thesis
    by (intro booksI[where es = es]) (use 1 q assms(3) in \<open>auto simp: m split: if_splits\<close>)
qed

lemma mark_landed_running:
  assumes "running c j X s" and q: "state_of s (en_key e) = Some Queued" and cl: "cleared s (en_key e)" and r: "er_key r = en_key e"
    and v: "list_ex (verifies i tip (en_key e)) (drop (length j) (tn_journal s))"
  shows "running c j X (log_event (TrLanded r i tip False) (mark_landed e r s))"
  using assms(1)
proof (cases rule: runningE)
  case (1 es)
  let ?m = "mark_landed e r s" and ?e = "TrLanded r i tip False"
  let ?s = "log_event ?e ?m"
  have some: "state_of s (en_key e) \<noteq> None" using q by simp
  note m = marked_landed[OF some, where r = r]
  have same: "state_of ?s = state_of ?m" "blockers ?s = blockers ?m" "stored ?s = stored ?m"
    "bounded_repairs c ?s = bounded_repairs c ?m"
    by (rule entries_same; simp add: train_simps)+
  have up: "cleared s k \<Longrightarrow> cleared ?s k" for k
    by (auto simp: cleared_def m(1,2) same)
  have "landing_backed (blockers s) es ?e"
    using 1 r v cl by (auto simp: cleared_def)
  then have books: "books_kept c j ?s"
    by (intro booksI[where es = "es @ [?e]"]) (use 1 q cl in \<open>auto simp: m same train_simps intro: up split: if_splits\<close>)
  have act: "active ?s = active s"
    using q by (auto simp: active_def fun_eq_iff m(1) same)
  show ?thesis
    by (rule runningI) (use 1 books r in \<open>auto simp: m same act train_simps intro: up split: if_splits\<close>)
qed

text \<open>A queued entry goes to the resolver or to repair; a fixed one is queued again.\<close>

lemma update_running:
  assumes "running c j X s" and st: "\<And>x. en_state (f x) = st" "\<And>x. en_blockedBy (f x) = en_blockedBy x" "\<And>x. en_key (f x) = en_key x"
    and rp: "\<And>x. en_repairs (f x) = en_repairs x" "\<And>x. en_extra (f x) = en_extra x"
    and to: "st = ToRepair \<or> st = ToResolve" and q: "state_of s k = Some Queued" and cl: "cleared s k"
  shows "running c j X ((update_entry k f s)\<lparr>tn_fixes := tn_fixes s @ [k]\<rparr>)" (is "running c j X ?s")
  using assms(1)
proof (cases rule: runningE)
  case (1 es)
  let ?u = "update_entry k f s"
  have sto: "state_of ?u k' = (if k' = k then Some st else state_of s k')" for k'
    using q by (auto simp: state_of_update st) (auto simp: state_of_def)
  have bl: "blockers ?u = blockers s" by (simp add: blockers_update st)
  have up: "cleared s k' \<Longrightarrow> cleared ?u k'" for k'
    using q by (auto simp: cleared_def sto bl)
  have nq: "k \<notin> set (tn_fixes s)" "k \<notin> X"
    using 1(13)[of k] q by (auto simp: active_def)
  have sb: "stored ?u" "bounded_repairs c ?u"
    using 1 by (auto simp: st rp repair_bound_def intro!: stored_update bounded_update)
  have books: "books_kept c j ?u"
    by (rule booksI[where es = es]) (use 1 q sb to in \<open>auto simp: sto bl train_simps intro: up split: if_splits\<close>)
  have act: "active ?u k' \<longleftrightarrow> active s k' \<or> k' = k" for k'
    using to by (auto simp: active_def sto)
  show ?thesis
    by (rule runningI) (use 1 books nq cl to in \<open>auto simp: sto act train_simps intro: up split: if_splits\<close>)
qed

lemma send_to_resolver_running:
  "running c j X s \<Longrightarrow> state_of s k = Some Queued \<Longrightarrow> cleared s k \<Longrightarrow> running c j X (send_to_resolver k s)"
  using update_running[of c j X s "\<lambda>e. e\<lparr>en_state := ToResolve\<rparr>" ToResolve k]
  by (simp add: send_to_resolver_def set_state_def)

lemma send_to_repair_running:
  "running c j X s \<Longrightarrow> state_of s k = Some Queued \<Longrightarrow> cleared s k \<Longrightarrow> running c j X (send_to_repair k v s)"
  using update_running[of c j X s "\<lambda>e. e\<lparr>en_state := ToRepair, en_verdict := Some v\<rparr>" ToRepair k]
  by (simp add: send_to_repair_def)

lemma set_queued_running:
  assumes "running c j X s" and k: "k \<in> X \<or> state_of s k = Some Queued"
  shows "running c j (X - {k}) (set_state Queued k s)"
  using assms(1)
proof (cases rule: runningE)
  case (1 es)
  let ?s = "set_state Queued k s"
  have un: "state_of s k \<noteq> Some Landed" "state_of s k \<noteq> Some Ejected" "k \<notin> set (tn_fixes s)"
    using k 1(13)[of k] 1(15) by (auto simp: active_def)
  have up: "cleared s k' \<Longrightarrow> cleared ?s k'" for k'
    using un by (auto simp: cleared_def train_simps)
  have books: "books_kept c j ?s"
    by (rule booksI[where es = es]) (use 1 un in \<open>auto simp: train_simps stored_set bounded_set intro: up split: if_splits\<close>)
  have act: "active ?s k' \<longleftrightarrow> active s k' \<and> k' \<noteq> k" for k'
    by (auto simp: active_def train_simps)
  show ?thesis
    by (rule runningI) (use 1 books un in \<open>auto simp: act train_simps intro: up split: if_splits\<close>)
qed

text \<open>A change of an entry's repairs within their bound.\<close>

lemma recount_running:
  assumes "running c j X s" and f: "\<And>x. en_state (f x) = en_state x" "\<And>x. en_blockedBy (f x) = en_blockedBy x" "\<And>x. en_key (f x) = en_key x"
    and b: "\<And>x. jm_get (tn_entries s) k = Some x \<Longrightarrow> of_nat (en_repairs x) \<le> repair_bound c x \<Longrightarrow> of_nat (en_repairs (f x)) \<le> repair_bound c (f x)"
  shows "running c j X (update_entry k f s)"
  using assms(1)
proof (cases rule: runningE)
  case (1 es)
  let ?s = "update_entry k f s"
  have sto: "state_of ?s = state_of s"
    by (auto simp: fun_eq_iff state_of_update f) (auto simp: state_of_def o_def f)
  have bl: "blockers ?s = blockers s" by (simp add: blockers_update f)
  have same: "cleared ?s = cleared s" "active ?s = active s" by (simp_all add: fun_eq_iff cleared_def active_def sto bl)
  have sb: "stored ?s" "bounded_repairs c ?s"
    using 1 b f(3) by (auto intro!: stored_update bounded_update)
  have books: "books_kept c j ?s"
    by (rule booksI[where es = es]) (use 1 sb in \<open>simp_all add: sto bl same train_simps\<close>)
  show ?thesis
    by (rule runningI) (use 1 books in \<open>simp_all add: sto same train_simps\<close>)
qed

lemma take_fixes_running:
  "running c j {} s \<Longrightarrow> running c j (set (tn_fixes s)) (s\<lparr>tn_fixes := []\<rparr>)"
  by (auto simp: running_def train_simps)

section \<open>Stopping\<close>

lemma mark_stopped_books:
  assumes "books_kept c j s" and "tn_stopped s = None"
  shows "books_kept c j (mark_stopped why s)"
proof -
  have same: "tn_entries (mark_stopped why s) = tn_entries s" by (simp add: mark_stopped_def)
  show ?thesis
    using assms
    by (simp add: books_kept_def accounted_def journal_backed_def entries_same[OF same])
      (simp add: mark_stopped_def o_def)
qed

section \<open>Ejections\<close>

lemma wp_calm:
  "keeps calm m \<Longrightarrow> (\<And>x s'. calm s s' \<Longrightarrow> Q x s') \<Longrightarrow> (\<And>e s'. calm s s' \<Longrightarrow> E e s') \<Longrightarrow> wp m Q E s"
  by (rule wp_weaken[OF wp_keeps[of calm]]) blast+

lemma wp_calm_then:
  "keeps calm m \<Longrightarrow> (\<And>x s'. calm s s' \<Longrightarrow> wp (f x) Q E s') \<Longrightarrow> (\<And>e s'. calm s s' \<Longrightarrow> E e s') \<Longrightarrow> wp (andThen m f) Q E s"
  by (rule wp_andThen) (rule wp_calm)

text \<open>Along calm steps from a state, what they keep of it is what is known.\<close>

lemma wp_calm_from:
  assumes "keeps calm m" and "calm s0 s" and "\<And>x s'. calm s0 s' \<Longrightarrow> wp (f x) Q E s'" and "\<And>e s'. calm s0 s' \<Longrightarrow> E e s'"
  shows "wp (andThen m f) Q E s"
  by (rule wp_calm_then) (use assms calmly.R_trans in blast)+

lemma wp_gets_from: "wp (g (f s)) Q E s \<Longrightarrow> wp (andThen (gets f) g) Q E s"
  by (intro wp_andThen wp_gets)

lemma wp_modify_from: "wp (g ()) Q E (f s) \<Longrightarrow> wp (andThen (modify f) g) Q E s"
  by (intro wp_andThen wp_modify)

lemma calm_trans: "calm s s' \<Longrightarrow> calm s' s'' \<Longrightarrow> calm s s''"
  by (rule calmly.R_trans)

text \<open>What an ejection does to the others: some that are queued are ejected too.\<close>

definition ejecting :: "train_state \<Rightarrow> train_state \<Rightarrow> bool" where
  "ejecting s s' \<longleftrightarrow> blockers s' = blockers s \<and> tn_fixes s' = tn_fixes s \<and>
     (\<forall>k. state_of s' k = state_of s k \<or> (state_of s k = Some Queued \<and> state_of s' k = Some Ejected))"

definition ejecting_but :: "string \<Rightarrow> train_state \<Rightarrow> train_state \<Rightarrow> bool" where
  "ejecting_but k s s' \<longleftrightarrow> blockers s' = blockers s \<and> tn_fixes s' = tn_fixes s \<and>
     state_of s' k = (if state_of s k = Some Landed then Some Landed else Some Ejected) \<and>
     (\<forall>k'. k' \<noteq> k \<longrightarrow> state_of s' k' = state_of s k' \<or> (state_of s k' = Some Queued \<and> state_of s' k' = Some Ejected))"

lemma ejecting_refl: "ejecting s s"
  by (simp add: ejecting_def)

lemma ejecting_trans: "ejecting s s' \<Longrightarrow> ejecting s' s'' \<Longrightarrow> ejecting s s''"
  unfolding ejecting_def by (metis entry_state.distinct(7) option.inject)

lemma ejecting_ejected: "ejecting s s' \<Longrightarrow> state_of s k = Some Ejected \<Longrightarrow> state_of s' k = Some Ejected"
  unfolding ejecting_def by (metis option.inject)

lemma ejecting_known: "ejecting s s' \<Longrightarrow> state_of s k \<noteq> None \<Longrightarrow> state_of s' k \<noteq> None"
  unfolding ejecting_def by (metis option.distinct(1))

lemma calm_ejecting: "calm s s' \<Longrightarrow> ejecting s s'"
  by (simp add: ejecting_def calm_same)

lemma ejecting_but_ejecting:
  "ejecting_but k s s' \<Longrightarrow> state_of s k = Some Queued \<or> state_of s k = Some Ejected \<Longrightarrow> ejecting s s'"
  unfolding ejecting_but_def ejecting_def by (metis entry_state.distinct(5) entry_state.distinct(7,20) option.inject)

lemma blockers_of_value:
  assumes "stored s" and "x \<in> set (jm_vals (tn_entries s))"
  shows "blockers s (en_key x) = en_blockedBy x" and "state_of s (en_key x) = Some (en_state x)"
  using assms jm_keyed_mem[of "tn_entries s" en_key x] by (simp_all add: stored_def blockers_def state_of_def)

lemma eject_chain_running:
  assumes "running c j X s" and "state_of s (en_key e) \<noteq> None" and "en_key e \<notin> set (tn_fixes s)"
  shows "wp (eject_chain n d e why) (\<lambda>_ s'. running c j (X - {en_key e}) s' \<and> ejecting_but (en_key e) s s')
    (\<lambda>_ s'. books_kept c j s') s"
  using assms
proof (induction n arbitrary: X s e why)
  case 0
  then show ?case by (simp add: wp_throw running_books)
next
  case (Suc n)
  let ?k = "en_key e" and ?E = "\<lambda>_ :: train_stop. books_kept c j"
  show ?case
  proof (cases "state_of s ?k = Some Ejected \<or> state_of s ?k = Some Landed")
    case True
    then have "?k \<notin> X" using Suc.prems(1) by (auto simp: running_def active_def)
    then show ?thesis
      using True Suc.prems by (auto intro!: wp_intros simp: ejecting_but_def)
  next
    case False
    define s1 where "s1 = mark_ejected e why s"
    have r1: "running c j (X - {?k}) s1"
      unfolding s1_def using False Suc.prems by (intro mark_ejected_running) auto
    note m = marked_ejected[OF Suc.prems(2), where why = why, folded s1_def]
    have rest: "wp (each_do (\<lambda>x. if ?k \<in> set (en_blockedBy x) then eject_chain n d x (''blocked by ejected '' @ ?k) else ret ())
        (jm_vals (tn_entries s2))) (\<lambda>_ s'. running c j (X - {?k}) s' \<and> ejecting s1 s') ?E s2"
      if c2: "calm s1 s2" for s2
    proof -
      let ?I = "\<lambda>ys s3. running c j (X - {?k}) s3 \<and> ejecting s1 s3 \<and> set ys \<subseteq> set (jm_vals (tn_entries s2))"
      have "wp (each_do (\<lambda>x. if ?k \<in> set (en_blockedBy x) then eject_chain n d x (''blocked by ejected '' @ ?k) else ret ())
        (jm_vals (tn_entries s2))) (\<lambda>_. ?I []) ?E s2"
      proof (rule wp_each_do[where I = ?I])
        show "?I (jm_vals (tn_entries s2)) s2"
          using calm_running[OF c2 r1] calm_ejecting[OF c2] by simp
      next
        fix x xs s3 assume I: "?I (x # xs) s3"
        then have x: "x \<in> set (jm_vals (tn_entries s2))" and ej: "ejecting s1 s3" and r3: "running c j (X - {?k}) s3" by auto
        have "stored s2" using calm_running[OF c2 r1] by (simp add: running_def books_kept_def)
        note v = blockers_of_value[OF this x]
        show "wp (if ?k \<in> set (en_blockedBy x) then eject_chain n d x (''blocked by ejected '' @ ?k) else ret ()) (\<lambda>_. ?I xs) ?E s3"
        proof (cases "?k \<in> set (en_blockedBy x)")
          case True
          have "?k \<in> set (blockers s3 (en_key x))" using True v(1) ej by (simp add: ejecting_def calm_same[OF c2])
          moreover have "state_of s3 ?k = Some Ejected" using ejecting_ejected[OF ej] m(1) by simp
          ultimately have "\<not> cleared s3 (en_key x)" unfolding cleared_def by (metis entry_state.distinct(19) option.inject)
          then have nact: "\<not> active s3 (en_key x)" "state_of s3 (en_key x) \<noteq> Some Landed"
            using r3 by (auto simp: running_def books_kept_def)
          then have nin: "en_key x \<notin> set (tn_fixes s3)" "en_key x \<notin> X - {?k}" using r3 by (auto simp: running_def)
          have some: "state_of s3 (en_key x) \<noteq> None"
            using ejecting_known[OF ej] v(2) by (simp add: calm_same[OF c2])
          then have qe: "state_of s3 (en_key x) = Some Queued \<or> state_of s3 (en_key x) = Some Ejected"
            using nact by (cases "state_of s3 (en_key x)") (auto simp: active_def, metis entry_state.exhaust)
          have X: "X - {?k} - {en_key x} = X - {?k}" using nin(2) by blast
          have "wp (eject_chain n d x b) (\<lambda>_. ?I xs) ?E s3" for b
            by (rule wp_weaken[OF Suc.IH[OF r3 some nin(1), unfolded X]])
              (use I in \<open>auto intro: ejecting_trans ejecting_but_ejecting[OF _ qe]\<close>)
          then show ?thesis using True by simp
        qed (use I in \<open>auto intro!: wp_intros\<close>)
      qed
      then show ?thesis by (rule wp_weaken) auto
    qed
    have but: "ejecting_but ?k s s'" if "ejecting s1 s'" for s'
      using that ejecting_ejected[OF that, of ?k] False unfolding ejecting_but_def ejecting_def by (simp add: m) metis
    have b1: "calm s1 s' \<Longrightarrow> books_kept c j s'" for s' using r1 by (blast intro: calm_books running_books)
    note along = wp_calm_from[where ?s0.0 = s1 and E = ?E, OF _ _ _ b1]
    have "wp (eject_chain (Suc n) d e why) (\<lambda>_ s'. running c j (X - {?k}) s' \<and> ejecting s1 s') ?E s"
      using False
      by (auto simp: s1_def [symmetric] calmly.R_refl intro!: wp_gets_from wp_modify_from wp_weaken[OF rest] b1
          along calm_ref calm_record calmly.keeps_env calm_evidence)
    then show ?thesis by (rule wp_weaken) (auto intro: but)
  qed
qed

lemma eject_running:
  assumes "running c j X s" and "k = en_key e" and "state_of s k \<noteq> None" and "k \<notin> set (tn_fixes s)"
  shows "wp (eject d e why) (\<lambda>_ s'. running c j (X - {k}) s' \<and> ejecting_but k s s') (\<lambda>_. books_kept c j) s"
  unfolding eject_def assms(2) by (rule wp_gets_from, rule eject_chain_running) (use assms in simp_all)

section \<open>Landing a batch\<close>

lemma enqueue_running:
  assumes "running c j X s" and k: "k = en_key e" and "k \<in> X \<or> state_of s k = Some Queued"
  shows "wp (enqueue d e after) (\<lambda>_ s'. running c j (X - {k}) s' \<and> calm (set_state Queued k s) s') (\<lambda>_. books_kept c j) s"
proof -
  let ?q = "set_state Queued k s"
  have r: "running c j (X - {k}) ?q" using assms by (intro set_queued_running)
  then have b: "calm ?q s' \<Longrightarrow> books_kept c j s'" for s' by (blast intro: calm_books running_books)
  show ?thesis
    unfolding enqueue_def k [symmetric]
    by (rule wp_modify_from, rule wp_calm) (auto intro!: calm_basics calm_ref intro: b calm_running[OF _ r])
qed

text \<open>What a batch's landing leaves of the entries that are not in it.\<close>

definition frame :: "string set \<Rightarrow> train_state \<Rightarrow> train_state \<Rightarrow> bool" where
  "frame K s s' \<longleftrightarrow> blockers s' = blockers s \<and> (\<forall>k. k \<notin> K \<longrightarrow> state_of s' k = state_of s k) \<and>
     (\<forall>k. state_of s k = Some Landed \<longrightarrow> state_of s' k = Some Landed) \<and> (\<exists>es. tn_journal s' = tn_journal s @ es)"

lemma frame_refl: "frame K s s"
  by (simp add: frame_def)

lemma frame_trans: "frame K s s' \<Longrightarrow> frame K' s' s'' \<Longrightarrow> K \<subseteq> L \<Longrightarrow> K' \<subseteq> L \<Longrightarrow> frame L s s''"
  unfolding frame_def by (auto 0 4)

lemma frame_mono: "frame K s s' \<Longrightarrow> K \<subseteq> L \<Longrightarrow> frame L s s'"
  unfolding frame_def by blast

lemma calm_frame: "calm s s' \<Longrightarrow> frame K s s'"
  by (auto simp: frame_def calm_same elim: calm_journal)

lemma frame_cleared: "frame K s s' \<Longrightarrow> cleared s k \<Longrightarrow> cleared s' k"
  by (simp add: frame_def cleared_def)

definition landable :: "train_state \<Rightarrow> entry list \<Rightarrow> bool" where
  "landable s es \<longleftrightarrow> distinct (map en_key es) \<and> (\<forall>e \<in> set es. state_of s (en_key e) = Some Queued \<and> cleared s (en_key e))"

lemma landable_frame:
  assumes "landable s es" and "frame K s s'" and "K \<inter> en_key ` set es = {}"
  shows "landable s' es"
proof -
  have "state_of s' (en_key e) = state_of s (en_key e)" if "e \<in> set es" for e
    using that assms(2,3) unfolding frame_def by blast
  then show ?thesis using assms(1) frame_cleared[OF assms(2)] by (auto simp: landable_def)
qed

lemma landable_subset: "landable s es \<Longrightarrow> distinct (map en_key xs) \<Longrightarrow> set xs \<subseteq> set es \<Longrightarrow> landable s xs"
  by (auto simp: landable_def)

definition verified :: "train_event list \<Rightarrow> int \<Rightarrow> string \<Rightarrow> string \<Rightarrow> train_state \<Rightarrow> bool" where
  "verified j i tip k s \<longleftrightarrow> length j \<le> length (tn_journal s) \<and> list_ex (verifies i tip k) (drop (length j) (tn_journal s))"

lemma verified_frame: "verified j i tip k s \<Longrightarrow> frame K s s' \<Longrightarrow> verified j i tip k s'"
  by (auto simp: verified_def frame_def)

lemma each_ref_keys: "each (ref d) es sw = (Inr rs, sw') \<Longrightarrow> map er_key rs = map en_key es"
proof (induction es arbitrary: sw rs sw')
  case (Cons e es)
  from Cons.prems obtain r sw1 rs' sw2 where "ref d e sw = (Inr r, sw1)" and rs': "each (ref d) es sw1 = (Inr rs', sw2)" and "rs = r # rs'"
    by (auto elim!: andThen_InrE simp: ret_def)
  moreover from this(1) have "er_key r = en_key e"
    by (cases sw) (auto simp: ref_def env_def andThen_def ret_def split: prod.splits sum.splits)
  ultimately show ?case using Cons.IH[OF rs'] by simp
qed (simp add: ret_def)

lemma wp_each_ref:
  assumes "\<And>rs s'. calm s s' \<Longrightarrow> map er_key rs = map en_key es \<Longrightarrow> wp (f rs) Q E s'" and "\<And>e s'. calm s s' \<Longrightarrow> E e s'"
  shows "wp (andThen (each (ref d) es) f) Q E s"
proof (rule wp_andThen, rule wpI)
  have calm: "keeps calm (each (ref d) es)" by (intro calmly.keeps_each calm_ref)
  fix w rs s' w' assume "each (ref d) es (s, w) = (Inr rs, s', w')"
  then show "wp (f rs) Q E s'" using assms(1) keepsD[OF calm] each_ref_keys by metis
next
  have calm: "keeps calm (each (ref d) es)" by (intro calmly.keeps_each calm_ref)
  fix w e s' w' assume "each (ref d) es (s, w) = (Inl e, s', w')"
  then show "E e s'" using assms(2) keepsD[OF calm] by metis
qed

lemma land_one_running:
  assumes "running c j X s" and "state_of s (en_key e) = Some Queued" and "cleared s (en_key e)" and "er_key r = en_key e"
    and v: "verified j i tc (en_key e) s"
  shows "wp (land_one d i tip tc (e, r)) (\<lambda>_ s'. running c j X s' \<and> frame {en_key e} s s') (\<lambda>_. books_kept c j) s"
proof -
  let ?m = "mark_landed e r s"
  let ?s = "log_event (TrLanded r i tc False) ?m"
  have b: "books_kept c j ?m" using assms(1-3) by (rule mark_landed_books)
  have r: "running c j X ?s" using assms by (intro mark_landed_running) (simp_all add: verified_def)
  then have after: "calm ?s s' \<Longrightarrow> books_kept c j s'" for s' by (blast intro: calm_books running_books)
  have some: "state_of s (en_key e) \<noteq> None" using assms(2) by simp
  have "tn_entries ?s = tn_entries ?m" by (simp add: train_simps)
  note same = entries_same[OF this]
  have "frame {en_key e} s ?s" using assms(2) by (auto simp: frame_def same marked_landed[OF some] train_simps)
  then have fr: "calm ?s s' \<Longrightarrow> frame {en_key e} s s'" for s' using frame_trans[OF _ calm_frame] by blast
  have rec: "wp (andThen (record_event d (TrLanded r i tc False)) f) Q (\<lambda>_. books_kept c j) ?m"
    if "wp (f ()) Q (\<lambda>_. books_kept c j) ?s" for f and Q :: "unit \<Rightarrow> train_state \<Rightarrow> bool"
    unfolding record_event_def using that b by (intro wp_andThen wp_env wp_modify) auto
  show ?thesis
    unfolding land_one_def
    by (simp, rule wp_modify_from, rule rec, rule wp_calm)
      (auto intro!: calm_basics calm_evidence intro: after calm_running[OF _ r] fr)
qed

lemma land_verified_running:
  assumes "running c j X s" and "landable s es" and v: "\<forall>e \<in> set es. verified j i tc (en_key e) s"
  shows "wp (land_verified d i tip tc es) (\<lambda>_ s'. running c j X s' \<and> frame (en_key ` set es) s s') (\<lambda>_. books_kept c j) s"
proof -
  let ?E = "\<lambda>_ :: train_stop. books_kept c j" and ?K = "en_key ` set es"
  have b: "calm s s' \<Longrightarrow> books_kept c j s'" for s' using assms(1) by (blast intro: calm_books running_books)
  have loop: "wp (each_do (land_one d i tip tc) (zip es rs)) (\<lambda>_ s'. running c j X s' \<and> frame ?K s s') ?E s1"
    if c: "calm s s1" and keys: "map er_key rs = map en_key es" for s1 rs
  proof -
    let ?I = "\<lambda>(zs :: (entry \<times> entry_ref) list) s'. running c j X s' \<and> frame ?K s s' \<and> landable s' (map fst zs) \<and>
      (\<forall>(e, r) \<in> set zs. e \<in> set es \<and> er_key r = en_key e \<and> verified j i tc (en_key e) s')"
    have len: "length rs = length es" using keys by (metis length_map)
    have pairs: "er_key r = en_key e" if "(e, r) \<in> set (zip es rs)" for e r
      using that keys by (auto simp: in_set_zip) (metis len nth_map)
    have "wp (each_do (land_one d i tip tc) (zip es rs)) (\<lambda>_. ?I []) ?E s1"
    proof (rule wp_each_do[where I = ?I])
      show "?I (zip es rs) s1"
        using calm_running[OF c assms(1)] calm_frame[OF c] landable_frame[OF assms(2) calm_frame[OF c, of "{}"]]
          verified_frame[OF _ calm_frame[OF c]] v pairs len
        by (auto dest: set_zip_leftD)
    next
      fix y ys s2 assume I: "?I (y # ys) s2"
      obtain e r where y: "y = (e, r)" by fastforce
      with I have st: "state_of s2 (en_key e) = Some Queued" "cleared s2 (en_key e)" "er_key r = en_key e" "verified j i tc (en_key e) s2"
        and r2: "running c j X s2" and e: "e \<in> set es"
        and rest: "landable s2 (map fst ys)" "en_key e \<notin> en_key ` fst ` set ys" by (auto simp: landable_def)
      have land: "landable s' (map fst ys)" if "frame {en_key e} s2 s'" for s'
        by (rule landable_frame[OF rest(1) that]) (use rest(2) in auto)
      show "wp (land_one d i tip tc y) (\<lambda>_. ?I ys) ?E s2"
        unfolding y
        by (rule wp_weaken[OF land_one_running[OF r2 st]])
          (use I e in \<open>auto intro: frame_trans verified_frame land\<close>)
    qed
    then show ?thesis by (rule wp_weaken) simp_all
  qed
  show ?thesis
    unfolding land_verified_def
    by (auto intro!: wp_each_ref wp_calm_from[where ?s0.0 = s, OF _ _ _ b] loop calmly.keeps_env calm_live b)
qed

lemma resolvers_running:
  assumes "running c j X s" and "landable s es"
  shows "wp (each_do (\<lambda>e. modify (send_to_resolver (en_key e))) es) (\<lambda>_ s'. running c j X s' \<and> frame (en_key ` set es) s s')
    (\<lambda>_. books_kept c j) s"
proof -
  let ?I = "\<lambda>xs s'. running c j X s' \<and> frame (en_key ` set es) s s' \<and> set xs \<subseteq> set es \<and> landable s' xs"
  have "wp (each_do (\<lambda>e. modify (send_to_resolver (en_key e))) es) (\<lambda>_. ?I []) (\<lambda>_. books_kept c j) s"
  proof (rule wp_each_do[where I = ?I])
    show "?I es s" using assms by (simp add: frame_refl)
  next
    fix e xs s1 assume I: "?I (e # xs) s1"
    let ?s = "send_to_resolver (en_key e) s1"
    from I have q: "state_of s1 (en_key e) = Some Queued" "cleared s1 (en_key e)" and r: "running c j X s1"
      and rest: "landable s1 xs" "en_key e \<notin> en_key ` set xs" by (auto simp: landable_def)
    have fr: "frame {en_key e} s1 ?s"
      using q by (auto simp: frame_def send_to_resolver_def train_simps)
    have "landable ?s xs" by (rule landable_frame[OF rest(1) fr]) (use rest(2) in auto)
    then show "wp (modify (send_to_resolver (en_key e))) (\<lambda>_. ?I xs) (\<lambda>_. books_kept c j) s1"
      using I send_to_resolver_running[OF r q] frame_trans[OF _ fr] by (intro wp_modify) auto
  qed
  then show ?thesis by (rule wp_weaken) simp_all
qed

lemma landable_filter: "landable s es \<Longrightarrow> landable s (filter p es)"
  by (auto simp: landable_def intro: distinct_map_filter)

lemma filters_apart: "distinct (map en_key es) \<Longrightarrow> en_key ` set (filter p es) \<inter> en_key ` set (filter (\<lambda>e. \<not> p e) es) = {}"
  by (auto simp: distinct_map inj_on_def)

text \<open>After a batch's speculative merge and verification: what merged is still landable, and the rest awaits its resolver.\<close>

lemma try_batch_running:
  assumes "running c j X s" and land: "landable s batch"
  shows "wp (try_batch d batch parent) (\<lambda>((i, tip, tc, merged), tried) s'. running c j X s' \<and> landable s' merged \<and>
      frame (en_key ` set batch - en_key ` set merged) s s' \<and> set merged \<subseteq> set batch \<and> (tried \<noteq> None \<longrightarrow> merged \<noteq> []))
    (\<lambda>_. books_kept c j) s" (is "wp _ ?Q _ _")
proof -
  have b: "calm s s' \<Longrightarrow> books_kept c j s'" for s' using assms(1) by (blast intro: calm_books running_books)
  note along = wp_calm_from[where ?s0.0 = s, OF _ _ _ b]
  have tail: "wp (andThen (each_do (\<lambda>e. modify (send_to_resolver (en_key e))) (filter q batch)) (\<lambda>_.
       if filter p batch = [] then ret ((i, tip, tc, filter p batch), None)
       else andThen (env (verifyOnce d cwd tc)) (\<lambda>v. ret ((i, tip, tc, filter p batch), Some v))))
     ?Q (\<lambda>_. books_kept c j) s1" if c: "calm s s1" and q: "\<And>e. q e \<longleftrightarrow> \<not> p e" for p q i tip tc cwd s1
  proof -
    have q: "filter q batch = filter (\<lambda>e. \<not> p e) batch" by (rule filter_cong) (simp_all add: q)
    note land1 = landable_frame[OF land calm_frame[OF c, of "{}"], simplified]
    let ?rest = "filter (\<lambda>e. \<not> p e) batch" and ?merged = "filter p batch"
    have apart: "en_key ` set ?rest \<inter> en_key ` set ?merged = {}"
      using filters_apart[of batch p] land by (auto simp: landable_def)
    have after: "running c j X s2 \<and> landable s2 ?merged \<and> frame (en_key ` set batch - en_key ` set ?merged) s s2"
      if "running c j X s2 \<and> frame (en_key ` set ?rest) s1 s2" for s2
    proof (intro conjI)
      show "running c j X s2" using that by simp
      show "landable s2 ?merged"
        by (rule landable_frame[OF landable_filter[OF land1]]) (use that apart in auto)
      show "frame (en_key ` set batch - en_key ` set ?merged) s s2"
        by (rule frame_trans[OF calm_frame[OF c, of "{}"]]) (use that apart in auto)
    qed
    have verify: "wp (if M = [] then ret ((i, tip, tc, M), None) else andThen (env (verifyOnce d cwd tc)) (\<lambda>v. ret ((i, tip, tc, M), Some v)))
        ?Q (\<lambda>_. books_kept c j) s2"
      if "running c j X s2 \<and> landable s2 M \<and> frame (en_key ` set batch - en_key ` set M) s s2" and "set M \<subseteq> set batch" for M s2
      using that by (auto intro!: wp_ret wp_andThen wp_env running_books)
    show ?thesis
      unfolding q
      by (rule wp_andThen, rule wp_weaken[OF resolvers_running[OF calm_running[OF c assms(1)] landable_filter[OF land1]]])
        (rule verify, use after in auto)
  qed
  show ?thesis
    unfolding try_batch_def Let_def
    apply (rule along, rule calm_next_batch, rule calmly.R_refl, rule along, rule calmly.keeps_env, assumption)
    apply (rule along, rule calmly.keeps_env, assumption)
    apply (simp only: split: prod.split, intro allI impI)
    apply (rule wp_each_ref, rule along, rule calm_record, simp, blast intro: calm_trans)
     apply (rule tail, simp_all)
    by (blast intro: calm_trans b)
qed

lemma kept_verdict_passed [simp]: "tv_passed (kept_verdict v) = tv_passed v"
  by (simp add: kept_verdict_def)

lemma landable_parts:
  assumes "landable s es"
  shows "landable s (take n es)" and "landable s (drop n es)"
    and "en_key ` set (take n es) \<inter> en_key ` set (drop n es) = {}"
proof -
  have "distinct (map en_key (take n es) @ map en_key (drop n es))"
    using assms unfolding map_append [symmetric] append_take_drop_id by (simp add: landable_def)
  then show "en_key ` set (take n es) \<inter> en_key ` set (drop n es) = {}" by simp
  show "landable s (take n es)" "landable s (drop n es)"
    using assms by (auto simp: landable_def take_map [symmetric] drop_map [symmetric] dest: in_set_takeD in_set_dropD)
qed

lemma filter_keys: "en_key ` set (filter p es) \<subseteq> en_key ` set es"
  by auto

lemma land_within_running:
  assumes "running c j X s" and "landable s batch"
  shows "wp (land_within n d batch parent) (\<lambda>_ s'. running c j X s' \<and> frame (en_key ` set batch) s s') (\<lambda>_. books_kept c j) s"
  using assms
proof (induction n arbitrary: s batch parent)
  case 0
  then show ?case by (simp add: wp_throw running_books)
next
  case (Suc n)
  let ?E = "\<lambda>_ :: train_stop. books_kept c j" and ?K = "en_key ` set batch"
  let ?Q = "\<lambda>(_ :: unit) s'. running c j X s' \<and> frame ?K s s'"
  have halves: "wp (andThen (land_within n d (take m es) par) (\<lambda>_. land_within n d (drop m es) par)) ?Q ?E s1"
    if "running c j X s1" and l: "landable s1 es" and fr: "frame ?K s s1" and sub: "en_key ` set es \<subseteq> ?K" for m es par s1
  proof (rule wp_andThen, rule wp_weaken[OF Suc.IH[OF that(1) landable_parts(1)[OF l]]])
    fix s2 :: train_state assume s2: "running c j X s2 \<and> frame (en_key ` set (take m es)) s1 s2"
    have sub': "en_key ` set (take m es) \<subseteq> ?K" "en_key ` set (drop m es) \<subseteq> ?K"
      using sub by (auto dest: in_set_takeD in_set_dropD)
    have "landable s2 (drop m es)"
      by (rule landable_frame[OF landable_parts(2)[OF l]]) (use s2 landable_parts(3)[OF l] in auto)
    moreover have "frame ?K s s2" by (rule frame_trans[OF fr]) (use s2 sub' in auto)
    ultimately show "wp (land_within n d (drop m es) par) ?Q ?E s2"
      by (intro wp_weaken[OF Suc.IH]) (use s2 sub' in \<open>auto intro: frame_trans\<close>)
  qed simp
  have judged: "wp (andThen (record_event d (TrVerified (kept_verdict v) i tc (map en_key es)))
        (\<lambda>_. if tv_passed v then land_verified d i tip tc es
          else if length es = 1 then modify (send_to_repair (en_key (hd es)) v)
          else andThen (land_within n d (take (half_up es) es) (Some i)) (\<lambda>_. land_within n d (drop (half_up es) es) (Some i)))) ?Q ?E s1"
    if r1: "running c j X s1" and l1: "landable s1 es" and fr: "frame ?K s s1" and sub: "en_key ` set es \<subseteq> ?K" for v i tip tc es s1
  proof -
    let ?ev = "TrVerified (kept_verdict v) i tc (map en_key es)"
    let ?s = "log_event ?ev s1"
    have c: "calm s1 ?s" by (simp add: calm_log)
    note r = calm_running[OF c r1] and l = landable_frame[OF l1 calm_frame[OF c, of "{}"], simplified]
      and fr2 = frame_trans[OF fr calm_frame[OF c, of "{}"], of ?K, simplified]
    have "length j \<le> length (tn_journal s1)" using r1 by (auto elim: runningE)
    then have v: "\<forall>e \<in> set es. verified j i tc (en_key e) ?s" if "tv_passed v"
      using that by (auto simp: verified_def train_simps)
    have passed: "wp (land_verified d i tip tc es) ?Q ?E ?s" if "tv_passed v"
      by (rule wp_weaken[OF land_verified_running[OF r l v[OF that]]]) (use fr2 sub in \<open>auto intro: frame_trans\<close>)
    have single: "wp (modify (send_to_repair (en_key (hd es)) v)) ?Q ?E ?s" if one: "length es = 1"
    proof -
      obtain e where e: "es = [e]" using one by (cases es) auto
      then have q: "state_of ?s (en_key e) = Some Queued" "cleared ?s (en_key e)" using l by (simp_all add: landable_def)
      have "frame {en_key e} ?s (send_to_repair (en_key e) v ?s)"
        using q by (auto simp: frame_def send_to_repair_def train_simps state_of_update blockers_update)
      then have "frame ?K s (send_to_repair (en_key e) v ?s)" by (rule frame_trans[OF fr2]) (use sub e in auto)
      with send_to_repair_running[OF r q] show ?thesis by (simp add: e wp_modify)
    qed
    have "wp (record_event d ?ev) (\<lambda>_ s'. s' = ?s) ?E s1"
      unfolding record_event_def using running_books[OF r1] by (intro wp_andThen wp_env wp_modify) auto
    then show ?thesis
      by (rule_tac wp_andThen, rule_tac wp_weaken, assumption) (auto intro: passed single halves[OF r l fr2 sub])
  qed
  have unverified: "wp (andThen (modify (\<lambda>s. s\<lparr>tn_unavailable := Some why\<rparr>)) (\<lambda>_. record_event d (TrUnverified i tc ks why))) ?Q ?E s1"
    if r1: "running c j X s1" and fr: "frame ?K s s1" for why i tc ks s1
  proof (rule wp_calm)
    show "keeps calm (andThen (modify (\<lambda>s. s\<lparr>tn_unavailable := Some why\<rparr>)) (\<lambda>_. record_event d (TrUnverified i tc ks why)))"
      by (intro calm_basics keeps_modify) (simp_all add: calm_def)
  qed (use r1 calm_running frame_trans[OF fr calm_frame[of _ _ "{}"], of _ ?K] calm_books running_books in auto)
  have K: "frame (?K - en_key ` set es) s s' \<Longrightarrow> frame ?K s s'" for es s'
    by (erule frame_mono) auto
  have "wp (andThen (try_batch d batch parent) (\<lambda>((i, tip, tc, merged), tried).
       case tried of
         None \<Rightarrow> ret ()
       | Some (Inl why) \<Rightarrow>
           andThen (modify (\<lambda>s. s\<lparr>tn_unavailable := Some why\<rparr>)) (\<lambda>_.
             record_event d (TrUnverified i tc (map en_key merged) why))
       | Some (Inr v) \<Rightarrow>
           andThen (record_event d (TrVerified (kept_verdict v) i tc (map en_key merged))) (\<lambda>_.
             if tv_passed v then land_verified d i tip tc merged
             else if length merged = 1 then modify (send_to_repair (en_key (hd merged)) v)
             else andThen (land_within n d (take (half_up merged) merged) (Some i)) (\<lambda>_.
               land_within n d (drop (half_up merged) merged) (Some i))))) ?Q ?E s"
  proof (rule wp_andThen, rule wp_weaken[OF try_batch_running[OF Suc.prems]], goal_cases)
    case (1 x s1)
    obtain i tip tc es tried where x: "x = ((i, tip, tc, es), tried)" by (metis prod.collapse)
    from 1 have r: "running c j X s1" and l: "landable s1 es" and fr: "frame ?K s s1" and sub: "en_key ` set es \<subseteq> ?K"
      by (auto simp: x intro: K)
    show ?case
    proof (cases tried)
      case None
      then show ?thesis using r fr by (simp add: x wp_ret)
    next
      case (Some t)
      then show ?thesis
        using unverified[OF r fr] judged[OF r l fr sub] by (cases t) (simp_all only: x Some prod.case option.case sum.case)
    qed
  qed
  then show ?case
    using Suc.prems by (auto intro!: wp_gets_from wp_ret simp: frame_refl)
qed

lemma land_running:
  "running c j X s \<Longrightarrow> landable s batch \<Longrightarrow>
     wp (land d batch) (\<lambda>_ s'. running c j X s') (\<lambda>_. books_kept c j) s"
  unfolding land_def by (rule wp_weaken[OF land_within_running]) auto

lemma known_blockers_get:
  "jm_get (tn_entries (known_blockers s)) k =
     map_option (\<lambda>e. e\<lparr>en_blockedBy := filter (\<lambda>b. jm_has (tn_entries s) b) (en_blockedBy e)\<rparr>) (jm_get (tn_entries s) k)"
  by (simp add: known_blockers_def jm_get_def map_of_map)

end
