(* ===== verification/TrainWaves.thy ===== *)
theory TrainWaves
  imports TrainSafety
begin

text \<open>
  The landing train's agent steps, its waves and the whole train keep the invariant: an entry that waits for
  an agent step is queued again or ejected by it, and at the end every entry is landed, ejected or withheld.
\<close>

section \<open>The resolver\<close>

lemma resolve_running:
  assumes "running c j X s" and "en_key e \<in> X" and "state_of s (en_key e) \<noteq> None"
  shows "wp (resolve d e) (\<lambda>how s'. if how = GaveEjected then running c j (X - {en_key e}) s' else calm s s') (\<lambda>_. books_kept c j) s"
proof -
  let ?E = "\<lambda>_ :: train_stop. books_kept c j" and ?k = "en_key e"
  define Q where "Q = (\<lambda>how s'. if how = GaveEjected then running c j (X - {?k}) s' else calm s s')"
  have Q: "running c j (X - {?k}) s' \<Longrightarrow> Q GaveEjected s'" "how \<noteq> GaveEjected \<Longrightarrow> calm s s' \<Longrightarrow> Q how s'" for how s'
    by (simp_all add: Q_def)
  have b: "calm s s' \<Longrightarrow> books_kept c j s'" for s' using assms(1) by (blast intro: calm_books running_books)
  note along = wp_calm_from[where ?s0.0 = s and E = ?E, OF _ _ _ b]
  have fx: "?k \<notin> set (tn_fixes s)" using assms(1,2) by (auto simp: running_def)
  have ejected: "wp (andThen (eject d e why) (\<lambda>_. ret GaveEjected)) Q ?E s1" if cs: "calm s s1" for why s1
    by (rule wp_andThen, rule wp_weaken[OF eject_running[OF calm_running[OF cs assms(1)] refl]])
      (use assms fx in \<open>auto simp: calm_same[OF cs] intro: wp_ret Q\<close>)
  have recorded: "wp (andThen (record_resolve d e tip files how err) (\<lambda>_.
        if how = Tampered then andThen (eject d e ''tamper incident in its resolver'') (\<lambda>_. ret GaveEjected) else ret (How how))) Q ?E s1"
    if "calm s s1" for tip files how err s1
    using that by (auto intro!: along calm_record_resolve ejected wp_ret Q)
  have concluded: "keeps calm (if go then conclude d e tip files err
      else andThen (env (tg_abortMerge g wt)) (\<lambda>_. ret (Tampered, Some ''tamper incident'')))" for go tip files err g wt
    by (auto intro!: calm_basics calm_conclude)
  have carried: "keeps calm (case incident of None \<Rightarrow> ret True | Some signals \<Rightarrow> carryOn d e st signals)" for incident st
    by (auto intro!: calm_basics calm_carryOn split: option.split)
  have budget: "wp (andThen (env (tg_abortMerge (td_git d) (en_worktree e))) (\<lambda>_.
          andThen (record_resolve d e tip files GaveUp (Some why)) (\<lambda>_. andThen (eject d e why) (\<lambda>_. ret GaveEjected)))) Q ?E s1"
    if "calm s s1" for tip files why s1
    using that by (auto intro!: along calmly.keeps_env calm_record_resolve ejected)
  have settled: "wp (andThen (case incident of None \<Rightarrow> ret True | Some signals \<Rightarrow> carryOn d e Resolve signals) (\<lambda>go.
          andThen (if go then conclude d e tip files err
                   else andThen (env (tg_abortMerge (td_git d) (en_worktree e))) (\<lambda>_. ret (Tampered, Some ''tamper incident''))) (\<lambda>(how, err).
          andThen (record_resolve d e tip files how err) (\<lambda>_.
            if how = Tampered then andThen (eject d e ''tamper incident in its resolver'') (\<lambda>_. ret GaveEjected)
            else ret (How how))))) Q ?E s1"
    if "calm s s1" for incident err tip files s1
    by (rule along, rule carried, rule that, rule along, rule concluded, assumption, simp only: split: prod.split, intro allI impI, rule recorded)
  show ?thesis
    unfolding resolve_def Let_def Q_def [symmetric]
    by (auto intro!: along calm_live calmly.keeps_env calm_resolver_step budget settled wp_ret Q calmly.R_refl split: agent_end.split)
qed

lemma integrate_running:
  assumes "running c j X s" and "en_key e \<in> X" and "state_of s (en_key e) \<noteq> None"
  shows "wp (integrate n d e) (\<lambda>ok s'. if ok then calm s s' else running c j (X - {en_key e}) s') (\<lambda>_. books_kept c j) s"
  using assms
proof (induction n arbitrary: s)
  case 0
  then show ?case by (simp add: wp_throw running_books)
next
  case (Suc n)
  let ?E = "\<lambda>_ :: train_stop. books_kept c j" and ?k = "en_key e"
  define Q where "Q = (\<lambda>ok s'. if ok then calm s s' else running c j (X - {?k}) s')"
  have Q: "running c j (X - {?k}) s' \<Longrightarrow> Q False s'" "calm s s' \<Longrightarrow> Q True s'" for s'
    by (simp_all add: Q_def)
  have b: "calm s s' \<Longrightarrow> books_kept c j s'" for s' using Suc.prems(1) by (blast intro: calm_books running_books)
  note along = wp_calm_from[where ?s0.0 = s and E = ?E, OF _ _ _ b]
  have fx: "?k \<notin> set (tn_fixes s)" using Suc.prems(1,2) by (auto simp: running_def)
  have again: "wp (integrate n d e) Q ?E s1" if cs: "calm s s1" for s1
    by (rule wp_weaken[OF Suc.IH[OF calm_running[OF cs Suc.prems(1)] Suc.prems(2)]])
      (use Suc.prems(3) calm_trans[OF cs] in \<open>auto simp: calm_same[OF cs] Q_def split: if_splits\<close>)
  have ejected: "wp (andThen (eject d e why) (\<lambda>_. ret False)) Q ?E s1" if cs: "calm s s1" for why s1
    by (rule wp_andThen, rule wp_weaken[OF eject_running[OF calm_running[OF cs Suc.prems(1)] refl]])
      (use Suc.prems fx in \<open>auto simp: calm_same[OF cs] intro: wp_ret Q\<close>)
  have noted: "keeps calm (if out = Resolved then modify (note_resolved e) else ret ())" for out
    by (auto intro!: calm_basics keeps_modify calm_note_resolved)
  have conflicts: "keeps calm (modify (\<lambda>s. s\<lparr>tn_conflicts := tn_conflicts s @ [x]\<rparr>))" for x
    by (rule keeps_modify) (simp add: calm_def)
  have gone: "wp (case how of GaveEjected \<Rightarrow> ret False | Clean \<Rightarrow> ret True
     | How out \<Rightarrow>
         if out \<noteq> GaveUp then andThen (if out = Resolved then modify (note_resolved e) else ret ()) (\<lambda>_. ret True)
         else andThen (asked d q ''eject'') (\<lambda>answer. andThen (live d) (\<lambda>_.
             if answer \<noteq> ''retry'' then
               andThen (modify (\<lambda>s. s\<lparr>tn_conflicts := tn_conflicts s @ [x]\<rparr>)) (\<lambda>_.
               andThen (eject d e why) (\<lambda>_. ret False))
             else integrate n d e))) Q ?E s1"
    if "if how = GaveEjected then running c j (X - {?k}) s1 else calm s s1" for how q x why s1
    using that
    by (cases how) (auto intro!: wp_ret Q along calm_asked calm_live noted noted[of Resolved, simplified] conflicts ejected again)
  show ?case
    unfolding integrate.simps Q_def [symmetric]
    by (rule wp_andThen, rule wp_weaken[OF resolve_running[OF Suc.prems]]) (rule gone, assumption)+
qed

section \<open>A repair\<close>

definition whole_repairs :: "train_config \<Rightarrow> bool" where
  "whole_repairs c \<longleftrightarrow> is_int_rat (or_else (tc_maxRepairs c) 1) \<and> 0 \<le> or_else (tc_maxRepairs c) 1"

lemma validated_repairs: "validateTrain c ac = None \<Longrightarrow> whole_repairs c"
  by (auto simp: validateTrain_def whole_repairs_def is_int_rat_def or_else_def split: if_splits option.splits)

lemma below_bound:
  assumes "whole_repairs c" and "of_nat n < or_else (tc_maxRepairs c) 1 + of_nat x"
  shows "of_nat (n + 1) \<le> or_else (tc_maxRepairs c) 1 + (of_nat x :: rat)"
proof -
  obtain i where i: "or_else (tc_maxRepairs c) 1 = of_int i" using assms(1) unfolding whole_repairs_def is_int_rat_def by metis
  with assms(2) have "of_int (int n) < (of_int (i + int x) :: rat)" by simp
  then have "int n + 1 \<le> i + int x" unfolding of_int_less_iff by simp
  then have "(of_int (int n + 1) :: rat) \<le> of_int (i + int x)" unfolding of_int_le_iff .
  then show ?thesis by (simp add: i)
qed

text \<open>What is known once a repair is granted: one more fits the bound.\<close>

definition may_repair :: "train_config \<Rightarrow> entry \<Rightarrow> train_state \<Rightarrow> bool" where
  "may_repair c e s \<longleftrightarrow> (\<exists>x. jm_get (tn_entries s) (en_key e) = Some x \<and> of_nat (en_repairs x + 1) \<le> repair_bound c x)"

lemma calm_may_repair: "calm s s' \<Longrightarrow> may_repair c e s \<Longrightarrow> may_repair c e s'"
  by (simp add: may_repair_def calm_same)

lemma may_repair_known: "may_repair c e s \<Longrightarrow> state_of s (en_key e) \<noteq> None"
  by (auto simp: may_repair_def state_of_def)

lemma granted_running:
  assumes "running c j X s" and "whole_repairs c" and "en_key e \<in> X" and e: "jm_get (tn_entries s) (en_key e) = Some e"
  shows "wp (granted c d e broke) (\<lambda>go s'. if go then running c j X s' \<and> may_repair c e s' else running c j (X - {en_key e}) s')
    (\<lambda>_. books_kept c j) s"
proof -
  let ?E = "\<lambda>_ :: train_stop. books_kept c j" and ?k = "en_key e"
  define Q where "Q = (\<lambda>go s'. if go then running c j X s' \<and> may_repair c e s' else running c j (X - {?k}) s')"
  have Q: "running c j (X - {?k}) s' \<Longrightarrow> Q False s'" "running c j X s' \<Longrightarrow> may_repair c e s' \<Longrightarrow> Q True s'" for s'
    by (simp_all add: Q_def)
  have b: "calm s s' \<Longrightarrow> books_kept c j s'" for s' using assms(1) by (blast intro: calm_books running_books)
  note along = wp_calm_from[where ?s0.0 = s and E = ?E, OF _ _ _ b]
  have fx: "?k \<notin> set (tn_fixes s)" using assms(1,3) by (auto simp: running_def)
  have known: "state_of s ?k \<noteq> None" using e by (simp add: state_of_def)
  have bound: "of_nat (en_repairs e) \<le> repair_bound c e"
    using assms(1) e by (auto simp: running_def books_kept_def bounded_repairs_def)
  have ejected: "wp (andThen (eject d e why) (\<lambda>_. ret False)) Q ?E s1" if cs: "calm s s1" for why s1
    by (rule wp_andThen, rule wp_weaken[OF eject_running[OF calm_running[OF cs assms(1)] refl]])
      (use assms known fx in \<open>auto simp: calm_same[OF cs] intro: wp_ret Q\<close>)
  let ?f = "\<lambda>e. e\<lparr>en_extra := en_extra e + 1\<rparr>"
  have extra: "wp (andThen (modify (update_entry ?k ?f)) (\<lambda>_. ret True)) Q ?E s1" if cs: "calm s s1" for s1
  proof (intro wp_modify_from wp_ret Q)
    show "running c j X (update_entry ?k ?f s1)"
      by (rule recount_running[OF calm_running[OF cs assms(1)]]) (auto simp: repair_bound_def)
    show "may_repair c e (update_entry ?k ?f s1)"
      using e bound by (auto simp: may_repair_def get_update calm_same[OF cs] repair_bound_def)
  qed
  have "may_repair c e s" if "of_nat (en_repairs e) < repair_bound c e"
    using that e below_bound[OF assms(2)] by (auto simp: may_repair_def repair_bound_def)
  then show ?thesis
    unfolding granted_def Q_def [symmetric]
    using assms(1) by (auto intro!: wp_ret Q along calm_asked calm_live ejected extra extra[simplified] calmly.R_refl)
qed

lemma fix_entry_running:
  assumes "running c j X s" and "whole_repairs c" and "k \<in> X"
  shows "wp (fix_entry n c d k) (\<lambda>_ s'. running c j (X - {k}) s') (\<lambda>_. books_kept c j) s"
proof -
  let ?E = "\<lambda>_ :: train_stop. books_kept c j" and ?Q = "\<lambda>(_ :: unit) s'. running c j (X - {k}) s'"
  have "active s k" using assms(1,3) by (simp add: running_def)
  then obtain e where e: "jm_get (tn_entries s) k = Some e" by (auto simp: active_def state_of_def)
  have "stored s" using assms(1) by (simp add: running_def books_kept_def)
  then have key: "en_key e = k" using e unfolding stored_def by (blast intro: jm_keyed_get)
  have inX: "en_key e \<in> X" using assms(3) key by simp
  have ejects: "wp (eject d e why) ?Q ?E s1" if "running c j X s1" and "state_of s1 (en_key e) \<noteq> None" for why s1
    by (rule wp_weaken[OF eject_running[OF that(1) refl that(2)]]) (use that(1) inX key in \<open>auto simp: running_def\<close>)
  have requeue: "wp (enqueue d e after) ?Q ?E s1" if "running c j X s1" for after s1
    by (rule wp_weaken[OF enqueue_running[OF that refl]]) (use inX key in auto)
  have known: "state_of s (en_key e) \<noteq> None" using e key by (simp add: state_of_def)
  have integrated: "wp (andThen (integrate n d e) f) ?Q ?E s1"
    if r1: "running c j X s1" and kn: "state_of s1 (en_key e) \<noteq> None"
      and t: "\<And>s2. calm s1 s2 \<Longrightarrow> wp (f True) ?Q ?E s2" and f: "f False = ret ()" for f s1
    by (rule wp_andThen, rule wp_weaken[OF integrate_running[OF r1 inX kn]])
      (auto simp: f key intro: wp_ret t split: if_splits)
  have finish: "wp (finish_repair d e m i broke err) ?Q ?E s1" if r1: "running c j X s1" for m i broke err s1
  proof -
    have b: "calm s1 s' \<Longrightarrow> books_kept c j s'" for s' using r1 by (blast intro: calm_books running_books)
    note along = wp_calm_from[where ?s0.0 = s1 and E = ?E, OF _ _ _ b]
    show ?thesis
      unfolding finish_repair_def
      by (auto intro!: along calmly.keeps_env calm_ref calm_record calmly.R_refl requeue intro: calm_running[OF _ r1])
  qed
  have stepped: "wp (andThen (agent d e m Repair p) (\<lambda>st. case st of
        AgentBudget why \<Rightarrow> eject d e why
      | AgentDone err incident \<Rightarrow>
          andThen (case incident of None \<Rightarrow> ret True | Some signals \<Rightarrow> carryOn d e Repair signals) (\<lambda>go.
            if \<not> go then eject d e why' else finish_repair d e m i broke err))) ?Q ?E s1"
    if r1: "running c j X s1" and kn: "state_of s1 (en_key e) \<noteq> None" for m p i why' broke s1
  proof -
    have b: "calm s1 s' \<Longrightarrow> books_kept c j s'" for s' using r1 by (blast intro: calm_books running_books)
    note along = wp_calm_from[where ?s0.0 = s1 and E = ?E, OF _ _ _ b]
    have carried: "keeps calm (case incident of None \<Rightarrow> ret True | Some signals \<Rightarrow> carryOn d e Repair signals)" for incident
      by (auto intro!: calm_basics calm_carryOn split: option.split)
    have ej: "wp (eject d e why) ?Q ?E s2" if cs: "calm s1 s2" for why s2
      by (rule ejects[OF calm_running[OF cs r1]]) (use kn in \<open>simp add: calm_same[OF cs]\<close>)
    have fin: "wp (finish_repair d e m i broke err) ?Q ?E s2" if cs: "calm s1 s2" for err s2
      by (rule finish[OF calm_running[OF cs r1]])
    show ?thesis
      by (rule along, rule calm_agent, rule calmly.R_refl)
        (auto intro!: ej along carried fin split: agent_end.split)
  qed
  have counted: "wp (andThen (modify (update_entry (en_key e) (\<lambda>e. e\<lparr>en_repairs := en_repairs e + 1\<rparr>))) f) ?Q ?E s2"
    if r2: "running c j X s2" and m: "may_repair c e s2"
      and rest: "\<And>s3. running c j X s3 \<Longrightarrow> state_of s3 (en_key e) \<noteq> None \<Longrightarrow> wp (f ()) ?Q ?E s3" for f s2
  proof (rule wp_modify_from, rule rest)
    show "running c j X (update_entry (en_key e) (\<lambda>e. e\<lparr>en_repairs := en_repairs e + 1\<rparr>) s2)"
      by (rule recount_running[OF r2]) (use m in \<open>auto simp: may_repair_def repair_bound_def\<close>)
    show "state_of (update_entry (en_key e) (\<lambda>e. e\<lparr>en_repairs := en_repairs e + 1\<rparr>) s2) (en_key e) \<noteq> None"
      using may_repair_known[OF m] by (auto simp: state_of_def get_update)
  qed
  have member: "wp (case ownerOf d e of None \<Rightarrow> eject d e no_one
     | Some m \<Rightarrow> andThen (integrate n d e) (\<lambda>ok. if \<not> ok then ret () else
           andThen (modify (update_entry (en_key e) (\<lambda>e. e\<lparr>en_repairs := en_repairs e + 1\<rparr>))) (\<lambda>_.
           andThen (agent d e m Repair (p m)) (\<lambda>st. case st of
             AgentBudget why \<Rightarrow> eject d e why
           | AgentDone err incident \<Rightarrow>
               andThen (case incident of None \<Rightarrow> ret True | Some signals \<Rightarrow> carryOn d e Repair signals) (\<lambda>go.
                 if \<not> go then eject d e why' else finish_repair d e m i broke err))))) ?Q ?E s1"
    if r1: "running c j X s1" and m: "may_repair c e s1" for no_one p i why' broke s1
  proof (cases "ownerOf d e")
    case None
    then show ?thesis using ejects[OF r1 may_repair_known[OF m]] by simp
  next
    case (Some m')
    show ?thesis
      unfolding Some option.case
      by (rule integrated[OF r1 may_repair_known[OF m]], simp_all only: not_True_eq_False not_False_eq_True if_True if_False)
        (rule counted, (erule calm_running[OF _ r1] calm_may_repair[OF _ m])+, rule stepped)
  qed
  have e': "jm_get (tn_entries s) (en_key e) = Some e" using e key by simp
  have repaired: "wp (repair n c d e) ?Q ?E s"
  proof (cases "en_verdict e")
    case None
    then show ?thesis using assms(1) by (simp add: repair_def verdict_of_def wp_throw running_books)
  next
    case (Some v)
    show ?thesis
      unfolding repair_def Let_def verdict_of_def Some option.case andThen_ret
    proof (rule_tac wp_andThen, rule_tac wp_weaken[OF granted_running[OF assms(1,2) inX e']], goal_cases)
      case (1 go s1)
      show ?case
      proof (cases go)
        case True
        then have "running c j X s1" "may_repair c e s1" using 1 by simp_all
        from member[OF this] show ?thesis by (simp only: True not_True_eq_False if_False)
      qed (use 1 key in \<open>simp add: wp_ret\<close>)
    qed
  qed
  have resolved: "wp (andThen (integrate n d e) (\<lambda>ok. if ok then enqueue d e (Some Resolve) else ret ())) ?Q ?E s"
    by (rule integrated[OF assms(1) known]) (auto intro!: requeue intro: calm_running[OF _ assms(1)])
  show ?thesis
    unfolding fix_entry_def by (rule wp_gets_from) (simp add: e resolved repaired)
qed

section \<open>The waves\<close>

lemma fixes_running:
  assumes "running c j (set ks) s" and "distinct ks" and "whole_repairs c"
  shows "wp (each_do (fix_entry n c d) ks) (\<lambda>_ s'. running c j {} s') (\<lambda>_. books_kept c j) s"
proof -
  let ?I = "\<lambda>ks s. running c j (set ks) s \<and> distinct ks"
  have "wp (each_do (fix_entry n c d) ks) (\<lambda>_. ?I []) (\<lambda>_. books_kept c j) s"
  proof (rule wp_each_do[where I = ?I])
    show "?I ks s" using assms by simp
  next
    fix k ks s1 assume I: "?I (k # ks) s1"
    then show "wp (fix_entry n c d k) (\<lambda>_. ?I ks) (\<lambda>_. books_kept c j) s1"
      by (intro wp_weaken[OF fix_entry_running[of c j "set (k # ks)", OF _ assms(3)]]) auto
  qed
  then show ?thesis by (rule wp_weaken) simp_all
qed

definition all_settled :: "train_state \<Rightarrow> bool" where
  "all_settled s \<longleftrightarrow> (\<forall>k. state_of s k \<noteq> None \<longrightarrow> state_of s k = Some Landed \<or> state_of s k = Some Ejected)"

lemma byPriority_set: "set (byPriority s) = set (jm_vals (tn_entries s))"
  by (simp add: byPriority_def)

lemma eject_queued_running:
  assumes "running c j {} s" and fx: "tn_fixes s = []"
  shows "wp (eject_queued d) (\<lambda>_ s'. running c j {} s' \<and> all_settled s') (\<lambda>_. books_kept c j) s"
proof -
  let ?E = "\<lambda>_ :: train_stop. books_kept c j" and ?es = "byPriority s"
  let ?I = "\<lambda>xs s'. running c j {} s' \<and> ejecting s s' \<and> set xs \<subseteq> set ?es \<and>
     (\<forall>k. state_of s' k = Some Queued \<longrightarrow> k \<in> en_key ` set xs)"
  have st: "stored s" using assms(1) by (simp add: running_def books_kept_def)
  have "wp (each_do (\<lambda>e. andThen (gets (\<lambda>s. state_of s (en_key e))) (\<lambda>st.
         if st = Some Queued then eject d e ''blocked by an entry that did not land'' else ret ())) ?es) (\<lambda>_. ?I []) ?E s"
  proof (rule wp_each_do[where I = ?I])
    have "k \<in> en_key ` set ?es" if "state_of s k = Some Queued" for k
      using that st unfolding byPriority_set stored_def
      by (auto simp: state_of_def image_iff) (metis jm_keyed_get jm_keyed_mem)
    then show "?I ?es s" using assms ejecting_refl by simp
  next
    fix e xs s1 assume I: "?I (e # xs) s1"
    have one: "wp (if state_of s1 (en_key e) = Some Queued then eject d e ''blocked by an entry that did not land'' else ret ()) (\<lambda>_. ?I xs) ?E s1"
    proof (cases "state_of s1 (en_key e) = Some Queued")
      case True
      have fx1: "en_key e \<notin> set (tn_fixes s1)" using I fx by (simp add: ejecting_def)
      have post: "?I xs s2" if "running c j ({} - {en_key e}) s2 \<and> ejecting_but (en_key e) s1 s2" for s2
      proof -
        have ej: "ejecting s1 s2" using that True by (blast intro: ejecting_but_ejecting)
        have "k \<in> en_key ` set xs" if "state_of s2 k = Some Queued" for k
        proof -
          have "k \<noteq> en_key e" using that \<open>running c j _ s2 \<and> _\<close> True by (auto simp: ejecting_but_def)
          moreover have "state_of s1 k = Some Queued" using that ej by (metis ejecting_def entry_state.distinct(7) option.inject)
          ultimately show ?thesis using I by auto
        qed
        then show ?thesis using I that ejecting_trans[OF _ ej] by simp
      qed
      show ?thesis
        unfolding if_P[OF True]
        by (rule wp_weaken[OF eject_running[of c j "{}" s1 "en_key e" e]]) (use I True fx1 post in auto)
    next
      case False
      then have "k \<in> en_key ` set xs" if "state_of s1 k = Some Queued" for k using I that by auto
      then show ?thesis using I False by (simp add: wp_ret)
    qed
    show "wp (andThen (gets (\<lambda>s. state_of s (en_key e))) (\<lambda>st.
         if st = Some Queued then eject d e ''blocked by an entry that did not land'' else ret ())) (\<lambda>_. ?I xs) ?E s1"
      by (rule wp_gets_from, rule one)
  qed
  moreover have "running c j {} s' \<and> all_settled s'" if "?I [] s'" for s'
  proof -
    have nact: "\<not> active s' k" for k using that fx by (auto simp: running_def ejecting_def)
    have nq: "state_of s' k \<noteq> Some Queued" for k using that by auto
    have "st = Landed \<or> st = Ejected" if "state_of s' k = Some st" for k st
      using nact[of k] nq[of k] that by (cases st) (auto simp: active_def)
    then have "all_settled s'" by (auto simp: all_settled_def)
    then show ?thesis using that by simp
  qed
  ultimately show ?thesis
    unfolding eject_queued_def by (intro wp_gets_from) (rule wp_weaken)
qed

lemma stop_train_books:
  assumes "books_kept c j s" and "tn_stopped s = None"
  shows "wp (stop_train d why) (\<lambda>_ s'. books_kept c j s' \<and> tn_stopped s' = Some why)
    (\<lambda>_ s'. books_kept c j s' \<and> tn_stopped s' = Some why) s"
proof -
  let ?s = "mark_stopped why s"
  have b: "books_kept c j ?s" using assms by (rule mark_stopped_books)
  have st: "tn_stopped ?s = Some why" by (simp add: mark_stopped_def)
  have "keeps calm (andThen (gets (\<lambda>s. (map br_taskKey (tn_landed s), map br_taskKey (tn_withheld s)))) (\<lambda>(landed, withheld).
     andThen (record_event d (TrStopped why landed withheld)) (\<lambda>_.
     andThen (env (tg_list (td_git d))) (\<lambda>ws. each_do (\<lambda>wt. env (tg_removeWorktree (td_git d) wt)) ws))))"
    by (auto intro!: calm_basics)
  then show ?thesis
    unfolding stop_train_def
    by (intro wp_modify_from wp_calm) (auto simp: st calm_same intro: calm_books[OF _ b])
qed

definition ended :: "train_config \<Rightarrow> train_event list \<Rightarrow> train_state \<Rightarrow> bool" where
  "ended c j s \<longleftrightarrow> books_kept c j s \<and> (tn_stopped s \<noteq> None \<or> all_settled s)"

lemma distinct_priority:
  assumes "stored s"
  shows "distinct (map en_key (byPriority s))"
proof -
  have "distinct (map en_key (jm_vals (tn_entries s)))"
    using assms by (simp add: stored_def jm_keyed_vals jm_wf_def jm_keys_def)
  moreover have "mset (map en_key (byPriority s)) = mset (map en_key (jm_vals (tn_entries s)))" by (simp add: byPriority_def)
  ultimately show ?thesis by (metis mset_eq_imp_distinct_iff)
qed

lemma ready_landable:
  assumes "stored s"
  shows "landable s (take n (ready_entries s))"
proof -
  have "landable s (ready_entries s)"
    unfolding landable_def ready_entries_def
    using distinct_priority[OF assms] blockers_of_value[OF assms]
    by (auto simp: cleared_def byPriority_set intro: distinct_map_filter)
  then show ?thesis by (rule landable_parts)
qed

lemma waves_running:
  assumes "running c j {} s" and "whole_repairs c"
  shows "wp (waves n c d) (\<lambda>_. ended c j) (\<lambda>_. books_kept c j) s"
  using assms(1)
proof (induction n arbitrary: s)
  case 0
  then show ?case by (simp add: wp_throw running_books)
next
  case (Suc n)
  let ?E = "\<lambda>_ :: train_stop. books_kept c j" and ?Q = "\<lambda>_ :: unit. ended c j"
  have stopped: "wp (stop_train d why) ?Q ?E s1" if "running c j {} s1" for why s1
    by (rule wp_weaken[OF stop_train_books[of c j]]) (use that in \<open>auto simp: running_def ended_def\<close>)
  have landed: "wp (andThen (land d (take (batch_size c) (ready_entries s1))) (\<lambda>_.
       andThen (gets tn_unavailable) (\<lambda>un. case un of None \<Rightarrow> waves n c d | Some why \<Rightarrow> stop_train d (w why)))) ?Q ?E s1"
    if r: "running c j {} s1" for w s1
  proof -
    have "stored s1" using r by (simp add: running_def books_kept_def)
    then show ?thesis
      by (intro wp_andThen wp_weaken[OF land_running[OF r ready_landable]])
        (auto intro!: wp_gets Suc.IH stopped split: option.split)
  qed
  have fixed: "wp (andThen take_fixes (\<lambda>fixes. if fixes = [] then eject_queued d
         else andThen (each_do (fix_entry n c d) fixes) (\<lambda>_. waves n c d))) ?Q ?E s1"
    if r: "running c j {} s1" for s1
  proof (rule wp_andThen, rule wp_take_fixes)
    let ?s = "s1\<lparr>tn_fixes := []\<rparr>"
    have t: "running c j (set (tn_fixes s1)) ?s" and dist: "distinct (tn_fixes s1)"
      using take_fixes_running[OF r] r by (simp_all add: running_def)
    show "wp (if tn_fixes s1 = [] then eject_queued d else andThen (each_do (fix_entry n c d) (tn_fixes s1)) (\<lambda>_. waves n c d)) ?Q ?E ?s"
    proof (cases "tn_fixes s1 = []")
      case True
      have "wp (eject_queued d) ?Q ?E ?s"
        by (rule wp_weaken[OF eject_queued_running[of c j]]) (use t True in \<open>auto simp: ended_def running_books\<close>)
      then show ?thesis using True by simp
    next
      case False
      have "wp (andThen (each_do (fix_entry n c d) (tn_fixes s1)) (\<lambda>_. waves n c d)) ?Q ?E ?s"
        by (rule wp_andThen, rule wp_weaken[OF fixes_running[OF t dist assms(2)]]) (auto intro: Suc.IH)
      then show ?thesis using False by simp
    qed
  qed
  have b: "calm s s' \<Longrightarrow> books_kept c j s'" for s' using Suc.prems by (blast intro: calm_books running_books)
  have go: "wp (if ready_entries s1 \<noteq> [] then
       andThen (land d (take (batch_size c) (ready_entries s1))) (\<lambda>_.
       andThen (gets tn_unavailable) (\<lambda>un. case un of
         None \<Rightarrow> waves n c d
       | Some why \<Rightarrow> stop_train d (''verifier unavailable: '' @ why)))
     else
       andThen take_fixes (\<lambda>fixes.
         if fixes = [] then eject_queued d
         else andThen (each_do (fix_entry n c d) fixes) (\<lambda>_. waves n c d))) ?Q ?E s1" if "calm s s1" for s1
    using landed[OF calm_running[OF that Suc.prems]] fixed[OF calm_running[OF that Suc.prems]] by simp
  show ?case
    unfolding waves.simps
    by (rule wp_calm_then, rule calm_live, rule wp_gets_from, rule go, assumption, rule b)
qed

section \<open>Setting the entries up\<close>

definition fresh :: "train_event list \<Rightarrow> train_state \<Rightarrow> bool" where
  "fresh j s \<longleftrightarrow> stored s \<and> (\<forall>k e. jm_get (tn_entries s) k = Some e \<longrightarrow> en_state e = Queued \<and> en_repairs e = 0 \<and> en_extra e = 0) \<and>
     tn_journal s = j \<and> tn_landed s = [] \<and> tn_ejected s = [] \<and> tn_withheld s = [] \<and> tn_stopped s = None \<and> tn_fixes s = []"

lemma fresh_new: "fresh j (train_new j)"
  by (simp add: fresh_def train_new_def stored_def)

lemma fresh_state: "fresh j s \<Longrightarrow> state_of s k = None \<or> state_of s k = Some Queued"
  by (cases "jm_get (tn_entries s) k") (auto simp: fresh_def state_of_def)

lemma fresh_running:
  assumes "fresh j s" and "whole_repairs c"
  shows "running c j {} s"
proof -
  note st = fresh_state[OF assms(1)]
  have nl: "state_of s k \<noteq> Some Landed" "state_of s k \<noteq> Some Ejected" "\<not> active s k" for k
    using st[of k] by (auto simp: active_def)
  have "bounded_repairs c s"
    using assms by (auto simp: fresh_def bounded_repairs_def repair_bound_def whole_repairs_def)
  then have "books_kept c j s"
    using assms nl by (auto simp: fresh_def intro!: booksI[where es = "[]"])
  then show ?thesis using assms nl by (auto simp: fresh_def intro!: runningI)
qed

lemma add_entry_fresh: "fresh j s \<Longrightarrow> wp (add_entry d x) (\<lambda>_. fresh j) (\<lambda>_. fresh j) s"
  unfolding add_entry_def Let_def
  by (cases x) (auto intro!: wp_andThen wp_env wp_modify simp: fresh_def stored_def split: if_splits)

lemma known_blockers_fresh: "fresh j s \<Longrightarrow> fresh j (known_blockers s)"
proof -
  assume f: "fresh j s"
  have "jm_keys (tn_entries (known_blockers s)) = jm_keys (tn_entries s)"
    by (simp add: known_blockers_def jm_keys_def case_prod_beta comp_def)
  then have "jm_wf (tn_entries (known_blockers s)) = jm_wf (tn_entries s)" by (simp add: jm_wf_def jm_keys_def)
  then have "stored (known_blockers s)"
    using f by (auto simp: fresh_def stored_def) (auto simp: jm_keyed_def known_blockers_def)
  then show ?thesis using f by (auto simp: fresh_def known_blockers_get) (simp_all add: known_blockers_def)
qed

lemma setup_fresh: "fresh j s \<Longrightarrow> wp (setup_train d) (\<lambda>_. fresh j) (\<lambda>_. fresh j) s"
  unfolding setup_train_def
  by (intro wp_andThen wp_env wp_weaken[OF wp_each_do[where I = "\<lambda>_. fresh j"]] wp_modify)
    (auto intro: add_entry_fresh known_blockers_fresh)

lemma enqueue_all_running:
  assumes "running c j {} s" and "\<forall>e \<in> set es. state_of s (en_key e) = Some Queued"
  shows "wp (each_do (\<lambda>e. enqueue d e None) es) (\<lambda>_. running c j {}) (\<lambda>_. books_kept c j) s"
proof -
  let ?I = "\<lambda>(xs :: entry list) s'. running c j {} s' \<and> (\<forall>e \<in> set xs. state_of s' (en_key e) = Some Queued)"
  have "wp (each_do (\<lambda>e. enqueue d e None) es) (\<lambda>_. ?I []) (\<lambda>_. books_kept c j) s"
  proof (rule wp_each_do[where I = ?I])
    show "?I es s" using assms by simp
  next
    fix e xs s1 assume I: "?I (e # xs) s1"
    then have r: "running c j {} s1" "en_key e \<in> {} \<or> state_of s1 (en_key e) = Some Queued" by simp_all
    show "wp (enqueue d e None) (\<lambda>_. ?I xs) (\<lambda>_. books_kept c j) s1"
      by (rule wp_weaken[OF enqueue_running[OF r(1) refl r(2)]]) (use I in \<open>auto simp: calm_same(1) train_simps\<close>)
  qed
  then show ?thesis by (rule wp_weaken) simp_all
qed

section \<open>The sequential queue\<close>

fun baseline_failed :: "train_event \<Rightarrow> bool" where
  "baseline_failed (TrBaseline v _) \<longleftrightarrow> \<not> tv_passed v"
| "baseline_failed _ \<longleftrightarrow> False"

definition failing_start :: "train_event list \<Rightarrow> train_state \<Rightarrow> bool" where
  "failing_start j s \<longleftrightarrow> journal_backed j s \<and> list_ex baseline_failed (drop (length j) (tn_journal s))"

definition queueing :: "train_state \<Rightarrow> train_state \<Rightarrow> bool" where
  "queueing s s' \<longleftrightarrow> blockers s' = blockers s \<and>
     (\<exists>es. tn_journal s' = tn_journal s @ es \<and> (\<forall>e \<in> set es. \<forall>B past. landing_backed B past e))"

interpretation queue_steps: train_relation queueing
proof
  show "queueing s s" for s by (simp add: queueing_def)
  show "queueing s s''" if "queueing s s'" and "queueing s' s''" for s s' s''
    using that unfolding queueing_def by (auto simp: ball_Un)
qed

lemma calm_queueing: "keeps calm m \<Longrightarrow> keeps queueing m"
  by (erule keeps_weaken) (auto simp: queueing_def calm_same(2) elim!: calm_journal intro: not_lands_backed)

lemma backed_all: "(\<And>e B past. e \<in> set es \<Longrightarrow> landing_backed B past e) \<Longrightarrow> backed B past es"
  by (induction es arbitrary: past) auto

lemma queueing_failing: "queueing s s' \<Longrightarrow> failing_start j s \<Longrightarrow> failing_start j s'"
  unfolding queueing_def failing_start_def journal_backed_def using backed_all by fastforce

lemmas queue_basics =
  queue_steps.keeps_ret queue_steps.keeps_throw queue_steps.keeps_env queue_steps.keeps_gets queue_steps.keeps_andThen
  queue_steps.keeps_each_do queue_steps.keeps_each

lemma queue_landed_keeps: "keeps queueing (queue_landed d refs tip merged_tip m)"
proof -
  have "keeps queueing (record_event d (TrLanded r 0 merged_tip True))" for r
    unfolding record_event_def
    by (intro queue_basics keeps_modify) (auto simp: queueing_def train_simps entries_same(2)[of "log_event _ _"])
  moreover have "keeps queueing (modify (set_state Landed k))" for k
    by (rule keeps_modify) (simp add: queueing_def train_simps)
  ultimately show ?thesis
    unfolding queue_landed_def
    by (auto intro!: queue_basics calm_queueing[OF calm_evidence] split: option.split prod.split)
qed

lemma queue_path_keeps: "keeps queueing (queue_path d tip failing)"
proof -
  have "keeps queueing (queue_conflicted d t b)" for t b
    unfolding queue_conflicted_def
    by (auto intro!: queue_basics calm_queueing[OF calm_evidence] split: option.split)
  then show ?thesis
    unfolding queue_path_def Let_def
    by (auto intro!: queue_basics queue_landed_keeps calm_queueing[OF calm_ref] calm_queueing[OF calm_record])
qed

lemma wp_record_then:
  "wp (f ()) Q E (log_event e s) \<Longrightarrow> (\<And>x. E (Threw x) s) \<Longrightarrow> wp (andThen (record_event d e) f) Q E s"
  unfolding record_event_def by (intro wp_andThen wp_env wp_modify)

lemma stop_train_keeps: "keeps queueing (stop_train d why)"
proof -
  have "keeps queueing (modify (mark_stopped why))"
    by (rule keeps_modify) (simp add: queueing_def blockers_def fun_eq_iff mark_stopped_def)
  then show ?thesis
    unfolding stop_train_def by (auto intro!: queue_basics calm_queueing[OF calm_record])
qed

section \<open>The whole train\<close>

lemma failing_baseline_running:
  assumes "running c j {} s" and "failing_start j s"
  shows "wp (failing_baseline d tip v) (\<lambda>r s'. failing_start j s' \<or> ended c j s' \<and> r = train_result d s')
    (\<lambda>_ s'. failing_start j s' \<or> books_kept c j s') s"
proof -
  have b: "calm s s' \<Longrightarrow> books_kept c j s'" for s' using assms(1) by (blast intro: calm_books running_books)
  have stopped: "wp (andThen (stop_train d why) (\<lambda>_. finished d)) (\<lambda>r s'. failing_start j s' \<or> ended c j s' \<and> r = train_result d s')
    (\<lambda>_ s'. failing_start j s' \<or> books_kept c j s') s1" if "calm s s1" for why s1
    unfolding finished_def
    by (rule wp_andThen, rule wp_weaken[OF stop_train_books[OF b[OF that]]])
      (use assms(1) calm_same[OF that] in \<open>auto simp: running_def ended_def intro!: wp_gets\<close>)
  have queued: "wp (queue_path d tip f) (\<lambda>r s'. failing_start j s' \<or> ended c j s' \<and> r = train_result d s')
    (\<lambda>_ s'. failing_start j s' \<or> books_kept c j s') s1" if "calm s s1" for f s1
  proof -
    have "queueing s s1" using that by (auto simp: queueing_def calm_same elim!: calm_journal intro: not_lands_backed)
    then have "failing_start j s1" using assms(2) by (rule queueing_failing)
    then show ?thesis by (intro wp_weaken[OF wp_keeps[OF queue_path_keeps]]) (auto intro: queueing_failing)
  qed
  show ?thesis
    unfolding failing_baseline_def Let_def
    by (auto intro!: wp_calm_from[where ?s0.0 = s] calm_asked calm_live calmly.R_refl stopped queued intro: b)
qed

lemma train_body_running:
  assumes "whole_repairs c"
  shows "wp (train_body n c d) (\<lambda>r s'. failing_start j s' \<or> ended c j s' \<and> r = train_result d s')
    (\<lambda>_ s'. failing_start j s' \<or> books_kept c j s') (train_new j)"
proof -
  let ?Q = "\<lambda>r s'. failing_start j s' \<or> ended c j s' \<and> r = train_result d s'"
  let ?E = "\<lambda>_ :: train_stop. \<lambda>s'. failing_start j s' \<or> books_kept c j s'"
  have judged: "wp (case baseline of
         Inl why \<Rightarrow>
           andThen (record_event d (TrUnverified 0 tip [] why)) (\<lambda>_.
           andThen (stop_train d (w why)) (\<lambda>_. finished d))
       | Inr v \<Rightarrow>
           andThen (record_event d (TrBaseline (kept_verdict v) tip)) (\<lambda>_.
             if tv_passed v then andThen (waves n c d) (\<lambda>_. finished d)
             else failing_baseline d tip v)) ?Q ?E s" if r: "running c j {} s" for s tip w and baseline :: "string + train_verdict"
  proof (cases baseline)
    case (Inl why)
    let ?s = "log_event (TrUnverified 0 tip [] why) s"
    have r1: "running c j {} ?s" by (rule calm_running[OF _ r]) (simp add: calm_log)
    have "wp (andThen (stop_train d (w why)) (\<lambda>_. finished d)) ?Q ?E ?s"
      unfolding finished_def
      by (rule wp_andThen, rule wp_weaken[OF stop_train_books[of c j]])
        (use r1 in \<open>auto simp: running_def ended_def intro!: wp_gets\<close>)
    then show ?thesis
      unfolding Inl sum.case by (intro wp_record_then) (use running_books[OF r] in auto)
  next
    case (Inr v)
    let ?s = "log_event (TrBaseline (kept_verdict v) tip) s"
    have r1: "running c j {} ?s" by (rule calm_running[OF _ r]) (simp add: calm_log)
    have passed: "wp (andThen (waves n c d) (\<lambda>_. finished d)) ?Q ?E ?s"
      unfolding finished_def
      by (rule wp_andThen, rule wp_weaken[OF waves_running[OF r1 assms]]) (auto intro!: wp_gets)
    have failing: "wp (failing_baseline d tip v) ?Q ?E ?s" if "\<not> tv_passed v"
    proof (rule failing_baseline_running[OF r1])
      have "length j \<le> length (tn_journal s)" using r by (auto elim: runningE)
      then show "failing_start j ?s"
        using that running_books[OF r1] by (auto simp: failing_start_def books_kept_def train_simps)
    qed
    have "wp (if tv_passed v then andThen (waves n c d) (\<lambda>_. finished d) else failing_baseline d tip v) ?Q ?E ?s"
      using passed failing by simp
    then show ?thesis
      unfolding Inr sum.case by (intro wp_record_then) (use running_books[OF r] in auto)
  qed
  have queue: "wp (andThen (env (tg_targetTip (td_git d))) (\<lambda>tip.
       andThen (gets byPriority) (\<lambda>order. andThen (each_do (\<lambda>e. enqueue d e None) order) (\<lambda>_.
       andThen (live d) (\<lambda>_.
       andThen (env (tg_speculate (td_git d) tip [])) (\<lambda>(cwd, _, _).
       andThen (env (verifyOnce d cwd tip)) (g tip))))))) ?Q ?E s"
    if f: "fresh j s" and g: "\<And>tip b s. running c j {} s \<Longrightarrow> wp (g tip b) ?Q ?E s" for s g
  proof -
    have r: "running c j {} s" by (rule fresh_running[OF f assms])
    have st: "stored s" using f by (simp add: fresh_def)
    have q: "\<forall>e \<in> set (byPriority s). state_of s (en_key e) = Some Queued"
      using blockers_of_value(2)[OF st] fresh_state[OF f] by (metis byPriority_set option.distinct(1))
    have rest: "wp (andThen (live d) (\<lambda>_.
       andThen (env (tg_speculate (td_git d) tip [])) (\<lambda>(cwd, _, _).
       andThen (env (verifyOnce d cwd tip)) (g tip)))) ?Q ?E s1" if r1: "running c j {} s1" for tip s1
    proof -
      have b: "calm s1 s' \<Longrightarrow> failing_start j s' \<or> books_kept c j s'" for s' using r1 by (blast intro: calm_books running_books)
      show ?thesis
        by (auto intro!: wp_calm_from[where ?s0.0 = s1] calm_live calmly.keeps_env calmly.R_refl g b intro: calm_running[OF _ r1])
    qed
    show ?thesis
      by (rule wp_andThen, rule wp_env, rule wp_gets_from, rule wp_andThen, rule wp_weaken[OF enqueue_all_running[OF r q]])
        (auto intro: rest running_books[OF r])
  qed
  have start: "wp (if tn_entries s = [] then finished d else andThen (env (tg_targetTip (td_git d))) f) ?Q ?E s"
    if f: "fresh j s" and g: "wp (andThen (env (tg_targetTip (td_git d))) f) ?Q ?E s" for s f
  proof (cases "tn_entries s = []")
    case True
    then have "all_settled s" by (simp add: all_settled_def state_of_def)
    then have "ended c j s" using running_books[OF fresh_running[OF f assms]] by (simp add: ended_def)
    then show ?thesis using True by (simp add: finished_def wp_gets)
  qed (use g in simp)
  show ?thesis
    unfolding train_body_def
    by (rule wp_andThen, rule wp_weaken[OF setup_fresh[OF fresh_new]], rule wp_gets_from, rule start, assumption,
        rule queue, assumption, rule judged, assumption) (auto dest: fresh_running[OF _ assms] intro: running_books)
qed

text \<open>What is known of the train's end, whichever way it ends.\<close>

theorem landTrain_ends:
  assumes "whole_repairs c" and "landTrain n c d j w = (r, s, w')"
  shows "failing_start j s \<or> books_kept c j s \<and> (case r of
      Returned out \<Rightarrow> ended c j s \<and> out = train_result d s
    | TrainStopped m out \<Rightarrow> tn_stopped s \<noteq> None \<and> out = train_result d s
    | Unfinished \<Rightarrow> True)"
proof -
  note body = train_body_running[OF assms(1), of n d j]
  obtain res s1 w1 where res: "train_body n c d (train_new j, w) = (res, s1, w1)" by (metis prod.collapse)
  show ?thesis
  proof (cases res)
    case (Inr out)
    then show ?thesis
      using wpD_Inr[OF body res[unfolded Inr]] assms(2) res by (auto simp: landTrain_def ended_def)
  next
    case (Inl e)
    note at_throw = wpD_Inl[OF body res[unfolded Inl]]
    show ?thesis
    proof (cases e)
      case OutOfFuel
      then show ?thesis using at_throw assms(2) res by (auto simp: landTrain_def Inl)
    next
      case (Threw x)
      show ?thesis
      proof (cases "tn_stopped s1")
        case (Some y)
        then show ?thesis using at_throw assms(2) res by (auto simp: landTrain_def Inl Threw)
      next
        case None
        define why where "why = (if td_abort d w1 \<noteq> None then ''aborted'' else message_of x)"
        obtain res2 s2 w2 where stop: "stop_train d why (s1, w1) = (res2, s2, w2)" by (metis prod.collapse)
        then have r: "r = TrainStopped (message_of x) (train_result d s)" "s = s2"
          using assms(2) res None stop[unfolded why_def] by (auto simp: landTrain_def Inl Threw)
        show ?thesis
        proof (cases "failing_start j s1")
          case True
          then show ?thesis using queueing_failing[OF keepsD[OF stop_train_keeps stop]] r by simp
        next
          case False
          then have b: "books_kept c j s1" using at_throw by simp
          have "books_kept c j s2 \<and> tn_stopped s2 \<noteq> None"
            using wpD_Inr[OF stop_train_books[OF b None]] wpD_Inl[OF stop_train_books[OF b None]] stop by (cases res2) fastforce+
          then show ?thesis using r by simp
        qed
      qed
    qed
  qed
qed

end
