(* ===== verification/TrainTermination.thy ===== *)
theory TrainTermination
  imports TrainSafety
begin

text \<open>
  The fuel of the train's two bounded recursions is enough: the bisection of a batch and the chain of ejections
  return, or throw what the environment threw, but never run out. And what the train's setup makes of the worktrees.
\<close>

section \<open>Steps that cannot run out of fuel\<close>

definition fuelled :: "('w, 'a) tr \<Rightarrow> bool" where
  "fuelled m \<longleftrightarrow> (\<forall>sw sw'. m sw \<noteq> (Inl OutOfFuel, sw'))"

lemma fuelled_ret [simp]: "fuelled (ret x)"
  by (simp add: fuelled_def ret_def)

lemma fuelled_env [simp]: "fuelled (env m)"
  by (auto simp: fuelled_def env_def split: prod.splits sum.splits)

lemma fuelled_gets [simp]: "fuelled (gets f)"
  by (auto simp: fuelled_def gets_def)

lemma fuelled_modify [simp]: "fuelled (modify f)"
  by (auto simp: fuelled_def modify_def)

lemma fuelled_next_batch [simp]: "fuelled next_batch"
  by (auto simp: fuelled_def next_batch_def)

lemma fuelled_andThen [intro!]: "fuelled m \<Longrightarrow> (\<And>x. fuelled (f x)) \<Longrightarrow> fuelled (andThen m f)"
  by (auto simp: fuelled_def elim!: andThen_cases)

lemma fuelled_each_do [intro!]: "(\<And>x. fuelled (f x)) \<Longrightarrow> fuelled (each_do f xs)"
  by (induction xs) auto

lemma fuelled_each [intro!]: "(\<And>x. fuelled (f x)) \<Longrightarrow> fuelled (each f xs)"
  by (induction xs) auto

lemma fuelled_parts [simp]:
  "fuelled (record_event d e)" "fuelled (ref d en)" "fuelled (live d)" "fuelled (evidence d la)"
  by (auto simp: record_event_def ref_def live_def evidence_def)

abbreviation not_out :: "train_stop \<Rightarrow> train_state \<Rightarrow> bool" where
  "not_out e s \<equiv> e \<noteq> OutOfFuel"

lemma fuelled_wp: "fuelled m \<Longrightarrow> (\<And>x s'. Q x s') \<Longrightarrow> wp m Q not_out s"
  by (rule wpI) (auto simp: fuelled_def)

lemma wp_fuelled_then: "fuelled m \<Longrightarrow> (\<And>x s'. wp (f x) Q not_out s') \<Longrightarrow> wp (andThen m f) Q not_out s"
  by (rule wp_andThen) (rule fuelled_wp)

lemma wp_not_out: "(\<And>s. wp m (\<lambda>_ _. True) not_out s) \<Longrightarrow> fuelled m"
  unfolding fuelled_def using wpD_Inl by fastforce

section \<open>The bisection\<close>

lemma fuelled_land_verified: "fuelled (land_verified d i tip tc es)"
  unfolding land_verified_def land_one_def by (auto split: prod.split)

lemma try_batch_shrinks:
  "wp (try_batch d batch parent) (\<lambda>((i, tip, tc, merged), tried) s'. length merged \<le> length batch \<and> (tried \<noteq> None \<longrightarrow> merged \<noteq> [])) not_out s"
  unfolding try_batch_def Let_def
  by (auto intro!: wp_fuelled_then wp_ret length_filter_le split: prod.split)

lemma half_up_bounds: "1 < length xs \<Longrightarrow> half_up xs < length xs \<and> 0 < half_up xs"
  by (auto simp: half_up_def)

lemma fuelled_land_within: "length batch < n \<Longrightarrow> fuelled (land_within n d batch parent)"
proof (induction n arbitrary: batch parent)
  case (Suc n)
  have halves: "fuelled (if tv_passed v then land_verified d i tip tc es
          else if length es = 1 then modify (send_to_repair (en_key (hd es)) v)
          else andThen (land_within n d (take (half_up es) es) (Some i)) (\<lambda>_. land_within n d (drop (half_up es) es) (Some i)))"
    if "length es \<le> length batch" and "es \<noteq> []" for es v i tip tc
  proof (cases "length es = 1")
    case False
    then have "1 < length es" using that(2) by (cases es) auto
    then have "length (take (half_up es) es) < n" "length (drop (half_up es) es) < n"
      using half_up_bounds[of es] that(1) Suc.prems by auto
    then show ?thesis by (auto simp: fuelled_land_verified intro: Suc.IH)
  qed (auto simp: fuelled_land_verified)
  show ?case
  proof (rule wp_not_out)
    fix s
    show "wp (land_within (Suc n) d batch parent) (\<lambda>_ _. True) not_out s"
      unfolding land_within.simps
    proof (rule wp_gets_from, simp only: split: if_split, intro conjI impI, rule wp_ret, rule TrueI,
        rule wp_andThen, rule wp_weaken[OF try_batch_shrinks], goal_cases)
      case (1 x s1)
      obtain i tip tc es tried where x: "x = ((i, tip, tc, es), tried)" by (metis prod.collapse)
      have judged: "fuelled (andThen (record_event d (TrVerified (kept_verdict v) i tc (map en_key es))) (\<lambda>_.
          if tv_passed v then land_verified d i tip tc es
          else if length es = 1 then modify (send_to_repair (en_key (hd es)) v)
          else andThen (land_within n d (take (half_up es) es) (Some i)) (\<lambda>_. land_within n d (drop (half_up es) es) (Some i))))"
        if "tried \<noteq> None" for v
        using 1 that by (intro fuelled_andThen halves) (auto simp: x)
      show ?case
      proof (cases tried)
        case None
        then show ?thesis by (simp add: x wp_ret)
      next
        case (Some t)
        then show ?thesis
        proof (cases t)
          case (Inl why)
          then show ?thesis using Some by (auto simp: x intro!: fuelled_wp)
        next
          case (Inr v)
          show ?thesis
            by (simp only: x Some Inr prod.case option.case sum.case) (rule fuelled_wp[OF judged], simp_all add: Some)
        qed
      qed
    qed assumption
  qed
qed simp

text \<open>Landing a batch never runs out: the bisection it may take ends, each half being shorter than what it halves.\<close>

theorem land_terminates: "land d batch (s, w) \<noteq> (Inl OutOfFuel, sw)"
  using fuelled_land_within[OF lessI, of batch d None] unfolding land_def fuelled_def by blast

section \<open>The chain of ejections\<close>

definition waiting :: "train_state \<Rightarrow> nat" where
  "waiting s = length (unsettled s)"

definition fewer :: "train_state \<Rightarrow> train_state \<Rightarrow> bool" where
  "fewer s s' \<longleftrightarrow> (stored s \<longrightarrow> stored s') \<and> waiting s' \<le> waiting s \<and> jm_keys (tn_entries s') = jm_keys (tn_entries s)"

interpretation fewer_steps: train_relation fewer
  by unfold_locales (auto simp: fewer_def)

lemma waiting_filter: "waiting s = length (filter (\<lambda>e. en_state e \<noteq> Landed \<and> en_state e \<noteq> Ejected) (jm_vals (tn_entries s)))"
proof -
  have "mset (unsettled s) = mset (filter (\<lambda>e. en_state e \<noteq> Landed \<and> en_state e \<noteq> Ejected) (jm_vals (tn_entries s)))"
    by (simp add: unsettled_def byPriority_def)
  then show ?thesis unfolding waiting_def by (metis size_mset)
qed

text \<open>Ejecting a known unsettled entry leaves one less waiting.\<close>

lemma filter_update_less:
  assumes "jm_get m k = Some e" and "P e" and "\<not> P e'" and "distinct (jm_keys m)"
  shows "length (filter P (jm_vals (jm_set k e' m))) < length (filter P (jm_vals m))"
  using assms
proof (induction m)
  case (Cons x m)
  then show ?case
  proof (cases "fst x = k")
    case True
    then show ?thesis using Cons.prems by (cases x) (auto simp: jm_set_def jm_get_def jm_vals_def)
  next
    case False
    then show ?thesis using Cons by (cases x) (auto simp: jm_set_def jm_get_def jm_vals_def jm_keys_def)
  qed
qed simp

lemma mark_ejected_waiting:
  assumes "stored s" and "state_of s (en_key e) \<noteq> None" "state_of s (en_key e) \<noteq> Some Landed" "state_of s (en_key e) \<noteq> Some Ejected"
  shows "waiting (mark_ejected e why s) < waiting s" and "stored (mark_ejected e why s)"
    and "jm_keys (tn_entries (mark_ejected e why s)) = jm_keys (tn_entries s)"
proof -
  obtain x where x: "jm_get (tn_entries s) (en_key e) = Some x" using assms(2) by (auto simp: state_of_def)
  then have ents: "tn_entries (mark_ejected e why s) = jm_set (en_key e) (x\<lparr>en_state := Ejected\<rparr>) (tn_entries s)"
    by (simp add: mark_ejected_def Let_def set_state_def update_entry_def)
  have "distinct (jm_keys (tn_entries s))" using assms(1) by (simp add: stored_def jm_wf_def jm_keys_def)
  then show "waiting (mark_ejected e why s) < waiting s"
    unfolding waiting_filter ents using x assms(3,4) by (intro filter_update_less[OF x]) (auto simp: state_of_def)
  show "stored (mark_ejected e why s)" using marked_ejected(3)[OF assms(2)] assms(1) by blast
  show "jm_keys (tn_entries (mark_ejected e why s)) = jm_keys (tn_entries s)"
    unfolding ents jm_keys_set using x by (metis jm_get_None_iff option.distinct(1))
qed

lemma calm_fewer: "keeps calm m \<Longrightarrow> keeps fewer m"
  by (erule keeps_weaken) (simp add: fewer_def waiting_def calm_same)

lemma eject_chain_fuelled:
  assumes "stored s" and "en_key e \<in> set (jm_keys (tn_entries s))" and "waiting s < n"
  shows "wp (eject_chain n d e why) (\<lambda>_ s'. fewer s s') not_out s"
  using assms
proof (induction n arbitrary: s e why)
  case (Suc n)
  let ?k = "en_key e"
  have known: "state_of s ?k \<noteq> None"
    using Suc.prems(2) jm_get_None_iff[of "tn_entries s" ?k] by (auto simp: state_of_def)
  show ?case
  proof (cases "state_of s ?k = Some Ejected \<or> state_of s ?k = Some Landed")
    case True
    then show ?thesis by (auto intro!: wp_intros fewer_steps.R_refl)
  next
    case False
    define s1 where "s1 = mark_ejected e why s"
    note m = mark_ejected_waiting[OF Suc.prems(1) known, of why, folded s1_def]
    have s1: "fewer s s1" "stored s1" "waiting s1 < n" using m False Suc.prems(1,3) by (auto simp: fewer_def)
    have rest: "wp (each_do (\<lambda>x. if ?k \<in> set (en_blockedBy x) then eject_chain n d x b else ret ())
        (jm_vals (tn_entries s2))) (\<lambda>_ s'. fewer s s') not_out s2" if c: "calm s1 s2" for s2 b
    proof -
      have f2: "fewer s1 s2" using c by (simp add: fewer_def waiting_def calm_same)
      let ?I = "\<lambda>ys s3. fewer s1 s3 \<and> set ys \<subseteq> set (jm_vals (tn_entries s2))"
      have "wp (each_do (\<lambda>x. if ?k \<in> set (en_blockedBy x) then eject_chain n d x b else ret ())
        (jm_vals (tn_entries s2))) (\<lambda>_. ?I []) not_out s2"
      proof (rule wp_each_do[where I = ?I])
        show "?I (jm_vals (tn_entries s2)) s2" using f2 by simp
      next
        fix x xs s3 assume I: "?I (x # xs) s3"
        have "en_key x \<in> set (jm_keys (tn_entries s2))"
        proof -
          have "jm_keyed en_key (tn_entries s2)" using f2 s1(2) by (simp add: fewer_def stored_def)
          then have "map en_key (jm_vals (tn_entries s2)) = jm_keys (tn_entries s2)" by (rule jm_keyed_vals)
          then show ?thesis using I by (metis image_eqI list.set_intros(1) list.set_map subsetD)
        qed
        then have "en_key x \<in> set (jm_keys (tn_entries s3))" using I f2 by (simp add: fewer_def)
        moreover have "stored s3" "waiting s3 < n" using I s1 by (auto simp: fewer_def)
        ultimately have "wp (eject_chain n d x b) (\<lambda>_. ?I xs) not_out s3"
          using I by (intro wp_weaken[OF Suc.IH]) (auto intro: fewer_steps.R_trans)
        then show "wp (if ?k \<in> set (en_blockedBy x) then eject_chain n d x b else ret ()) (\<lambda>_. ?I xs) not_out s3"
          using I by (auto intro!: wp_ret)
      qed
      then show ?thesis by (rule wp_weaken) (auto intro: fewer_steps.R_trans[OF s1(1)])
    qed
    have then_calm: "wp (andThen m' f) Q not_out s2"
      if m': "keeps calm m'" "fuelled m'" and c: "calm s1 s2" and f: "\<And>x s3. calm s1 s3 \<Longrightarrow> wp (f x) Q not_out s3" for m' f Q s2
    proof (rule wp_andThen, rule wpI)
      show "wp (f x) Q not_out s3" if "m' (s2, w) = (Inr x, s3, w')" for w x s3 w'
        using keepsD[OF m'(1) that] by (intro f calm_trans[OF c])
      show "not_out e s3" if "m' (s2, w) = (Inl e, s3, w')" for w e s3 w'
        using m'(2) that unfolding fuelled_def by blast
    qed
    show ?thesis
      using False
      by (auto simp: s1_def [symmetric] calmly.R_refl intro!: wp_gets_from wp_modify_from rest
          then_calm calm_ref calm_record calmly.keeps_env calm_evidence)
  qed
qed simp

text \<open>ejecting an entry never runs out: its chain of dependents ends, a blocking cycle among them included.\<close>

theorem eject_terminates:
  assumes "stored s" and "en_key e \<in> set (jm_keys (tn_entries s))"
  shows "eject d e why (s, w) \<noteq> (Inl OutOfFuel, sw)"
proof -
  have "wp (eject d e why) (\<lambda>_ s'. fewer s s') not_out s"
    unfolding eject_def by (rule wp_gets_from, rule eject_chain_fuelled) (use assms in \<open>simp_all add: waiting_def\<close>)
  then show ?thesis by (cases sw) (auto dest: wpD_Inl)
qed

text \<open>Two entries that block each other.\<close>

definition cycle_entry :: "string \<Rightarrow> string \<Rightarrow> entry" where
  "cycle_entry k b = \<lparr>en_key = k, en_worktree = \<lparr>wt_taskKey = k, wt_path = k, wt_branch = k\<rparr>, en_blockedBy = [b], en_priority = 0,
     en_created = 0, en_state = Queued, en_repairs = 0, en_extra = 0, en_verdict = None\<rparr>"

definition cycle_state :: train_state where
  "cycle_state = (train_new [])\<lparr>tn_entries := [(''a'', cycle_entry ''a'' ''b''), (''b'', cycle_entry ''b'' ''a'')]\<rparr>"

theorem eject_terminates_witness:
  "\<forall>(d :: nat train_deps) why w sw. eject d (cycle_entry ''a'' ''b'') why (cycle_state, w) \<noteq> (Inl OutOfFuel, sw)"
proof (intro allI)
  have "stored cycle_state"
    by (simp add: stored_def cycle_state_def train_new_def jm_wf_def jm_keyed_def cycle_entry_def)
  moreover have "en_key (cycle_entry ''a'' ''b'') \<in> set (jm_keys (tn_entries cycle_state))"
    by (simp add: cycle_state_def train_new_def jm_keys_def cycle_entry_def)
  ultimately show "eject d (cycle_entry ''a'' ''b'') why (cycle_state, w) \<noteq> (Inl OutOfFuel, sw)"
    for d :: "nat train_deps" and why w sw by (rule eject_terminates)
qed

section \<open>The setup\<close>

lemma add_entry_empty:
  assumes "tg_commitCount (td_git d) (wt_branch wt) None w = (Inr 0, w)" and "tg_removeWorktree (td_git d) wt w = (Inr (), w')"
  shows "add_entry d (i, wt) (s, w) =
    (Inr (), s\<lparr>tn_empty := tn_empty s @ [\<lparr>br_taskKey = wt_taskKey wt, br_branch = wt_branch wt\<rparr>]\<rparr>, w')"
  using assms by (simp add: add_entry_def act_simps env_def modify_def)

lemma add_entry_full:
  assumes "tg_commitCount (td_git d) (wt_branch wt) None w = (Inr (Suc n), w)" and "wt_taskKey wt \<notin> set (jm_keys (tn_entries s))"
  obtains e where "add_entry d (i, wt) (s, w) = (Inr (), s\<lparr>tn_entries := tn_entries s @ [(wt_taskKey wt, e)]\<rparr>, w)"
  using assms by (simp add: add_entry_def act_simps env_def modify_def Let_def jm_set_snoc)

lemma add_entries:
  assumes count: "\<And>b w. tg_commitCount (td_git d) b None w = (Inr (n b), w)"
    and remove: "\<And>wt w. \<exists>w'. tg_removeWorktree (td_git d) wt w = (Inr (), w')"
    and "distinct (map wt_taskKey ws)" and "wt_taskKey ` set ws \<inter> set (jm_keys (tn_entries s)) = {}"
  shows "\<exists>s' w'. each_do (add_entry d) (List.enumerate i ws) (s, w) = (Inr (), s', w') \<and>
    jm_keys (tn_entries s') = jm_keys (tn_entries s) @ map wt_taskKey (filter (\<lambda>wt. n (wt_branch wt) \<noteq> 0) ws) \<and>
    map br_taskKey (tn_empty s') = map br_taskKey (tn_empty s) @ map wt_taskKey (filter (\<lambda>wt. n (wt_branch wt) = 0) ws)"
  using assms(3,4)
proof (induction ws arbitrary: i s w)
  case (Cons wt ws)
  show ?case
  proof (cases "n (wt_branch wt)")
    case 0
    obtain w1 where w1: "tg_removeWorktree (td_git d) wt w = (Inr (), w1)" using remove by blast
    have "tg_commitCount (td_git d) (wt_branch wt) None w = (Inr 0, w)" using count[of "wt_branch wt"] 0 by simp
    note add = add_entry_empty[OF this w1, of i s]
    show ?thesis using Cons.IH[of "s\<lparr>tn_empty := tn_empty s @ [\<lparr>br_taskKey = wt_taskKey wt, br_branch = wt_branch wt\<rparr>]\<rparr>" "Suc i" w1]
        Cons.prems by (auto simp: andThen_apply add 0)
  next
    case (Suc m)
    have "tg_commitCount (td_git d) (wt_branch wt) None w = (Inr (Suc m), w)" using count[of "wt_branch wt"] Suc by simp
    then obtain e where add: "add_entry d (i, wt) (s, w) = (Inr (), s\<lparr>tn_entries := tn_entries s @ [(wt_taskKey wt, e)]\<rparr>, w)"
      by (rule add_entry_full) (use Cons.prems in auto)
    show ?thesis using Cons.IH[of "s\<lparr>tn_entries := tn_entries s @ [(wt_taskKey wt, e)]\<rparr>" "Suc i" w]
        Cons.prems by (auto simp: andThen_apply add Suc jm_keys_def)
  qed
qed (simp add: ret_apply)

lemma known_blockers_keys: "jm_keys (tn_entries (known_blockers s)) = jm_keys (tn_entries s)"
  by (simp add: known_blockers_def jm_keys_def case_prod_beta comp_def)

lemma known_blockers_known: "b \<in> set (blockers (known_blockers s) k) \<Longrightarrow> b \<in> set (jm_keys (tn_entries s))"
  using jm_get_None_iff[of "tn_entries s" b]
  by (auto simp: blockers_def known_blockers_get jm_has_get split: option.splits)

end
