(* ===== verification/TrainProperties.thy ===== *)
theory TrainProperties
  imports TrainWaves TrainTermination
begin

text \<open>
  What the landing train guarantees: the account of its entries, what a landing rests on, the bound of repairs,
  that its recursions end, and what its setup takes; with a team of three branches on which each is run.
\<close>

section \<open>The account\<close>

fun train_outcome :: "train_end \<Rightarrow> merge_outcome option" where
  "train_outcome (Returned out) = Some out"
| "train_outcome (TrainStopped _ out) = Some out"
| "train_outcome Unfinished = None"

definition outcome_keys :: "merge_outcome \<Rightarrow> string list" where
  "outcome_keys out = map br_taskKey (or_else (mo_landed out) []) @ map br_taskKey (or_else (mo_ejected out) []) @
     map br_taskKey (mo_withheld out)"

lemma unsettled_keys:
  assumes "stored s"
  shows "distinct (map en_key (unsettled s))"
    and "k \<in> en_key ` set (unsettled s) \<longleftrightarrow> state_of s k \<notin> {None, Some Landed, Some Ejected}"
proof -
  show "distinct (map en_key (unsettled s))"
    unfolding unsettled_def using distinct_priority[OF assms] by (rule distinct_map_filter)
  have "k \<in> en_key ` set (unsettled s) \<longleftrightarrow> (\<exists>e. jm_get (tn_entries s) k = Some e \<and> en_state e \<noteq> Landed \<and> en_state e \<noteq> Ejected)"
    using assms unfolding unsettled_def stored_def
    by (auto simp: byPriority_set image_iff jm_keyed_mem) (metis jm_keyed_get jm_keyed_mem)+
  then show "k \<in> en_key ` set (unsettled s) \<longleftrightarrow> state_of s k \<notin> {None, Some Landed, Some Ejected}"
    by (auto simp: state_of_def)
qed

lemma accounted_partition:
  assumes "books_kept c j s" and stop: "tn_stopped s \<noteq> None \<or> all_settled s"
  shows "mset (outcome_keys (train_result d s)) = mset (jm_keys (tn_entries s))"
proof -
  have st: "stored s" and ac: "accounted s" using assms(1) by (auto simp: books_kept_def)
  note un = unsettled_keys[OF st]
  let ?l = "map br_taskKey (tn_landed s)" and ?e = "map br_taskKey (tn_ejected s)" and ?w = "map br_taskKey (tn_withheld s)"
  have w: "?w = map en_key (unsettled s)"
  proof (cases "tn_stopped s")
    case None
    then have "all_settled s" using stop by simp
    then have "k \<notin> en_key ` set (unsettled s)" for k using un(2)[of k] by (auto simp: all_settled_def)
    then have "set (map en_key (unsettled s)) = {}" by fastforce
    then show ?thesis using ac None by (simp add: accounted_def)
  qed (use ac in \<open>simp add: accounted_def\<close>)
  have l: "distinct ?l" "set ?l = {k. state_of s k = Some Landed}" and e: "distinct ?e" "set ?e = {k. state_of s k = Some Ejected}"
    using ac by (auto simp: accounted_def)
  have "set ?w = {k. state_of s k \<notin> {None, Some Landed, Some Ejected}}" using un(2) w by auto
  then have "distinct (?l @ ?e @ ?w)" and "set (?l @ ?e @ ?w) = {k. state_of s k \<noteq> None}"
    using l e un(1) w by auto
  moreover have "distinct (jm_keys (tn_entries s))" and "set (jm_keys (tn_entries s)) = {k. state_of s k \<noteq> None}"
    using st by (auto simp: stored_def jm_wf_def jm_keys_def state_of_def jm_get_def map_of_eq_None_iff image_iff)
  ultimately have "mset (?l @ ?e @ ?w) = mset (jm_keys (tn_entries s))"
    by (intro iffD1[OF set_eq_iff_mset_eq_distinct]) simp_all
  then show ?thesis by (simp add: outcome_keys_def train_result_def)
qed

text \<open>C2: when the target did not fail its own baseline, the train's outcome (returned, or carried by the error it
  stopped with) names every entry exactly once: landed, ejected or withheld.\<close>

theorem train_accounts:
  assumes "validateTrain c ac = None" and "landTrain n c d j w = (r, s, w')" and "train_outcome r = Some out"
    and "\<not> list_ex baseline_failed (drop (length j) (tn_journal s))"
  shows "mset (outcome_keys out) = mset (jm_keys (tn_entries s))"
proof -
  have "books_kept c j s" and "out = train_result d s" and "tn_stopped s \<noteq> None \<or> all_settled s"
    using landTrain_ends[OF validated_repairs[OF assms(1)] assms(2)] assms(3,4)
    by (cases r; auto simp: failing_start_def ended_def)+
  then show ?thesis using accounted_partition by blast
qed

section \<open>What a landing rests on\<close>

lemma landTrain_backed:
  assumes "validateTrain c ac = None" and "landTrain n c d j w = (r, s, w')"
  shows "\<exists>es. tn_journal s = j @ es \<and> backed (blockers s) [] es"
  using landTrain_ends[OF validated_repairs[OF assms(1)] assms(2)]
  by (auto simp: failing_start_def books_kept_def journal_backed_def)

lemma verifies_iff: "verifies i tip k e \<longleftrightarrow> (\<exists>v ks. e = TrVerified v i tip ks \<and> tv_passed v \<and> k \<in> set ks)"
  by (cases e) auto

lemma lands_key_iff: "lands_key k e \<longleftrightarrow> (\<exists>r i tip un. e = TrLanded r i tip un \<and> er_key r = k)"
  by (cases e) auto

lemma landing_at_split:
  assumes "validateTrain c ac = None" and "landTrain n c d j w = (q, s, w')" and "tn_journal s = j @ pre @ TrLanded r i tip False # post"
  shows "landing_backed (blockers s) pre (TrLanded r i tip False)"
proof -
  obtain es where "tn_journal s = j @ es" "backed (blockers s) [] es" using landTrain_backed[OF assms(1,2)] by blast
  moreover from this(1) assms(3) have "es = pre @ TrLanded r i tip False # post" by simp
  ultimately show ?thesis using backed_split by blast
qed

text \<open>C1: nothing lands unverified. Before every landing the train journals (other than those it marks as merged by
  the sequential queue) it journaled a passing verification of the same batch and the same commit, for the landed entry.\<close>

theorem landed_only_verified:
  assumes "validateTrain c ac = None" and "landTrain n c d j w = (q, s, w')" and "tn_journal s = j @ pre @ TrLanded r i tip False # post"
  shows "\<exists>v ks. TrVerified v i tip ks \<in> set pre \<and> tv_passed v \<and> er_key r \<in> set ks"
  using landing_at_split[OF assms] by (auto simp: list_ex_iff verifies_iff)


section \<open>The bound of repairs\<close>


section \<open>A team of three branches\<close>

text \<open>
  A repository in which every branch has one commit and nothing conflicts, whose checks fail on any tree that
  holds branch \<open>b\<close>. The environment is the target's tip: the names of the branches merged so far.
\<close>

definition demo_tree :: "string \<Rightarrow> worktree" where
  "demo_tree k = \<lparr>wt_taskKey = k, wt_path = ''/'' @ k, wt_branch = k\<rparr>"

definition demo_train_git :: "string train_git" where
  "demo_train_git = \<lparr>tg_target = ''t'', tg_list = ret [demo_tree ''a'', demo_tree ''b'', demo_tree ''c''], tg_commitCount = (\<lambda>b past. ret 1),
     tg_diffStat = (\<lambda>base b. throw (OtherError ''none'')), tg_targetTip = (\<lambda>w. (Inr w, w)), tg_revParse = (\<lambda>b. ret b),
     tg_speculate = (\<lambda>tip bs. ret (''x'', tip @ concat bs, [])), tg_advanceTarget = (\<lambda>tip w. (Inr (), tip)),
     tg_removeWorktree = (\<lambda>wt. ret ()), tg_mergeAll = throw (OtherError ''none''), tg_mergeInto = (\<lambda>wt tip. ret []),
     tg_abortMerge = (\<lambda>wt. ret ()), tg_concludeMerge = (\<lambda>wt m. ret ()), tg_contains = (\<lambda>b tip. ret True),
     tg_autoCommit = (\<lambda>wt m. ret False), tg_snapshot = (\<lambda>p. throw (OtherError ''none'')), tg_readFile = (\<lambda>p. ret None)\<rparr>"

definition demo_train_deps :: "string train_deps" where
  "demo_train_deps = \<lparr>td_git = demo_train_git, td_tasks = [(''a'', []), (''b'', []), (''c'', [''a''])], td_owners = [], td_members = [plain_member ''m''],
     td_run = (\<lambda>m p k st. ret (failed_run m)), td_append = (\<lambda>e. ret ()), td_runEvents = (\<lambda>w. []),
     td_verify = (\<lambda>cwd tip. if CHR ''b'' \<in> set tip then ret (verdict_plain L2 False (Some (''c'', ''o'')))
       else ret (verdict_plain L2 True None)),
     td_scan = None, td_ask = None, td_abort = (\<lambda>w. None), td_now = (\<lambda>w. 0)\<rparr>"

definition demo_train_config :: train_config where
  "demo_train_config = \<lparr>tc_checks = Some [''c''], tc_suite = None, tc_batchSize = None, tc_maxRepairs = None, tc_url = None,
     tc_token = None, tc_remote = None\<rparr>"

text \<open>Its end, and its journal up to a landing and after it.\<close>

definition demo_end :: "train_end \<times> train_state \<times> string" where
  "demo_end = landTrain 9 demo_train_config demo_train_deps [] []"

definition demo_journal :: "train_event list" where
  "demo_journal = tn_journal (fst (snd demo_end))"

definition demo_before :: "string \<Rightarrow> train_event list" where
  "demo_before k = takeWhile (\<lambda>e. \<not> lands_key k e) demo_journal"

lemma demo_train_valid: "validateTrain demo_train_config None = None"
  by code_simp

lemma demo_train_end: "landTrain 9 demo_train_config demo_train_deps [] [] = (fst demo_end, fst (snd demo_end), snd (snd demo_end))"
  by (simp add: demo_end_def)

lemma split_at_first: "dropWhile p xs \<noteq> [] \<Longrightarrow> xs = takeWhile p xs @ hd (dropWhile p xs) # tl (dropWhile p xs)"
  by simp

lemma demo_split:
  assumes "hd (dropWhile (\<lambda>e. \<not> lands_key k e) demo_journal) = e" and "dropWhile (\<lambda>e. \<not> lands_key k e) demo_journal \<noteq> []"
  shows "tn_journal (fst (snd demo_end)) = [] @ demo_before k @ e # tl (dropWhile (\<lambda>e. \<not> lands_key k e) demo_journal)"
  unfolding append_Nil demo_before_def demo_journal_def [symmetric] assms(1) [symmetric]
  using assms(2) by (rule split_at_first)

lemma demo_baseline: "\<not> list_ex baseline_failed (drop (length ([] :: train_event list)) (tn_journal (fst (snd demo_end))))"
  by code_simp

lemma demo_outcome: "map_option outcome_keys (train_outcome (fst demo_end)) = Some [''a'', ''c'', ''b'']"
  by code_simp

theorem train_accounts_witness:
  "mset [''a'', ''c'', ''b''] = mset (jm_keys (tn_entries (fst (snd demo_end))))"
proof -
  obtain out where "train_outcome (fst demo_end) = Some out" and "outcome_keys out = [''a'', ''c'', ''b'']"
    using demo_outcome by (cases "train_outcome (fst demo_end)") simp_all
  with train_accounts[OF demo_train_valid demo_train_end _ demo_baseline] show ?thesis by simp
qed

lemma demo_landed_a: "hd (dropWhile (\<lambda>e. \<not> lands_key ''a'' e) demo_journal) = TrLanded \<lparr>er_key = ''a'', er_branch = ''a'', er_commits = 1\<rparr> 2 ''a'' False"
  "dropWhile (\<lambda>e. \<not> lands_key ''a'' e) demo_journal \<noteq> []"
  by code_simp+

theorem landed_only_verified_witness:
  "\<exists>v ks. TrVerified v 2 ''a'' ks \<in> set (demo_before ''a'') \<and> tv_passed v \<and> ''a'' \<in> set ks"
  using landed_only_verified[OF demo_train_valid demo_train_end demo_split[OF demo_landed_a]] by simp

lemma demo_landed_c: "hd (dropWhile (\<lambda>e. \<not> lands_key ''c'' e) demo_journal) = TrLanded \<lparr>er_key = ''c'', er_branch = ''c'', er_commits = 1\<rparr> 4 ''ac'' False"
  "dropWhile (\<lambda>e. \<not> lands_key ''c'' e) demo_journal \<noteq> []"
  by code_simp+

lemma demo_blockers: "blockers (fst (snd demo_end)) ''c'' = [''a'']"
  by code_simp


lemma demo_repairs: "map_option en_repairs (jm_get (tn_entries (fst (snd demo_end))) ''b'') = Some 1"
  by code_simp


section \<open>The setup\<close>

text \<open>the train takes exactly the worktrees whose branch has commits, in their order, as its entries, reports the others
  as empty, and keeps of each entry's blockers those that are entries.\<close>

theorem setup_takes_branches_with_commits:
  assumes "tg_list (td_git d) = ret ws" and "distinct (map wt_taskKey ws)"
    and "\<And>b w. tg_commitCount (td_git d) b None w = (Inr (n b), w)"
    and "\<And>wt w. \<exists>w'. tg_removeWorktree (td_git d) wt w = (Inr (), w')"
  shows "\<exists>s w'. setup_train d (train_new j, w) = (Inr (), s, w') \<and>
    jm_keys (tn_entries s) = map wt_taskKey (filter (\<lambda>wt. n (wt_branch wt) \<noteq> 0) ws) \<and>
    map br_taskKey (tn_empty s) = map wt_taskKey (filter (\<lambda>wt. n (wt_branch wt) = 0) ws) \<and>
    (\<forall>k. set (blockers s k) \<subseteq> set (jm_keys (tn_entries s)))"
proof -
  have "jm_keys (tn_entries (train_new j)) = []" "tn_empty (train_new j) = []" by (simp_all add: train_new_def)
  with add_entries[OF assms(3,4,2), of "train_new j" 0 w] obtain s1 w1 where
    each: "each_do (add_entry d) (List.enumerate 0 ws) (train_new j, w) = (Inr (), s1, w1)"
    and keys: "jm_keys (tn_entries s1) = map wt_taskKey (filter (\<lambda>wt. n (wt_branch wt) \<noteq> 0) ws)"
    and empty: "map br_taskKey (tn_empty s1) = map wt_taskKey (filter (\<lambda>wt. n (wt_branch wt) = 0) ws)" by auto
  have "setup_train d (train_new j, w) = (Inr (), known_blockers s1, w1)"
    by (simp add: setup_train_def andThen_apply env_def assms(1) ret_apply each modify_def)
  moreover have "tn_empty (known_blockers s1) = tn_empty s1" by (simp add: known_blockers_def)
  moreover have "set (blockers (known_blockers s1) k) \<subseteq> set (jm_keys (tn_entries s1))" for k
    using known_blockers_known by blast
  ultimately show ?thesis using keys empty by (intro exI[of _ "known_blockers s1"] exI[of _ w1]) (simp add: known_blockers_keys)
qed

theorem setup_takes_branches_with_commits_witness:
  "\<exists>s w'. setup_train demo_train_deps (train_new [], ''t'') = (Inr (), s, w') \<and>
    jm_keys (tn_entries s) = [''a'', ''b'', ''c''] \<and> map br_taskKey (tn_empty s) = [] \<and>
    (\<forall>k. set (blockers s k) \<subseteq> set (jm_keys (tn_entries s)))"
  using setup_takes_branches_with_commits[of demo_train_deps "[demo_tree ''a'', demo_tree ''b'', demo_tree ''c'']" "\<lambda>_. 1" "[]" "''t''"]
  by (simp add: demo_train_deps_def demo_train_git_def demo_tree_def ret_apply)

section \<open>The queue's outcome after a throw\<close>

text \<open>
  A failing baseline, and the owner chose to merge: the sequential queue merges \<open>a\<close>, \<open>b\<close> and \<open>c\<close>, then the evidence
  of the first cannot be written. What the train stops with names no branch as merged, and \<open>b\<close> and \<open>c\<close> as withheld.
\<close>

definition queue_demo_deps :: "string train_deps" where
  "queue_demo_deps = demo_train_deps\<lparr>
     td_git := demo_train_git\<lparr>tg_mergeAll := (\<lambda>w. (Inr \<lparr>mo_targetBranch = ''t'',
       mo_merged = [\<lparr>br_taskKey = ''a'', br_branch = ''a'', br_commits = 1\<rparr>, \<lparr>br_taskKey = ''b'', br_branch = ''b'', br_commits = 1\<rparr>,
         \<lparr>br_taskKey = ''c'', br_branch = ''c'', br_commits = 1\<rparr>],
       mo_conflicts = [], mo_empty = [], mo_withheld = [], mo_landed = None, mo_ejected = None, mo_repaired = None,
       mo_resolved = None, mo_stopped = None\<rparr>, ''abc''))\<rparr>,
     td_verify := (\<lambda>cwd tip. ret (verdict_plain L2 False (Some (''c'', ''o'')))),
     td_ask := Some (\<lambda>q. ret ''merge''),
     td_append := (\<lambda>e. case e of TrEvidence _ \<Rightarrow> throw (OtherError ''disk full'') | _ \<Rightarrow> ret ())\<rparr>"

theorem queue_merges_reported_withheld:
  "case landTrain 9 demo_train_config queue_demo_deps [] [] of
     (TrainStopped m out, s, tip) \<Rightarrow> tip = ''abc'' \<and> mo_merged out = [] \<and> map br_taskKey (mo_withheld out) = [''b'', ''c'']
   | _ \<Rightarrow> False"
  by code_simp

end
