(* ===== verification/GitFiles.thy ===== *)
theory GitFiles
  imports Train
begin

text \<open>
  The parts of \<open>packages/git\<close> that work on directories: what a worktree gets of the checkout's ignored
  environment, the sweep of abandoned team directories, the snapshots of a tree and the reviewer's clone of one.
  The \<open>git\<close> and \<open>cp\<close> commands and the calls of \<open>node:fs\<close> are computations over a file system that may
  throw; \<open>join\<close> and \<open>resolve\<close> are written out for names without dots.
\<close>

record 'v git_deps =
  gt_git :: "string \<Rightarrow> string list \<Rightarrow> ('v, thrown, string) act"
  gt_indexed :: "string \<Rightarrow> string \<Rightarrow> string list \<Rightarrow> ('v, thrown, string) act"
  gt_exitCode :: "thrown \<Rightarrow> nat option"
  gt_exists :: "string \<Rightarrow> ('v, thrown, bool) act"
  gt_mkdirs :: "string \<Rightarrow> ('v, thrown, unit) act"
  gt_mkdtemp :: "string \<Rightarrow> ('v, thrown, string) act"
  gt_read :: "string \<Rightarrow> ('v, thrown, string) act"
  gt_append :: "string \<Rightarrow> string \<Rightarrow> ('v, thrown, unit) act"
  gt_write :: "string \<Rightarrow> string \<Rightarrow> ('v, thrown, unit) act"
  gt_copy :: "string \<Rightarrow> string \<Rightarrow> ('v, thrown, unit) act"
  gt_hardlink :: "string \<Rightarrow> string \<Rightarrow> ('v, thrown, unit) act"
  gt_cp :: "string \<Rightarrow> string \<Rightarrow> string \<Rightarrow> ('v, thrown, unit) act"
  gt_rm :: "string \<Rightarrow> ('v, thrown, unit) act"
  gt_readdir :: "string \<Rightarrow> ('v, thrown, string list) act"
  gt_mtime :: "string \<Rightarrow> ('v, thrown, nat) act"
  gt_now :: "'v \<Rightarrow> nat"
  gt_progress :: "(string \<Rightarrow> 'v \<Rightarrow> 'v) option"
  gt_tmpdir :: string
  gt_sha8 :: "string \<Rightarrow> string"

section \<open>Computations and paths\<close>

text \<open>\<open>.then(() => true, () => false)\<close>, \<open>.catch(() => {})\<close> and \<open>try \<dots> finally\<close>.\<close>

definition succeeds :: "('w, 'e, 'a) act \<Rightarrow> ('w, 'e, bool) act" where
  "succeeds m = andThen (attempt m) (\<lambda>r. ret (case r of Inl _ \<Rightarrow> False | Inr _ \<Rightarrow> True))"

definition ignoring :: "('w, 'e, 'a) act \<Rightarrow> ('w, 'e, unit) act" where
  "ignoring m = andThen (attempt m) (\<lambda>_. ret ())"

definition always :: "('w, 'e, 'a) act \<Rightarrow> ('w, 'e, unit) act \<Rightarrow> ('w, 'e, 'a) act" where
  "always m c = andThen (attempt m) (\<lambda>r. andThen c (\<lambda>_. case r of Inl e \<Rightarrow> throw e | Inr x \<Rightarrow> ret x))"

definition clock :: "'v git_deps \<Rightarrow> ('v, thrown, nat) act" where
  "clock d = (\<lambda>v. (Inr (gt_now d v), v))"

definition join_path :: "string \<Rightarrow> string \<Rightarrow> string" where
  "join_path a b = (if b = [] then a else a @ ''/'' @ b)"

definition resolve_path :: "string \<Rightarrow> string \<Rightarrow> string" where
  "resolve_path a b = (if starts_with b ''/'' then b else join_path a b)"

definition dirname :: "string \<Rightarrow> string" where
  "dirname p = (case dropWhile (\<lambda>c. c \<noteq> CHR ''/'') (rev p) of [] \<Rightarrow> ''.'' | [_] \<Rightarrow> ''/'' | _ # r \<Rightarrow> rev r)"

definition ends_with :: "string \<Rightarrow> string \<Rightarrow> bool" where
  "ends_with s t \<longleftrightarrow> length t \<le> length s \<and> drop (length s - length t) s = t"

definition segments :: "string \<Rightarrow> string list" where
  "segments p = split_on (CHR ''/'') p"

section \<open>Teaching the repository to ignore \<open>.swarm\<close>\<close>

definition ignores_swarm :: "string \<Rightarrow> bool" where
  "ignores_swarm s \<longleftrightarrow> list_ex (\<lambda>l. js_trim l = ''.swarm'' \<or> js_trim l = ''.swarm/'') (split_on newline s)"

definition teach_ignore :: "'v git_deps \<Rightarrow> string \<Rightarrow> ('v, thrown, unit) act" where
  "teach_ignore d repo =
     andThen (gt_git d repo [''rev-parse'', ''--git-path'', ''info/exclude'']) (\<lambda>where'.
     let exclude = resolve_path repo (js_trim where') in
     andThen (gt_mkdirs d (dirname exclude)) (\<lambda>_.
     andThen (gt_exists d exclude) (\<lambda>there.
     andThen (if there then gt_read d exclude else ret []) (\<lambda>current.
       if ignores_swarm current then ret ()
       else gt_append d exclude ((if ends_with current nl \<or> current = [] then [] else nl) @ ''.swarm/'' @ nl)))))"

section \<open>The ignored environment\<close>

definition environment_file :: "string \<Rightarrow> bool" where
  "environment_file rel \<longleftrightarrow> list_ex (ends_with rel) [''.so'', ''.pyd'', ''.dylib'', ''.node'', ''.py'']"

text \<open>The segments a slash follows.\<close>

definition not_environment :: "string \<Rightarrow> bool" where
  "not_environment p \<longleftrightarrow> list_ex (\<lambda>sg. sg \<in> {''dist'', ''build'', ''out'', ''coverage'', ''.cache'', ''__pycache__'', ''.turbo'', ''.next'', ''.swarm''} \<or>
     ends_with sg ''.egg-info'') (butlast (segments p))"

definition is_dir_entry :: "string \<Rightarrow> bool" where
  "is_dir_entry p \<longleftrightarrow> ends_with p ''/''"

definition rel_of :: "string \<Rightarrow> string" where
  "rel_of p = (if is_dir_entry p then butlast p else p)"

definition wanted :: "bool \<Rightarrow> string \<Rightarrow> bool" where
  "wanted whole p =
     (if whole then \<not> list_ex (\<lambda>sg. sg = ''.swarm'' \<or> sg = ''.git'') (segments (rel_of p))
      else (if is_dir_entry p then last (segments (rel_of p)) = ''node_modules'' else environment_file (rel_of p)) \<and> \<not> not_environment p)"

definition link_one :: "'v git_deps \<Rightarrow> bool \<Rightarrow> string \<Rightarrow> string \<Rightarrow> string \<Rightarrow> ('v, thrown, bool) act" where
  "link_one d whole repo path p =
     (if \<not> wanted whole p then ret False
      else
        let from' = join_path repo (rel_of p); to = join_path path (rel_of p) in
        andThen (gt_exists d to) (\<lambda>there.
        if there then ret False
        else
          andThen (gt_mkdirs d (dirname to)) (\<lambda>_.
          if \<not> is_dir_entry p \<and> whole then andThen (gt_copy d from' to) (\<lambda>_. ret True)
          else
            andThen (catching (if is_dir_entry p then gt_cp d ''-al'' from' to else gt_hardlink d from' to)
              (\<lambda>_. andThen (gt_rm d to) (\<lambda>_. if is_dir_entry p then gt_cp d ''-a'' from' to else gt_copy d from' to)))
              (\<lambda>_. ret True))))"

text \<open>How many were linked, and what stopped it.\<close>

primrec link_each :: "'v git_deps \<Rightarrow> bool \<Rightarrow> string \<Rightarrow> string \<Rightarrow> string list \<Rightarrow> nat \<Rightarrow> ('v, thrown, nat \<times> thrown option) act" where
  "link_each d whole repo path [] n = ret (n, None)"
| "link_each d whole repo path (p # ps) n =
     andThen (attempt (link_one d whole repo path p)) (\<lambda>r. case r of
       Inl e \<Rightarrow> ret (n, Some e)
     | Inr b \<Rightarrow> link_each d whole repo path ps (if b then n + 1 else n))"

definition linkIgnored :: "'v git_deps \<Rightarrow> (string \<Rightarrow> 'v \<Rightarrow> 'v) option \<Rightarrow> bool \<Rightarrow> string \<Rightarrow> string \<Rightarrow> ('v, thrown, unit) act" where
  "linkIgnored d say whole repo path =
     andThen (clock d) (\<lambda>started.
     andThen (attempt (gt_git d repo [''ls-files'', ''-z'', ''--others'', ''--ignored'', ''--exclude-standard'', ''--directory''])) (\<lambda>ls.
     andThen (case ls of Inl e \<Rightarrow> ret (0, Some e) | Inr out \<Rightarrow> link_each d whole repo path (split_on (CHR 0x00) out) 0) (\<lambda>(n, stopped).
     andThen (clock d) (\<lambda>now.
       case say of None \<Rightarrow> ret ()
       | Some f \<Rightarrow> (\<lambda>v. (Inr (), f (case stopped of
           None \<Rightarrow> ''worktree: linked '' @ nat_str n @ '' ignored path(s) in '' @ int_str (int now - int started) @ ''ms''
         | Some e \<Rightarrow> ''worktree: ignored environment only partly replicated ('' @ nat_str n @ '' path(s)): '' @ message_of e) v))))))"

section \<open>Abandoned team directories\<close>

definition RECENT_MS :: nat where
  "RECENT_MS = 60000"

definition sweep_one :: "'v git_deps \<Rightarrow> string \<Rightarrow> string \<Rightarrow> ('v, thrown, string list) act" where
  "sweep_one d listed path =
     (if sublist path listed then ret []
      else
        andThen (clock d) (\<lambda>now.
        andThen (attempt (gt_mtime d path)) (\<lambda>t. case t of
          Inl _ \<Rightarrow> ret []
        | Inr m \<Rightarrow> if int now - int m < int RECENT_MS then ret [] else andThen (gt_rm d path) (\<lambda>_. ret [path]))))"

definition sweepOrphans :: "'v git_deps \<Rightarrow> string \<Rightarrow> string option \<Rightarrow> ('v, thrown, string list) act" where
  "sweepOrphans d repoRoot base =
     andThen (ignoring (gt_git d repoRoot [''worktree'', ''prune''])) (\<lambda>_.
     let dir = or_else base (repoRoot @ ''/.swarm/worktrees'') in
     andThen (attempt (gt_readdir d dir)) (\<lambda>teams. case teams of
       Inl _ \<Rightarrow> ret []
     | Inr names \<Rightarrow>
         andThen (catching (gt_git d repoRoot [''worktree'', ''list'', ''--porcelain'']) (\<lambda>_. ret [])) (\<lambda>listed.
         andThen (each (\<lambda>t. sweep_one d listed (join_path dir t)) names) (\<lambda>rs. ret (concat rs)))))"

section \<open>Snapshots\<close>

definition trimmed :: "('v, thrown, string) act \<Rightarrow> ('v, thrown, string) act" where
  "trimmed m = andThen m (\<lambda>out. ret (js_trim out))"

definition writeTree :: "'v git_deps \<Rightarrow> string \<Rightarrow> ('v, thrown, string) act" where
  "writeTree d repo =
     andThen (gt_mkdtemp d (join_path (gt_tmpdir d) ''openswarm-index-'')) (\<lambda>dir.
     let index = join_path dir ''index'' in
     always
       (andThen (trimmed (gt_git d repo [''rev-parse'', ''--git-path'', ''index''])) (\<lambda>p.
        andThen (gt_exists d (resolve_path repo p)) (\<lambda>there.
        andThen (if there then gt_copy d (resolve_path repo p) index else ret ()) (\<lambda>_.
        andThen (catching (andThen (gt_indexed d index repo [''add'', ''-A'', ''--ignore-errors'', ''--'', ''.'']) (\<lambda>_. ret ()))
          (\<lambda>e. if gt_exitCode d e \<noteq> Some 1 then throw e else ret ())) (\<lambda>_.
          trimmed (gt_indexed d index repo [''write-tree'']))))))
       (gt_rm d dir))"

definition snapshotTree :: "'v git_deps \<Rightarrow> string \<Rightarrow> ('v, thrown, snapshot) act" where
  "snapshotTree d cwd =
     andThen (trimmed (gt_git d cwd [''rev-parse'', ''--show-toplevel''])) (\<lambda>repo.
     andThen (writeTree d repo) (\<lambda>tree.
     andThen (attempt (trimmed (gt_git d repo [''rev-parse'', ''--verify'', ''-q'', ''HEAD^{commit}'']))) (\<lambda>h.
     andThen (trimmed (gt_git d repo ([''-c'', ''user.email=swarm@openswarm'', ''-c'', ''user.name=openswarm'',
         ''commit-tree'', ''--no-gpg-sign'', tree] @ (case h of Inl _ \<Rightarrow> [] | Inr c \<Rightarrow> [''-p'', c]) @ [''-m'', ''gate-snapshot''])))
       (\<lambda>c. ret \<lparr>sn_commit = c, sn_tree = tree\<rparr>))))"

definition withSnapshotClone ::
  "'v git_deps \<Rightarrow> string \<Rightarrow> string \<Rightarrow> (string \<Rightarrow> ('v, thrown, 'a) act) \<Rightarrow> (string \<Rightarrow> 'v \<Rightarrow> 'v) option \<Rightarrow> ('v, thrown, 'a) act" where
  "withSnapshotClone d cwd c f say =
     andThen (trimmed (gt_git d cwd [''rev-parse'', ''--show-toplevel''])) (\<lambda>repo.
     andThen (trimmed (gt_git d cwd [''rev-parse'', ''--show-prefix''])) (\<lambda>pre.
     andThen (trimmed (gt_git d repo [''rev-parse'', ''--git-path'', ''objects''])) (\<lambda>objects.
     andThen (trimmed (gt_git d repo [''rev-parse'', ''--git-path'', ''shallow''])) (\<lambda>shallow.
     andThen (gt_mkdtemp d (join_path (gt_tmpdir d) ''openswarm-review-'')) (\<lambda>dir.
     let path = join_path dir ''tree'' in
     always
       (andThen (trimmed (gt_git d dir [''init'', ''-q'', path])) (\<lambda>_.
        andThen (gt_write d (path @ ''/.git/objects/info/alternates'') (resolve_path repo objects @ nl)) (\<lambda>_.
        andThen (gt_exists d (resolve_path repo shallow)) (\<lambda>there.
        andThen (if there then gt_copy d (resolve_path repo shallow) (path @ ''/.git/shallow'') else ret ()) (\<lambda>_.
        andThen (trimmed (gt_git d path [''-c'', ''core.hooksPath=/dev/null'', ''checkout'', ''-q'', ''--detach'', c])) (\<lambda>_.
        andThen (linkIgnored d say True repo path) (\<lambda>_. f (join_path path pre))))))))
       (gt_rm d dir))))))"

end
