(* ===== verification/Git.thy ===== *)
theory Git
  imports GitFiles
begin

text \<open>
  \<open>packages/git/src/index.ts\<close>: the team's worktrees, their commits, and the sequential merge queue. The \<open>git\<close>
  command is a computation of its directory and arguments that returns its standard output or throws.
\<close>

section \<open>Options, dependencies and state\<close>

record git_options =
  go_repoRoot :: string
  go_teamId :: string
  go_baseRef :: "string option"
  go_targetBranch :: "string option"
  go_worktreeDir :: "string option"
  go_linkIgnored :: "bool option"

text \<open>A memoized promise is what it settled to, a rejection included.\<close>

record swarm_git =
  sg_worktrees :: "(string, worktree) jmap"
  sg_promises :: "(string, thrown + worktree) jmap"
  sg_used :: "string list"
  sg_ignoreChecked :: bool
  sg_base :: "string option"
  sg_target :: "string option"
  sg_train :: "string option"
  sg_scratch :: "(thrown + string) option"

definition git_new :: swarm_git where
  "git_new = \<lparr>sg_worktrees = [], sg_promises = [], sg_used = [], sg_ignoreChecked = False, sg_base = None, sg_target = None, sg_train = None, sg_scratch = None\<rparr>"

type_synonym ('v, 'a) gt = "(swarm_git \<times> 'v, thrown, 'a) act"

definition outside :: "('v, thrown, 'a) act \<Rightarrow> ('v, 'a) gt" where
  "outside m = (\<lambda>(s, v). case m v of (r, v') \<Rightarrow> (r, (s, v')))"

definition look :: "(swarm_git \<Rightarrow> 'a) \<Rightarrow> ('v, 'a) gt" where
  "look f = (\<lambda>(s, v). (Inr (f s), (s, v)))"

definition put :: "(swarm_git \<Rightarrow> swarm_git) \<Rightarrow> ('v, unit) gt" where
  "put f = (\<lambda>(s, v). (Inr (), (f s, v)))"

definition git_cmd :: "'v git_deps \<Rightarrow> string \<Rightarrow> string list \<Rightarrow> ('v, string) gt" where
  "git_cmd d cwd args = outside (gt_git d cwd args)"

section \<open>Names and paths\<close>

definition name_char :: "char \<Rightarrow> bool" where
  "name_char c \<longleftrightarrow> (65 \<le> (of_char c :: nat) \<and> (of_char c :: nat) \<le> 90) \<or> (97 \<le> (of_char c :: nat) \<and> (of_char c :: nat) \<le> 122) \<or>
     is_digit c \<or> c = CHR ''.'' \<or> c = CHR ''_'' \<or> c = CHR ''-''"

definition sanitized :: "string \<Rightarrow> string" where
  "sanitized k = map (\<lambda>c. if name_char c then c else CHR ''-'') k"

definition namesFor :: "(string \<Rightarrow> string) \<Rightarrow> string \<Rightarrow> string \<times> string" where
  "namesFor sha8 k = (sanitized k, sanitized k @ ''-'' @ sha8 k)"

definition git_dir :: "git_options \<Rightarrow> string" where
  "git_dir o' = or_else (go_worktreeDir o') (go_repoRoot o' @ ''/.swarm/worktrees/'' @ go_teamId o')"

definition ensureDir :: "git_options \<Rightarrow> 'v git_deps \<Rightarrow> ('v, unit) gt" where
  "ensureDir o' d =
     andThen (outside (gt_mkdirs d (git_dir o'))) (\<lambda>_.
     andThen (look sg_ignoreChecked) (\<lambda>checked.
     if checked then ret ()
     else
       andThen (put (\<lambda>s. s\<lparr>sg_ignoreChecked := True\<rparr>)) (\<lambda>_.
       if starts_with (git_dir o') (go_repoRoot o' @ ''/.swarm'') then outside (ignoring (teach_ignore d (go_repoRoot o'))) else ret ())))"

definition targetBranch :: "git_options \<Rightarrow> string" where
  "targetBranch o' = or_else (go_targetBranch o') (''swarm/'' @ go_teamId o' @ ''/integration'')"

definition task_branch :: "git_options \<Rightarrow> string \<Rightarrow> string" where
  "task_branch o' safe = ''swarm/'' @ go_teamId o' @ ''/'' @ safe"

definition baseCommit :: "git_options \<Rightarrow> 'v git_deps \<Rightarrow> ('v, string) gt" where
  "baseCommit o' d =
     andThen (look sg_base) (\<lambda>b. case b of
       Some c \<Rightarrow> ret c
     | None \<Rightarrow>
         andThen (git_cmd d (go_repoRoot o') [''rev-parse'', or_else (go_baseRef o') ''HEAD'']) (\<lambda>out.
         andThen (put (\<lambda>s. s\<lparr>sg_base := Some (js_trim out)\<rparr>)) (\<lambda>_. ret (js_trim out))))"

section \<open>Worktrees\<close>

definition link_env :: "git_options \<Rightarrow> 'v git_deps \<Rightarrow> string \<Rightarrow> ('v, unit) gt" where
  "link_env o' d path =
     (if go_linkIgnored o' = Some False then ret () else outside (linkIgnored d (gt_progress d) False (go_repoRoot o') path))"

definition choose_name :: "(string \<Rightarrow> string) \<Rightarrow> string \<Rightarrow> string list \<Rightarrow> string" where
  "choose_name sha8 k used =
     (let (plain, hashed) = namesFor sha8 k in if plain = k \<and> plain \<notin> set used then plain else hashed)"

definition createWorktree :: "git_options \<Rightarrow> 'v git_deps \<Rightarrow> string \<Rightarrow> ('v, worktree) gt" where
  "createWorktree o' d k =
     andThen (look (\<lambda>s. choose_name (gt_sha8 d) k (sg_used s))) (\<lambda>safe.
     andThen (put (\<lambda>s. s\<lparr>sg_used := safe # sg_used s\<rparr>)) (\<lambda>_.
     let wt = \<lparr>wt_taskKey = k, wt_path = git_dir o' @ ''/'' @ safe, wt_branch = task_branch o' safe\<rparr> in
     andThen (ensureDir o' d) (\<lambda>_.
     andThen (baseCommit o' d) (\<lambda>base.
     andThen (git_cmd d (go_repoRoot o') [''worktree'', ''add'', ''-b'', wt_branch wt, wt_path wt, base]) (\<lambda>_.
     andThen (link_env o' d (wt_path wt)) (\<lambda>_.
     andThen (put (\<lambda>s. s\<lparr>sg_worktrees := jm_set k wt (sg_worktrees s)\<rparr>)) (\<lambda>_. ret wt)))))))"

text \<open>A second call for a key gets what the first settled to.\<close>

definition worktree_for :: "git_options \<Rightarrow> 'v git_deps \<Rightarrow> string \<Rightarrow> ('v, worktree) gt" where
  "worktree_for o' d k =
     andThen (look (\<lambda>s. jm_get (sg_promises s) k)) (\<lambda>p. case p of
       Some (Inr wt) \<Rightarrow> ret wt
     | Some (Inl e) \<Rightarrow> throw e
     | None \<Rightarrow>
         andThen (attempt (createWorktree o' d k)) (\<lambda>r.
         andThen (put (\<lambda>s. s\<lparr>sg_promises := jm_set k r (sg_promises s)\<rparr>)) (\<lambda>_.
           case r of Inl e \<Rightarrow> throw e | Inr wt \<Rightarrow> ret wt)))"

definition adopted_name :: "string \<Rightarrow> string \<Rightarrow> string list \<Rightarrow> string option" where
  "adopted_name plain hashed heads =
     (if \<exists>h \<in> set heads. ends_with h (''/'' @ hashed) then Some hashed
      else if \<exists>h \<in> set heads. ends_with h (''/'' @ plain) then Some plain else None)"

definition adopt :: "git_options \<Rightarrow> 'v git_deps \<Rightarrow> string \<Rightarrow> string \<Rightarrow> ('v, worktree option) gt" where
  "adopt o' d k remote =
     (let (plain, hashed) = namesFor (gt_sha8 d) k; root = go_repoRoot o' in
      andThen (git_cmd d root [''ls-remote'', ''--heads'', remote, task_branch o' plain, task_branch o' hashed]) (\<lambda>out.
      case adopted_name plain hashed (split_on newline out) of
        None \<Rightarrow> ret None
      | Some safe \<Rightarrow>
          let br = task_branch o' safe; wt = \<lparr>wt_taskKey = k, wt_path = git_dir o' @ ''/'' @ safe, wt_branch = br\<rparr> in
          andThen (git_cmd d root [''fetch'', ''-q'', remote, ''+refs/heads/'' @ br @ '':refs/heads/'' @ br]) (\<lambda>_.
          andThen (put (\<lambda>s. s\<lparr>sg_used := safe # sg_used s\<rparr>)) (\<lambda>_.
          andThen (ensureDir o' d) (\<lambda>_.
          andThen (git_cmd d root [''worktree'', ''add'', ''-q'', wt_path wt, br]) (\<lambda>_.
          andThen (link_env o' d (wt_path wt)) (\<lambda>_.
          andThen (put (\<lambda>s. s\<lparr>sg_worktrees := jm_set k wt (sg_worktrees s), sg_promises := jm_set k (Inr wt) (sg_promises s)\<rparr>)) (\<lambda>_.
            ret (Some wt)))))))))"

definition removeWorktree :: "git_options \<Rightarrow> 'v git_deps \<Rightarrow> worktree \<Rightarrow> ('v, unit) gt" where
  "removeWorktree o' d wt =
     andThen (catching (andThen (git_cmd d (go_repoRoot o') [''worktree'', ''remove'', ''--force'', wt_path wt]) (\<lambda>_. ret ()))
       (\<lambda>_. outside (gt_rm d (wt_path wt)))) (\<lambda>_.
       put (\<lambda>s. s\<lparr>sg_worktrees := jm_del (wt_taskKey wt) (sg_worktrees s), sg_promises := jm_del (wt_taskKey wt) (sg_promises s)\<rparr>))"

definition git_list :: "('v, worktree list) gt" where
  "git_list = look (\<lambda>s. jm_vals (sg_worktrees s))"

definition clean :: "git_options \<Rightarrow> 'v git_deps \<Rightarrow> string \<Rightarrow> ('v, unit) gt" where
  "clean o' d path =
     andThen (git_cmd d path [''clean'', ''-fdq'']) (\<lambda>_.
       if go_linkIgnored o' = Some False then ret () else outside (linkIgnored d None False (go_repoRoot o') path))"

definition resetTo :: "git_options \<Rightarrow> 'v git_deps \<Rightarrow> worktree \<Rightarrow> string \<Rightarrow> ('v, unit) gt" where
  "resetTo o' d wt c = andThen (git_cmd d (wt_path wt) [''read-tree'', ''-u'', ''--reset'', c]) (\<lambda>_. clean o' d (wt_path wt))"

section \<open>Commits\<close>

definition AS_SWARM :: "string list" where
  "AS_SWARM = [''-c'', ''user.email=swarm@openswarm'', ''-c'', ''user.name=openswarm'']"

definition autoCommit :: "'v git_deps \<Rightarrow> worktree \<Rightarrow> string \<Rightarrow> ('v, bool) gt" where
  "autoCommit d wt msg =
     andThen (git_cmd d (wt_path wt) [''add'', ''-A'']) (\<lambda>_.
     catching (andThen (git_cmd d (wt_path wt) [''diff'', ''--cached'', ''--quiet'']) (\<lambda>_. ret False))
       (\<lambda>_. andThen (git_cmd d (wt_path wt) (AS_SWARM @ [''commit'', ''-q'', ''--no-verify'', ''-m'', msg])) (\<lambda>_. ret True)))"

text \<open>\<open>git rev-list --count\<close> prints a decimal number.\<close>

definition commitCount :: "git_options \<Rightarrow> 'v git_deps \<Rightarrow> string \<Rightarrow> string option \<Rightarrow> ('v, nat) gt" where
  "commitCount o' d br from =
     andThen (case from of Some f \<Rightarrow> ret f | None \<Rightarrow> baseCommit o' d) (\<lambda>f.
     andThen (git_cmd d (go_repoRoot o') [''rev-list'', ''--count'', f @ ''..'' @ br]) (\<lambda>out. ret (digits_val 0 (js_trim out))))"

definition number_or_0 :: "string \<Rightarrow> nat" where
  "number_or_0 s = (if s \<noteq> [] \<and> list_all is_digit s then digits_val 0 s else 0)"

definition stat_line :: "string \<Rightarrow> diff_summary \<Rightarrow> diff_summary" where
  "stat_line line st =
     (case split_on (CHR 0x09) line of
        added # removed # p # ps \<Rightarrow> st\<lparr>ds_files := ds_files st @ [js_join [CHR 0x09] (p # ps)],
          ds_insertions := ds_insertions st + number_or_0 added, ds_deletions := ds_deletions st + number_or_0 removed\<rparr>
      | _ \<Rightarrow> st)"

definition read_numstat :: "string \<Rightarrow> diff_summary" where
  "read_numstat out = foldl (\<lambda>st line. stat_line line st) \<lparr>ds_files = [], ds_insertions = 0, ds_deletions = 0\<rparr> (split_on newline out)"

definition diffStat :: "git_options \<Rightarrow> 'v git_deps \<Rightarrow> string \<Rightarrow> string \<Rightarrow> ('v, diff_summary) gt" where
  "diffStat o' d from br =
     andThen (git_cmd d (go_repoRoot o') [''diff'', ''--numstat'', ''--no-renames'', from @ ''...'' @ br]) (\<lambda>out. ret (read_numstat out))"

definition revParse :: "git_options \<Rightarrow> 'v git_deps \<Rightarrow> string \<Rightarrow> ('v, string) gt" where
  "revParse o' d r = andThen (git_cmd d (go_repoRoot o') [''rev-parse'', r]) (\<lambda>out. ret (js_trim out))"

definition contains :: "git_options \<Rightarrow> 'v git_deps \<Rightarrow> string \<Rightarrow> string \<Rightarrow> ('v, bool) gt" where
  "contains o' d r c = succeeds (git_cmd d (go_repoRoot o') [''merge-base'', ''--is-ancestor'', c, r])"

section \<open>The target and the merge queue\<close>

definition targetWorktree :: "git_options \<Rightarrow> 'v git_deps \<Rightarrow> ('v, string) gt" where
  "targetWorktree o' d =
     andThen (look sg_target) (\<lambda>t. case t of
       Some p \<Rightarrow> ret p
     | None \<Rightarrow>
         let path = git_dir o' @ ''/.target''; root = go_repoRoot o' in
         andThen (ensureDir o' d) (\<lambda>_.
         andThen (git_cmd d root [''branch'', ''--list'', targetBranch o']) (\<lambda>out.
         andThen (if js_trim out = []
             then andThen (baseCommit o' d) (\<lambda>base. git_cmd d root [''worktree'', ''add'', ''-b'', targetBranch o', path, base])
             else git_cmd d root [''worktree'', ''add'', path, targetBranch o']) (\<lambda>_.
         andThen (put (\<lambda>s. s\<lparr>sg_target := Some path\<rparr>)) (\<lambda>_. ret path)))))"

definition targetTip :: "git_options \<Rightarrow> 'v git_deps \<Rightarrow> ('v, string) gt" where
  "targetTip o' d = andThen (targetWorktree o' d) (\<lambda>t. andThen (git_cmd d t [''rev-parse'', ''HEAD'']) (\<lambda>out. ret (js_trim out)))"

definition advanceTarget :: "git_options \<Rightarrow> 'v git_deps \<Rightarrow> string \<Rightarrow> ('v, unit) gt" where
  "advanceTarget o' d c =
     andThen (targetWorktree o' d) (\<lambda>t. andThen (git_cmd d t [''merge'', ''--ff-only'', ''-q'', c]) (\<lambda>_. ret ()))"

definition no_merges :: "git_options \<Rightarrow> merge_outcome" where
  "no_merges o' = \<lparr>mo_targetBranch = targetBranch o', mo_merged = [], mo_conflicts = [], mo_empty = [], mo_withheld = [],
     mo_landed = None, mo_ejected = None, mo_repaired = None, mo_resolved = None, mo_stopped = None\<rparr>"

definition branch_of :: "worktree \<Rightarrow> branch_ref" where
  "branch_of wt = \<lparr>br_taskKey = wt_taskKey wt, br_branch = wt_branch wt\<rparr>"

definition merge_args :: "string \<Rightarrow> string list" where
  "merge_args br = AS_SWARM @ [''merge'', ''--no-ff'', ''--no-verify'', ''-q'', ''-m'', ''swarm: merge '' @ br, br]"

text \<open>The outcome is pushed to as the \<open>try\<close> goes, so what it pushed before a throw stays.\<close>

definition merge_one :: "git_options \<Rightarrow> 'v git_deps \<Rightarrow> string \<Rightarrow> merge_outcome \<Rightarrow> worktree \<Rightarrow> ('v, merge_outcome) gt" where
  "merge_one o' d target out wt =
     andThen (commitCount o' d (wt_branch wt) None) (\<lambda>commits.
     if commits = 0 then
       andThen (removeWorktree o' d wt) (\<lambda>_. ret (out\<lparr>mo_empty := mo_empty out @ [branch_of wt]\<rparr>))
     else
       andThen (attempt (git_cmd d target (merge_args (wt_branch wt)))) (\<lambda>tried.
       let conflicted = (\<lambda>out. andThen (ignoring (git_cmd d target [''merge'', ''--abort''])) (\<lambda>_.
             ret (out\<lparr>mo_conflicts := mo_conflicts out @ [branch_of wt]\<rparr>))) in
       case tried of
         Inl _ \<Rightarrow> conflicted out
       | Inr _ \<Rightarrow>
           let out = out\<lparr>mo_merged := mo_merged out @ [\<lparr>br_taskKey = wt_taskKey wt, br_branch = wt_branch wt, br_commits = commits\<rparr>]\<rparr> in
           andThen (attempt (removeWorktree o' d wt)) (\<lambda>removed.
             case removed of Inl _ \<Rightarrow> conflicted out | Inr _ \<Rightarrow> ret out)))"

primrec merge_each :: "git_options \<Rightarrow> 'v git_deps \<Rightarrow> string \<Rightarrow> worktree list \<Rightarrow> merge_outcome \<Rightarrow> ('v, merge_outcome) gt" where
  "merge_each o' d target [] out = ret out"
| "merge_each o' d target (wt # wts) out = andThen (merge_one o' d target out wt) (\<lambda>out. merge_each o' d target wts out)"

definition mergeAll :: "git_options \<Rightarrow> 'v git_deps \<Rightarrow> ('v, merge_outcome) gt" where
  "mergeAll o' d =
     andThen git_list (\<lambda>wts.
     if wts = [] then ret (no_merges o')
     else andThen (targetWorktree o' d) (\<lambda>target. merge_each o' d target wts (no_merges o')))"

section \<open>The train's steps\<close>

definition unmerged :: "'v git_deps \<Rightarrow> string \<Rightarrow> ('v, string) gt" where
  "unmerged d cwd = git_cmd d cwd [''diff'', ''--name-only'', ''--diff-filter=U'']"

primrec merge_branches :: "'v git_deps \<Rightarrow> string \<Rightarrow> string list \<Rightarrow> string list \<Rightarrow> ('v, string list) gt" where
  "merge_branches d cwd [] conflicted = ret conflicted"
| "merge_branches d cwd (br # brs) conflicted =
     andThen (attempt (git_cmd d cwd (merge_args br))) (\<lambda>r. case r of
       Inr _ \<Rightarrow> merge_branches d cwd brs conflicted
     | Inl e \<Rightarrow>
         andThen (unmerged d cwd) (\<lambda>out.
         andThen (ignoring (git_cmd d cwd [''merge'', ''--abort''])) (\<lambda>_.
           if js_trim out = [] then throw e else merge_branches d cwd brs (conflicted @ [br]))))"

definition train_worktree :: "git_options \<Rightarrow> 'v git_deps \<Rightarrow> string \<Rightarrow> ('v, string) gt" where
  "train_worktree o' d tip =
     andThen (look sg_train) (\<lambda>t. case t of
       Some p \<Rightarrow> ret p
     | None \<Rightarrow>
         let path = git_dir o' @ ''/.train'' in
         andThen (ensureDir o' d) (\<lambda>_.
         andThen (git_cmd d (go_repoRoot o') [''worktree'', ''add'', ''--detach'', path, tip]) (\<lambda>_.
         andThen (link_env o' d path) (\<lambda>_.
         andThen (put (\<lambda>s. s\<lparr>sg_train := Some path\<rparr>)) (\<lambda>_. ret path)))))"

definition speculate :: "git_options \<Rightarrow> 'v git_deps \<Rightarrow> string \<Rightarrow> string list \<Rightarrow> ('v, string \<times> string \<times> string list) gt" where
  "speculate o' d tip brs =
     andThen (train_worktree o' d tip) (\<lambda>cwd.
     andThen (git_cmd d cwd [''-c'', ''core.hooksPath=/dev/null'', ''checkout'', ''-q'', ''-f'', ''--detach'', tip]) (\<lambda>_.
     andThen (clean o' d cwd) (\<lambda>_.
     andThen (merge_branches d cwd brs []) (\<lambda>conflicted.
     andThen (git_cmd d cwd [''rev-parse'', ''HEAD'']) (\<lambda>out. ret (cwd, js_trim out, conflicted))))))"

definition abortMerge :: "git_options \<Rightarrow> 'v git_deps \<Rightarrow> worktree \<Rightarrow> ('v, unit) gt" where
  "abortMerge o' d wt = andThen (git_cmd d (wt_path wt) [''reset'', ''-q'', ''--hard'', ''HEAD'']) (\<lambda>_. clean o' d (wt_path wt))"

definition mergeInto :: "git_options \<Rightarrow> 'v git_deps \<Rightarrow> worktree \<Rightarrow> string \<Rightarrow> ('v, string list) gt" where
  "mergeInto o' d wt r =
     catching (andThen (git_cmd d (wt_path wt)
         (AS_SWARM @ [''merge'', ''--no-verify'', ''-q'', ''-m'', ''swarm: merge '' @ r @ '' into '' @ wt_branch wt, r])) (\<lambda>_. ret []))
       (\<lambda>e. andThen (unmerged d (wt_path wt)) (\<lambda>out.
         let files = filter (\<lambda>l. l \<noteq> []) (split_on newline out) in
         if files \<noteq> [] then ret files
         else andThen (abortMerge o' d wt) (\<lambda>_. throw e)))"

definition concludeMerge :: "'v git_deps \<Rightarrow> worktree \<Rightarrow> string \<Rightarrow> ('v, unit) gt" where
  "concludeMerge d wt msg =
     andThen (succeeds (git_cmd d (wt_path wt) [''rev-parse'', ''-q'', ''--verify'', ''MERGE_HEAD''])) (\<lambda>merging.
     if \<not> merging then andThen (autoCommit d wt msg) (\<lambda>_. ret ())
     else
       andThen (git_cmd d (wt_path wt) [''add'', ''-A'']) (\<lambda>_.
       andThen (git_cmd d (wt_path wt) (AS_SWARM @ [''commit'', ''-q'', ''--no-verify'', ''-m'', msg])) (\<lambda>_. ret ())))"

section \<open>Restoring what a gate reads\<close>

definition pins_nothing :: "string \<Rightarrow> string" where
  "pins_nothing spec = ''restoreFromBase: pathspec \"'' @ spec @ ''\" matches nothing at base and nothing in the worktree '' @ em_dash @
     '' it pins nothing. Note git matches wildcards against WHOLE paths, so \"a/*/b\" does not match \"a/x/b/c.ts\"; pass the directory itself.''"

primrec known_specs :: "'v git_deps \<Rightarrow> worktree \<Rightarrow> string \<Rightarrow> string list \<Rightarrow> ('v, string list) gt" where
  "known_specs d wt base [] = ret []"
| "known_specs d wt base (spec # specs) =
     andThen (git_cmd d (wt_path wt) [''ls-tree'', ''-r'', ''--name-only'', base, ''--'', spec]) (\<lambda>listed.
     if js_trim listed \<noteq> [] then andThen (known_specs d wt base specs) (\<lambda>ks. ret (spec # ks))
     else
       andThen (git_cmd d (wt_path wt) [''status'', ''--porcelain'', ''--'', spec]) (\<lambda>present.
       if js_trim present = [] then throw (OtherError (pins_nothing spec)) else known_specs d wt base specs))"

definition restoreFromBase :: "git_options \<Rightarrow> 'v git_deps \<Rightarrow> worktree \<Rightarrow> string list \<Rightarrow> ('v, string list) gt" where
  "restoreFromBase o' d wt specs =
     (if specs = [] then ret []
      else
        andThen (git_cmd d (wt_path wt) ([''status'', ''--porcelain'', ''--''] @ specs)) (\<lambda>out.
        let touched = filter (\<lambda>l. l \<noteq> []) (map (\<lambda>l. js_trim (drop 3 l)) (split_on newline out)) in
        andThen (baseCommit o' d) (\<lambda>base.
        andThen (known_specs d wt base specs) (\<lambda>known.
        andThen (if known \<noteq> [] then andThen (git_cmd d (wt_path wt) ([''checkout'', base, ''--''] @ known)) (\<lambda>_. ret ()) else ret ()) (\<lambda>_.
        andThen (git_cmd d (wt_path wt) ([''clean'', ''-fdq'', ''--''] @ specs)) (\<lambda>_. ret touched))))))"

section \<open>Scratch and teardown\<close>

definition create_scratch :: "git_options \<Rightarrow> 'v git_deps \<Rightarrow> ('v, string) gt" where
  "create_scratch o' d =
     (let path = git_dir o' @ ''/.scratch'' in
      andThen (ensureDir o' d) (\<lambda>_.
      andThen (baseCommit o' d) (\<lambda>base.
      andThen (git_cmd d (go_repoRoot o') [''worktree'', ''add'', ''--detach'', path, base]) (\<lambda>_.
      andThen (link_env o' d path) (\<lambda>_. ret path)))))"

definition scratch :: "git_options \<Rightarrow> 'v git_deps \<Rightarrow> ('v, string) gt" where
  "scratch o' d =
     andThen (look sg_scratch) (\<lambda>p. case p of
       Some (Inr path) \<Rightarrow> ret path
     | Some (Inl e) \<Rightarrow> throw e
     | None \<Rightarrow>
         andThen (attempt (create_scratch o' d)) (\<lambda>r.
         andThen (put (\<lambda>s. s\<lparr>sg_scratch := Some r\<rparr>)) (\<lambda>_. case r of Inl e \<Rightarrow> throw e | Inr path \<Rightarrow> ret path)))"

definition drop_worktree :: "git_options \<Rightarrow> 'v git_deps \<Rightarrow> string \<Rightarrow> ('v, unit) gt" where
  "drop_worktree o' d path = ignoring (git_cmd d (go_repoRoot o') [''worktree'', ''remove'', ''--force'', path])"

definition dispose :: "git_options \<Rightarrow> 'v git_deps \<Rightarrow> ('v, unit) gt" where
  "dispose o' d =
     andThen (look sg_target) (\<lambda>t.
     andThen (case t of None \<Rightarrow> ret () | Some p \<Rightarrow> andThen (drop_worktree o' d p) (\<lambda>_. put (\<lambda>s. s\<lparr>sg_target := None\<rparr>))) (\<lambda>_.
     andThen (look sg_train) (\<lambda>t.
     andThen (case t of None \<Rightarrow> ret () | Some p \<Rightarrow> andThen (drop_worktree o' d p) (\<lambda>_. put (\<lambda>s. s\<lparr>sg_train := None\<rparr>))) (\<lambda>_.
     andThen (look sg_scratch) (\<lambda>t. case t of
       None \<Rightarrow> ret ()
     | Some r \<Rightarrow>
         andThen (put (\<lambda>s. s\<lparr>sg_scratch := None\<rparr>)) (\<lambda>_.
           case r of Inl _ \<Rightarrow> ret () | Inr p \<Rightarrow> drop_worktree o' d p))))))"

definition removeAll :: "git_options \<Rightarrow> 'v git_deps \<Rightarrow> ('v, unit) gt" where
  "removeAll o' d = andThen git_list (\<lambda>wts. andThen (each_do (removeWorktree o' d) wts) (\<lambda>_. dispose o' d))"

section \<open>As the train's repository\<close>

definition train_git_of ::
  "git_options \<Rightarrow> 'v git_deps \<Rightarrow> (string \<Rightarrow> ('v, thrown, string option) act) \<Rightarrow>
   (swarm_git \<times> 'v) train_git" where
  "train_git_of o' d read =
     \<lparr>tg_target = targetBranch o', tg_list = git_list, tg_commitCount = commitCount o' d, tg_diffStat = diffStat o' d,
      tg_targetTip = targetTip o' d, tg_revParse = revParse o' d, tg_speculate = speculate o' d, tg_advanceTarget = advanceTarget o' d,
      tg_removeWorktree = removeWorktree o' d, tg_mergeAll = mergeAll o' d, tg_mergeInto = mergeInto o' d,
      tg_abortMerge = abortMerge o' d, tg_concludeMerge = concludeMerge d, tg_contains = contains o' d, tg_autoCommit = autoCommit d,
      tg_snapshot = (\<lambda>p. outside (snapshotTree d p)), tg_readFile = (\<lambda>p. outside (read p))\<rparr>"

end
