(* ===== verification/GitLogic.thy ===== *)
theory GitLogic
  imports Git
begin

text \<open>
  Invariants of the team's git state: a computation \<open>stays\<close> in \<open>P\<close> when it leads from states with \<open>P\<close> to states
  with \<open>P\<close>, whatever it throws and whatever git and the file system answer. The one proved of every operation says
  which names its worktrees have.
\<close>

named_theorems stays_intros "operations of the team's git state that keep an invariant"

definition stays :: "(swarm_git \<Rightarrow> bool) \<Rightarrow> ('v, 'a) gt \<Rightarrow> bool" where
  "stays P m \<longleftrightarrow> (\<forall>s v r s' v'. P s \<longrightarrow> m (s, v) = (r, (s', v')) \<longrightarrow> P s')"

lemma staysI: "(\<And>s v r s' v'. P s \<Longrightarrow> m (s, v) = (r, (s', v')) \<Longrightarrow> P s') \<Longrightarrow> stays P m"
  unfolding stays_def by blast

lemma staysD: "stays P m \<Longrightarrow> P s \<Longrightarrow> m (s, v) = (r, (s', v')) \<Longrightarrow> P s'"
  unfolding stays_def by blast

lemma stays_ret [stays_intros]: "stays P (ret x)"
  by (rule staysI) (simp add: ret_def)

lemma stays_throw [stays_intros]: "stays P (throw e)"
  by (rule staysI) (simp add: throw_def)

lemma stays_look [stays_intros]: "stays P (look f)"
  by (rule staysI) (simp add: look_def)

lemma stays_outside [stays_intros]: "stays P (outside m)"
  by (rule staysI) (simp add: outside_def split: prod.splits)

lemma stays_git_cmd [stays_intros]: "stays P (git_cmd d cwd args)"
  by (simp add: git_cmd_def stays_outside)

lemma stays_put: "(\<And>s. P s \<Longrightarrow> P (f s)) \<Longrightarrow> stays P (put f)"
  by (rule staysI) (simp add: put_def)

lemma stays_andThen [stays_intros]:
  assumes "stays P m" and "\<And>x. stays P (f x)"
  shows "stays P (andThen m f)"
proof (rule staysI)
  fix s v r s' v' assume "P s" and "andThen m f (s, v) = (r, (s', v'))"
  from this(2) show "P s'"
  proof (cases rule: andThen_cases)
    case (1 e)
    then show ?thesis using assms(1) \<open>P s\<close> by (rule_tac staysD)
  next
    case (2 x sw)
    then show ?thesis
      using \<open>P s\<close> by (cases sw) (blast intro: staysD[OF assms(2)] staysD[OF assms(1)])
  qed
qed

lemma stays_look_then: "(\<And>s. stays P (g (f s))) \<Longrightarrow> stays P (andThen (look f) g)"
  unfolding stays_def by (auto simp: andThen_apply look_def)

lemma stays_attempt [stays_intros]: "stays P m \<Longrightarrow> stays P (attempt m)"
  unfolding stays_def attempt_apply by (fastforce split: prod.splits)

lemma stays_catching [stays_intros]:
  assumes "stays P m" and "\<And>e. stays P (h e)"
  shows "stays P (catching m h)"
proof (rule staysI)
  fix s v r s' v' assume "P s" and r: "catching m h (s, v) = (r, (s', v'))"
  obtain q s1 v1 where m: "m (s, v) = (q, (s1, v1))" by (metis prod.exhaust)
  from assms(1) \<open>P s\<close> m have "P s1" by (rule staysD)
  with r m show "P s'"
    by (auto simp: catching_apply split: sum.splits elim: staysD[OF assms(2)])
qed

lemma stays_ignoring [stays_intros]: "stays P m \<Longrightarrow> stays P (ignoring m)"
  by (simp add: ignoring_def stays_intros)

lemma stays_succeeds [stays_intros]: "stays P m \<Longrightarrow> stays P (succeeds m)"
  by (simp add: succeeds_def stays_intros)

lemma stays_each_do [stays_intros]: "(\<And>x. x \<in> set xs \<Longrightarrow> stays P (f x)) \<Longrightarrow> stays P (each_do f xs)"
  by (induction xs) (auto intro: stays_ret stays_andThen)

lemma stays_if [stays_intros]: "(b \<Longrightarrow> stays P x) \<Longrightarrow> (\<not> b \<Longrightarrow> stays P y) \<Longrightarrow> stays P (if b then x else y)"
  by simp

section \<open>Operations that leave the worktrees alone\<close>

text \<open>An invariant of the task worktrees alone is kept by every operation that does not touch them.\<close>

locale worktree_invariant =
  fixes P :: "swarm_git \<Rightarrow> bool"
  assumes only_worktrees: "P s \<Longrightarrow> sg_worktrees s' = sg_worktrees s \<Longrightarrow> P s'"
    and removal: "P s \<Longrightarrow> P (s\<lparr>sg_worktrees := jm_del k (sg_worktrees s)\<rparr>)"
begin

lemma put_elsewhere [stays_intros]: "(\<And>s. sg_worktrees (f s) = sg_worktrees s) \<Longrightarrow> stays P (put f)"
  by (rule stays_put) (erule only_worktrees, simp)

lemma ensureDir_stays [stays_intros]: "stays P (ensureDir o' d)"
  unfolding ensureDir_def by (intro stays_intros put_elsewhere) simp

lemma baseCommit_stays [stays_intros]: "stays P (baseCommit o' d)"
  unfolding baseCommit_def by (auto intro!: stays_intros put_elsewhere split: option.split)

lemma link_env_stays [stays_intros]: "stays P (link_env o' d p)"
  unfolding link_env_def by (intro stays_intros)

lemma clean_stays [stays_intros]: "stays P (clean o' d p)"
  unfolding clean_def by (intro stays_intros)

lemma commitCount_stays [stays_intros]: "stays P (commitCount o' d br from')"
  unfolding commitCount_def by (auto intro!: stays_intros baseCommit_stays split: option.split)

lemma targetWorktree_stays [stays_intros]: "stays P (targetWorktree o' d)"
  unfolding targetWorktree_def Let_def
  by (auto intro!: stays_intros put_elsewhere baseCommit_stays ensureDir_stays split: option.split)

lemma removeWorktree_stays [stays_intros]: "stays P (removeWorktree o' d wt)"
  unfolding removeWorktree_def
  by (intro stays_intros stays_put) (erule only_worktrees[OF removal], simp)

lemma merge_one_stays [stays_intros]: "stays P (merge_one o' d target out wt)"
  unfolding merge_one_def Let_def
  by (auto intro!: stays_intros commitCount_stays removeWorktree_stays split: sum.split)

lemma merge_each_stays [stays_intros]: "stays P (merge_each o' d target wts out)"
  by (induction wts arbitrary: out) (auto intro!: stays_intros merge_one_stays)

lemma mergeAll_stays: "stays P (mergeAll o' d)"
  unfolding mergeAll_def git_list_def by (intro stays_intros targetWorktree_stays merge_each_stays)

lemma targetTip_stays: "stays P (targetTip o' d)"
  unfolding targetTip_def by (intro stays_intros targetWorktree_stays)

lemma advanceTarget_stays: "stays P (advanceTarget o' d c)"
  unfolding advanceTarget_def by (intro stays_intros targetWorktree_stays)

lemma merge_branches_stays: "stays P (merge_branches d cwd brs cs)"
  by (induction brs arbitrary: cs) (auto intro!: stays_intros simp: unmerged_def split: sum.split)

lemma speculate_stays: "stays P (speculate o' d tip brs)"
  unfolding speculate_def train_worktree_def Let_def
  by (auto intro!: stays_intros put_elsewhere ensureDir_stays link_env_stays clean_stays merge_branches_stays split: option.split)

lemma scratch_stays: "stays P (scratch o' d)"
  unfolding scratch_def create_scratch_def Let_def
  by (auto intro!: stays_intros put_elsewhere ensureDir_stays link_env_stays baseCommit_stays split: option.split sum.split)

lemma dispose_stays: "stays P (dispose o' d)"
  unfolding dispose_def drop_worktree_def
  by (auto intro!: stays_intros put_elsewhere split: option.split sum.split)

lemma removeAll_stays: "stays P (removeAll o' d)"
  unfolding removeAll_def git_list_def by (intro stays_intros removeWorktree_stays dispose_stays)

lemma restoreFromBase_stays: "stays P (restoreFromBase o' d wt specs)"
proof -
  have "stays P (known_specs d wt base specs)" for base
    by (induction specs) (auto intro!: stays_intros)
  then show ?thesis
    unfolding restoreFromBase_def Let_def by (auto intro!: stays_intros baseCommit_stays)
qed

end

section \<open>The names of the worktrees\<close>

definition names_of :: "(string \<Rightarrow> string) \<Rightarrow> string \<Rightarrow> string set" where
  "names_of sha8 k = insert (snd (namesFor sha8 k)) (if sanitized k = k then {k} else {})"

definition named :: "git_options \<Rightarrow> (string \<Rightarrow> string) \<Rightarrow> string set \<Rightarrow> swarm_git \<Rightarrow> bool" where
  "named o' sha8 K s \<longleftrightarrow> jm_wf (sg_worktrees s) \<and>
     (\<forall>(k, wt) \<in> set (sg_worktrees s). k \<in> K \<and> wt_taskKey wt = k \<and>
        (\<exists>safe \<in> names_of sha8 k. wt_branch wt = task_branch o' safe \<and> wt_path wt = git_dir o' @ ''/'' @ safe))"

lemma jm_del_subset: "set (jm_del k m) \<subseteq> set m"
  unfolding jm_del_def by (induction m) auto

interpretation names: worktree_invariant "named o' sha8 K"
  by unfold_locales (use jm_del_subset in \<open>fastforce simp: named_def\<close>)+

lemma choose_name_named: "choose_name sha8 k used \<in> names_of sha8 k"
  by (auto simp: choose_name_def names_of_def namesFor_def)

lemma adopted_name_named: "sanitized k = k \<Longrightarrow> adopted_name k (snd (namesFor sha8 k)) heads = Some safe \<Longrightarrow> safe \<in> names_of sha8 k"
  by (auto simp: adopted_name_def names_of_def split: if_splits)

text \<open>What one operation may do to the task worktrees.\<close>

inductive grows :: "git_options \<Rightarrow> (string \<Rightarrow> string) \<Rightarrow> string set \<Rightarrow> (string, worktree) jmap \<Rightarrow> (string, worktree) jmap \<Rightarrow> bool"
  for o' sha8 K where
  grows_not [intro]: "grows o' sha8 K m m"
| grows_by [intro]: "k \<in> K \<Longrightarrow> safe \<in> names_of sha8 k \<Longrightarrow>
    grows o' sha8 K m (jm_set k \<lparr>wt_taskKey = k, wt_path = git_dir o' @ CHR ''/'' # safe, wt_branch = task_branch o' safe\<rparr> m)"

lemma put_named:
  assumes "\<And>s. grows o' sha8 K (sg_worktrees s) (sg_worktrees (f s))"
  shows "stays (named o' sha8 K) (put f)"
proof (rule stays_put)
  fix s assume "named o' sha8 K s"
  with assms [of s] show "named o' sha8 K (f s)"
    by (cases rule: grows.cases) (auto simp: named_def jm_set_mem split: if_splits)
qed

lemma createWorktree_named: "k \<in> K \<Longrightarrow> stays (named o' (gt_sha8 d) K) (createWorktree o' d k)"
  unfolding createWorktree_def Let_def
  by (rule stays_look_then)
    (auto intro!: stays_intros put_named names.ensureDir_stays names.baseCommit_stays names.link_env_stays
      choose_name_named)

lemma worktree_for_named: "k \<in> K \<Longrightarrow> stays (named o' (gt_sha8 d) K) (worktree_for o' d k)"
  unfolding worktree_for_def
  by (auto intro!: stays_intros names.put_elsewhere createWorktree_named split: option.split sum.split)

lemma adopt_named:
  assumes "k \<in> K" and "sanitized k = k"
  shows "stays (named o' (gt_sha8 d) K) (adopt o' d k remote)"
  unfolding adopt_def Let_def namesFor_def
  using assms adopted_name_named [of k "gt_sha8 d"]
  by (auto intro!: stays_intros put_named names.ensureDir_stays names.link_env_stays grows.intros
      simp: namesFor_def split: option.split)

end
