(* ===== verification/GitProperties.thy ===== *)
theory GitProperties
  imports GitLogic
begin

text \<open>
  What the team's git layer guarantees: its merge queue reports every branch once, the branches of different
  tasks are different, a numstat is read back, and where a throw or a name defeats it.
\<close>

section \<open>The merge queue\<close>

definition pair_of :: "worktree \<Rightarrow> string \<times> string" where
  "pair_of wt = (wt_taskKey wt, wt_branch wt)"

definition reported :: "merge_outcome \<Rightarrow> (string \<times> string) multiset" where
  "reported out = mset (map (\<lambda>b. (br_taskKey b, br_branch b)) (mo_merged out)) +
     mset (map (\<lambda>b. (br_taskKey b, br_branch b)) (mo_conflicts out)) +
     mset (map (\<lambda>b. (br_taskKey b, br_branch b)) (mo_empty out))"

lemma commitCount_worktrees: "commitCount o' d br from' (s, v) = (r, (s', v')) \<Longrightarrow> sg_worktrees s' = sg_worktrees s"
proof -
  have "stays (\<lambda>t. sg_worktrees t = sg_worktrees s) (commitCount o' d br from')"
    unfolding commitCount_def baseCommit_def by (auto intro!: stays_intros stays_put split: option.split)
  then show "commitCount o' d br from' (s, v) = (r, (s', v')) \<Longrightarrow> sg_worktrees s' = sg_worktrees s"
    by (rule staysD) simp
qed

lemma targetWorktree_worktrees: "targetWorktree o' d (s, v) = (r, (s', v')) \<Longrightarrow> sg_worktrees s' = sg_worktrees s"
proof -
  have "stays (\<lambda>t. sg_worktrees t = sg_worktrees s) (targetWorktree o' d)"
    unfolding targetWorktree_def baseCommit_def ensureDir_def Let_def
    by (auto intro!: stays_intros stays_put split: option.split)
  then show "targetWorktree o' d (s, v) = (r, (s', v')) \<Longrightarrow> sg_worktrees s' = sg_worktrees s"
    by (rule staysD) simp
qed

definition rm_works :: "'v git_deps \<Rightarrow> bool" where
  "rm_works d \<longleftrightarrow> (\<forall>p v. \<exists>v'. gt_rm d p v = (Inr (), v'))"

lemma removeWorktree_result:
  assumes "rm_works d" and "removeWorktree o' d wt (s, v) = (r, (s', v'))"
  shows "r = Inr () \<and> sg_worktrees s' = jm_del (wt_taskKey wt) (sg_worktrees s)"
proof -
  obtain q v1 where q: "gt_git d (go_repoRoot o') [''worktree'', ''remove'', ''--force'', wt_path wt] v = (q, v1)"
    by (metis prod.exhaust)
  obtain v2 where "gt_rm d (wt_path wt) v1 = (Inr (), v2)"
    using assms(1) unfolding rm_works_def by blast
  then show ?thesis
    using assms(2) q
    by (cases q) (auto simp: removeWorktree_def act_simps git_cmd_def outside_def put_def)
qed

lemma merge_one_result:
  assumes "rm_works d" and m: "merge_one o' d target out wt (s, v) = (Inr out', (s', v'))"
  shows "reported out' = add_mset (pair_of wt) (reported out) \<and>
    (mo_conflicts out' = mo_conflicts out \<and> sg_worktrees s' = jm_del (wt_taskKey wt) (sg_worktrees s) \<or>
     mo_conflicts out' = mo_conflicts out @ [branch_of wt] \<and> sg_worktrees s' = sg_worktrees s)"
proof -
  from m obtain n s1 v1 where c: "commitCount o' d (wt_branch wt) None (s, v) = (Inr n, (s1, v1))"
    unfolding merge_one_def by (auto elim!: andThen_InrE)
  from commitCount_worktrees [OF c] have w: "sg_worktrees s1 = sg_worktrees s" .
  note unfolded = merge_one_def act_simps c Let_def ignoring_def git_cmd_def outside_def reported_def pair_of_def branch_of_def
  show ?thesis
  proof (cases "n = 0")
    case True
    obtain r s2 v2 where rw: "removeWorktree o' d wt (s1, v1) = (r, (s2, v2))" by (metis prod.exhaust)
    with removeWorktree_result [OF assms(1) rw] True m w show ?thesis
      by (auto simp: unfolded)
  next
    case False
    obtain q v2 where q: "gt_git d target (merge_args (wt_branch wt)) v1 = (q, v2)" by (metis prod.exhaust)
    show ?thesis
    proof (cases q)
      case (Inl e)
      with False m q w show ?thesis
        by (auto simp: unfolded split: prod.splits)
    next
      case (Inr x)
      obtain r s3 v3 where rw: "removeWorktree o' d wt (s1, v2) = (r, (s3, v3))" by (metis prod.exhaust)
      with removeWorktree_result [OF assms(1) rw] False m q w Inr show ?thesis
        by (auto simp: unfolded)
    qed
  qed
qed

lemma merge_each_result:
  assumes "rm_works d" and "merge_each o' d target wts out (s, v) = (Inr out', (s', v'))" and "distinct (map wt_taskKey wts)"
  shows "reported out' = reported out + mset (map pair_of wts) \<and>
    (\<exists>cs. set cs \<subseteq> set wts \<and> mo_conflicts out' = mo_conflicts out @ map branch_of cs \<and>
      (\<forall>k. jm_get (sg_worktrees s') k =
        (if k \<in> wt_taskKey ` set wts \<and> k \<notin> wt_taskKey ` set cs then None else jm_get (sg_worktrees s) k)))"
  using assms(2,3)
proof (induction wts arbitrary: out s v)
  case Nil
  then show ?case by (auto simp: ret_def)
next
  case (Cons wt wts)
  from Cons.prems(1) obtain out1 s1 v1 where m: "merge_one o' d target out wt (s, v) = (Inr out1, (s1, v1))"
    and rest: "merge_each o' d target wts out1 (s1, v1) = (Inr out', (s', v'))"
    by (auto elim!: andThen_InrE)
  from Cons.IH [OF rest] Cons.prems(2) obtain cs where
    rep: "reported out' = reported out1 + mset (map pair_of wts)" and cs: "set cs \<subseteq> set wts"
    and con: "mo_conflicts out' = mo_conflicts out1 @ map branch_of cs"
    and left: "\<And>k. jm_get (sg_worktrees s') k =
        (if k \<in> wt_taskKey ` set wts \<and> k \<notin> wt_taskKey ` set cs then None else jm_get (sg_worktrees s1) k)"
    by auto
  from merge_one_result [OF assms(1) m] have
    one: "reported out1 = add_mset (pair_of wt) (reported out)" and
    or: "mo_conflicts out1 = mo_conflicts out \<and> sg_worktrees s1 = jm_del (wt_taskKey wt) (sg_worktrees s) \<or>
     mo_conflicts out1 = mo_conflicts out @ [branch_of wt] \<and> sg_worktrees s1 = sg_worktrees s" by auto
  have fresh: "wt_taskKey wt \<notin> wt_taskKey ` set wts" "wt_taskKey wt \<notin> wt_taskKey ` set cs"
    using Cons.prems(2) cs by auto
  from or show ?case
  proof
    assume "mo_conflicts out1 = mo_conflicts out \<and> sg_worktrees s1 = jm_del (wt_taskKey wt) (sg_worktrees s)"
    with rep one con left fresh cs show ?thesis
      by (intro conjI exI[of _ cs]) auto
  next
    assume "mo_conflicts out1 = mo_conflicts out @ [branch_of wt] \<and> sg_worktrees s1 = sg_worktrees s"
    with rep one con left fresh cs show ?thesis
      by (intro conjI exI[of _ "wt # cs"]) auto
  qed
qed

definition git_wf :: "swarm_git \<Rightarrow> bool" where
  "git_wf s \<longleftrightarrow> jm_wf (sg_worktrees s) \<and> jm_keyed wt_taskKey (sg_worktrees s)"

lemma merge_all_result:
  assumes rm: "rm_works d" and wf: "git_wf s" and m: "mergeAll o' d (s, v) = (Inr out, (s', v'))"
  shows "reported out = mset (map pair_of (jm_vals (sg_worktrees s))) \<and>
    set (mo_conflicts out) \<subseteq> branch_of ` set (jm_vals (sg_worktrees s)) \<and>
    (\<forall>k. jm_get (sg_worktrees s') k = (case jm_get (sg_worktrees s) k of
        None \<Rightarrow> None | Some wt \<Rightarrow> if branch_of wt \<in> set (mo_conflicts out) then Some wt else None))"
proof (cases "jm_vals (sg_worktrees s) = []")
  case True
  then have "sg_worktrees s = []" by (simp add: jm_vals_def)
  with m True show ?thesis
    by (auto simp: mergeAll_def git_list_def look_def act_simps no_merges_def reported_def)
next
  case False
  let ?wts = "jm_vals (sg_worktrees s)"
  from m False obtain target s1 v1 where t: "targetWorktree o' d (s, v) = (Inr target, (s1, v1))"
    and e: "merge_each o' d target ?wts (no_merges o') (s1, v1) = (Inr out, (s', v'))"
    unfolding mergeAll_def git_list_def by (auto simp: look_def elim!: andThen_InrE)
  from targetWorktree_worktrees [OF t] have w: "sg_worktrees s1 = sg_worktrees s" .
  have keys: "map wt_taskKey ?wts = jm_keys (sg_worktrees s)"
    using wf by (simp add: git_wf_def jm_keyed_vals)
  with wf have dist: "distinct (map wt_taskKey ?wts)" by (simp add: git_wf_def jm_wf_def jm_keys_def)
  have none: "reported (no_merges o') = {#}" "mo_conflicts (no_merges o') = []"
    by (simp_all add: no_merges_def reported_def)
  from merge_each_result [OF rm e dist, unfolded none] w obtain cs where
    rep: "reported out = mset (map pair_of ?wts)" and cs: "set cs \<subseteq> set ?wts"
    and con: "mo_conflicts out = map branch_of cs"
    and left: "\<And>k. jm_get (sg_worktrees s') k =
      (if k \<in> wt_taskKey ` set ?wts \<and> k \<notin> wt_taskKey ` set cs then None else jm_get (sg_worktrees s) k)"
    by auto
  have mem: "wt \<in> set ?wts \<longleftrightarrow> jm_get (sg_worktrees s) (wt_taskKey wt) = Some wt" for wt
    using wf by (simp add: git_wf_def jm_keyed_mem)
  have own: "jm_get (sg_worktrees s) k = Some wt \<Longrightarrow> wt_taskKey wt = k" for k wt
    using wf by (auto simp: git_wf_def dest: jm_keyed_get)
  have key: "branch_of a = branch_of b \<Longrightarrow> wt_taskKey a = wt_taskKey b" for a b
    by (simp add: branch_of_def)
  have "jm_get (sg_worktrees s') k = (case jm_get (sg_worktrees s) k of
        None \<Rightarrow> None | Some wt \<Rightarrow> if branch_of wt \<in> set (mo_conflicts out) then Some wt else None)" for k
  proof (cases "jm_get (sg_worktrees s) k")
    case None
    then show ?thesis by (simp add: left)
  next
    case (Some wt)
    then have "k \<in> wt_taskKey ` set ?wts" using mem own by (metis image_eqI)
    moreover have "k \<in> wt_taskKey ` set cs \<longleftrightarrow> branch_of wt \<in> branch_of ` set cs"
    proof
      assume "k \<in> wt_taskKey ` set cs"
      then obtain c where "c \<in> set cs" and "wt_taskKey c = k" by blast
      with cs mem [of c] Some have "c = wt" by auto
      with \<open>c \<in> set cs\<close> show "branch_of wt \<in> branch_of ` set cs" by blast
    next
      assume "branch_of wt \<in> branch_of ` set cs"
      with key own [OF Some] show "k \<in> wt_taskKey ` set cs" by (metis imageE imageI)
    qed
    ultimately show ?thesis using Some by (simp add: left con)
  qed
  with rep con cs show ?thesis by auto
qed

section \<open>A repository for the witnesses\<close>

text \<open>Every branch but \<open>empty\<close> has two commits, and \<open>clash\<close> does not merge.\<close>

definition demo_options :: git_options where
  "demo_options = \<lparr>go_repoRoot = ''/r'', go_teamId = ''t'', go_baseRef = None, go_targetBranch = None, go_worktreeDir = None,
     go_linkIgnored = Some False\<rparr>"

definition demo_answer :: "string list \<Rightarrow> thrown + string" where
  "demo_answer args =
     (if args = [''rev-list'', ''--count'', ''c0..swarm/t/empty''] then Inr ''0''
      else if hd args = ''rev-list'' then Inr ''2''
      else if args = merge_args ''swarm/t/clash'' then Inl (OtherError ''conflict'')
      else if hd args = ''rev-parse'' then Inr ''c0'' else Inr [])"

definition demo_deps :: "(string list \<Rightarrow> thrown + string) \<Rightarrow> (thrown + unit) \<Rightarrow> unit git_deps" where
  "demo_deps git removed = \<lparr>gt_git = (\<lambda>_ args v. (git args, v)), gt_indexed = (\<lambda>_ _ args v. (git args, v)), gt_exitCode = (\<lambda>_. None),
     gt_exists = (\<lambda>_. ret False), gt_mkdirs = (\<lambda>_. ret ()), gt_mkdtemp = ret, gt_read = (\<lambda>_. ret []), gt_append = (\<lambda>_ _. ret ()),
     gt_write = (\<lambda>_ _. ret ()), gt_copy = (\<lambda>_ _. ret ()), gt_hardlink = (\<lambda>_ _. ret ()), gt_cp = (\<lambda>_ _ _. ret ()),
     gt_rm = (\<lambda>_ v. (removed, v)), gt_readdir = (\<lambda>_. ret [''t1'', ''t2'']), gt_mtime = (\<lambda>_. ret 0), gt_now = (\<lambda>_. 100000),
     gt_progress = None, gt_tmpdir = ''/tmp'', gt_sha8 = (\<lambda>_. ''0a1b2c3d'')\<rparr>"

definition demo_tree :: "string \<Rightarrow> worktree" where
  "demo_tree k = \<lparr>wt_taskKey = k, wt_path = ''/w/'' @ k, wt_branch = ''swarm/t/'' @ k\<rparr>"

definition demo_state :: "string list \<Rightarrow> swarm_git" where
  "demo_state ks = git_new\<lparr>sg_worktrees := map (\<lambda>k. (k, demo_tree k)) ks\<rparr>"

lemmas run_simps = act_simps Let_def ignoring_def git_cmd_def outside_def look_def put_def or_else_def ret_def throw_def

lemmas demo_simps = run_simps mergeAll_def git_list_def jm_vals_def demo_tree_def targetWorktree_def ensureDir_def targetBranch_def
  task_branch_def git_dir_def starts_with_def merge_one_def removeWorktree_def no_merges_def branch_of_def jm_del_def commitCount_def
  baseCommit_def demo_options_def demo_deps_def demo_state_def git_new_def demo_answer_def js_trim_def is_ws_def merge_args_def
  AS_SWARM_def teach_ignore_def



text \<open>A worktree that cannot be removed after its branch merged is reported as merged and as conflicted: the
  try around the merge covers the removal too.\<close>

theorem merged_and_conflicted:
  assumes "commitCount o' d (wt_branch wt) None (s, v) = (Inr (Suc n), (s1, v1))"
    and "gt_git d target (merge_args (wt_branch wt)) v1 = (Inr x, v2)"
    and "gt_git d (go_repoRoot o') [''worktree'', ''remove'', ''--force'', wt_path wt] v2 = (Inl e, v3)"
    and "gt_rm d (wt_path wt) v3 = (Inl e', v4)"
  shows "\<exists>out' v'. merge_one o' d target out wt (s, v) = (Inr out', (s1, v')) \<and>
    (wt_taskKey wt, wt_branch wt) \<in> (\<lambda>b. (br_taskKey b, br_branch b)) ` set (mo_merged out') \<and> branch_of wt \<in> set (mo_conflicts out')"
proof -
  obtain q v5 where "gt_git d target [''merge'', ''--abort''] v4 = (q, v5)" by (metis prod.exhaust)
  with assms show ?thesis
    by (simp add: merge_one_def act_simps Let_def ignoring_def git_cmd_def outside_def removeWorktree_def)
qed

theorem merged_and_conflicted_witness:
  "\<exists>out' v'. merge_one demo_options
       (demo_deps (\<lambda>args. if hd args = ''worktree'' then Inl (OtherError ''busy'') else demo_answer args) (Inl (OtherError ''EBUSY'')))
       ''/t'' (no_merges demo_options) (demo_tree ''a'') (demo_state [''a''], ()) = (Inr out', ((demo_state [''a''])\<lparr>sg_base := Some ''c0''\<rparr>, v')) \<and>
     (''a'', ''swarm/t/a'') \<in> (\<lambda>b. (br_taskKey b, br_branch b)) ` set (mo_merged out') \<and> branch_of (demo_tree ''a'') \<in> set (mo_conflicts out')"
proof -
  let ?d = "demo_deps (\<lambda>args. if hd args = ''worktree'' then Inl (OtherError ''busy'') else demo_answer args) (Inl (OtherError ''EBUSY''))"
  have c: "commitCount demo_options ?d (wt_branch (demo_tree ''a'')) None (demo_state [''a''], ()) =
      (Inr (Suc 1), ((demo_state [''a''])\<lparr>sg_base := Some ''c0''\<rparr>, ()))"
    by (simp add: demo_simps)
  have "gt_git ?d ''/t'' (merge_args (wt_branch (demo_tree ''a''))) () = (Inr [], ())"
    and "gt_git ?d (go_repoRoot demo_options) [''worktree'', ''remove'', ''--force'', wt_path (demo_tree ''a'')] () = (Inl (OtherError ''busy''), ())"
    and "gt_rm ?d (wt_path (demo_tree ''a'')) () = (Inl (OtherError ''EBUSY''), ())"
    by (simp_all add: demo_simps)
  from merged_and_conflicted [OF c this, of "no_merges demo_options"] show ?thesis
    by (simp add: demo_tree_def)
qed

section \<open>Names\<close>

text \<open>The operations a run performs on its git state, for tasks with keys in \<open>K\<close>; a branch is adopted for a
  board's task id only, which is its own name.\<close>

inductive git_step :: "git_options \<Rightarrow> 'v git_deps \<Rightarrow> string set \<Rightarrow> swarm_git \<Rightarrow> swarm_git \<Rightarrow> bool" for o' d K where
  made: "k \<in> K \<Longrightarrow> worktree_for o' d k (s, v) = (r, (s', v')) \<Longrightarrow> git_step o' d K s s'"
| adopted: "k \<in> K \<Longrightarrow> sanitized k = k \<Longrightarrow> adopt o' d k remote (s, v) = (r, (s', v')) \<Longrightarrow> git_step o' d K s s'"
| removed: "removeWorktree o' d wt (s, v) = (r, (s', v')) \<Longrightarrow> git_step o' d K s s'"
| queued: "mergeAll o' d (s, v) = (r, (s', v')) \<Longrightarrow> git_step o' d K s s'"
| counted: "commitCount o' d br from' (s, v) = (r, (s', v')) \<Longrightarrow> git_step o' d K s s'"
| restored: "restoreFromBase o' d wt specs (s, v) = (r, (s', v')) \<Longrightarrow> git_step o' d K s s'"
| speculated: "speculate o' d tip' brs (s, v) = (r, (s', v')) \<Longrightarrow> git_step o' d K s s'"
| tipped: "targetTip o' d (s, v) = (r, (s', v')) \<Longrightarrow> git_step o' d K s s'"
| advanced: "advanceTarget o' d c (s, v) = (r, (s', v')) \<Longrightarrow> git_step o' d K s s'"
| scratched: "scratch o' d (s, v) = (r, (s', v')) \<Longrightarrow> git_step o' d K s s'"
| disposed: "dispose o' d (s, v) = (r, (s', v')) \<Longrightarrow> git_step o' d K s s'"
| aborted: "removeAll o' d (s, v) = (r, (s', v')) \<Longrightarrow> git_step o' d K s s'"

interpretation tree_names: inductive_invariant "\<lambda>s. s = git_new" "git_step o' d K" "named o' (gt_sha8 d) K"
proof
  show "named o' (gt_sha8 d) K s" if "s = git_new" for s
    using that by (simp add: named_def git_new_def)
  show "named o' (gt_sha8 d) K t" if "named o' (gt_sha8 d) K s" and "git_step o' d K s t" for s t
    using that(2,1)
    by cases (blast intro: staysD worktree_for_named adopt_named names.removeWorktree_stays names.mergeAll_stays
        names.commitCount_stays names.restoreFromBase_stays names.speculate_stays names.targetTip_stays names.advanceTarget_stays
        names.scratch_stays names.dispose_stays names.removeAll_stays)+
qed

definition hashed :: "(string \<Rightarrow> string) \<Rightarrow> string \<Rightarrow> string" where
  "hashed sha8 k = snd (namesFor sha8 k)"

lemma names_apart:
  assumes "safe \<in> names_of sha8 k" and "safe \<in> names_of sha8 k'" and "k \<noteq> k'"
    and "hashed sha8 k \<noteq> hashed sha8 k'" and "hashed sha8 k \<noteq> k'" and "hashed sha8 k' \<noteq> k"
  shows False
  using assms by (auto simp: names_of_def hashed_def split: if_splits)

lemma hashed_dash: "CHR ''-'' \<in> set (hashed sha8 k)"
  by (simp add: hashed_def namesFor_def)


definition demo_made :: "string \<Rightarrow> swarm_git \<Rightarrow> swarm_git" where
  "demo_made k s = fst (snd (worktree_for demo_options (demo_deps demo_answer (Inr ())) k (s, ())))"

lemma demo_made_step: "k \<in> K \<Longrightarrow> git_step demo_options (demo_deps demo_answer (Inr ())) K s (demo_made k s)"
  unfolding demo_made_def by (rule git_step.made [where v = "()" and v' = "()"]) (simp_all add: prod_eq_iff)

lemmas make_simps = demo_simps demo_made_def worktree_for_def createWorktree_def choose_name_def namesFor_def sanitized_def name_char_def
  is_digit_def link_env_def jm_get_def jm_set_def

lemma demo_made_branches:
  "map wt_branch (jm_vals (sg_worktrees (demo_made ''a b'' (demo_made ''a'' git_new)))) = [''swarm/t/a'', ''swarm/t/a-b-0a1b2c3d'']"
  by (simp add: make_simps)


text \<open>A task called \<open>integration\<close> gets the default integration branch itself: its name is not among those taken.\<close>

lemma integration_takes_target:
  assumes "go_targetBranch o' = None" and "createWorktree o' d ''integration'' (git_new, v) = (Inr wt, sv)"
  shows "wt_branch wt = targetBranch o'"
proof -
  have "choose_name (gt_sha8 d) ''integration'' [] = ''integration''"
    by (simp add: choose_name_def namesFor_def sanitized_def name_char_def is_digit_def)
  with assms show ?thesis
    by (auto simp: createWorktree_def Let_def look_def put_def git_new_def targetBranch_def task_branch_def ret_def elim!: andThen_InrE)
qed

section \<open>The sweep\<close>

lemma sweep_each_listed:
  "each (\<lambda>t. sweep_one d listed (join_path dir t)) names v = (Inr rs, v') \<Longrightarrow>
    p \<in> set (concat rs) \<Longrightarrow> \<not> sublist p listed \<and> p \<in> join_path dir ` set names"
proof (induction names arbitrary: v rs)
  case Nil
  then show ?case by (simp add: ret_def)
next
  case (Cons n names)
  from Cons.prems(1) obtain r v1 rs' where one: "sweep_one d listed (join_path dir n) v = (Inr r, v1)"
    and more: "each (\<lambda>t. sweep_one d listed (join_path dir t)) names v1 = (Inr rs', v')" and rs: "rs = r # rs'"
    by (auto simp: ret_def elim!: andThen_InrE)
  from one have "p \<in> set r \<Longrightarrow> p = join_path dir n \<and> \<not> sublist p listed"
    unfolding sweep_one_def
    by (auto simp: clock_def ret_def split: if_splits sum.splits elim!: andThen_InrE)
  with Cons.IH [OF more] Cons.prems(2) rs show ?case by auto
qed

lemma sweep_each_unlisted:
  assumes old: "\<And>p v. gt_mtime d p v = (Inr m, v)" and now: "\<And>v. int (gt_now d v) - int m \<ge> int RECENT_MS"
    and rm: "rm_works d" and unlisted: "\<And>t. t \<in> set names \<Longrightarrow> join_path dir t \<noteq> []"
  shows "\<exists>v'. each (\<lambda>t. sweep_one d [] (join_path dir t)) names v = (Inr (map (\<lambda>t. [join_path dir t]) names), v')"
  using unlisted
proof (induction names arbitrary: v)
  case Nil
  then show ?case by (simp add: ret_def)
next
  case (Cons n names)
  obtain v1 where "gt_rm d (join_path dir n) v = (Inr (), v1)"
    using rm unfolding rm_works_def by blast
  then have "sweep_one d [] (join_path dir n) v = (Inr [join_path dir n], v1)"
    using Cons.prems old now [of v] by (simp add: sweep_one_def clock_def act_simps)
  with Cons.IH [of v1] Cons.prems show ?case
    by (auto simp: act_simps)
qed

text \<open>A sweep whose git worktree list answers removes no directory git lists; one whose list fails goes on as if
  nothing were listed, and removes every team's directory untouched for a minute, a running team's too.\<close>

theorem sweep_fails_open:
  assumes "gt_git d repo [''worktree'', ''prune''] v = (r, v1)"
    and "gt_readdir d (repo @ ''/.swarm/worktrees'') v1 = (Inr names, v2)"
    and "gt_git d repo [''worktree'', ''list'', ''--porcelain''] v2 = (q, v3)"
  shows "(\<forall>listed rs v'. q = Inr listed \<longrightarrow> sweepOrphans d repo None v = (Inr rs, v') \<longrightarrow> (\<forall>p \<in> set rs. \<not> sublist p listed)) \<and>
    (\<forall>e m. q = Inl e \<longrightarrow> rm_works d \<longrightarrow> (\<forall>p v. gt_mtime d p v = (Inr m, v)) \<longrightarrow> (\<forall>v. int (gt_now d v) - int m \<ge> 60000) \<longrightarrow>
      (\<exists>v'. sweepOrphans d repo None v = (Inr (map (join_path (repo @ ''/.swarm/worktrees'')) names), v')))"
proof (intro conjI allI impI ballI)
  fix listed rs v' p
  assume "q = Inr listed" and "sweepOrphans d repo None v = (Inr rs, v')" and "p \<in> set rs"
  with assms obtain rss where "each (\<lambda>t. sweep_one d listed (join_path (repo @ ''/.swarm/worktrees'') t)) names v3 = (Inr rss, v')"
    and "p \<in> set (concat rss)"
    unfolding sweepOrphans_def Let_def by (auto simp: act_simps ignoring_def split: prod.splits sum.splits)
  from sweep_each_listed [OF this] show "\<not> sublist p listed" by simp
next
  fix e m
  assume "q = Inl e" and rm: "rm_works d" and old: "\<forall>p v. gt_mtime d p v = (Inr m, v)" and now: "\<forall>v. int (gt_now d v) - int m \<ge> 60000"
  have "\<exists>v'. each (\<lambda>t. sweep_one d [] (join_path (repo @ ''/.swarm/worktrees'') t)) names v3 =
      (Inr (map (\<lambda>t. [join_path (repo @ ''/.swarm/worktrees'') t]) names), v')"
    by (rule sweep_each_unlisted [OF old [rule_format] _ rm])
      (use now in \<open>auto simp: RECENT_MS_def join_path_def\<close>)
  moreover have "concat (map (\<lambda>t. [f t]) xs) = map f xs" for f :: "string \<Rightarrow> string" and xs by (induction xs) auto
  ultimately show "\<exists>v'. sweepOrphans d repo None v = (Inr (map (join_path (repo @ ''/.swarm/worktrees'')) names), v')"
    using assms \<open>q = Inl e\<close> by (auto simp: sweepOrphans_def Let_def act_simps ignoring_def)
qed

theorem sweep_fails_open_witness:
  "\<exists>u. sweepOrphans (demo_deps (\<lambda>_. Inl (OtherError ''locked'')) (Inr ())) ''/r'' None () =
     (Inr [''/r/.swarm/worktrees/t1'', ''/r/.swarm/worktrees/t2''], u)"
proof -
  define d where "d = demo_deps (\<lambda>_. Inl (OtherError ''locked'')) (Inr ())"
  have g: "gt_git d cwd as () = (Inl (OtherError ''locked''), ())" for cwd as
    by (simp add: d_def demo_deps_def)
  have r: "gt_readdir d p () = (Inr [''t1'', ''t2''], ())" for p
    by (simp add: d_def demo_deps_def ret_def)
  have "rm_works d" "\<forall>p v. gt_mtime d p v = (Inr 0, v)" "\<forall>v. int (gt_now d v) - int 0 \<ge> 60000"
    by (simp_all add: d_def rm_works_def demo_deps_def ret_def)
  with sweep_fails_open [OF g r g, of "''/r''"] show ?thesis
    by (auto simp: join_path_def d_def)
qed

section \<open>Diffs\<close>

definition stat_number :: "nat option \<Rightarrow> string" where
  "stat_number n = (case n of None \<Rightarrow> ''-'' | Some k \<Rightarrow> nat_str k)"

text \<open>A line of \<open>git diff --numstat\<close>: a binary file has no numbers.\<close>

definition numstat_line :: "nat option \<times> nat option \<times> string \<Rightarrow> string" where
  "numstat_line e = (case e of (a, r, p) \<Rightarrow> stat_number a @ [CHR 0x09] @ stat_number r @ [CHR 0x09] @ p @ [newline])"

lemma js_join_split: "js_join [c] (split_on c s) = s"
proof (induction s)
  case Nil
  then show ?case by simp
next
  case (Cons x s)
  then show ?case by (cases "split_on c s"; cases "tl (split_on c s)") auto
qed

lemma stat_number_plain: "c \<in> set (stat_number n) \<Longrightarrow> c = CHR ''-'' \<or> is_digit c"
  using nat_str_digits by (auto simp: stat_number_def list_all_iff split: option.splits)

lemma number_or_0_stat: "number_or_0 (stat_number n) = or_else n 0"
  by (cases n) (simp_all add: stat_number_def number_or_0_def nat_str_nonempty nat_str_digits digits_val_nat_str is_digit_def)

lemma stat_line_read:
  "stat_line (butlast (numstat_line (a, r, p))) st = st\<lparr>ds_files := ds_files st @ [p],
     ds_insertions := ds_insertions st + or_else a 0, ds_deletions := ds_deletions st + or_else r 0\<rparr>"
proof -
  have tab: "CHR 0x09 \<notin> set (stat_number n)" for n
    using stat_number_plain [of "CHR 0x09" n] by (auto simp: is_digit_def)
  have "split_on (CHR 0x09) (butlast (numstat_line (a, r, p))) = stat_number a # stat_number r # split_on (CHR 0x09) p"
    using split_on_append [OF tab [of a], of "stat_number r @ CHR 0x09 # p"] split_on_append [OF tab [of r], of p]
    by (simp add: numstat_line_def butlast_append)
  moreover obtain q qs where "split_on (CHR 0x09) p = q # qs" by (cases "split_on (CHR 0x09) p") auto
  moreover from this js_join_split [of "CHR 0x09" p] have "js_join [CHR 0x09] (q # qs) = p" by simp
  ultimately show ?thesis by (simp add: stat_line_def number_or_0_stat)
qed

text \<open>What git diff --numstat prints is read back: the files in order, also with tabs in their names, and the sums
  of the lines added and removed, a binary file counting none.\<close>

theorem numstat_roundtrip:
  assumes "\<forall>(a, r, p) \<in> set es. newline \<notin> set p"
  shows "read_numstat (concat (map numstat_line es)) =
    \<lparr>ds_files = map (\<lambda>(a, r, p). p) es, ds_insertions = (\<Sum>(a, r, p) \<leftarrow> es. or_else a 0), ds_deletions = (\<Sum>(a, r, p) \<leftarrow> es. or_else r 0)\<rparr>"
proof -
  have line: "newline \<notin> set (butlast (numstat_line (a, r, p)))" if "newline \<notin> set p" for a r p
    using stat_number_plain [of newline a] stat_number_plain [of newline r] that
    by (auto simp: numstat_line_def butlast_append is_digit_def newline_def)
  have "split_on newline (concat (map numstat_line es)) = map (\<lambda>e. butlast (numstat_line e)) es @ [[]]"
    using assms
  proof (induction es)
    case Nil
    then show ?case by simp
  next
    case (Cons e es)
    obtain a r p where e: "e = (a, r, p)" by (cases e)
    have "numstat_line e = butlast (numstat_line e) @ [newline]" by (simp add: e numstat_line_def butlast_append)
    then have conc: "concat (map numstat_line (e # es)) = butlast (numstat_line e) @ newline # concat (map numstat_line es)"
      by (metis append.assoc append_Cons append_Nil concat.simps(2) list.simps(9))
    have "newline \<notin> set (butlast (numstat_line e))" using line [of p a r] Cons.prems e by simp
    moreover have "split_on newline (concat (map numstat_line es)) = map (\<lambda>e. butlast (numstat_line e)) es @ [[]]"
      using Cons by simp
    ultimately show ?case unfolding conc by (simp add: split_on_append)
  qed
  moreover have "foldl (\<lambda>st l. stat_line l st) st (map (\<lambda>e. butlast (numstat_line e)) es) =
      st\<lparr>ds_files := ds_files st @ map (\<lambda>(a, r, p). p) es, ds_insertions := ds_insertions st + (\<Sum>(a, r, p) \<leftarrow> es. or_else a 0),
        ds_deletions := ds_deletions st + (\<Sum>(a, r, p) \<leftarrow> es. or_else r 0)\<rparr>" for st
    by (induction es arbitrary: st) (auto simp: stat_line_read)
  ultimately show ?thesis
    by (simp add: read_numstat_def) (simp add: stat_line_def)
qed

theorem numstat_roundtrip_witness:
  "read_numstat (concat (map numstat_line [(Some 12, Some 3, ''a.ts''), (None, None, ''logo.png'')])) =
     \<lparr>ds_files = [''a.ts'', ''logo.png''], ds_insertions = 12, ds_deletions = 3\<rparr>"
  using numstat_roundtrip [of "[(Some 12, Some 3, ''a.ts''), (None, None, ''logo.png'')]"] by (simp add: newline_def)

end
