(* ===== verification/Durable.thy ===== *)
theory Durable
  imports Questions Git
begin

text \<open>
  \<open>durable.ts\<close>, and what \<open>index.ts\<close> does with it: a run's journal mirrored to a ref of the shared remote by
  leased pushes, the writer that is fenced when another host took its run over, and the takeover. \<open>git\<close> and the
  file system are computations that may throw; what a failed command printed is read off the throw.
\<close>

record durable_config =
  dc_remote :: string
  dc_heartbeatMs :: "js_number option"

definition validateDurable :: "durable_config \<Rightarrow> string option" where
  "validateDurable c =
     (let bad = ''durable.heartbeatMs must be over 0 and at most 30000, a third of a taker'' @ [CHR 0x27] @ ''s lease'' in
      if dc_remote c = [] then Some ''durable.remote must name a git remote''
      else case dc_heartbeatMs c of
        None \<Rightarrow> None
      | Some (Finite b) \<Rightarrow> if b \<le> 0 \<or> b > 30000 then Some bad else None
      | Some NotFinite \<Rightarrow> Some bad)"

record 'v durable_deps =
  du_git :: "string list \<Rightarrow> string option \<Rightarrow> ('v, thrown, string) act"
  du_printed :: "thrown \<Rightarrow> string"
  du_exists :: "string \<Rightarrow> ('v, thrown, bool) act"
  du_mkdirs :: "string \<Rightarrow> ('v, thrown, unit) act"
  du_read :: "string \<Rightarrow> ('v, thrown, string) act"
  du_write :: "string \<Rightarrow> string \<Rightarrow> ('v, thrown, unit) act"
  du_rename :: "string \<Rightarrow> string \<Rightarrow> ('v, thrown, unit) act"
  du_rm :: "string \<Rightarrow> ('v, thrown, unit) act"
  du_sleep :: "nat \<Rightarrow> 'v \<Rightarrow> 'v"
  du_now :: "'v \<Rightarrow> nat"

section \<open>Leased pushes\<close>

datatype pushed = Pushed | Fenced | Unreachable
datatype push_result = PushOk string | PushFailed bool string

definition runRef :: "string \<Rightarrow> string" where
  "runRef runId = ''refs/swarm/'' @ runId"

text \<open>\<open>git\<close> runs in \<open>repoRoot\<close>, and its standard output is trimmed.\<close>

definition dgit :: "'v durable_deps \<Rightarrow> string list \<Rightarrow> string option \<Rightarrow> ('v, thrown, string) act" where
  "dgit d args input = trimmed (du_git d args input)"

primrec journal_blobs :: "'v durable_deps \<Rightarrow> string \<Rightarrow> string list \<Rightarrow> ('v, thrown, string list) act" where
  "journal_blobs d runDir [] = ret []"
| "journal_blobs d runDir (name # names) =
     andThen (du_exists d (join_path runDir name)) (\<lambda>there.
     if \<not> there then journal_blobs d runDir names
     else
       andThen (dgit d [''hash-object'', ''-w'', join_path runDir name] None) (\<lambda>blob.
       andThen (journal_blobs d runDir names) (\<lambda>ls. ret ((''100644 blob '' @ blob @ [CHR 0x09] @ name) # ls))))"

definition journal_snapshot :: "'v durable_deps \<Rightarrow> string \<Rightarrow> string option \<Rightarrow> string \<Rightarrow> ('v, thrown, string) act" where
  "journal_snapshot d runDir parent msg =
     andThen (journal_blobs d runDir [''journal.jsonl'', ''train.jsonl'']) (\<lambda>ls.
     andThen (dgit d [''mktree''] (Some (js_join nl ls @ nl))) (\<lambda>tree.
       dgit d (AS_SWARM @ [''commit-tree'', tree] @ (case parent of None \<Rightarrow> [] | Some p \<Rightarrow> [''-p'', p]) @ [''-m'', msg]) None))"

text \<open>Whether what a failed push printed says that another host moved the run's ref.\<close>

definition lock_lost :: "string \<Rightarrow> string \<Rightarrow> bool" where
  "lock_lost rf out \<longleftrightarrow> sublist (''cannot lock ref '' @ [CHR 0x27] @ rf @ [CHR 0x27]) out"

definition fencing_line :: "string \<Rightarrow> string \<Rightarrow> string \<Rightarrow> bool" where
  "fencing_line rf out l \<longleftrightarrow> starts_with l ''!'' \<and> sublist ('':'' @ rf @ [CHR 0x09]) l \<and>
     (list_ex (\<lambda>m. sublist m l) [''stale info'', ''failed to update ref'', ''incorrect old value''] \<or>
      list_ex (\<lambda>m. sublist m l) [''cannot lock ref'', ''atomic transaction failed''] \<and> lock_lost rf out)"

definition fenced_by :: "string \<Rightarrow> string \<Rightarrow> bool" where
  "fenced_by rf out \<longleftrightarrow> list_ex (fencing_line rf out) (split_on newline out)"

definition why_of :: "string \<Rightarrow> string" where
  "why_of out =
     (let ls = filter (\<lambda>l. l \<noteq> [] \<and> \<not> starts_with l ''To '') (split_on newline (js_trim out)) in
      js_join '' '' (drop (length ls - 3) ls))"

definition push_args :: "string \<Rightarrow> string \<Rightarrow> string \<Rightarrow> string option \<Rightarrow> string list \<Rightarrow> string list" where
  "push_args remote rf c expected brs =
     [''push'', ''--atomic'', ''--porcelain'', ''--no-verify'', ''--force-with-lease='' @ rf @ '':'' @ or_else expected [], remote,
      c @ '':'' @ rf] @ map (\<lambda>b. ''+'' @ b @ '':refs/heads/'' @ b) brs"

definition pushLeased :: "'v durable_deps \<Rightarrow> string \<Rightarrow> string \<Rightarrow> string \<Rightarrow> string option \<Rightarrow> string list \<Rightarrow> ('v, thrown, push_result) act" where
  "pushLeased d remote runId c expected brs =
     andThen (attempt (dgit d (push_args remote (runRef runId) c expected brs) None)) (\<lambda>r. ret (case r of
       Inr _ \<Rightarrow> PushOk c
     | Inl e \<Rightarrow> PushFailed (fenced_by (runRef runId) (du_printed d e)) (why_of (du_printed d e))))"

text \<open>\<open>ls-remote\<close> separates with a tab.\<close>

definition remoteRunOid :: "'v durable_deps \<Rightarrow> string \<Rightarrow> string \<Rightarrow> ('v, thrown, string option) act" where
  "remoteRunOid d remote runId =
     andThen (dgit d [''ls-remote'', remote, runRef runId] None) (\<lambda>l.
       ret (if l = [] then None else Some (takeWhile (\<lambda>c. \<not> is_ws c) l)))"

section \<open>The writer's half\<close>

record mirror =
  mi_lease :: "string option"
  mi_fenced :: bool
  mi_stopped :: bool

definition mirror_new :: "string option \<Rightarrow> mirror" where
  "mirror_new lease = \<lparr>mi_lease = lease, mi_fenced = False, mi_stopped = False\<rparr>"

definition mirror_stop :: "mirror \<Rightarrow> mirror" where
  "mirror_stop m = m\<lparr>mi_stopped := True\<rparr>"

text \<open>What a push's result does to the mirror.\<close>

definition settle_push :: "push_result \<Rightarrow> mirror \<Rightarrow> pushed \<times> mirror" where
  "settle_push r m = (case r of
     PushOk oid \<Rightarrow> (Pushed, m\<lparr>mi_lease := Some oid\<rparr>)
   | PushFailed fenced _ \<Rightarrow> if fenced then (Fenced, mirror_stop (m\<lparr>mi_fenced := True\<rparr>)) else (Unreachable, m))"

record 'v mirror_setup =
  ms_config :: durable_config
  ms_runId :: string
  ms_runDir :: string
  ms_branches :: "('v, thrown, string list) act"
  ms_onFenced :: "string \<Rightarrow> 'v \<Rightarrow> 'v"

definition push_once :: "'v durable_deps \<Rightarrow> 'v mirror_setup \<Rightarrow> mirror \<Rightarrow> string \<Rightarrow> ('v, thrown, push_result) act" where
  "push_once d u m why =
     catching
       (andThen (journal_snapshot d (ms_runDir u) (mi_lease m) (''swarm: '' @ ms_runId u @ '' '' @ why)) (\<lambda>c.
        andThen (ms_branches u) (\<lambda>brs. pushLeased d (dc_remote (ms_config u)) (ms_runId u) c (mi_lease m) brs)))
       (\<lambda>e. ret (PushFailed False (message_of e)))"

definition fenced_message :: "string \<Rightarrow> string \<Rightarrow> string" where
  "fenced_message runId why = ''another host took run '' @ runId @ '' over ('' @ why @ '')''"

definition mirror_push :: "'v durable_deps \<Rightarrow> 'v mirror_setup \<Rightarrow> string \<Rightarrow> mirror \<times> 'v \<Rightarrow> pushed \<times> mirror \<times> 'v" where
  "mirror_push d u why = (\<lambda>(m, v).
     if mi_fenced m \<or> mi_stopped m then (Fenced, m, v)
     else case push_once d u m why v of
       (Inl _, v') \<Rightarrow> (Unreachable, m, v')
     | (Inr r, v') \<Rightarrow>
         (case settle_push r m of (p, m') \<Rightarrow>
           (p, m', case r of PushFailed fenced w \<Rightarrow> if fenced then ms_onFenced u (fenced_message (ms_runId u) w) v' else v' | _ \<Rightarrow> v')))"

text \<open>\<open>confirm(why, tries)\<close>, \<open>i\<close> tries in: a push that must land.\<close>

fun confirm_from :: "'v durable_deps \<Rightarrow> 'v mirror_setup \<Rightarrow> string \<Rightarrow> nat \<Rightarrow> nat \<Rightarrow> mirror \<times> 'v \<Rightarrow> bool \<times> mirror \<times> 'v" where
  "confirm_from d u why i 0 mv = (False, mv)"
| "confirm_from d u why i (Suc left) mv =
     (case mirror_push d u why mv of (p, m, v) \<Rightarrow>
        if p \<noteq> Unreachable then (p = Pushed, m, v)
        else if mi_stopped m then (False, m, v)
        else confirm_from d u why (i + 1) left (m, if left > 0 then du_sleep d (1000 * (i + 1)) v else v))"

definition confirm :: "'v durable_deps \<Rightarrow> 'v mirror_setup \<Rightarrow> string \<Rightarrow> mirror \<times> 'v \<Rightarrow> bool \<times> mirror \<times> 'v" where
  "confirm d u why mv = confirm_from d u why 0 3 mv"

section \<open>Taking a run over\<close>

definition fetch_ref :: "'v durable_deps \<Rightarrow> string \<Rightarrow> string \<Rightarrow> ('v, thrown, string) act" where
  "fetch_ref d remote rf =
     andThen (dgit d [''fetch'', ''-q'', remote, ''+'' @ rf @ '':'' @ rf] None) (\<lambda>_. dgit d [''rev-parse'', rf] None)"

definition lease_over :: "'v durable_deps \<Rightarrow> string \<Rightarrow> string \<Rightarrow> string \<Rightarrow> bool \<Rightarrow> nat option \<Rightarrow> ('v, thrown, unit) act" where
  "lease_over d remote runId observed steal ttlMs =
     (if steal then ret ()
      else
        andThen (\<lambda>v. (Inr (), du_sleep d (or_else ttlMs 90000) v)) (\<lambda>_.
        andThen (fetch_ref d remote (runRef runId)) (\<lambda>again.
          if again \<noteq> observed
          then throw (OtherError (''run '' @ runId @ [CHR 0x27] @ ''s writer is alive (its ref moved during the lease); pass --steal to take it anyway''))
          else ret ())))"

text \<open>The takeover recorded, snapshotted and pushed, on the object observed.\<close>

definition claim_run :: "'v durable_deps \<Rightarrow> string \<Rightarrow> string \<Rightarrow> string \<Rightarrow> string \<Rightarrow> ('v, thrown, unit) act \<Rightarrow> ('v, thrown, string) act" where
  "claim_run d remote runId runDir observed recording =
     andThen recording (\<lambda>_.
     andThen (journal_snapshot d runDir (Some observed) (''swarm: '' @ runId @ '' taken over'')) (\<lambda>c.
     andThen (pushLeased d remote runId c (Some observed) []) (\<lambda>r. case r of
       PushOk oid \<Rightarrow> ret oid
     | PushFailed fenced w \<Rightarrow> throw (OtherError (
         if fenced then ''another host took run '' @ runId @ '' over first'' else ''pushing the takeover failed: '' @ w)))))"

definition own_copy :: "'v durable_deps \<Rightarrow> string \<Rightarrow> ('v, thrown, string option) act" where
  "own_copy d file = andThen (du_exists d file) (\<lambda>there. if there then andThen (du_read d file) (\<lambda>s. ret (Some s)) else ret None)"

text \<open>This host's own journals back as they were.\<close>

definition put_back :: "'v durable_deps \<Rightarrow> string \<Rightarrow> string option \<Rightarrow> string \<Rightarrow> string option \<Rightarrow> ('v, thrown, unit) act" where
  "put_back d journalFile before trainFile aside =
     andThen (case before of None \<Rightarrow> du_rm d journalFile | Some s \<Rightarrow> du_write d journalFile s) (\<lambda>_.
       case aside of None \<Rightarrow> ret () | Some a \<Rightarrow> du_rename d a trainFile)"

definition takeOver ::
  "'v durable_deps \<Rightarrow> string \<Rightarrow> string \<Rightarrow> string \<Rightarrow> ('v, thrown, unit) act \<Rightarrow> bool \<Rightarrow> nat option \<Rightarrow> ('v, thrown, string) act" where
  "takeOver d remote runId runDir recording steal ttlMs =
     (let rf = runRef runId; journalFile = join_path runDir ''journal.jsonl''; trainFile = join_path runDir ''train.jsonl'' in
      andThen (catching (fetch_ref d remote rf)
        (\<lambda>_. throw (OtherError (''the remote '' @ remote @ '' has no '' @ rf @ '': the run was never mirrored there'')))) (\<lambda>observed.
      andThen (lease_over d remote runId observed steal ttlMs) (\<lambda>_.
      andThen (du_mkdirs d runDir) (\<lambda>_.
      andThen (catching (dgit d [''show'', observed @ '':journal.jsonl''] None)
        (\<lambda>_. throw (OtherError (''run '' @ runId @ [CHR 0x27] @ ''s ref holds no journal'')))) (\<lambda>content.
      andThen (own_copy d journalFile) (\<lambda>before.
      andThen (du_exists d trainFile) (\<lambda>train.
      andThen (\<lambda>v. (Inr (if train then Some (trainFile @ ''.before-takeover-'' @ nat_str (du_now d v)) else None), v)) (\<lambda>aside.
      andThen (du_write d journalFile (if content = [] then [] else content @ nl)) (\<lambda>_.
      andThen (case aside of None \<Rightarrow> ret () | Some a \<Rightarrow> du_rename d trainFile a) (\<lambda>_.
        catching (claim_run d remote runId runDir observed recording)
          (\<lambda>e. andThen (put_back d journalFile before trainFile aside) (\<lambda>_. throw e))))))))))))"

section \<open>What resuming records\<close>

definition landedAny :: "run_record \<Rightarrow> bool" where
  "landedAny r = (case rr_git r of None \<Rightarrow> False | Some g \<Rightarrow> or_else (mo_landed g) [] \<noteq> [] \<or> mo_merged g \<noteq> [])"

text \<open>The event \<open>swarm/durable\<close>, whose one phase is \<open>landing\<close>.\<close>

definition LANDING :: swarm_event where
  "LANDING = OtherEvent ''swarm/durable''"

definition refuseUndurable :: "team_spec \<Rightarrow> bool \<Rightarrow> durable_config option \<Rightarrow> string option" where
  "refuseUndurable spec worktrees durable =
     (case spec of
        PeerTeamSpec p \<Rightarrow>
          if ps_messaging p = Some True then Some ''a durable run is a one-shot peer-team''
          else if \<not> worktrees then Some ''a durable run needs worktrees: its tasks land from the branches it pushes''
          else (case durable of None \<Rightarrow> None | Some c \<Rightarrow> validateDurable c)
      | _ \<Rightarrow> Some ''a durable run is a one-shot peer-team'')"

text \<open>Why a journal may not be resumed, or its last record.\<close>

definition resume_refusal :: "string \<Rightarrow> bool \<Rightarrow> durable_config option \<Rightarrow> swarm_event list \<Rightarrow> string + run_record" where
  "resume_refusal runId worktrees durable es =
     (case foldRun es of
        None \<Rightarrow> Inl (''run '' @ runId @ [CHR 0x27] @ ''s journal has no run record to resume'')
      | Some prior \<Rightarrow>
          (case rr_spec prior of
             None \<Rightarrow> Inl (''run '' @ runId @ [CHR 0x27] @ ''s journal has no run record to resume'')
           | Some spec \<Rightarrow>
               if rr_status prior = Finished then Inl (''run '' @ runId @ '' already finished; there is nothing to resume'')
               else if rr_status prior = Failed \<and> landedAny prior
               then Inl (''run '' @ runId @ '' landed part of its work on '' @ rw_host (rr_writer prior) @ '' before failing; resuming it would land it again'')
               else if LANDING \<in> set es
               then Inl (''run '' @ runId @ '' began landing on '' @ rw_host (rr_writer prior) @ ''; its outcome is that host'' @ [CHR 0x27] @
                 ''s (a train'' @ [CHR 0x27] @ ''s or the forge'' @ [CHR 0x27] @ ''s), and resuming it would land twice'')
               else (case refuseUndurable spec worktrees durable of Some why \<Rightarrow> Inl why | None \<Rightarrow> Inr prior)))"

definition default_question :: "int \<Rightarrow> question \<Rightarrow> swarm_event swarm_journal \<Rightarrow> swarm_event swarm_journal" where
  "default_question now q j =
     (if qn_status q \<noteq> Open then j
      else snd (journal_append now (QuestionEvent (q\<lparr>qn_status := Defaulted, qn_answer := Some (qn_default q), qn_closedAt := Some now\<rparr>)) j))"

text \<open>The takeover's record, on the journal as fetched: the run interrupted under this writer, the dead claims
  released, the open questions defaulted. \<open>base\<close> is the commit the journal says the run started from, and whether
  this clone has it.\<close>

definition resume_record ::
  "int \<Rightarrow> string \<Rightarrow> bool \<Rightarrow> durable_config option \<Rightarrow> (string \<times> bool) option \<Rightarrow> run_writer \<Rightarrow> swarm_event swarm_journal \<Rightarrow>
   (string + unit) \<times> swarm_event swarm_journal" where
  "resume_record now runId worktrees durable base w j =
     (case resume_refusal runId worktrees durable (payloads j) of
        Inl why \<Rightarrow> (Inl why, j)
      | Inr prior \<Rightarrow>
          (case base of
             Some (b, False) \<Rightarrow> (Inl (''run '' @ runId @ '' started from '' @ b @ '', which this clone does not have: fetch the branch it started on''), j)
           | _ \<Rightarrow>
               let j = snd (journal_append now (RunEvent (prior\<lparr>rr_status := Interrupted, rr_writer := w\<rparr>)) j);
                   j = bd_journal (snd (releaseOrphans now (board_open j False None))) in
               (Inr (), foldl (\<lambda>j q. default_question now q j) j (jm_vals (foldQuestions (payloads j))))))"

text \<open>What \<open>resume\<close> checks on this host before it fetches anything.\<close>

definition local_refusal :: "string \<Rightarrow> string \<Rightarrow> (int \<Rightarrow> bool) \<Rightarrow> run_record option \<Rightarrow> string option" where
  "local_refusal runId host alive local =
     (case local of None \<Rightarrow> None
      | Some r \<Rightarrow>
          if rr_status r = Running \<and> rw_host (rr_writer r) = host \<and> alive (rw_pid (rr_writer r))
          then Some (''run '' @ runId @ '' is live in pid '' @ int_str (rw_pid (rr_writer r)) @ '' on this host; stop it before taking it over here'')
          else if rr_status r = Finished \<or> rr_status r = Failed \<and> landedAny r
          then Some (''run '' @ runId @ '' already '' @ (if rr_status r = Finished then ''finished'' else ''failed'') @
            '' on this host, past landing; there is nothing to resume'')
          else None)"

end
