(* ===== verification/DurableProtocol.thy ===== *)
theory DurableProtocol
  imports Durable
begin

text \<open>
  The hosts of a durable run and their remote, as one step relation: a mirror's snapshot, its push reaching the
  remote or not, its answer arriving or lost, a taker observing the ref and taking the run over. The remote accepts
  a push whose lease is the ref's object (git's \<open>--force-with-lease\<close>), atomically; a commit's object is new.
  What a push does to the writer is the mirror's \<open>settle_push\<close>.
\<close>

record host =
  ho_mirror :: mirror
  ho_marked :: bool
  ho_pending :: "string option"
  ho_confirmed :: bool

text \<open>\<open>dr_marked\<close> are the commits whose journal has the landing marker, \<open>dr_seen\<close> what a taker observed.\<close>

record durable_run =
  dr_ref :: "string option"
  dr_used :: "string set"
  dr_marked :: "string set"
  dr_hosts :: "nat \<Rightarrow> host option"
  dr_seen :: "nat \<Rightarrow> string option"

definition new_host :: "string option \<Rightarrow> host" where
  "new_host lease = \<lparr>ho_mirror = mirror_new lease, ho_marked = False, ho_pending = None, ho_confirmed = False\<rparr>"

definition durable_start :: "durable_run \<Rightarrow> bool" where
  "durable_start s \<longleftrightarrow> s = \<lparr>dr_ref = None, dr_used = {}, dr_marked = {}, dr_hosts = [0 \<mapsto> new_host None], dr_seen = Map.empty\<rparr>"

definition able :: "mirror \<Rightarrow> bool" where
  "able m \<longleftrightarrow> \<not> mi_fenced m \<and> \<not> mi_stopped m"

text \<open>A host after its push settled as \<open>r\<close>; a landed commit with the marker confirms its landing.\<close>

definition settled :: "push_result \<Rightarrow> bool \<Rightarrow> host \<Rightarrow> host" where
  "settled r marked h = h\<lparr>ho_mirror := snd (settle_push r (ho_mirror h)), ho_pending := None,
     ho_confirmed := (ho_confirmed h \<or> fst (settle_push r (ho_mirror h)) = Pushed \<and> marked)\<rparr>"

text \<open>The remote's answer: the ref moves when it is where the lease says, and the push is refused by name when not.\<close>

definition remote_answer :: "string option \<Rightarrow> string option \<Rightarrow> string \<Rightarrow> push_result \<times> string option" where
  "remote_answer ref' lease c = (if ref' = lease then (PushOk c, Some c) else (PushFailed True ''stale info'', ref'))"

inductive durable_step :: "durable_run \<Rightarrow> durable_run \<Rightarrow> bool" where
  snapshotted: "dr_hosts s i = Some h \<Longrightarrow> able (ho_mirror h) \<Longrightarrow> ho_pending h = None \<Longrightarrow> c \<notin> dr_used s \<Longrightarrow>
    durable_step s (s\<lparr>dr_used := insert c (dr_used s), dr_marked := (if ho_marked h then insert c (dr_marked s) else dr_marked s),
      dr_hosts := (dr_hosts s)(i \<mapsto> h\<lparr>ho_pending := Some c\<rparr>)\<rparr>)"
| answered: "dr_hosts s i = Some h \<Longrightarrow> ho_pending h = Some c \<Longrightarrow> remote_answer (dr_ref s) (mi_lease (ho_mirror h)) c = (r, new) \<Longrightarrow>
    durable_step s (s\<lparr>dr_ref := new, dr_hosts := (dr_hosts s)(i \<mapsto> settled r (c \<in> dr_marked s) h)\<rparr>)"
| unanswered: "dr_hosts s i = Some h \<Longrightarrow> ho_pending h = Some c \<Longrightarrow> remote_answer (dr_ref s) (mi_lease (ho_mirror h)) c = (r, new) \<Longrightarrow>
    durable_step s (s\<lparr>dr_ref := new, dr_hosts := (dr_hosts s)(i \<mapsto> settled (PushFailed False why) (c \<in> dr_marked s) h)\<rparr>)"
| unsent: "dr_hosts s i = Some h \<Longrightarrow> ho_pending h = Some c \<Longrightarrow>
    durable_step s (s\<lparr>dr_hosts := (dr_hosts s)(i \<mapsto> settled (PushFailed False why) (c \<in> dr_marked s) h)\<rparr>)"
| marked: "dr_hosts s i = Some h \<Longrightarrow> durable_step s (s\<lparr>dr_hosts := (dr_hosts s)(i \<mapsto> h\<lparr>ho_marked := True\<rparr>)\<rparr>)"
| stopped: "dr_hosts s i = Some h \<Longrightarrow>
    durable_step s (s\<lparr>dr_hosts := (dr_hosts s)(i \<mapsto> h\<lparr>ho_mirror := mirror_stop (ho_mirror h)\<rparr>)\<rparr>)"
| observed: "dr_ref s = Some r \<Longrightarrow> durable_step s (s\<lparr>dr_seen := (dr_seen s)(i \<mapsto> r)\<rparr>)"
| taken: "dr_seen s i = Some r \<Longrightarrow> dr_hosts s i = None \<Longrightarrow> r \<notin> dr_marked s \<Longrightarrow> c \<notin> dr_used s \<Longrightarrow>
    remote_answer (dr_ref s) (Some r) c = (PushOk c, new) \<Longrightarrow>
    durable_step s (s\<lparr>dr_ref := new, dr_used := insert c (dr_used s), dr_hosts := (dr_hosts s)(i \<mapsto> new_host (Some c))\<rparr>)"
| taken_unanswered: "dr_seen s i = Some r \<Longrightarrow> dr_hosts s i = None \<Longrightarrow> r \<notin> dr_marked s \<Longrightarrow> c \<notin> dr_used s \<Longrightarrow>
    remote_answer (dr_ref s) (Some r) c = (q, new) \<Longrightarrow>
    durable_step s (s\<lparr>dr_ref := new, dr_used := insert c (dr_used s)\<rparr>)"

inductive_cases durable_stepE: "durable_step s t"

section \<open>The invariant\<close>

definition lease_of :: "host \<Rightarrow> string option" where
  "lease_of h = mi_lease (ho_mirror h)"

definition objs :: "host \<Rightarrow> string set" where
  "objs h = set_option (lease_of h) \<union> set_option (ho_pending h)"

text \<open>Every object is known; no two hosts hold the same; what is in flight is not on the ref; only the first host starts
  without a lease.\<close>

definition known_objects :: "durable_run \<Rightarrow> bool" where
  "known_objects s \<longleftrightarrow> set_option (dr_ref s) \<subseteq> dr_used s \<and> dr_marked s \<subseteq> dr_used s \<and>
     (\<forall>i h. dr_hosts s i = Some h \<longrightarrow> objs h \<subseteq> dr_used s)"

definition own_objects :: "durable_run \<Rightarrow> bool" where
  "own_objects s \<longleftrightarrow> (\<forall>i h j g. dr_hosts s i = Some h \<longrightarrow> dr_hosts s j = Some g \<longrightarrow> i \<noteq> j \<longrightarrow> objs h \<inter> objs g = {})"

definition in_flight :: "durable_run \<Rightarrow> bool" where
  "in_flight s \<longleftrightarrow> (\<forall>i h. dr_hosts s i = Some h \<longrightarrow> set_option (ho_pending h) \<inter> set_option (dr_ref s) = {} \<and> (lease_of h = None \<longrightarrow> i = 0) \<and>
     (set_option (ho_pending h) \<inter> dr_marked s \<noteq> {} \<longrightarrow> ho_marked h))"

text \<open>Past a confirmed landing the ref stays on a commit with the marker, and no other host holds it.\<close>

definition landing_settled :: "durable_run \<Rightarrow> bool" where
  "landing_settled s \<longleftrightarrow> (\<forall>i h. dr_hosts s i = Some h \<longrightarrow> ho_confirmed h \<longrightarrow>
     ho_marked h \<and> set_option (ho_pending h) \<subseteq> dr_marked s \<and> (\<exists>r. dr_ref s = Some r \<and> r \<in> dr_marked s) \<and>
     (\<forall>j g. dr_hosts s j = Some g \<longrightarrow> j \<noteq> i \<longrightarrow> lease_of g \<noteq> dr_ref s \<and> \<not> ho_confirmed g))"

definition durable_inv :: "durable_run \<Rightarrow> bool" where
  "durable_inv s \<longleftrightarrow> known_objects s \<and> own_objects s \<and> in_flight s \<and> landing_settled s"

lemma settled_simps [simp]:
  "ho_marked (settled r b h) = ho_marked h" "ho_pending (settled r b h) = None"
  "lease_of (settled (PushFailed f w) b h) = lease_of h" "lease_of (settled (PushOk c) b h) = Some c"
  "ho_confirmed (settled (PushFailed f w) b h) = ho_confirmed h" "ho_confirmed (settled (PushOk c) b h) = (ho_confirmed h \<or> b)"
  by (simp_all add: settled_def settle_push_def lease_of_def mirror_stop_def)

lemma host_simps [simp]:
  "lease_of (h\<lparr>ho_pending := p\<rparr>) = lease_of h" "lease_of (h\<lparr>ho_marked := b\<rparr>) = lease_of h"
  "lease_of (h\<lparr>ho_mirror := mirror_stop (ho_mirror h)\<rparr>) = lease_of h"
  "lease_of (new_host l) = l" "ho_pending (new_host l) = None" "ho_confirmed (new_host l) = False" "ho_marked (new_host l) = False"
  by (simp_all add: lease_of_def mirror_stop_def new_host_def mirror_new_def)

lemma remote_answer_cases:
  assumes "remote_answer ref' lease c = (r, new)"
  obtains (moved) "ref' = lease" and "r = PushOk c" and "new = Some c"
  | (refused) w where "ref' \<noteq> lease" and "r = PushFailed True w" and "new = ref'"
  using assms by (auto simp: remote_answer_def split: if_splits)

lemma start_durable_inv: "durable_start s \<Longrightarrow> durable_inv s"
  by (auto simp: durable_start_def durable_inv_def known_objects_def own_objects_def in_flight_def landing_settled_def objs_def split: if_splits)

lemma objs_simps [simp]:
  "objs (settled (PushFailed f w) b h) = set_option (lease_of h)" "objs (settled (PushOk c) b h) = {c}"
  "objs (h\<lparr>ho_pending := p\<rparr>) = set_option (lease_of h) \<union> set_option p" "objs (h\<lparr>ho_marked := m\<rparr>) = objs h"
  "objs (h\<lparr>ho_mirror := mirror_stop (ho_mirror h)\<rparr>) = objs h" "objs (new_host l) = set_option l"
  by (simp_all add: objs_def)

lemma known_update:
  "known_objects s \<Longrightarrow> objs h' \<subseteq> dr_used t \<Longrightarrow> dr_used s \<subseteq> dr_used t \<Longrightarrow> set_option (dr_ref t) \<subseteq> dr_used t \<Longrightarrow>
    dr_marked t \<subseteq> dr_used t \<Longrightarrow> dr_hosts t = (dr_hosts s)(i \<mapsto> h') \<Longrightarrow> known_objects t"
  unfolding known_objects_def by (auto split: if_splits) blast

lemma known_host: "known_objects s \<Longrightarrow> dr_hosts s i = Some h \<Longrightarrow> set_option (lease_of h) \<subseteq> dr_used s \<and> set_option (ho_pending h) \<subseteq> dr_used s"
  unfolding known_objects_def objs_def by blast

lemma step_known:
  assumes st: "durable_step s t" and k: "known_objects s"
  shows "known_objects t"
  using st
proof (cases rule: durable_step.cases)
  case (observed r i)
  with k show ?thesis by (simp add: known_objects_def)
next
  case (taken_unanswered i r c q new)
  with k show ?thesis by (auto simp: known_objects_def remote_answer_def split: if_splits) blast+
next
  case (answered i h c r new)
  from answered(4) show ?thesis
    by (cases rule: remote_answer_cases)
      (use k known_host [OF k answered(2)] answered in \<open>auto intro!: known_update [OF k] simp: known_objects_def\<close>)
next
  case (unanswered i h c r new why)
  from unanswered(4) show ?thesis
    by (cases rule: remote_answer_cases)
      (use k known_host [OF k unanswered(2)] unanswered in \<open>auto intro!: known_update [OF k] simp: known_objects_def\<close>)
next
  case (snapshotted i h c)
  show ?thesis
    by (rule known_update [OF k, where h' = "h\<lparr>ho_pending := Some c\<rparr>" and i = i])
      (use k known_host [OF k snapshotted(2)] in \<open>auto simp: snapshotted(1) known_objects_def\<close>)
next
  case (unsent i h c why)
  show ?thesis
    by (rule known_update [OF k, where h' = "settled (PushFailed False why) (c \<in> dr_marked s) h" and i = i])
      (use k known_host [OF k unsent(2)] in \<open>auto simp: unsent(1) known_objects_def\<close>)
next
  case (marked i h)
  show ?thesis
    by (rule known_update [OF k, where h' = "h\<lparr>ho_marked := True\<rparr>" and i = i])
      (use k marked(2) in \<open>auto simp: marked(1) known_objects_def\<close>)
next
  case (stopped i h)
  show ?thesis
    by (rule known_update [OF k, where h' = "h\<lparr>ho_mirror := mirror_stop (ho_mirror h)\<rparr>" and i = i])
      (use k stopped(2) in \<open>auto simp: stopped(1) known_objects_def\<close>)
next
  case (taken i r c new)
  then have "new = Some c" by (auto simp: remote_answer_def split: if_splits)
  then show ?thesis
    by (intro known_update [OF k, where h' = "new_host (Some c)" and i = i])
      (use k in \<open>auto simp: taken(1) known_objects_def\<close>)
qed

text \<open>A step changes one host at most, which gets no object but its own and new ones.\<close>

lemma step_shape:
  assumes "durable_step s t"
  shows "dr_hosts t = dr_hosts s \<or>
    (\<exists>i h'. dr_hosts t = (dr_hosts s)(i \<mapsto> h') \<and> objs h' \<subseteq> (case dr_hosts s i of None \<Rightarrow> {} | Some h \<Rightarrow> objs h) \<union> - dr_used s)"
    (is "_ \<or> ?one")
  using assms
proof (cases rule: durable_step.cases)
  case (answered i h c r new)
  from answered(4) have "objs (settled r (c \<in> dr_marked s) h) \<subseteq> objs h"
    by (cases rule: remote_answer_cases) (use answered(3) in \<open>auto simp: objs_def\<close>)
  with answered have ?one by (intro exI[of _ i] exI[of _ "settled r (c \<in> dr_marked s) h"]) auto
  then show ?thesis ..
next
  case (unanswered i h c r new why)
  then have ?one by (intro exI[of _ i] exI[of _ "settled (PushFailed False why) (c \<in> dr_marked s) h"]) (auto simp: objs_def)
  then show ?thesis ..
next
  case (unsent i h c why)
  then have ?one by (intro exI[of _ i] exI[of _ "settled (PushFailed False why) (c \<in> dr_marked s) h"]) (auto simp: objs_def)
  then show ?thesis ..
next
  case (snapshotted i h c)
  then have ?one by (intro exI[of _ i] exI[of _ "h\<lparr>ho_pending := Some c\<rparr>"]) (auto simp: objs_def)
  then show ?thesis ..
next
  case (marked i h)
  then have ?one by (intro exI[of _ i] exI[of _ "h\<lparr>ho_marked := True\<rparr>"]) auto
  then show ?thesis ..
next
  case (stopped i h)
  then have ?one by (intro exI[of _ i] exI[of _ "h\<lparr>ho_mirror := mirror_stop (ho_mirror h)\<rparr>"]) auto
  then show ?thesis ..
next
  case (taken i r c new)
  then have ?one by (intro exI[of _ i] exI[of _ "new_host (Some c)"]) auto
  then show ?thesis ..
qed simp_all

lemma step_own: "durable_step s t \<Longrightarrow> known_objects s \<Longrightarrow> own_objects s \<Longrightarrow> own_objects t"
proof -
  assume st: "durable_step s t" and k: "known_objects s" and own: "own_objects s"
  from step_shape [OF st] show ?thesis
  proof (elim disjE exE conjE)
    assume "dr_hosts t = dr_hosts s"
    with own show ?thesis by (simp add: own_objects_def)
  next
    fix i h' assume t: "dr_hosts t = (dr_hosts s)(i \<mapsto> h')"
      and h': "objs h' \<subseteq> (case dr_hosts s i of None \<Rightarrow> {} | Some h \<Rightarrow> objs h) \<union> - dr_used s"
    have "objs h' \<inter> objs g = {}" if "dr_hosts s j = Some g" "j \<noteq> i" for j g
    proof -
      from k that have "objs g \<subseteq> dr_used s" by (auto simp: known_objects_def)
      moreover have "objs h \<inter> objs g = {}" if "dr_hosts s i = Some h" for h
        using own that \<open>dr_hosts s j = Some g\<close> \<open>j \<noteq> i\<close> unfolding own_objects_def by blast
      ultimately show ?thesis using h' by (cases "dr_hosts s i") auto
    qed
    with own show ?thesis unfolding own_objects_def t by (auto split: if_splits) blast+
  qed
qed

text \<open>What moves the ref is the mover's own object or a new one, so no other host has it in flight or as its lease.\<close>

lemma own_apart: "own_objects s \<Longrightarrow> dr_hosts s i = Some h \<Longrightarrow> c \<in> objs h \<Longrightarrow> dr_hosts s j = Some g \<Longrightarrow> j \<noteq> i \<Longrightarrow> c \<notin> objs g"
  unfolding own_objects_def by blast

lemma known_apart: "known_objects s \<Longrightarrow> dr_hosts s i = Some h \<Longrightarrow> c \<notin> dr_used s \<Longrightarrow> c \<notin> objs h"
  unfolding known_objects_def by blast

lemma objs_iff: "c \<in> objs h \<longleftrightarrow> lease_of h = Some c \<or> ho_pending h = Some c"
  by (auto simp: objs_def)

lemma in_flight_iff: "in_flight s \<longleftrightarrow> (\<forall>i h. dr_hosts s i = Some h \<longrightarrow> (lease_of h = None \<longrightarrow> i = 0) \<and>
    (\<forall>c. ho_pending h = Some c \<longrightarrow> dr_ref s \<noteq> Some c \<and> (c \<in> dr_marked s \<longrightarrow> ho_marked h)))"
  unfolding in_flight_def by (fastforce split: option.splits)

lemma step_in_flight:
  assumes st: "durable_step s t" and k: "known_objects s" and own: "own_objects s" and fl: "in_flight s"
  shows "in_flight t"
  using st
proof (cases rule: durable_step.cases)
  case (snapshotted i h c)
  have "ho_pending g \<noteq> Some c" if "dr_hosts s j = Some g" for j g
    using known_apart [OF k that snapshotted(5)] by (simp add: objs_iff)
  with fl k snapshotted show ?thesis
    by (auto simp: in_flight_iff known_objects_def split: if_splits)
next
  case (answered i h c r new)
  from answered(4) show ?thesis
  proof (cases rule: remote_answer_cases)
    case moved
    with fl answered own_apart [OF own answered(2)] show ?thesis by (auto simp: in_flight_iff objs_iff)
  next
    case (refused w)
    with fl answered show ?thesis by (auto simp: in_flight_iff)
  qed
next
  case (unanswered i h c r new why)
  from unanswered(4) show ?thesis
  proof (cases rule: remote_answer_cases)
    case moved
    with fl unanswered own_apart [OF own unanswered(2)] show ?thesis by (auto simp: in_flight_iff objs_iff)
  next
    case (refused w)
    with fl unanswered show ?thesis by (auto simp: in_flight_iff)
  qed
next
  case (taken i r c new)
  with fl k show ?thesis
    by (auto simp: in_flight_iff remote_answer_def objs_iff dest: known_apart split: if_splits)
next
  case (taken_unanswered i r c q new)
  with fl k show ?thesis
    by (auto simp: in_flight_iff remote_answer_def objs_iff dest: known_apart split: if_splits)
qed (use fl in \<open>auto simp: in_flight_iff split: if_splits\<close>)

section \<open>Landing\<close>

lemma landing_iff: "landing_settled s \<longleftrightarrow> (\<forall>i h. dr_hosts s i = Some h \<longrightarrow> ho_confirmed h \<longrightarrow>
     ho_marked h \<and> (\<forall>c. ho_pending h = Some c \<longrightarrow> c \<in> dr_marked s) \<and> (\<exists>r. dr_ref s = Some r \<and> r \<in> dr_marked s) \<and>
     (\<forall>j g. dr_hosts s j = Some g \<longrightarrow> j \<noteq> i \<longrightarrow> lease_of g \<noteq> dr_ref s \<and> \<not> ho_confirmed g))"
  unfolding landing_settled_def by (auto simp: subset_iff elim!: option.set_cases)

lemma moved_landing:
  assumes k: "known_objects s" and own: "own_objects s" and fl: "in_flight s" and la: "landing_settled s"
    and h: "dr_hosts s i = Some h" "ho_pending h = Some c" and lease: "dr_ref s = lease_of h"
    and t: "t = s\<lparr>dr_ref := Some c, dr_hosts := (dr_hosts s)(i \<mapsto> h')\<rparr>"
    and h': "ho_pending h' = None" "ho_marked h' = ho_marked h" "ho_confirmed h' \<longrightarrow> ho_confirmed h \<or> c \<in> dr_marked s"
  shows "landing_settled t"
proof -
  have alone: "\<not> ho_confirmed g" if "dr_hosts s j = Some g" "j \<noteq> i" for j g
    using la h(1) lease that unfolding landing_iff by metis
  have apart: "lease_of g \<noteq> Some c" if "dr_hosts s j = Some g" "j \<noteq> i" for j g
    using own_apart [OF own h(1) _ that, of c] h(2) by (simp add: objs_iff)
  have "ho_marked h \<and> c \<in> dr_marked s" if "ho_confirmed h'"
  proof (cases "ho_confirmed h")
    case True
    with la h show ?thesis unfolding landing_iff by blast
  next
    case False
    with h' that have "c \<in> dr_marked s" by blast
    with fl h show ?thesis unfolding in_flight_iff by blast
  qed
  with alone apart h' show ?thesis unfolding landing_iff t by (auto split: if_splits)
qed

lemma kept_landing:
  assumes la: "landing_settled s" and h: "dr_hosts s i = Some h" and hosts: "dr_hosts t = (dr_hosts s)(i \<mapsto> h')"
    and same: "dr_ref t = dr_ref s" "dr_marked s \<subseteq> dr_marked t"
    and h': "lease_of h' = lease_of h" "ho_confirmed h' = ho_confirmed h" "ho_marked h \<longrightarrow> ho_marked h'"
      "\<And>c. ho_pending h' = Some c \<Longrightarrow> ho_pending h = Some c \<or> (ho_marked h \<longrightarrow> c \<in> dr_marked t)"
  shows "landing_settled t"
  unfolding landing_iff
proof (intro allI impI)
  fix j g assume g: "dr_hosts t j = Some g" "ho_confirmed g"
  define g0 where "g0 = (if j = i then h else g)"
  have old: "dr_hosts s j = Some g0" "ho_confirmed g0"
    using g h hosts h'(2) by (auto simp: g0_def split: if_splits)
  note la = la [unfolded landing_iff, rule_format, OF old]
  have "lease_of k \<noteq> dr_ref t \<and> \<not> ho_confirmed k" if k: "dr_hosts t l = Some k" "l \<noteq> j" for l k
  proof (cases "l = i")
    case True
    with k(1) hosts have "k = h'" by simp
    with la h h' same True k(2) show ?thesis by auto
  next
    case False
    with k(1) hosts have "dr_hosts s l = Some k" by simp
    with la same k(2) show ?thesis by auto
  qed
  moreover have "ho_marked g \<and> (\<forall>c. ho_pending g = Some c \<longrightarrow> c \<in> dr_marked t)"
  proof (cases "j = i")
    case True
    with g(1) hosts have "g = h'" by simp
    with la h' same True show ?thesis by (auto simp: g0_def)
  next
    case False
    with la same show ?thesis by (auto simp: g0_def)
  qed
  ultimately show "ho_marked g \<and> (\<forall>c. ho_pending g = Some c \<longrightarrow> c \<in> dr_marked t) \<and> (\<exists>r. dr_ref t = Some r \<and> r \<in> dr_marked t) \<and>
      (\<forall>j' k. dr_hosts t j' = Some k \<longrightarrow> j' \<noteq> j \<longrightarrow> lease_of k \<noteq> dr_ref t \<and> \<not> ho_confirmed k)"
    using la same by auto
qed

text \<open>A takeover moves the ref off a commit without the marker, so nobody had confirmed.\<close>

lemma none_confirmed: "landing_settled s \<Longrightarrow> dr_ref s = Some r \<Longrightarrow> r \<notin> dr_marked s \<Longrightarrow> dr_hosts s j = Some g \<Longrightarrow> \<not> ho_confirmed g"
  unfolding landing_iff by auto

lemma step_landing:
  assumes st: "durable_step s t" and k: "known_objects s" and own: "own_objects s" and fl: "in_flight s" and la: "landing_settled s"
  shows "landing_settled t"
  using st
proof (cases rule: durable_step.cases)
  case (answered i h c r new)
  from answered(4) show ?thesis
  proof (cases rule: remote_answer_cases)
    case moved
    then have lease: "dr_ref s = lease_of h" by (simp add: lease_of_def)
    have "t = s\<lparr>dr_ref := Some c, dr_hosts := (dr_hosts s)(i \<mapsto> settled r (c \<in> dr_marked s) h)\<rparr>"
      using answered(1) moved(3) by simp
    from moved_landing [OF k own fl la answered(2,3) lease this] moved(2) show ?thesis by simp
  next
    case (refused w)
    show ?thesis by (rule kept_landing [OF la answered(2), where h' = "settled r (c \<in> dr_marked s) h"]) (simp_all add: answered(1) refused(2,3))
  qed
next
  case (unanswered i h c r new why)
  from unanswered(4) show ?thesis
  proof (cases rule: remote_answer_cases)
    case moved
    then have lease: "dr_ref s = lease_of h" by (simp add: lease_of_def)
    have "t = s\<lparr>dr_ref := Some c, dr_hosts := (dr_hosts s)(i \<mapsto> settled (PushFailed False why) (c \<in> dr_marked s) h)\<rparr>"
      using unanswered(1) moved(3) by simp
    from moved_landing [OF k own fl la unanswered(2,3) lease this] show ?thesis by simp
  next
    case (refused w)
    show ?thesis by (rule kept_landing [OF la unanswered(2), where h' = "settled (PushFailed False why) (c \<in> dr_marked s) h"]) (simp_all add: unanswered(1) refused(3))
  qed
next
  case (taken i r c new)
  then have "dr_ref s = Some r" by (auto simp: remote_answer_def split: if_splits)
  from none_confirmed [OF la this taken(4)] show ?thesis
    unfolding landing_iff taken(1) by (auto split: if_splits)
next
  case (taken_unanswered i r c q new)
  show ?thesis
  proof (cases "dr_ref s = Some r")
    case True
    from none_confirmed [OF la this taken_unanswered(4)] show ?thesis
      unfolding landing_iff taken_unanswered(1) by auto
  next
    case False
    with taken_unanswered(6) have "new = dr_ref s" by (simp add: remote_answer_def)
    with la show ?thesis by (simp add: landing_settled_def taken_unanswered(1))
  qed
next
  case (snapshotted i h c)
  show ?thesis by (rule kept_landing [OF la snapshotted(2), where h' = "h\<lparr>ho_pending := Some c\<rparr>"]) (auto simp: snapshotted(1))
next
  case (unsent i h c why)
  show ?thesis by (rule kept_landing [OF la unsent(2), where h' = "settled (PushFailed False why) (c \<in> dr_marked s) h"]) (simp_all add: unsent(1))
next
  case (marked i h)
  show ?thesis by (rule kept_landing [OF la marked(2), where h' = "h\<lparr>ho_marked := True\<rparr>"]) (simp_all add: marked(1))
next
  case (stopped i h)
  show ?thesis by (rule kept_landing [OF la stopped(2), where h' = "h\<lparr>ho_mirror := mirror_stop (ho_mirror h)\<rparr>"]) (simp_all add: stopped(1))
next
  case (observed r i)
  with la show ?thesis by (simp add: landing_settled_def)
qed

interpretation durable: inductive_invariant durable_start durable_step durable_inv
proof
  show "durable_inv s" if "durable_start s" for s
    using that by (rule start_durable_inv)
  show "durable_inv t" if "durable_inv s" and "durable_step s t" for s t
    using that by (simp add: durable_inv_def step_known step_own step_in_flight step_landing)
qed

end
