(* ===== verification/DurableProperties.thy ===== *)
theory DurableProperties
  imports DurableProtocol BoardProperties
begin

text \<open>
  What a durable run is promised: one host holds the run's ref, at most one lands it on a shared target, resuming
  leaves nothing of the dead writer open; and the answer lost in transit that strands a run.
\<close>

section \<open>Runs for the witnesses\<close>

definition demo_durable :: "string option \<Rightarrow> string set \<Rightarrow> string set \<Rightarrow> (nat \<Rightarrow> host option) \<Rightarrow> durable_run" where
  "demo_durable r used marks hosts = \<lparr>dr_ref = r, dr_used = used, dr_marked = marks, dr_hosts = hosts, dr_seen = Map.empty\<rparr>"

definition demo_host :: "string option \<Rightarrow> bool \<Rightarrow> bool \<Rightarrow> string option \<Rightarrow> bool \<Rightarrow> host" where
  "demo_host lease fenced marks pending confirmed =
     \<lparr>ho_mirror = \<lparr>mi_lease = lease, mi_fenced = fenced, mi_stopped = fenced\<rparr>, ho_marked = marks, ho_pending = pending, ho_confirmed = confirmed\<rparr>"

lemmas demo_durable_simps = demo_durable_def demo_host_def settled_def settle_push_def remote_answer_def mirror_stop_def able_def

lemma demo_durable_start: "reachable durable_start durable_step (demo_durable None {} {} [0 \<mapsto> demo_host None False False None False])"
  by (rule reach_start) (simp add: durable_start_def demo_durable_simps new_host_def mirror_new_def)

lemma demo_snap:
  "c \<notin> used \<Longrightarrow> durable_step (demo_durable r used marks [0 \<mapsto> demo_host l False m None k])
     (demo_durable r (insert c used) (if m then insert c marks else marks) [0 \<mapsto> demo_host l False m (Some c) k])"
  using durable_step.snapshotted [where s = "demo_durable r used marks [0 \<mapsto> demo_host l False m None k]" and i = 0
      and h = "demo_host l False m None k" and c = c]
  by (cases m) (simp_all add: demo_durable_simps)

lemma demo_pushed:
  "durable_step (demo_durable r used marks [0 \<mapsto> demo_host r False m (Some c) k])
     (demo_durable (Some c) used marks [0 \<mapsto> demo_host (Some c) False m None (k \<or> c \<in> marks)])"
  using durable_step.answered [where s = "demo_durable r used marks [0 \<mapsto> demo_host r False m (Some c) k]" and i = 0
      and h = "demo_host r False m (Some c) k" and c = c and r = "PushOk c" and new = "Some c"]
  by (simp add: demo_durable_simps)

lemma demo_lost:
  "durable_step (demo_durable r used marks [0 \<mapsto> demo_host r False m (Some c) k]) (demo_durable (Some c) used marks [0 \<mapsto> demo_host r False m None k])"
  using durable_step.unanswered [where s = "demo_durable r used marks [0 \<mapsto> demo_host r False m (Some c) k]" and i = 0
      and h = "demo_host r False m (Some c) k" and c = c and r = "PushOk c" and new = "Some c"]
  by (simp add: demo_durable_simps)

lemma demo_refused:
  "l \<noteq> r \<Longrightarrow> durable_step (demo_durable r used marks [0 \<mapsto> demo_host l False m (Some c) k]) (demo_durable r used marks [0 \<mapsto> demo_host l True m None k])"
  using durable_step.answered [where s = "demo_durable r used marks [0 \<mapsto> demo_host l False m (Some c) k]" and i = 0
      and h = "demo_host l False m (Some c) k" and c = c and r = "PushFailed True ''stale info''" and new = r]
  by (simp add: demo_durable_simps)

lemma demo_marks:
  "durable_step (demo_durable r used marks [0 \<mapsto> demo_host l f m p k]) (demo_durable r used marks [0 \<mapsto> demo_host l f True p k])"
  using durable_step.marked [where s = "demo_durable r used marks [0 \<mapsto> demo_host l f m p k]" and i = 0 and h = "demo_host l f m p k"]
  by (simp add: demo_durable_simps)

lemma demo_started:
  "reachable durable_start durable_step (demo_durable (Some ''a'') {''a'', ''b''} {''b''} [0 \<mapsto> demo_host (Some ''a'') False True (Some ''b'') False])"
proof -
  let ?s0 = "demo_durable None {} {} [0 \<mapsto> demo_host None False False None False]"
  let ?s1 = "demo_durable None {''a''} {} [0 \<mapsto> demo_host None False False (Some ''a'') False]"
  let ?s2 = "demo_durable (Some ''a'') {''a''} {} [0 \<mapsto> demo_host (Some ''a'') False False None False]"
  let ?s3 = "demo_durable (Some ''a'') {''a''} {} [0 \<mapsto> demo_host (Some ''a'') False True None False]"
  let ?s4 = "demo_durable (Some ''a'') {''a'', ''b''} {''b''} [0 \<mapsto> demo_host (Some ''a'') False True (Some ''b'') False]"
  have "durable_step ?s0 ?s1" using demo_snap [of "''a''" "{}" None "{}" None False False] by simp
  with demo_durable_start have r1: "reachable durable_start durable_step ?s1" by (rule reach_step)
  have "durable_step ?s1 ?s2" using demo_pushed [of None "{''a''}" "{}" False "''a''" False] by simp
  with r1 have r2: "reachable durable_start durable_step ?s2" by (rule reach_step)
  have "durable_step ?s2 ?s3" by (rule demo_marks)
  with r2 have r3: "reachable durable_start durable_step ?s3" by (rule reach_step)
  have "durable_step ?s3 ?s4"
    using demo_snap [of "''b''" "{''a''}" "Some ''a''" "{}" "Some ''a''" True False] by (simp add: insert_commute)
  with r3 show ?thesis by (rule reach_step)
qed

abbreviation landed_run :: durable_run where
  "landed_run \<equiv> demo_durable (Some ''b'') {''a'', ''b''} {''b''} [0 \<mapsto> demo_host (Some ''b'') False True None True]"

lemma demo_landed: "reachable durable_start durable_step landed_run"
proof -
  have "durable_step (demo_durable (Some ''a'') {''a'', ''b''} {''b''} [0 \<mapsto> demo_host (Some ''a'') False True (Some ''b'') False]) landed_run"
    using demo_pushed [of "Some ''a''" "{''a'', ''b''}" "{''b''}" True "''b''" False] by simp
  with demo_started show ?thesis by (rule reach_step)
qed

section \<open>One host lands\<close>



text \<open>At most one host's lease is the object the remote's ref is at: of all writers and takers, one can push.\<close>

theorem durable_one_writer:
  assumes "reachable durable_start durable_step s" and "dr_hosts s i = Some h" and "dr_hosts s j = Some g"
    and "lease_of h = dr_ref s" and "lease_of g = dr_ref s"
  shows "i = j"
proof (rule ccontr)
  assume "i \<noteq> j"
  from durable.reachable_inv [OF assms(1)] have own: "own_objects s" and fl: "in_flight s" by (simp_all add: durable_inv_def)
  show False
  proof (cases "dr_ref s")
    case None
    with fl [unfolded in_flight_iff, rule_format, OF assms(2)] fl [unfolded in_flight_iff, rule_format, OF assms(3)] assms(4,5)
    have "i = 0" "j = 0" by simp_all
    with \<open>i \<noteq> j\<close> show ?thesis by simp
  next
    case (Some r)
    with assms(4,5) have "r \<in> objs h" "r \<in> objs g" by (simp_all add: objs_iff)
    with own_apart [OF own assms(2) _ assms(3)] \<open>i \<noteq> j\<close> show ?thesis by auto
  qed
qed

theorem durable_one_writer_witness:
  "{j. \<exists>g. dr_hosts landed_run j = Some g \<and> lease_of g = dr_ref landed_run} = {0}"
proof -
  have zero: "dr_hosts landed_run 0 = Some (demo_host (Some ''b'') False True None True)"
    and lease: "lease_of (demo_host (Some ''b'') False True None True) = dr_ref landed_run"
    by (simp_all add: demo_durable_def demo_host_def lease_of_def)
  then show ?thesis
    using durable_one_writer [OF demo_landed _ zero _ lease] by blast
qed

section \<open>A lost answer\<close>

text \<open>A run whose ref is marked, with every host fenced, none confirmed and nothing in flight.\<close>

definition stranded :: "durable_run \<Rightarrow> bool" where
  "stranded s \<longleftrightarrow> (\<exists>r. dr_ref s = Some r \<and> r \<in> dr_marked s) \<and>
     (\<forall>i h. dr_hosts s i = Some h \<longrightarrow> \<not> able (ho_mirror h) \<and> \<not> ho_confirmed h \<and> ho_pending h = None)"

lemma stranded_step: "durable_step s t \<Longrightarrow> stranded s \<Longrightarrow> stranded t"
  by (erule durable_stepE)
    (fastforce simp: stranded_def able_def mirror_stop_def remote_answer_def split: if_splits)+

lemma stranded_steps: "durable_step\<^sup>*\<^sup>* s t \<Longrightarrow> stranded s \<Longrightarrow> stranded t"
  by (induction rule: rtranclp_induct) (auto intro: stranded_step)


section \<open>Resuming\<close>

text \<open>A journal that may be resumed has no landing marker, which is what bars a taker in the step relation above.\<close>

lemma resumed_unmarked: "resume_refusal runId wts durable es = Inr prior \<Longrightarrow> LANDING \<notin> set es \<and> foldRun es = Some prior \<and> rr_status prior \<noteq> Finished"
  by (auto simp: resume_refusal_def split: option.splits if_splits)

definition defaulted :: "int \<Rightarrow> question \<Rightarrow> question" where
  "defaulted now q = q\<lparr>qn_status := Defaulted, qn_answer := Some (qn_default q), qn_closedAt := Some now\<rparr>"

lemma release_each_payloads:
  "payloads (bd_journal (snd (release_each now ts b))) = payloads (bd_journal b) @ map TaskEvent (fst (release_each now ts b))"
  by (induction now ts b rule: release_each.induct) (auto simp: Let_def payloads_commit split: prod.splits)

lemma default_questions_payloads:
  "payloads (foldl (\<lambda>j q. default_question now q j) j qs) =
     payloads j @ map (QuestionEvent \<circ> defaulted now) (filter (\<lambda>q. qn_status q = Open) qs)"
  by (induction qs arbitrary: j) (auto simp: default_question_def defaulted_def)

lemma foldRun_tasks: "foldRun (es @ map TaskEvent ts) = foldRun es"
  by (induction ts rule: rev_induct) (simp_all add: foldRun_snoc flip: append_assoc)

lemma foldRun_questions: "foldRun (es @ map (QuestionEvent \<circ> f) qs) = foldRun es"
  by (induction qs rule: rev_induct) (simp_all add: foldRun_snoc flip: append_assoc)

lemma foldBoard_questions: "foldBoard (es @ map (QuestionEvent \<circ> f) qs) = foldBoard es"
  by (induction qs rule: rev_induct) (simp_all add: tasks.folded_other task_of_def flip: append_assoc)

lemma foldQuestions_keyed: "jm_keyed qn_id (foldQuestions es)"
  by (induction es rule: rev_induct)
    (auto simp: questions.folded_Nil questions.folded_snoc question_of_def split: swarm_event.splits)

lemma foldQuestions_closing:
  "jm_get (foldQuestions (es @ map (QuestionEvent \<circ> f) qs)) k = Some q \<Longrightarrow> (\<And>q. qn_id (f q) = qn_id q) \<Longrightarrow>
    q \<in> f ` set qs \<or> jm_get (foldQuestions es) k = Some q \<and> k \<notin> qn_id ` set qs"
  by (induction qs arbitrary: q rule: rev_induct)
    (auto simp: questions.folded_snapshot question_of_def simp flip: append_assoc split: if_splits)

lemma board_open_payloads [simp]: "bd_journal (board_open j g l) = j"
  by (simp add: board_open_def)

lemma resume_record_payloads:
  assumes "resume_record now runId wts durable base w j = (Inr (), j')"
  obtains prior rs where "foldRun (payloads j) = Some prior" and "LANDING \<notin> set (payloads j)"
    and "(rs, snd (releaseOrphans now (board_open (snd (journal_append now (RunEvent (prior\<lparr>rr_status := Interrupted, rr_writer := w\<rparr>)) j)) False None))) =
      releaseOrphans now (board_open (snd (journal_append now (RunEvent (prior\<lparr>rr_status := Interrupted, rr_writer := w\<rparr>)) j)) False None)"
    and "payloads j' = (payloads j @ [RunEvent (prior\<lparr>rr_status := Interrupted, rr_writer := w\<rparr>)] @ map TaskEvent rs) @
      map (QuestionEvent \<circ> defaulted now) (filter (\<lambda>q. qn_status q = Open)
        (jm_vals (foldQuestions (payloads j @ [RunEvent (prior\<lparr>rr_status := Interrupted, rr_writer := w\<rparr>)] @ map TaskEvent rs))))"
proof -
  from assms obtain prior where pr: "resume_refusal runId wts durable (payloads j) = Inr prior"
    by (auto simp: resume_record_def split: sum.splits)
  let ?j = "snd (journal_append now (RunEvent (prior\<lparr>rr_status := Interrupted, rr_writer := w\<rparr>)) j)"
  let ?r = "releaseOrphans now (board_open ?j False None)"
  have pay: "payloads (bd_journal (snd ?r)) = payloads j @ [RunEvent (prior\<lparr>rr_status := Interrupted, rr_writer := w\<rparr>)] @ map TaskEvent (fst ?r)"
    by (simp add: releaseOrphans_def release_each_payloads)
  from assms pr have "j' = foldl (\<lambda>j q. default_question now q j) (bd_journal (snd ?r)) (jm_vals (foldQuestions (payloads (bd_journal (snd ?r)))))"
    by (auto simp: resume_record_def Let_def split: option.splits prod.splits bool.splits if_splits)
  then have "payloads j' = (payloads j @ [RunEvent (prior\<lparr>rr_status := Interrupted, rr_writer := w\<rparr>)] @ map TaskEvent (fst ?r)) @
      map (QuestionEvent \<circ> defaulted now) (filter (\<lambda>q. qn_status q = Open)
        (jm_vals (foldQuestions (payloads j @ [RunEvent (prior\<lparr>rr_status := Interrupted, rr_writer := w\<rparr>)] @ map TaskEvent (fst ?r)))))"
    by (simp only: default_questions_payloads pay)
  with resumed_unmarked [OF pr] that [of prior "fst ?r"] show ?thesis by simp
qed

text \<open>Recording a takeover either refuses and leaves the journal alone, or appends to a journal without a landing marker:
  the run is then interrupted under its new writer, no task is in progress under another writer's lease, and no
  question is open.\<close>

theorem resume_settles:
  assumes "resume_record now runId wts durable base w j = (r, j')"
  shows "(case r of
      Inl _ \<Rightarrow> j' = j
    | Inr _ \<Rightarrow> prefix (payloads j) (payloads j') \<and> LANDING \<notin> set (payloads j') \<and>
        map_option rr_status (foldRun (payloads j')) = Some Interrupted \<and> map_option rr_writer (foldRun (payloads j')) = Some w \<and>
        {t \<in> set (jm_vals (foldBoard (payloads j'))). tk_status t = InProgress \<and> tk_lease t \<noteq> Some (sj_incarnation j)} = {} \<and>
        {q \<in> set (jm_vals (foldQuestions (payloads j'))). qn_status q = Open} = {})"
proof (cases r)
  case (Inl why)
  with assms show ?thesis by (auto simp: resume_record_def Let_def split: sum.splits option.splits prod.splits bool.splits if_splits)
next
  case (Inr u)
  with assms have "resume_record now runId wts durable base w j = (Inr (), j')" by simp
  then obtain prior rs where no: "LANDING \<notin> set (payloads j)"
    and rs: "(rs, snd (releaseOrphans now (board_open (snd (journal_append now (RunEvent (prior\<lparr>rr_status := Interrupted, rr_writer := w\<rparr>)) j)) False None))) =
      releaseOrphans now (board_open (snd (journal_append now (RunEvent (prior\<lparr>rr_status := Interrupted, rr_writer := w\<rparr>)) j)) False None)"
    and pay: "payloads j' = (payloads j @ [RunEvent (prior\<lparr>rr_status := Interrupted, rr_writer := w\<rparr>)] @ map TaskEvent rs) @
      map (QuestionEvent \<circ> defaulted now) (filter (\<lambda>q. qn_status q = Open)
        (jm_vals (foldQuestions (payloads j @ [RunEvent (prior\<lparr>rr_status := Interrupted, rr_writer := w\<rparr>)] @ map TaskEvent rs))))"
    by (rule resume_record_payloads)
  let ?ev = "RunEvent (prior\<lparr>rr_status := Interrupted, rr_writer := w\<rparr>)"
  let ?es = "payloads j @ [?ev] @ map TaskEvent rs"
  let ?b = "board_open (snd (journal_append now ?ev j)) False None"
  have run: "foldRun (payloads j') = Some (prior\<lparr>rr_status := Interrupted, rr_writer := w\<rparr>)"
    unfolding pay foldRun_questions append_assoc [symmetric] foldRun_tasks by (simp add: foldRun_snoc)
  have board: "foldBoard (payloads j') = board_fold (snd (releaseOrphans now ?b))"
    unfolding pay foldBoard_questions board_fold_def
    using arg_cong [OF rs, of fst] by (simp add: releaseOrphans_def release_each_payloads)
  have free: "tk_status t \<noteq> InProgress \<or> tk_lease t = Some (sj_incarnation j)" if "t \<in> set (jm_vals (foldBoard (payloads j')))" for t
  proof -
    from that obtain i where "jm_get (board_fold (snd (releaseOrphans now ?b))) i = Some t"
      unfolding board by (auto simp: jm_vals_iff board_fold_wf)
    with releaseOrphans_exact [of now ?b i]
    have "map_option (\<lambda>t. if orphaned (sj_incarnation (bd_journal ?b)) t then released t else t) (jm_get (board_fold ?b) i) = Some t"
      by simp
    then obtain t0 where "t = (if orphaned (sj_incarnation (bd_journal ?b)) t0 then released t0 else t0)"
      unfolding map_option_eq_Some by blast
    then show ?thesis by (auto simp: orphaned_def released_def split: if_splits)
  qed
  have shut: "qn_status q \<noteq> Open" if "q \<in> set (jm_vals (foldQuestions (payloads j')))" for q
  proof -
    from that obtain k where "jm_get (foldQuestions (payloads j')) k = Some q"
      by (auto simp: jm_vals_iff)
    from foldQuestions_closing [OF this [unfolded pay]] show ?thesis
    proof
      assume "q \<in> defaulted now ` set (filter (\<lambda>q. qn_status q = Open) (jm_vals (foldQuestions ?es)))"
      then show ?thesis by (auto simp: defaulted_def)
    next
      assume old: "jm_get (foldQuestions ?es) k = Some q \<and> k \<notin> qn_id ` set (filter (\<lambda>q. qn_status q = Open) (jm_vals (foldQuestions ?es)))"
      then have "qn_id q = k" using jm_keyed_get [OF foldQuestions_keyed [of ?es], of k q] by simp
      moreover from old have "q \<in> set (jm_vals (foldQuestions ?es))" by (auto simp: jm_vals_iff)
      ultimately show ?thesis using old by force
    qed (simp add: defaulted_def)
  qed
  have clear: "LANDING \<notin> set (payloads j')" using no by (auto simp: pay LANDING_def)
  have kept: "prefix (payloads j) (payloads j')" by (simp add: pay)
  have none: "{t \<in> set (jm_vals (foldBoard (payloads j'))). tk_status t = InProgress \<and> tk_lease t \<noteq> Some (sj_incarnation j)} = {}"
    "{q \<in> set (jm_vals (foldQuestions (payloads j'))). qn_status q = Open} = {}"
    using free shut by blast+
  show ?thesis unfolding Inr sum.case
    by (intro conjI clear kept none) (simp_all add: run)
qed

definition demo_team :: peer_team_spec where
  "demo_team = \<lparr>sb_intent = None, sb_budget = None, ps_members = [], ps_tasks = [], ps_messaging = None, ps_maxTaskAttempts = None,
     ps_maxMemberRestarts = None, ps_memberIdleTimeoutMs = None, ps_gate = None\<rparr>"

definition demo_running :: run_record where
  "demo_running = \<lparr>rr_id = ''r'', rr_status = Running, rr_topology = PeerTeam, rr_parentSessionId = ''s'',
     rr_writer = \<lparr>rw_pid = 1, rw_host = ''h'', rw_incarnation = ''dead''\<rparr>, rr_startedAt = 0, rr_endedAt = None,
     rr_landing = None, rr_usageJournaled = False, rr_error = None, rr_result = None, rr_resultGit = None,
     rr_git = None, rr_spec = Some (PeerTeamSpec demo_team)\<rparr>"

definition demo_claimed :: task where
  "demo_claimed = claimed_by ''ann'' ''dead'' (new_task 1
     \<lparr>ci_subject = ''s'', ci_prompt = ''p'', ci_blockedBy = None, ci_intent = None, ci_checks = None,
      ci_minLevel = None, ci_suite = None, ci_budget = None\<rparr>)"

definition demo_dead :: "swarm_event swarm_journal" where
  "demo_dead = \<lparr>sj_incarnation = ''mine'', sj_events = [\<lparr>je_seq = 0, je_time = 0, je_data = RunEvent demo_running\<rparr>,
     \<lparr>je_seq = 1, je_time = 1, je_data = TaskEvent demo_claimed\<rparr>], sj_nextSeq = 2\<rparr>"

theorem resume_settles_witness:
  "\<exists>j'. resume_record 9 ''r'' True None None \<lparr>rw_pid = 2, rw_host = ''g'', rw_incarnation = ''mine''\<rparr> demo_dead = (Inr (), j') \<and>
     {t \<in> set (jm_vals (foldBoard (payloads j'))). tk_status t = InProgress \<and> tk_lease t \<noteq> Some ''mine''} = {}"
proof -
  let ?r = "resume_record 9 ''r'' True None None \<lparr>rw_pid = 2, rw_host = ''g'', rw_incarnation = ''mine''\<rparr> demo_dead"
  have "resume_refusal ''r'' True None (payloads demo_dead) = Inr demo_running"
    by (simp add: resume_refusal_def foldRun_def demo_dead_def payloads_def demo_running_def refuseUndurable_def demo_team_def LANDING_def)
  then have "fst ?r = Inr ()" by (simp add: resume_record_def Let_def)
  then obtain j' where r: "?r = (Inr (), j')" by (metis prod.collapse)
  from resume_settles [OF r] have "{t \<in> set (jm_vals (foldBoard (payloads j'))). tk_status t = InProgress \<and> tk_lease t \<noteq> Some (sj_incarnation demo_dead)} = {}"
    by simp
  with r show ?thesis by (simp add: demo_dead_def)
qed

end
