(* ===== verification/SharedQueue.thy ===== *)
theory SharedQueue
  imports GitFiles
begin

text \<open>
  \<open>packages/swarm/src/train-service.ts\<close>: the standalone train's queue. Its state is folded from a journal of its own;
  invited clients enqueue and withdraw entries while the train lands others. Every await of an operation is a point
  where the operations of others go on: the events they journal meanwhile come from the environment and are folded in
  there, those that \<open>sd_theirs\<close> says somebody else can make.
\<close>

section \<open>Events and entries\<close>

datatype eject_kind = ConflictKind | CheckKind | MovedKind | BlockedKind

datatype withdrawn_why = ByClient | Superseded

datatype shared_event =
    ShClient string string
  | ShRevoked string
  | ShEnqueued string string string string "string list" "rat option"
  | ShWithdrawn string withdrawn_why
  | ShBaseline string bool "string option"
  | ShBatch nat string "string list"
  | ShVerified nat string bool "string option"
  | ShLanded string int string string
  | ShEjected string eject_kind string "string option" "string option"

datatype shared_state = InQueue | HasLanded | WasEjected | WasWithdrawn

record shared_entry =
  se_id :: string
  se_principal :: string
  se_branch :: string
  se_sha :: string
  se_blockedBy :: "string list"
  se_epoch :: "rat option"
  se_seq :: nat
  se_state :: shared_state

record service_config =
  sc_repoRoot :: string
  sc_target :: string
  sc_remote :: "string option"
  sc_checks :: "string list"
  sc_batchSize :: "rat option"

record train_card =
  cd_target :: string
  cd_remote :: "string option"
  cd_remoteUrl :: "string option"
  cd_checks :: "string list"
  cd_batchSize :: rat

record train_service =
  ts_entries :: "(string, shared_entry) jmap"
  ts_clients :: "(string, string) jmap"
  ts_batches :: nat
  ts_pushed :: "string option"
  ts_baselines :: "(string, bool \<times> int) jmap"
  ts_journal :: "shared_event swarm_journal"

section \<open>The fold\<close>

definition mark_entry :: "string \<Rightarrow> shared_state \<Rightarrow> train_service \<Rightarrow> train_service" where
  "mark_entry i st s =
     (case jm_get (ts_entries s) i of None \<Rightarrow> s
      | Some e \<Rightarrow> s\<lparr>ts_entries := jm_set i (e\<lparr>se_state := st\<rparr>) (ts_entries s)\<rparr>)"

fun service_fold :: "nat \<Rightarrow> int \<Rightarrow> shared_event \<Rightarrow> train_service \<Rightarrow> train_service" where
  "service_fold sq t (ShClient name h) s = s\<lparr>ts_clients := jm_set h name (ts_clients s)\<rparr>"
| "service_fold sq t (ShRevoked name) s = s\<lparr>ts_clients := filter (\<lambda>(h, n). n \<noteq> name) (ts_clients s)\<rparr>"
| "service_fold sq t (ShEnqueued i p b sha bs ep) s =
     s\<lparr>ts_entries := jm_set i \<lparr>se_id = i, se_principal = p, se_branch = b, se_sha = sha, se_blockedBy = bs, se_epoch = ep,
       se_seq = sq, se_state = InQueue\<rparr> (ts_entries s)\<rparr>"
| "service_fold sq t (ShWithdrawn i _) s = mark_entry i WasWithdrawn s"
| "service_fold sq t (ShEjected i _ _ _ _) s = mark_entry i WasEjected s"
| "service_fold sq t (ShLanded i b c _) s = (let s = mark_entry i HasLanded s in if b \<ge> 0 then s\<lparr>ts_pushed := Some c\<rparr> else s)"
| "service_fold sq t (ShBatch b _ _) s = s\<lparr>ts_batches := max (ts_batches s) b\<rparr>"
| "service_fold sq t (ShBaseline tip ok _) s = s\<lparr>ts_baselines := jm_set tip (ok, t) (ts_baselines s)\<rparr>"
| "service_fold sq t (ShVerified _ _ _ _) s = s"

definition fold_event :: "train_service \<Rightarrow> shared_event jevent \<Rightarrow> train_service" where
  "fold_event s e = service_fold (je_seq e) (je_time e) (je_data e) s"

text \<open>The constructor, on a journal just opened.\<close>

definition service_new :: "shared_event swarm_journal \<Rightarrow> train_service" where
  "service_new j = foldl fold_event
     \<lparr>ts_entries = [], ts_clients = [], ts_batches = 0, ts_pushed = None, ts_baselines = [], ts_journal = j\<rparr> (sj_events j)"

text \<open>\<open>this.fold(await this.journal.append(\<dots>))\<close>, once the line is written.\<close>

definition apply_event :: "train_service \<Rightarrow> int \<times> shared_event \<Rightarrow> train_service" where
  "apply_event s te = (case te of (t, e) \<Rightarrow>
     (case journal_append t e (ts_journal s) of (ev, j) \<Rightarrow> fold_event (s\<lparr>ts_journal := j\<rparr>) ev))"

section \<open>Awaits\<close>

record 'w service_deps =
  sd_files :: "'w git_deps"
  sd_append :: "shared_event \<Rightarrow> ('w, thrown, unit) act"
  sd_now :: "'w \<Rightarrow> int"
  sd_meanwhile :: "'w \<Rightarrow> (int \<times> shared_event) list \<times> 'w"
  sd_theirs :: "shared_event \<Rightarrow> bool"
  sd_hash :: "string \<Rightarrow> string"
  sd_token :: "('w, thrown, string) act"
  sd_bash :: "string \<Rightarrow> string \<Rightarrow> ('w, string, unit) act"
  sd_stderr :: "thrown \<Rightarrow> string"
  sd_wait :: "('w, thrown, unit) act"
  sd_aborted :: "'w \<Rightarrow> bool"

type_synonym ('w, 'a) sv = "(train_service \<times> 'w, train_stop, 'a) act"

definition happen :: "'w service_deps \<Rightarrow> (int \<times> shared_event) list \<Rightarrow> train_service \<Rightarrow> train_service" where
  "happen d evs s = foldl apply_event s (filter (sd_theirs d \<circ> snd) evs)"

definition await :: "'w service_deps \<Rightarrow> ('w, thrown, 'a) act \<Rightarrow> ('w, 'a) sv" where
  "await d m = (\<lambda>(s, w). case m w of (r, w1) \<Rightarrow> (case sd_meanwhile d w1 of (evs, w2) \<Rightarrow>
     (case r of Inl e \<Rightarrow> Inl (Threw e) | Inr x \<Rightarrow> Inr x, (happen d evs s, w2))))"

definition sees :: "(train_service \<Rightarrow> 'a) \<Rightarrow> ('w, 'a) sv" where
  "sees f = (\<lambda>(s, w). (Inr (f s), (s, w)))"

definition alter :: "(train_service \<Rightarrow> train_service) \<Rightarrow> ('w, unit) sv" where
  "alter f = (\<lambda>(s, w). (Inr (), (f s, w)))"

definition refuse :: "string \<Rightarrow> ('w, 'a) sv" where
  "refuse why = throw (Threw (OtherError why))"

section \<open>Recording\<close>

definition append_event :: "'w service_deps \<Rightarrow> shared_event \<Rightarrow> ('w, unit) sv" where
  "append_event d ev =
     andThen (await d (\<lambda>w. case sd_append d ev w of (Inl e, w') \<Rightarrow> (Inl e, w') | (Inr _, w') \<Rightarrow> (Inr (sd_now d w), w'))) (\<lambda>now.
     alter (\<lambda>s. apply_event s (now, ev)))"

text \<open>The entry an event takes out of the queue for good.\<close>

fun leaves :: "shared_event \<Rightarrow> string option" where
  "leaves (ShEjected i _ _ _ _) = Some i"
| "leaves (ShWithdrawn i ByClient) = Some i"
| "leaves _ = None"

definition waits_for :: "shared_entry \<Rightarrow> train_service \<Rightarrow> shared_entry \<Rightarrow> bool" where
  "waits_for gone s e \<longleftrightarrow> map_option se_state (jm_get (ts_entries s) (se_id e)) = Some InQueue \<and>
     se_principal e = se_principal gone \<and> se_branch gone \<in> set (se_blockedBy e)"

definition blocked_event :: "shared_entry \<Rightarrow> shared_entry \<Rightarrow> shared_event" where
  "blocked_event gone e = ShEjected (se_id e) BlockedKind (''blocked by '' @ se_branch gone @ '', which left the queue without landing'') None None"

text \<open>An ejected dependent's own dependents leave with it: the fuel bounds the length of such a chain.\<close>

primrec service_record :: "nat \<Rightarrow> 'w service_deps \<Rightarrow> shared_event \<Rightarrow> ('w, unit) sv" where
  "service_record 0 d ev = throw OutOfFuel"
| "service_record (Suc n) d ev =
     andThen (append_event d ev) (\<lambda>_. case leaves ev of
       None \<Rightarrow> ret ()
     | Some i \<Rightarrow>
         andThen (sees (\<lambda>s. (jm_get (ts_entries s) i, jm_vals (ts_entries s)))) (\<lambda>(gone, es). case gone of
           None \<Rightarrow> ret ()
         | Some g \<Rightarrow> each_do (\<lambda>e. andThen (sees (\<lambda>s. waits_for g s e)) (\<lambda>b.
             if b then service_record n d (blocked_event g e) else ret ())) es))"

section \<open>Clients\<close>

definition client_char :: "char \<Rightarrow> bool" where
  "client_char c \<longleftrightarrow> is_word_char c \<or> c = CHR ''.'' \<or> c = CHR ''-''"

definition client_name :: "string \<Rightarrow> bool" where
  "client_name n \<longleftrightarrow> n \<noteq> [] \<and> length n \<le> 64 \<and> list_all client_char n"

definition isClient :: "train_service \<Rightarrow> string \<Rightarrow> bool" where
  "isClient s n \<longleftrightarrow> n \<in> set (jm_vals (ts_clients s))"

definition principalOf :: "'w service_deps \<Rightarrow> train_service \<Rightarrow> string \<Rightarrow> string option" where
  "principalOf d s token = jm_get (ts_clients s) (sd_hash d token)"

definition invite :: "nat \<Rightarrow> 'w service_deps \<Rightarrow> string \<Rightarrow> ('w, string) sv" where
  "invite k d n =
     (if \<not> client_name n then refuse ''a client name is 1-64 of [A-Za-z0-9_.-]''
      else if n = ''owner'' then refuse (''\"owner\" names the train'' @ [CHR 0x27] @ ''s owner; pick another name'')
      else
        andThen (sees (\<lambda>s. isClient s n)) (\<lambda>there.
        if there then refuse (''a client named \"'' @ n @ ''\" is already invited; revoke it first'')
        else
          andThen (await d (sd_token d)) (\<lambda>token.
          andThen (service_record k d (ShClient n (sd_hash d token))) (\<lambda>_. ret token))))"

definition revoke :: "nat \<Rightarrow> 'w service_deps \<Rightarrow> string \<Rightarrow> ('w, unit) sv" where
  "revoke k d n =
     andThen (sees (\<lambda>s. isClient s n)) (\<lambda>there.
       if there then service_record k d (ShRevoked n) else refuse (''no client named \"'' @ n @ ''\"''))"

section \<open>Enqueueing and withdrawing\<close>

definition branch_char :: "char \<Rightarrow> bool" where
  "branch_char c \<longleftrightarrow> client_char c \<or> c = CHR ''/''"

definition valid_branch :: "string \<Rightarrow> bool" where
  "valid_branch b \<longleftrightarrow> b \<noteq> [] \<and> length b \<le> 200 \<and> list_all branch_char b \<and> \<not> sublist ''..'' b"

definition hex_char :: "char \<Rightarrow> bool" where
  "hex_char c \<longleftrightarrow> is_digit c \<or> (97 \<le> (of_char c :: nat) \<and> (of_char c :: nat) \<le> 102)"

definition valid_sha :: "string \<Rightarrow> bool" where
  "valid_sha sha \<longleftrightarrow> length sha = 40 \<and> list_all hex_char sha"

definition shared_id :: "string \<Rightarrow> string \<Rightarrow> string \<Rightarrow> string" where
  "shared_id p b sha = p @ ''/'' @ b @ ''@'' @ take 12 sha"

definition supersedes :: "string \<Rightarrow> string \<Rightarrow> shared_entry \<Rightarrow> bool" where
  "supersedes p b e \<longleftrightarrow> se_principal e = p \<and> se_branch e = b \<and> se_state e = InQueue"

text \<open>The iteration over the map goes by position and sees what is added while it awaits.\<close>

primrec supersede_from :: "nat \<Rightarrow> nat \<Rightarrow> 'w service_deps \<Rightarrow> string \<Rightarrow> string \<Rightarrow> nat \<Rightarrow> ('w, unit) sv" where
  "supersede_from 0 k d p b i = throw OutOfFuel"
| "supersede_from (Suc n) k d p b i =
     andThen (sees (\<lambda>s. if i < length (ts_entries s) then Some (jm_vals (ts_entries s) ! i) else None)) (\<lambda>older. case older of
       None \<Rightarrow> ret ()
     | Some e \<Rightarrow>
         andThen (if supersedes p b e then service_record k d (ShWithdrawn (se_id e) Superseded) else ret ()) (\<lambda>_.
           supersede_from n k d p b (i + 1)))"

definition service_enqueue ::
  "nat \<Rightarrow> 'w service_deps \<Rightarrow> string \<Rightarrow> string \<Rightarrow> string \<Rightarrow> string list \<Rightarrow> rat option \<Rightarrow> ('w, string \<times> shared_state) sv" where
  "service_enqueue k d p b sha bs ep =
     (if \<not> valid_branch b then refuse (''invalid branch \"'' @ b @ ''\"'')
      else if \<not> valid_sha sha then refuse ''sha must be a full commit id''
      else
        let i = shared_id p b sha in
        andThen (sees (\<lambda>s. jm_get (ts_entries s) i)) (\<lambda>existing. case existing of
          Some e \<Rightarrow> ret (i, se_state e)
        | None \<Rightarrow>
            andThen (supersede_from k k d p b 0) (\<lambda>_.
            andThen (service_record k d (ShEnqueued i p b sha bs ep)) (\<lambda>_. ret (i, InQueue)))))"

definition service_withdraw :: "nat \<Rightarrow> 'w service_deps \<Rightarrow> string \<Rightarrow> string \<Rightarrow> ('w, unit) sv" where
  "service_withdraw k d p i =
     andThen (sees (\<lambda>s. jm_get (ts_entries s) i)) (\<lambda>entry. case entry of
       None \<Rightarrow> refuse (''no entry \"'' @ i @ ''\" of yours'')
     | Some e \<Rightarrow>
         if se_principal e \<noteq> p \<and> p \<noteq> ''owner'' then refuse (''no entry \"'' @ i @ ''\" of yours'')
         else if se_state e = InQueue then service_record k d (ShWithdrawn i ByClient)
         else ret ())"

section \<open>What a caller sees\<close>

fun event_entry :: "shared_event \<Rightarrow> string option" where
  "event_entry (ShEnqueued i _ _ _ _ _) = Some i"
| "event_entry (ShWithdrawn i _) = Some i"
| "event_entry (ShLanded i _ _ _) = Some i"
| "event_entry (ShEjected i _ _ _ _) = Some i"
| "event_entry _ = None"

datatype caller = OwnerCaller | ClientCaller string | OtherCaller

definition visible :: "train_service \<Rightarrow> caller \<Rightarrow> shared_event \<Rightarrow> bool" where
  "visible s who e =
     (case who of
        OwnerCaller \<Rightarrow> True
      | ClientCaller c \<Rightarrow>
          (case event_entry e of None \<Rightarrow> False | Some i \<Rightarrow> map_option se_principal (jm_get (ts_entries s) i) = Some c)
      | OtherCaller \<Rightarrow> False)"

text \<open>What \<open>events\<close> answers with once it stops waiting: the events, and the cursor for the next call.\<close>

definition service_events :: "train_service \<Rightarrow> caller \<Rightarrow> rat \<Rightarrow> shared_event jevent list \<times> rat" where
  "service_events s who after =
     (filter (\<lambda>e. of_nat (je_seq e) > after \<and> visible s who (je_data e)) (sj_events (ts_journal s)),
      case js_last (sj_events (ts_journal s)) of None \<Rightarrow> after | Some e \<Rightarrow> of_nat (je_seq e))"

definition service_card :: "service_config \<Rightarrow> string option \<Rightarrow> train_card" where
  "service_card c url = \<lparr>cd_target = sc_target c, cd_remote = sc_remote c, cd_remoteUrl = url, cd_checks = sc_checks c,
     cd_batchSize = or_else (sc_batchSize c) 4\<rparr>"

definition service_status :: "train_service \<Rightarrow> shared_entry list \<times> string list" where
  "service_status s = (jm_vals (ts_entries s), js_uniq (jm_vals (ts_clients s)))"

section \<open>The ready entries\<close>

definition branch_landed :: "train_service \<Rightarrow> string \<Rightarrow> string \<Rightarrow> bool" where
  "branch_landed s p b =
     (case sort_key (\<lambda>e. - int (se_seq e)) (filter (\<lambda>e. se_principal e = p \<and> se_branch e = b) (jm_vals (ts_entries s))) of
        [] \<Rightarrow> True | e # _ \<Rightarrow> se_state e = HasLanded)"

definition entry_ready :: "train_service \<Rightarrow> shared_entry \<Rightarrow> bool" where
  "entry_ready s e \<longleftrightarrow> se_state e = InQueue \<and> list_all (branch_landed s (se_principal e)) (se_blockedBy e)"

definition add_to_queue :: "(string, shared_entry list) jmap \<Rightarrow> shared_entry \<Rightarrow> (string, shared_entry list) jmap" where
  "add_to_queue m e = jm_set (se_principal e) (or_else (jm_get m (se_principal e)) [] @ [e]) m"

definition principal_queues :: "train_service \<Rightarrow> (string, shared_entry list) jmap" where
  "principal_queues s = foldl add_to_queue [] (filter (entry_ready s) (sort_key se_seq (jm_vals (ts_entries s))))"

text \<open>One turn of the round robin: every queue's \<open>i\<close>-th entry; turns go on until all are placed.\<close>

definition turn :: "'a list list \<Rightarrow> nat \<Rightarrow> 'a list" where
  "turn qs i = concat (map (\<lambda>q. if i < length q then [q ! i] else []) qs)"

definition round_robin :: "'a list list \<Rightarrow> 'a list" where
  "round_robin qs = concat (map (turn qs) [0..<foldr max (map length qs) 0])"

definition service_ready :: "train_service \<Rightarrow> shared_entry list" where
  "service_ready s = round_robin (jm_vals (principal_queues s))"

end
