(* ===== verification/SharedTrain.thy ===== *)
theory SharedTrain
  imports SharedQueue
begin

text \<open>
  \<open>packages/swarm/src/train-service.ts\<close>: the train that lands the queue. A pass syncs the target's tip, verifies a
  tip it did not push alone, merges a batch onto it, verifies the result once and pushes it; a failing batch is
  bisected, its second half through a pass of its own. Git, the checks and the clones they run in are \<open>packages/git\<close>'s.
\<close>

section \<open>Git\<close>

definition service_git :: "'w service_deps \<Rightarrow> string \<Rightarrow> string list \<Rightarrow> ('w, thrown, string) act" where
  "service_git d cwd args = trimmed (gt_git (sd_files d) cwd args)"

definition safe_target :: "string \<Rightarrow> string" where
  "safe_target t = map (\<lambda>c. if client_char c then c else CHR ''-'') t"

definition work_dir :: "service_config \<Rightarrow> string" where
  "work_dir c = sc_repoRoot c @ ''/.swarm/train-service/work-'' @ safe_target (sc_target c)"

definition remote_ref :: "string \<Rightarrow> string \<Rightarrow> string" where
  "remote_ref remote target = ''refs/remotes/'' @ remote @ ''/'' @ target"

definition syncTip :: "service_config \<Rightarrow> 'w service_deps \<Rightarrow> ('w, thrown, string) act" where
  "syncTip c d = (let root = sc_repoRoot c; target = sc_target c in
     case sc_remote c of
       None \<Rightarrow> service_git d root [''rev-parse'', ''refs/heads/'' @ target]
     | Some r \<Rightarrow>
         andThen (service_git d root [''fetch'', ''-q'', r, ''+refs/heads/'' @ target @ '':'' @ remote_ref r target]) (\<lambda>_.
           service_git d root [''rev-parse'', remote_ref r target]))"

definition entry_ref_of :: "shared_entry \<Rightarrow> string" where
  "entry_ref_of e = ''refs/train-service/'' @ se_principal e @ ''/'' @ se_branch e"

definition fetchEntry :: "service_config \<Rightarrow> 'w service_deps \<Rightarrow> shared_entry \<Rightarrow> ('w, thrown, bool) act" where
  "fetchEntry c d e = (let root = sc_repoRoot c in
     andThen (case sc_remote c of None \<Rightarrow> ret True
         | Some r \<Rightarrow> succeeds (service_git d root [''fetch'', ''-q'', r, ''+refs/heads/'' @ se_branch e @ '':'' @ entry_ref_of e])) (\<lambda>ok.
     if \<not> ok then ret False
     else
       andThen (catching (service_git d root [''rev-parse'', if sc_remote c = None then ''refs/heads/'' @ se_branch e else entry_ref_of e])
         (\<lambda>_. ret [])) (\<lambda>tip. ret (tip = se_sha e))))"

definition merge_entry_args :: "shared_entry \<Rightarrow> string list" where
  "merge_entry_args e = [''-c'', ''user.email=train@openswarm'', ''-c'', ''user.name=openswarm train'', ''merge'', ''--no-ff'', ''--no-verify'',
     ''-q'', ''-m'', ''train: land '' @ se_branch e @ '' ('' @ se_principal e @ '')'', se_sha e]"

primrec merge_entries :: "'w service_deps \<Rightarrow> string \<Rightarrow> shared_entry list \<Rightarrow> ('w, thrown, shared_entry list) act" where
  "merge_entries d cwd [] = ret []"
| "merge_entries d cwd (e # es) =
     andThen (succeeds (service_git d cwd (merge_entry_args e))) (\<lambda>merged.
     if merged then merge_entries d cwd es
     else
       andThen (catching (service_git d cwd [''merge'', ''--abort'']) (\<lambda>_. service_git d cwd [''reset'', ''-q'', ''--hard'', ''HEAD''])) (\<lambda>_.
       andThen (merge_entries d cwd es) (\<lambda>cs. ret (e # cs))))"

definition speculate_entries ::
  "service_config \<Rightarrow> 'w service_deps \<Rightarrow> string \<Rightarrow> shared_entry list \<Rightarrow> ('w, thrown, string \<times> shared_entry list) act" where
  "speculate_entries c d tip es = (let cwd = work_dir c in
     andThen (service_git d cwd [''-c'', ''core.hooksPath=/dev/null'', ''checkout'', ''-q'', ''-f'', ''--detach'', tip]) (\<lambda>_.
     andThen (service_git d cwd [''clean'', ''-fdq'']) (\<lambda>_.
     andThen (merge_entries d cwd es) (\<lambda>conflicted.
     andThen (service_git d cwd [''rev-parse'', ''HEAD'']) (\<lambda>c'. ret (c', conflicted))))))"

section \<open>Verifying and pushing\<close>

text \<open>The command that failed, and the last of its output; none when every check passed.\<close>

primrec train_checks :: "'w service_deps \<Rightarrow> string \<Rightarrow> string list \<Rightarrow> ('w, thrown, (string \<times> string) option) act" where
  "train_checks d cwd [] = ret None"
| "train_checks d cwd (command # rest) = (\<lambda>w. case sd_bash d cwd command w of
     (Inr _, w') \<Rightarrow> train_checks d cwd rest w'
   | (Inl out, w') \<Rightarrow> (Inr (Some (command, drop (length out - 4000) out)), w'))"

definition verify_commit :: "service_config \<Rightarrow> 'w service_deps \<Rightarrow> string \<Rightarrow> ('w, thrown, (string \<times> string) option) act" where
  "verify_commit c d tip = withSnapshotClone (sd_files d) (work_dir c) tip (\<lambda>cwd. train_checks d cwd (sc_checks c)) None"

definition push_reason :: "string \<Rightarrow> string" where
  "push_reason text = take 400 (js_join '' '' (filter (\<lambda>l. l \<noteq> [] \<and> \<not> starts_with l ''To '') (map js_trim (split_on newline text))))"

definition push_target :: "service_config \<Rightarrow> 'w service_deps \<Rightarrow> string \<Rightarrow> string \<Rightarrow> ('w, thrown, string option) act" where
  "push_target c d new tip = (let root = sc_repoRoot c; target = sc_target c in
     catching (andThen (case sc_remote c of
         None \<Rightarrow> service_git d root [''update-ref'', ''refs/heads/'' @ target, new, tip]
       | Some r \<Rightarrow>
           andThen (service_git d root [''push'', ''-q'', ''--no-verify'', r, new @ '':refs/heads/'' @ target]) (\<lambda>_.
             service_git d root [''update-ref'', remote_ref r target, new])) (\<lambda>_. ret None))
       (\<lambda>e. ret (Some (push_reason (sd_stderr d e)))))"

section \<open>A pass\<close>

definition BASELINE_RETRY_MS :: int where
  "BASELINE_RETRY_MS = 600000"

definition baseline_known :: "train_service \<Rightarrow> string \<Rightarrow> int \<Rightarrow> bool option" where
  "baseline_known s tip now =
     (if ts_pushed s = Some tip then Some True
      else case jm_get (ts_baselines s) tip of
        Some (ok, since) \<Rightarrow> if ok \<or> now - since < BASELINE_RETRY_MS then Some ok else None
      | None \<Rightarrow> None)"

definition baseline :: "nat \<Rightarrow> service_config \<Rightarrow> 'w service_deps \<Rightarrow> string \<Rightarrow> ('w, bool) sv" where
  "baseline k c d tip =
     andThen (\<lambda>(s, w). (Inr (baseline_known s tip (sd_now d w)), (s, w))) (\<lambda>known. case known of
       Some ok \<Rightarrow> ret ok
     | None \<Rightarrow>
         andThen (await d (verify_commit c d tip)) (\<lambda>failing.
         andThen (service_record k d (ShBaseline tip (failing = None) (map_option fst failing))) (\<lambda>_.
           ret (failing = None))))"

definition already_landed :: "nat \<Rightarrow> service_config \<Rightarrow> 'w service_deps \<Rightarrow> string \<Rightarrow> shared_entry \<Rightarrow> ('w, shared_entry list) sv" where
  "already_landed k c d tip e =
     andThen (await d (succeeds (service_git d (sc_repoRoot c) [''merge-base'', ''--is-ancestor'', se_sha e, tip]))) (\<lambda>there.
       if there then andThen (service_record k d (ShLanded (se_id e) (- 1) tip tip)) (\<lambda>_. ret [])
       else ret [e])"

definition moved_event :: "shared_entry \<Rightarrow> shared_event" where
  "moved_event e = ShEjected (se_id e) MovedKind (se_branch e @ '' is no longer at '' @ take 12 (se_sha e) @ ''; enqueue its current commit'') None None"

definition fetch_or_eject :: "nat \<Rightarrow> service_config \<Rightarrow> 'w service_deps \<Rightarrow> shared_entry \<Rightarrow> ('w, shared_entry list) sv" where
  "fetch_or_eject k c d e =
     andThen (await d (fetchEntry c d e)) (\<lambda>there.
       if there then ret [e] else andThen (service_record k d (moved_event e)) (\<lambda>_. ret []))"

definition pass_with ::
  "(shared_entry list \<Rightarrow> string \<Rightarrow> ('w, unit) sv) \<Rightarrow> nat \<Rightarrow> service_config \<Rightarrow> 'w service_deps \<Rightarrow> shared_entry list \<Rightarrow> ('w, bool) sv" where
  "pass_with lander k c d batch =
     andThen (await d (syncTip c d)) (\<lambda>tip.
     andThen (each (already_landed k c d tip) batch) (\<lambda>lives.
     if concat lives = [] then ret True
     else
       andThen (baseline k c d tip) (\<lambda>ok.
       if \<not> ok then ret False
       else
         andThen (each (fetch_or_eject k c d) (concat lives)) (\<lambda>fetched.
         andThen (lander (concat fetched) tip) (\<lambda>_. ret True)))))"

section \<open>Landing with bisection\<close>

definition conflict_event :: "service_config \<Rightarrow> shared_entry \<Rightarrow> shared_event" where
  "conflict_event c e = ShEjected (se_id e) ConflictKind (''merging '' @ se_branch e @ '' onto '' @ sc_target c @ '' conflicts'') None None"

definition check_event :: "service_config \<Rightarrow> shared_entry \<Rightarrow> string \<times> string \<Rightarrow> shared_event" where
  "check_event c e f = ShEjected (se_id e) CheckKind (''fails on '' @ sc_target c @ '' with it merged: '' @ fst f) (Some (fst f)) (Some (snd f))"

definition record_each :: "nat \<Rightarrow> 'w service_deps \<Rightarrow> (shared_entry \<Rightarrow> shared_event) \<Rightarrow> shared_entry list \<Rightarrow> ('w, unit) sv" where
  "record_each k d f es = each_do (\<lambda>e. service_record k d (f e)) es"

definition next_shared_batch :: "('w, nat) sv" where
  "next_shared_batch = (\<lambda>(s, w). (Inr (ts_batches s + 1), (s\<lparr>ts_batches := ts_batches s + 1\<rparr>, w)))"

definition land_passing ::
  "nat \<Rightarrow> service_config \<Rightarrow> 'w service_deps \<Rightarrow> nat \<Rightarrow> string \<Rightarrow> string \<Rightarrow> shared_entry list \<Rightarrow> ('w, unit) sv" where
  "land_passing k c d batch new tip clean =
     andThen (await d (push_target c d new tip)) (\<lambda>refused. case refused of
       Some why \<Rightarrow>
         andThen (await d (syncTip c d)) (\<lambda>now.
           if now = tip then refuse (''pushing '' @ sc_target c @ '' failed: '' @ why) else ret ())
     | None \<Rightarrow> record_each k d (\<lambda>e. ShLanded (se_id e) (int batch) new tip) clean)"

definition still_queued :: "train_service \<Rightarrow> shared_entry \<Rightarrow> bool" where
  "still_queued s e \<longleftrightarrow> map_option se_state (jm_get (ts_entries s) (se_id e)) = Some InQueue"

definition first_half :: "'a list \<Rightarrow> 'a list" where
  "first_half xs = take ((length xs + 1) div 2) xs"

definition second_half :: "'a list \<Rightarrow> 'a list" where
  "second_half xs = drop ((length xs + 1) div 2) xs"

primrec land_entries :: "nat \<Rightarrow> nat \<Rightarrow> service_config \<Rightarrow> 'w service_deps \<Rightarrow> shared_entry list \<Rightarrow> string \<Rightarrow> ('w, unit) sv" where
  "land_entries 0 k c d es tip = throw OutOfFuel"
| "land_entries (Suc n) k c d es tip =
     (if es = [] then ret ()
      else
        andThen next_shared_batch (\<lambda>batch.
        andThen (service_record k d (ShBatch batch tip (map se_id es))) (\<lambda>_.
        andThen (await d (speculate_entries c d tip es)) (\<lambda>(new, conflicted).
        andThen (record_each k d (conflict_event c) conflicted) (\<lambda>_.
        let clean = filter (\<lambda>e. e \<notin> set conflicted) es in
        if clean = [] then ret ()
        else
          andThen (await d (verify_commit c d new)) (\<lambda>failing.
          andThen (service_record k d (ShVerified batch new (failing = None) (map_option fst failing))) (\<lambda>_.
          case failing of
            None \<Rightarrow> land_passing k c d batch new tip clean
          | Some f \<Rightarrow>
              if length clean = 1 then service_record k d (check_event c (hd clean) f)
              else
                andThen (land_entries n k c d (first_half clean) tip) (\<lambda>_.
                andThen (sees (\<lambda>s. filter (still_queued s) (second_half clean))) (\<lambda>rest.
                andThen (pass_with (land_entries n k c d) k c d rest) (\<lambda>_. ret ()))))))))))"

definition service_pass :: "nat \<Rightarrow> service_config \<Rightarrow> 'w service_deps \<Rightarrow> shared_entry list \<Rightarrow> ('w, bool) sv" where
  "service_pass k c d batch = pass_with (land_entries (Suc (length batch)) k c d) k c d batch"

section \<open>The service\<close>

definition next_batch_of :: "service_config \<Rightarrow> train_service \<Rightarrow> shared_entry list" where
  "next_batch_of c s = take (nat \<lfloor>or_else (sc_batchSize c) 4\<rfloor>) (service_ready s)"

text \<open>One turn of the loop: a pass that throws is reported and the loop goes on after a pause.\<close>

definition service_turn :: "nat \<Rightarrow> service_config \<Rightarrow> 'w service_deps \<Rightarrow> ('w, unit) sv" where
  "service_turn k c d =
     andThen (sees (next_batch_of c)) (\<lambda>batch.
       if batch = [] then await d (sd_wait d)
       else
         andThen (attempt (service_pass k c d batch)) (\<lambda>r.
           case r of Inr True \<Rightarrow> ret () | _ \<Rightarrow> await d (sd_wait d)))"

text \<open>So many turns, or fewer when the signal aborts.\<close>

primrec service_run :: "nat \<Rightarrow> nat \<Rightarrow> service_config \<Rightarrow> 'w service_deps \<Rightarrow> ('w, unit) sv" where
  "service_run 0 k c d = ret ()"
| "service_run (Suc n) k c d =
     andThen (\<lambda>(s, w). (Inr (sd_aborted d w), (s, w))) (\<lambda>stop.
       if stop then ret () else andThen (service_turn k c d) (\<lambda>_. service_run n k c d))"

text \<open>\<open>open\<close>: what it refuses, then the journal folded and the worktree made.\<close>

definition service_open ::
  "service_config \<Rightarrow> 'w service_deps \<Rightarrow> ('w, thrown, shared_event swarm_journal) act \<Rightarrow> ('w, thrown, train_service \<times> string option) act" where
  "service_open c d journal = (let root = sc_repoRoot c in
     if sc_checks c = [] then throw (OtherError ''a train needs at least one check its batches must pass'')
     else if (case sc_batchSize c of None \<Rightarrow> False | Some b \<Rightarrow> \<not> is_int_rat b \<or> b < 1)
       then throw (OtherError ''a train batch size is a positive integer'')
     else
       andThen (catching (service_git d root [''symbolic-ref'', ''-q'', ''HEAD'']) (\<lambda>_. ret [])) (\<lambda>head'.
       if head' = ''refs/heads/'' @ sc_target c
       then throw (OtherError (''the train'' @ [CHR 0x27] @ ''s checkout has '' @ sc_target c @
         '' checked out; give it a checkout of its own, where the train alone moves the target''))
       else
         andThen (case sc_remote c of None \<Rightarrow> ret None
             | Some r \<Rightarrow> andThen (service_git d root [''remote'', ''get-url'', r]) (\<lambda>u. ret (Some u))) (\<lambda>url.
         andThen journal (\<lambda>j.
         andThen (syncTip c d) (\<lambda>tip.
         andThen (gt_exists (sd_files d) (work_dir c)) (\<lambda>there.
         andThen (if there then ret ()
             else
               andThen (service_git d root [''worktree'', ''add'', ''-q'', ''--detach'', work_dir c, tip]) (\<lambda>_.
                 linkIgnored (sd_files d) None False root (work_dir c))) (\<lambda>_.
           ret (service_new j, url))))))))"

end
