(* ===== verification/SharedLogic.thy ===== *)
theory SharedLogic
  imports SharedTrain TrainLogic
begin

text \<open>
  How the standalone train is reasoned about: the journal only grows, the state is the journal's fold, and a predicate
  of the journal that survives the events of others and the train's own survives every operation, whatever is thrown.
\<close>

section \<open>Records of events\<close>

abbreviation history :: "train_service \<Rightarrow> shared_event list" where
  "history s \<equiv> payloads (ts_journal s)"

lemma mark_entry_journal [simp]: "ts_journal (mark_entry i st s) = ts_journal s"
  by (simp add: mark_entry_def split: option.splits)

lemma service_fold_journal [simp]: "ts_journal (service_fold sq t e s) = ts_journal s"
  by (cases e) (simp_all add: Let_def)

lemma apply_event_journal [simp]: "ts_journal (apply_event s (t, e)) = snd (journal_append t e (ts_journal s))"
  by (simp add: apply_event_def fold_event_def journal_append_def Let_def)

lemma apply_event_history [simp]: "history (apply_event s (t, e)) = history s @ [e]"
  by simp

section \<open>Predicates of the journal\<close>

definition under :: "(shared_event list \<Rightarrow> bool) \<Rightarrow> train_service \<Rightarrow> train_service \<Rightarrow> bool" where
  "under P s s' \<longleftrightarrow> prefix (history s) (history s') \<and> (P (history s) \<longrightarrow> P (history s'))"

interpretation under: state_relation "under P" for P
  by unfold_locales (auto simp: under_def)

lemma underD: "keeps (under P) m \<Longrightarrow> m (s, w) = (r, (s', w')) \<Longrightarrow> P (history s) \<Longrightarrow> P (history s')"
  by (auto simp: under_def dest: keepsD)

lemma under_apply: "(\<And>es. P es \<Longrightarrow> P (es @ [e])) \<Longrightarrow> under P s (apply_event s (t, e))"
  by (simp add: under_def)

lemma keeps_sees [keeps_intros]: "keeps (under P) (sees f)"
  by (rule keepsI) (simp add: sees_def under.R_refl)

lemma keeps_alter: "(\<And>s. under P s (f s)) \<Longrightarrow> keeps (under P) (alter f)"
  by (rule keepsI) (simp add: alter_def)

lemma keeps_refuse [keeps_intros]: "keeps (under P) (refuse why)"
  by (simp add: refuse_def under.keeps_throw)

lemma keeps_read [keeps_intros]: "keeps (under P) (\<lambda>(s, w). (Inr (f s w), (s, w)))"
  by (rule keepsI) (simp add: under.R_refl)

lemma keeps_next_shared_batch [keeps_intros]: "keeps (under P) next_shared_batch"
  by (rule keepsI) (auto simp: next_shared_batch_def under_def)

text \<open>What the operations of others, and the dependents an ejection takes along, may add without breaking \<open>P\<close>.\<close>

locale journal_predicate =
  fixes P :: "shared_event list \<Rightarrow> bool" and d :: "'w service_deps"
  assumes theirs: "sd_theirs d e \<Longrightarrow> P es \<Longrightarrow> P (es @ [e])"
    and cascade: "P es \<Longrightarrow> P (es @ [ShEjected i BlockedKind why None None])"
begin

lemma happen_under: "under P s (happen d evs s)"
proof -
  have "under P s (foldl apply_event s es)" if "\<forall>e \<in> set es. sd_theirs d (snd e)" for es
    using that
  proof (induction es arbitrary: s)
    case Nil
    then show ?case by (simp add: under.R_refl)
  next
    case (Cons e es)
    have "under P s (apply_event s e)"
      using Cons.prems by (cases e) (auto intro: under_apply theirs)
    with Cons show ?case by (auto intro: under.R_trans)
  qed
  then show ?thesis by (simp add: happen_def)
qed

lemma await_under: "keeps (under P) (await d m)"
  by (rule keepsI) (auto simp: await_def happen_under split: prod.splits)

lemma append_under: "(\<And>es. P es \<Longrightarrow> P (es @ [e])) \<Longrightarrow> keeps (under P) (append_event d e)"
  unfolding append_event_def by (intro under.keeps_andThen await_under keeps_alter under_apply)

lemma record_under: "(\<And>es. P es \<Longrightarrow> P (es @ [e])) \<Longrightarrow> keeps (under P) (service_record k d e)"
proof (induction k arbitrary: e)
  case 0
  then show ?case by (simp add: under.keeps_throw)
next
  case (Suc k)
  have "keeps (under P) (service_record k d (blocked_event g x))" for g x
    by (rule Suc.IH) (simp add: blocked_event_def cascade)
  then show ?case
    using Suc.prems
    by (auto intro!: under.keeps_andThen append_under under.keeps_ret keeps_sees under.keeps_each_do split: option.split prod.split)
qed

lemma record_each_under: "(\<And>x es. x \<in> set xs \<Longrightarrow> P es \<Longrightarrow> P (es @ [f x])) \<Longrightarrow> keeps (under P) (record_each k d f xs)"
  unfolding record_each_def by (intro under.keeps_each_do record_under)

lemma supersede_under:
  "(\<And>i es. P es \<Longrightarrow> P (es @ [ShWithdrawn i Superseded])) \<Longrightarrow> keeps (under P) (supersede_from n k d p b i)"
  by (induction n arbitrary: i) (auto intro!: under.keeps_throw under.keeps_andThen under.keeps_ret keeps_sees record_under split: option.split)

end

text \<open>A recorded event is in the journal, and stays.\<close>

definition with_event :: "(shared_event list \<Rightarrow> bool) \<Rightarrow> shared_event \<Rightarrow> shared_event list \<Rightarrow> bool" where
  "with_event P e es \<longleftrightarrow> P es \<and> e \<in> set es"

lemma under_with: "keeps (under P) m \<Longrightarrow> keeps (under (with_event P e)) m"
  by (erule keeps_weaken) (auto simp: under_def with_event_def dest: set_mono_prefix)

lemma append_event_adds: "append_event d e (s, w) = (Inr x, (s', w')) \<Longrightarrow> e \<in> set (history s')"
  by (auto simp: append_event_def alter_def elim!: andThen_InrE)

interpretation happened: journal_predicate "with_event (\<lambda>_. True) e" d for e d
  by unfold_locales (auto simp: with_event_def)

lemma record_adds:
  assumes "service_record k d e (s, w) = (Inr x, (s', w'))"
  shows "e \<in> set (history s')"
proof (cases k)
  case 0
  with assms show ?thesis by (simp add: throw_apply)
next
  case (Suc n)
  let ?rest = "\<lambda>x::unit. case leaves e of None \<Rightarrow> ret () | Some i \<Rightarrow>
      andThen (sees (\<lambda>s. (jm_get (ts_entries s) i, jm_vals (ts_entries s)))) (\<lambda>(gone, es). case gone of None \<Rightarrow> ret ()
       | Some g \<Rightarrow> each_do (\<lambda>e. andThen (sees (\<lambda>s. waits_for g s e)) (\<lambda>b. if b then service_record n d (blocked_event g e) else ret ())) es)"
  from assms Suc have "andThen (append_event d e) ?rest (s, w) = (Inr x, (s', w'))" by simp
  then obtain y sw where a: "append_event d e (s, w) = (Inr y, sw)" and r: "?rest y sw = (Inr x, (s', w'))"
    by (rule andThen_InrE)
  obtain s1 w1 where sw: "sw = (s1, w1)" by force
  have "keeps (under (with_event (\<lambda>_. True) e)) (?rest y)"
    by (auto intro!: under.keeps_andThen under.keeps_ret keeps_sees under.keeps_each_do happened.record_under keeps_when
        simp: blocked_event_def with_event_def split: option.split prod.split)
  from underD [OF this r [unfolded sw]] append_event_adds [OF a [unfolded sw]] show ?thesis by (simp add: with_event_def)
qed

lemma record_then:
  assumes "keeps (under P) (service_record k d e)" and "keeps (under (with_event P e)) m"
  shows "keeps (under P) (andThen (service_record k d e) (\<lambda>_. m))"
proof (rule keepsI)
  fix s w r s' w' assume "andThen (service_record k d e) (\<lambda>_. m) (s, w) = (r, (s', w'))"
  then show "under P s s'"
  proof (cases rule: andThen_cases)
    case (1 x)
    then show ?thesis using assms(1) by (blast dest: keepsD)
  next
    case (2 x sw)
    obtain s1 w1 where sw: "sw = (s1, w1)" by force
    from assms(1) 2(1) [unfolded sw] have "under P s s1" by (rule keepsD)
    moreover from 2(1) [unfolded sw] have "e \<in> set (history s1)" by (rule record_adds)
    moreover from 2(2) sw have "under (with_event P e) s1 s'" using assms(2) by (blast dest: keepsD)
    ultimately show ?thesis by (auto simp: under_def with_event_def)
  qed
qed

end
