(* ===== verification/SharedFairness.thy ===== *)
theory SharedFairness
  imports SharedLogic
begin

text \<open>
  The order in which the standalone train takes its ready entries: round-robin between the clients, each client's own
  in the order they were enqueued.
\<close>

section \<open>Turns\<close>

definition rows :: "nat \<Rightarrow> 'a list \<Rightarrow> 'a list" where
  "rows m q = concat (map (\<lambda>i. if i < length q then [q ! i] else []) [0..<m])"

lemma rows_take: "rows m q = take m q"
  by (induction m) (auto simp: rows_def take_Suc_conv_app_nth)

text \<open>A family of queues whose elements have their queue's key.\<close>

definition keyed_queues :: "('a \<Rightarrow> 'k) \<Rightarrow> ('k, 'a list) jmap \<Rightarrow> bool" where
  "keyed_queues f m \<longleftrightarrow> jm_wf m \<and> (\<forall>k q x. (k, q) \<in> set m \<longrightarrow> x \<in> set q \<longrightarrow> f x = k)"

definition queue_of :: "('k, 'a list) jmap \<Rightarrow> 'k \<Rightarrow> 'a list" where
  "queue_of m k = or_else (jm_get m k) []"

lemma filter_turn:
  assumes "keyed_queues f m"
  shows "filter (\<lambda>x. f x = k) (turn (jm_vals m) i) = (if i < length (queue_of m k) then [queue_of m k ! i] else [])"
  using assms
proof (induction m)
  case Nil
  then show ?case by (simp add: turn_def jm_vals_def queue_of_def)
next
  case (Cons kq m)
  obtain k' q where kq: "kq = (k', q)" by force
  from Cons.prems kq have m: "keyed_queues f m" and q: "\<forall>x \<in> set q. f x = k'" and fresh: "k' \<notin> set (map fst m)"
    by (auto simp: keyed_queues_def jm_wf_def)
  from fresh have none: "queue_of m k' = []"
    by (simp add: queue_of_def jm_get_def map_of_eq_None_iff [symmetric] del: map_of_eq_None_iff)
  have "turn (jm_vals ((k', q) # m)) i = (if i < length q then [q ! i] else []) @ turn (jm_vals m) i"
    by (simp add: turn_def jm_vals_def)
  moreover have "queue_of ((k', q) # m) k = (if k = k' then q else queue_of m k)"
    by (simp add: queue_of_def jm_get_def)
  ultimately show ?case
    using Cons.IH [OF m] kq q none by (cases "k = k'") auto
qed

lemma filter_turns:
  assumes "keyed_queues f m"
  shows "filter (\<lambda>x. f x = k) (concat (map (turn (jm_vals m)) [0..<n])) = take n (queue_of m k)"
  by (induction n) (auto simp: filter_turn [OF assms] take_Suc_conv_app_nth)

lemma longest_bound: "q \<in> set qs \<Longrightarrow> length q \<le> foldr max (map length qs) 0"
  by (induction qs) auto

lemma queue_of_mem: "queue_of m k = [] \<or> queue_of m k \<in> set (jm_vals m)"
  by (cases "jm_get m k") (force simp: queue_of_def jm_vals_def dest: jm_get_Some_mem)+

lemma filter_round_robin:
  assumes "keyed_queues f m"
  shows "filter (\<lambda>x. f x = k) (round_robin (jm_vals m)) = queue_of m k"
  unfolding round_robin_def filter_turns [OF assms]
  using queue_of_mem [of m k] by (auto dest: longest_bound)

text \<open>A prefix of the order is some whole turns and a part of the next.\<close>

lemma take_concat_turns:
  "\<exists>i j. i \<le> n \<and> take l (concat (map f [0..<n])) = concat (map f [0..<i]) @ take j (f i) \<and> (i = n \<longrightarrow> j = 0)"
proof (induction n)
  case 0
  then show ?case by (intro exI [of _ 0]) simp
next
  case (Suc n)
  let ?c = "\<lambda>n. concat (map f [0..<n])"
  show ?case
  proof (cases "l < length (?c n)")
    case True
    with Suc obtain i j where "i \<le> n" and "take l (?c n) = ?c i @ take j (f i)" and "i = n \<longrightarrow> j = 0" by blast
    with True show ?thesis by (intro exI [of _ i] exI [of _ j]) auto
  next
    case False
    then have l: "take l (?c (Suc n)) = ?c n @ take (l - length (?c n)) (f n)" by simp
    show ?thesis by (rule exI [of _ n], rule exI [of _ "l - length (?c n)"]) (use l in auto)
  qed
qed

definition how_many :: "('a \<Rightarrow> 'k) \<Rightarrow> 'k \<Rightarrow> 'a list \<Rightarrow> nat" where
  "how_many f k xs = length (filter (\<lambda>x. f x = k) xs)"

lemma how_many_prefix:
  assumes "keyed_queues f m"
  obtains i where "\<And>k. min i (length (queue_of m k)) \<le> how_many f k (take l (round_robin (jm_vals m)))"
    and "\<And>k. how_many f k (take l (round_robin (jm_vals m))) \<le> min (i + 1) (length (queue_of m k))"
proof -
  let ?n = "foldr max (map length (jm_vals m)) 0"
  obtain i j where i: "i \<le> ?n" "i = ?n \<longrightarrow> j = 0"
    and pre: "take l (round_robin (jm_vals m)) = concat (map (turn (jm_vals m)) [0..<i]) @ take j (turn (jm_vals m) i)"
    using take_concat_turns [of ?n l "turn (jm_vals m)"] by (auto simp: round_robin_def)
  have split: "how_many f k (take l (round_robin (jm_vals m))) =
      min i (length (queue_of m k)) + length (filter (\<lambda>x. f x = k) (take j (turn (jm_vals m) i)))" for k
    by (simp add: pre how_many_def filter_turns [OF assms] min.commute)
  have part: "length (filter (\<lambda>x. f x = k) (take j (turn (jm_vals m) i))) \<le> (if i < length (queue_of m k) then 1 else 0)" for k
  proof -
    have "filter (\<lambda>x. f x = k) (turn (jm_vals m) i) =
        filter (\<lambda>x. f x = k) (take j (turn (jm_vals m) i)) @ filter (\<lambda>x. f x = k) (drop j (turn (jm_vals m) i))"
      by (metis append_take_drop_id filter_append)
    from arg_cong [OF this, of length] show ?thesis by (simp add: filter_turn [OF assms] split: if_splits)
  qed
  show ?thesis
  proof (rule that [of i])
    show "min i (length (queue_of m k)) \<le> how_many f k (take l (round_robin (jm_vals m)))" for k
      by (simp add: split)
    show "how_many f k (take l (round_robin (jm_vals m))) \<le> min (i + 1) (length (queue_of m k))" for k
      using part [of k] by (auto simp: split split: if_splits)
  qed
qed

section \<open>The queues of the clients\<close>

lemma add_to_queue_keyed: "keyed_queues se_principal m \<Longrightarrow> keyed_queues se_principal (add_to_queue m e)"
proof -
  assume m: "keyed_queues se_principal m"
  have "\<forall>x \<in> set (or_else (jm_get m (se_principal e)) []). se_principal x = se_principal e"
    using m by (cases "jm_get m (se_principal e)") (force simp: keyed_queues_def dest: jm_get_Some_mem)+
  with m show ?thesis
    by (auto simp: keyed_queues_def add_to_queue_def jm_set_mem split: if_splits)
qed

lemma queue_of_add: "queue_of (add_to_queue m e) p = queue_of m p @ (if se_principal e = p then [e] else [])"
  by (simp add: queue_of_def add_to_queue_def)

lemma principal_queues_keyed: "keyed_queues se_principal (principal_queues s)"
proof -
  have "keyed_queues se_principal (foldl add_to_queue m es)" if "keyed_queues se_principal m" for m es
    using that by (induction es arbitrary: m) (auto intro: add_to_queue_keyed)
  moreover have "keyed_queues se_principal []" by (simp add: keyed_queues_def)
  ultimately show ?thesis unfolding principal_queues_def by blast
qed

lemma queue_of_principal:
  "queue_of (principal_queues s) p = filter (\<lambda>e. se_principal e = p) (filter (entry_ready s) (sort_key se_seq (jm_vals (ts_entries s))))"
proof -
  have "queue_of (foldl add_to_queue m es) p = queue_of m p @ filter (\<lambda>e. se_principal e = p) es" for m es
    by (induction es arbitrary: m) (auto simp: queue_of_add)
  moreover have "queue_of [] p = []" by (simp add: queue_of_def)
  ultimately show ?thesis unfolding principal_queues_def by (metis append_Nil)
qed

text \<open>C26: The order the train takes its ready entries in is fair: of the first so many, no client has more than one more
  than any other client that still has entries waiting; and each client's own are all its ready ones, in the order it
  enqueued them.\<close>

theorem shared_ready_fair:
  "(how_many se_principal p (take l (service_ready s)) \<le> how_many se_principal q (take l (service_ready s)) + 1 \<or>
      how_many se_principal q (take l (service_ready s)) = how_many se_principal q (service_ready s)) \<and>
   filter (\<lambda>e. se_principal e = p) (service_ready s) =
     filter (\<lambda>e. se_principal e = p \<and> entry_ready s e) (sort_key se_seq (jm_vals (ts_entries s)))"
proof
  note keyed = principal_queues_keyed [of s]
  have all: "filter (\<lambda>e. se_principal e = p) (service_ready s) = queue_of (principal_queues s) p" for p
    unfolding service_ready_def by (rule filter_round_robin [OF keyed])
  then show "filter (\<lambda>e. se_principal e = p) (service_ready s) =
      filter (\<lambda>e. se_principal e = p \<and> entry_ready s e) (sort_key se_seq (jm_vals (ts_entries s)))"
    by (simp add: queue_of_principal conj_commute)
  obtain i where lower: "\<And>k. min i (length (queue_of (principal_queues s) k)) \<le> how_many se_principal k (take l (service_ready s))"
    and upper: "\<And>k. how_many se_principal k (take l (service_ready s)) \<le> min (i + 1) (length (queue_of (principal_queues s) k))"
    unfolding service_ready_def by (rule how_many_prefix [OF keyed, of l]) blast
  have "how_many se_principal q (service_ready s) = length (queue_of (principal_queues s) q)"
    by (simp add: how_many_def all)
  with lower [of q] upper [of p] upper [of q]
  show "how_many se_principal p (take l (service_ready s)) \<le> how_many se_principal q (take l (service_ready s)) + 1 \<or>
      how_many se_principal q (take l (service_ready s)) = how_many se_principal q (service_ready s)"
    by auto
qed

end
