(* ===== verification/SharedProperties.thy ===== *)
theory SharedProperties
  imports SharedLogic
begin

text \<open>
  What the standalone train promises: it lands only what it verified in that batch or found in the target already, its
  state is its journal's fold, and its queue is fair between the clients.
\<close>

section \<open>Whose events come in between\<close>

text \<open>
  What a client's or the owner's operations journal, seen from the train: invitations of proper names, revocations,
  entries of their own, withdrawals, and the dependents a withdrawal takes along.
\<close>

fun client_made :: "shared_event \<Rightarrow> bool" where
  "client_made (ShClient n h) = (client_name n \<and> n \<noteq> ''owner'')"
| "client_made (ShRevoked n) = True"
| "client_made (ShEnqueued i p b sha bs ep) = (valid_branch b \<and> valid_sha sha \<and> i = shared_id p b sha)"
| "client_made (ShWithdrawn i why) = True"
| "client_made (ShEjected i k why f out) = (k = BlockedKind \<and> f = None \<and> out = None)"
| "client_made _ = False"

text \<open>A train among clients.\<close>

definition among_clients :: "'w service_deps \<Rightarrow> 'w service_deps" where
  "among_clients d = d\<lparr>sd_theirs := client_made\<rparr>"

lemma among_clients_theirs [simp]: "sd_theirs (among_clients d) = client_made"
  by (simp add: among_clients_def)

section \<open>Landings are earned\<close>

text \<open>
  Every landing of a batch comes after a passing verification of the commit it landed as, in that batch, and after the
  batch was announced with that entry on that tip; an entry of no batch landed at the tip that held it already.
\<close>

fun earned_by :: "shared_event list \<Rightarrow> shared_event \<Rightarrow> bool" where
  "earned_by before (ShLanded i b new tip) \<longleftrightarrow>
     (b = - 1 \<and> new = tip) \<or>
     (\<exists>n ids f. b = int n \<and> ShBatch n tip ids \<in> set before \<and> i \<in> set ids \<and> ShVerified n new True f \<in> set before)"
| "earned_by before _ \<longleftrightarrow> True"

primrec earned_after :: "shared_event list \<Rightarrow> shared_event list \<Rightarrow> bool" where
  "earned_after before [] \<longleftrightarrow> True"
| "earned_after before (e # es) \<longleftrightarrow> earned_by before e \<and> earned_after (before @ [e]) es"

definition landings_earned :: "shared_event list \<Rightarrow> bool" where
  "landings_earned es = earned_after [] es"

lemma earned_after_append: "earned_after before (es @ fs) \<longleftrightarrow> earned_after before es \<and> earned_after (before @ es) fs"
  by (induction es arbitrary: before) auto

lemma landings_earned_snoc: "landings_earned (es @ [e]) \<longleftrightarrow> landings_earned es \<and> earned_by es e"
  by (simp add: landings_earned_def earned_after_append)

text \<open>What one landing batch has in the journal when it comes to landing.\<close>

definition batch_verified :: "nat \<Rightarrow> string \<Rightarrow> string list \<Rightarrow> string \<Rightarrow> shared_event list \<Rightarrow> bool" where
  "batch_verified n tip ids new = with_event (with_event landings_earned (ShBatch n tip ids)) (ShVerified n new True None)"

lemma client_made_earned: "client_made e \<Longrightarrow> earned_by es e"
  by (cases e) auto

interpretation earned: journal_predicate landings_earned "among_clients d" for d
  by unfold_locales (auto simp: landings_earned_snoc client_made_earned)

interpretation verified: journal_predicate "batch_verified n tip ids new" "among_clients d" for n tip ids new d
  by unfold_locales (auto simp: batch_verified_def with_event_def landings_earned_snoc client_made_earned)

lemma keeps_earned_record [keeps_intros]: "(\<And>es. earned_by es e) \<Longrightarrow> keeps (under landings_earned) (service_record k (among_clients d) e)"
  by (rule earned.record_under) (simp add: landings_earned_snoc)

lemma keeps_earned_each [keeps_intros]:
  "(\<And>x es. earned_by es (f x)) \<Longrightarrow> keeps (under landings_earned) (record_each k (among_clients d) f xs)"
  by (rule earned.record_each_under) (simp add: landings_earned_snoc)

lemmas earned_basics = under.keeps_ret under.keeps_throw under.keeps_andThen under.keeps_each under.keeps_each_do under.keeps_attempt
  keeps_sees keeps_refuse keeps_read keeps_next_shared_batch earned.await_under keeps_earned_record keeps_earned_each

lemma baseline_earned: "keeps (under landings_earned) (baseline k c (among_clients d) tip)"
  unfolding baseline_def by (auto intro!: earned_basics split: option.split)

lemma already_landed_earned: "keeps (under landings_earned) (already_landed k c (among_clients d) tip e)"
  unfolding already_landed_def by (auto intro!: earned_basics)

lemma fetch_or_eject_earned: "keeps (under landings_earned) (fetch_or_eject k c (among_clients d) e)"
  unfolding fetch_or_eject_def moved_event_def by (auto intro!: earned_basics)

lemma pass_with_earned:
  assumes "\<And>es tip. keeps (under landings_earned) (lander es tip)"
  shows "keeps (under landings_earned) (pass_with lander k c (among_clients d) batch)"
  unfolding pass_with_def
  by (auto intro!: earned_basics baseline_earned already_landed_earned fetch_or_eject_earned assms)

text \<open>Landing a verified batch.\<close>

lemma land_passing_verified:
  assumes "set (map se_id clean) \<subseteq> set ids"
  shows "keeps (under (batch_verified n tip ids new)) (land_passing k c (among_clients d) n new tip clean)"
proof -
  have "keeps (under (batch_verified n tip ids new)) (record_each k (among_clients d) (\<lambda>e. ShLanded (se_id e) (int n) new tip) clean)"
    using assms by (intro verified.record_each_under) (fastforce simp: batch_verified_def with_event_def landings_earned_snoc)
  then show ?thesis
    unfolding land_passing_def
    by (auto intro!: under.keeps_andThen under.keeps_ret verified.await_under keeps_refuse split: option.split)
qed

lemma verified_batch_earned:
  assumes "set (map se_id clean) \<subseteq> set ids"
  shows "keeps (under (with_event landings_earned (ShBatch n tip ids)))
    (andThen (service_record k (among_clients d) (ShVerified n new True None)) (\<lambda>_. land_passing k c (among_clients d) n new tip clean))"
proof (rule record_then)
  show "keeps (under (with_event landings_earned (ShBatch n tip ids))) (service_record k (among_clients d) (ShVerified n new True None))"
    by (intro under_with keeps_earned_record) simp
qed (use land_passing_verified [OF assms] in \<open>simp add: batch_verified_def\<close>)

lemma set_halves: "set (first_half xs) \<subseteq> set xs" "set (second_half xs) \<subseteq> set xs"
  by (auto simp: first_half_def second_half_def dest: in_set_takeD in_set_dropD)

lemma land_entries_earned: "keeps (under landings_earned) (land_entries n k c (among_clients d) es tip)"
proof (induction n arbitrary: es tip)
  case 0
  then show ?case by (simp add: under.keeps_throw)
next
  case (Suc n)
  let ?d = "among_clients d"
  let ?B = "\<lambda>b. with_event landings_earned (ShBatch b tip (map se_id es))"
  let ?rest = "\<lambda>b new clean failing. case failing of
      None \<Rightarrow> land_passing k c ?d b new tip clean
    | Some f \<Rightarrow>
        if length clean = 1 then service_record k ?d (check_event c (hd clean) f)
        else
          andThen (land_entries n k c ?d (first_half clean) tip) (\<lambda>_.
          andThen (sees (\<lambda>s. filter (still_queued s) (second_half clean))) (\<lambda>rest.
          andThen (pass_with (land_entries n k c ?d) k c ?d rest) (\<lambda>_. ret ())))"
  have failed: "keeps (under landings_earned) (?rest b new clean (Some f))" for b new clean f
    by (auto intro!: earned_basics Suc.IH pass_with_earned simp: check_event_def)
  have rest: "keeps (under (?B b)) (andThen (service_record k ?d (ShVerified b new (failing = None) (map_option fst failing)))
      (\<lambda>_. ?rest b new (filter (\<lambda>e. e \<notin> set conflicted) es) failing))" for b new failing conflicted
  proof (cases failing)
    case None
    then show ?thesis using verified_batch_earned by (fastforce intro!: verified_batch_earned)
  next
    case (Some f)
    have "keeps (under landings_earned) (andThen (service_record k ?d (ShVerified b new False (Some (fst f))))
        (\<lambda>_. ?rest b new (filter (\<lambda>e. e \<notin> set conflicted) es) (Some f)))"
      by (intro under.keeps_andThen keeps_earned_record failed) simp
    with Some show ?thesis by (simp add: under_with)
  qed
  have tail: "keeps (under (?B b)) (andThen (await ?d (speculate_entries c ?d tip es)) (\<lambda>(new, conflicted).
        andThen (record_each k ?d (conflict_event c) conflicted) (\<lambda>_.
        let clean = filter (\<lambda>e. e \<notin> set conflicted) es in
        if clean = [] then ret ()
        else
          andThen (await ?d (verify_commit c ?d new)) (\<lambda>failing.
          andThen (service_record k ?d (ShVerified b new (failing = None) (map_option fst failing))) (\<lambda>_.
            ?rest b new clean failing)))))" for b
    unfolding Let_def
    by (auto intro!: under.keeps_andThen rest under_with [OF earned.await_under] under_with [OF keeps_earned_each] under.keeps_ret keeps_when
        simp: conflict_event_def split: prod.split)
  show ?case
    unfolding land_entries.simps
    by (intro keeps_when under.keeps_ret under.keeps_andThen keeps_next_shared_batch record_then keeps_earned_record tail) simp
qed

lemma service_run_earned: "keeps (under landings_earned) (service_run n k c (among_clients d))"
proof (induction n)
  case 0
  then show ?case by (simp add: under.keeps_ret)
next
  case (Suc n)
  have "keeps (under landings_earned) (service_turn k c (among_clients d))"
    unfolding service_turn_def service_pass_def
    by (auto intro!: earned_basics pass_with_earned land_entries_earned split: sum.split bool.split)
  with Suc show ?case by (auto intro!: earned_basics)
qed

text \<open>C24: In a standalone train's whole life, however clients enqueue, withdraw and are revoked meanwhile and whatever
  throws, every landing it journals of a batch comes after that batch was announced with the entry on the tip it landed
  on, and after a passing verification of the very commit the target became.\<close>

theorem shared_landings_earned:
  assumes "service_run n k c (among_clients d) (service_new (journal_new inc []), w) = (r, (s, w'))"
    and "history s = before @ ShLanded i (int b) new tip # after"
  shows "\<exists>ids f. ShBatch b tip ids \<in> set before \<and> i \<in> set ids \<and> ShVerified b new True f \<in> set before"
proof -
  have "landings_earned (history (service_new (journal_new inc [])))"
    by (simp add: service_new_def payloads_def landings_earned_def)
  with service_run_earned assms(1) have "landings_earned (history s)" by (rule underD)
  with assms(2) show ?thesis by (auto simp: landings_earned_def earned_after_append)
qed

text \<open>A train on one host, whose first wait is ended by a client enqueueing a branch.\<close>

definition demo_sha :: string where
  "demo_sha = replicate 40 CHR ''a''"

definition demo_entry_id :: string where
  "demo_entry_id = shared_id ''ci'' ''feat'' demo_sha"

definition demo_config :: service_config where
  "demo_config = \<lparr>sc_repoRoot = ''/r'', sc_target = ''main'', sc_remote = None, sc_checks = [''make''], sc_batchSize = None\<rparr>"

definition demo_git_answer :: "string list \<Rightarrow> thrown + string" where
  "demo_git_answer args =
     (if hd args = ''merge-base'' then Inl (OtherError ''no'')
      else if args = [''rev-parse'', ''refs/heads/main''] then Inr ''t''
      else if args = [''rev-parse'', ''refs/heads/feat''] then Inr demo_sha
      else if args = [''rev-parse'', ''HEAD''] then Inr ''m''
      else Inr [])"

definition demo_git_deps :: "nat git_deps" where
  "demo_git_deps = \<lparr>gt_git = (\<lambda>_ args v. (demo_git_answer args, v)), gt_indexed = (\<lambda>_ _ _ v. (Inr [], v)), gt_exitCode = (\<lambda>_. None),
     gt_exists = (\<lambda>_ v. (Inr False, v)), gt_mkdirs = (\<lambda>_ v. (Inr (), v)), gt_mkdtemp = (\<lambda>_ v. (Inr ''/tmp/x'', v)),
     gt_read = (\<lambda>_ v. (Inr [], v)), gt_append = (\<lambda>_ _ v. (Inr (), v)), gt_write = (\<lambda>_ _ v. (Inr (), v)),
     gt_copy = (\<lambda>_ _ v. (Inr (), v)), gt_hardlink = (\<lambda>_ _ v. (Inr (), v)), gt_cp = (\<lambda>_ _ _ v. (Inr (), v)),
     gt_rm = (\<lambda>_ v. (Inr (), v)), gt_readdir = (\<lambda>_ v. (Inr [], v)), gt_mtime = (\<lambda>_ v. (Inr 0, v)), gt_now = (\<lambda>_. 0),
     gt_progress = None, gt_tmpdir = ''/tmp'', gt_sha8 = (\<lambda>_. [])\<rparr>"

definition demo_service :: "nat service_deps" where
  "demo_service = \<lparr>sd_files = demo_git_deps, sd_append = (\<lambda>_ v. (Inr (), v)), sd_now = (\<lambda>_. 0),
     sd_meanwhile = (\<lambda>v. if v = 0 then ([(0, ShEnqueued demo_entry_id ''ci'' ''feat'' demo_sha [] None)], 1) else ([], v)),
     sd_theirs = (\<lambda>_. False), sd_hash = (\<lambda>t. t), sd_token = (\<lambda>v. (Inr ''k'', v)), sd_bash = (\<lambda>_ _ v. (Inr (), v)),
     sd_stderr = message_of, sd_wait = (\<lambda>v. (Inr (), v)), sd_aborted = (\<lambda>_. False)\<rparr>"

lemmas demo_service_simps = demo_service_def demo_git_deps_def demo_git_answer_def demo_config_def among_clients_def
  service_new_def journal_new_def payloads_def await_def happen_def sees_def alter_def append_event_def apply_event_def
  fold_event_def journal_append_def Let_def jm_set_def jm_get_def jm_vals_def

abbreviation demo_enqueued :: shared_event where
  "demo_enqueued \<equiv> ShEnqueued demo_entry_id ''ci'' ''feat'' demo_sha [] None"

definition demo_idle :: train_service where
  "demo_idle = service_new (journal_new [] [])"

definition demo_queue :: train_service where
  "demo_queue = apply_event demo_idle (0, demo_enqueued)"

definition demo_queued :: shared_entry where
  "demo_queued = \<lparr>se_id = demo_entry_id, se_principal = ''ci'', se_branch = ''feat'', se_sha = demo_sha, se_blockedBy = [],
     se_epoch = None, se_seq = 0, se_state = InQueue\<rparr>"

definition demo_before :: "shared_event list" where
  "demo_before = [demo_enqueued, ShBaseline ''t'' True None, ShBatch 1 ''t'' [demo_entry_id], ShVerified 1 ''m'' True None]"

lemma demo_client_made: "client_made demo_enqueued"
  by (simp add: demo_entry_id_def valid_branch_def valid_sha_def demo_sha_def branch_char_def client_char_def is_word_char_def
    is_alpha_def hex_char_def eval_nat_numeral sublist_Cons_right)

lemma demo_first_turn:
  "service_turn 1 demo_config (among_clients demo_service) (demo_idle, 0) = (Inr (), (demo_queue, Suc 0))"
  using demo_client_made
  by (simp add: service_turn_def demo_queue_def demo_idle_def demo_service_simps next_batch_of_def service_ready_def round_robin_def
    principal_queues_def act_simps)

lemma demo_next: "next_batch_of demo_config demo_queue = [demo_queued]"
  by (simp add: demo_queue_def demo_idle_def demo_service_simps next_batch_of_def service_ready_def round_robin_def principal_queues_def
    turn_def add_to_queue_def entry_ready_def demo_queued_def)

lemma demo_queued_id: "se_id demo_queued = demo_entry_id"
  by (simp add: demo_queued_def)

lemma demo_queue_fields: "history demo_queue = [demo_enqueued]" "ts_batches demo_queue = 0" "ts_pushed demo_queue = None" "ts_baselines demo_queue = []"
  by (simp_all add: demo_queue_def demo_idle_def demo_service_simps)

lemma demo_trims: "js_trim ''t'' = ''t''" "js_trim ''m'' = ''m''" "js_trim demo_sha = demo_sha" "js_trim [] = []"
  by (simp_all add: js_trim_def is_ws_def demo_sha_def eval_nat_numeral)

lemma demo_git: "service_git (among_clients demo_service) cwd args v = (map_sum id js_trim (demo_git_answer args), v)"
  by (simp add: service_git_def demo_service_def demo_git_deps_def among_clients_def trimmed_def act_simps split: sum.split)

lemma demo_verify:
  "verify_commit demo_config (among_clients demo_service) x v = (Inr None, v)"
  "sd_append (among_clients demo_service) e v = (Inr (), v)"
  "sd_now (among_clients demo_service) v = 0"
  by (simp_all add: verify_commit_def withSnapshotClone_def trimmed_def linkIgnored_def clock_def always_def link_one_def wanted_def
    demo_trims act_simps Let_def demo_config_def demo_git_answer_def among_clients_def demo_service_def demo_git_deps_def)

lemma demo_answers:
  "syncTip demo_config (among_clients demo_service) v = (Inr ''t'', v)"
  "fetchEntry demo_config (among_clients demo_service) demo_queued v = (Inr True, v)"
  "speculate_entries demo_config (among_clients demo_service) tip [demo_queued] v = (Inr (''m'', []), v)"
  "push_target demo_config (among_clients demo_service) new tip v = (Inr None, v)"
  "succeeds (service_git (among_clients demo_service) cwd [''merge-base'', x, y, z]) v = (Inr False, v)"
  by (simp_all add: demo_git demo_trims act_simps Let_def demo_config_def demo_git_answer_def demo_queued_def syncTip_def fetchEntry_def
    speculate_entries_def push_target_def merge_entry_args_def succeeds_def)

lemma demo_await:
  "await (among_clients demo_service) m (s, Suc 0) = (case m (Suc 0) of (r, w) \<Rightarrow>
     (case r of Inl e \<Rightarrow> Inl (Threw e) | Inr x \<Rightarrow> Inr x,
      if w = 0 then happen (among_clients demo_service) [(0, demo_enqueued)] s else s, if w = 0 then 1 else w))"
  by (auto simp: await_def demo_service_def among_clients_def happen_def split: prod.split)

lemma batches_apply:
  "ts_batches (apply_event s (t, e)) = (case e of ShBatch n _ _ \<Rightarrow> max (ts_batches s) n | _ \<Rightarrow> ts_batches s)"
  by (cases e) (simp_all add: apply_event_def fold_event_def journal_append_def Let_def mark_entry_def split: option.split)

lemma demo_second_turn:
  "case service_turn 1 demo_config (among_clients demo_service) (demo_queue, Suc 0) of (r, (s, w)) \<Rightarrow>
     r = Inr () \<and> history s = demo_before @ [ShLanded demo_entry_id 1 ''m'' ''t'']"
  unfolding service_turn_def
  by (simp add: act_simps sees_def demo_next service_pass_def pass_with_def already_landed_def fetch_or_eject_def baseline_def
    baseline_known_def demo_answers demo_verify demo_await append_event_def alter_def Let_def land_passing_def record_each_def next_shared_batch_def
    demo_queue_fields batches_apply demo_queued_id demo_before_def del: apply_event_journal)

theorem shared_landings_earned_witness:
  "\<exists>ids f. ShBatch 1 ''t'' ids \<in> set demo_before \<and> demo_entry_id \<in> set ids \<and> ShVerified 1 ''m'' True f \<in> set demo_before"
proof -
  obtain s w where turn: "service_turn 1 demo_config (among_clients demo_service) (demo_queue, Suc 0) = (Inr (), (s, w))"
    and his: "history s = demo_before @ [ShLanded demo_entry_id 1 ''m'' ''t'']"
    using demo_second_turn by (auto split: prod.splits)
  have "service_run 2 1 demo_config (among_clients demo_service) (demo_idle, 0) = (Inr (), (s, w))"
    using demo_first_turn turn by (simp add: eval_nat_numeral act_simps among_clients_def demo_service_def)
  from shared_landings_earned [OF this [unfolded demo_idle_def], of demo_before demo_entry_id 1 "''m''" "''t''" "[]"] his show ?thesis by simp
qed

section \<open>The state is the journal's fold\<close>

text \<open>The steps every operation is made of: an event journaled and folded, and a batch number taken.\<close>

inductive service_step :: "train_service \<Rightarrow> train_service \<Rightarrow> bool" where
  step_event: "service_step s (apply_event s te)"
| step_batch: "service_step s (s\<lparr>ts_batches := ts_batches s + 1\<rparr>)"

inductive service_start :: "train_service \<Rightarrow> bool" where
  "service_start (service_new j)"

definition evolves :: "train_service \<Rightarrow> train_service \<Rightarrow> bool" where
  "evolves = service_step\<^sup>*\<^sup>*"

interpretation evolves: state_relation evolves
  by unfold_locales (auto simp: evolves_def)

lemma evolves_event: "evolves s (apply_event s te)"
  by (auto simp: evolves_def intro: step_event)

lemma evolves_happen: "evolves s (happen d evs s)"
proof -
  have "evolves s (foldl apply_event s es)" for es
    by (induction es arbitrary: s) (auto intro: evolves.R_refl evolves.R_trans evolves_event)
  then show ?thesis by (simp add: happen_def)
qed

lemma evolves_await [keeps_intros]: "keeps evolves (await d m)"
  by (rule keepsI) (auto simp: await_def evolves_happen split: prod.splits)

lemma evolves_reads [keeps_intros]: "keeps evolves (sees f)" "keeps evolves (refuse why)" "keeps evolves (\<lambda>(s, w). (Inr (g s w), (s, w)))"
  by (auto intro!: keepsI simp: sees_def refuse_def throw_def evolves.R_refl)

lemma evolves_next_batch [keeps_intros]: "keeps evolves next_shared_batch"
  using step_batch by (intro keepsI) (auto simp: next_shared_batch_def evolves_def)

lemma evolves_append [keeps_intros]: "keeps evolves (append_event d e)"
  unfolding append_event_def
  by (intro evolves.keeps_andThen evolves_await keepsI) (auto simp: alter_def evolves_event)

lemmas evolves_basics = evolves.keeps_ret evolves.keeps_throw evolves.keeps_andThen evolves.keeps_each evolves.keeps_each_do
  evolves.keeps_attempt evolves_await evolves_reads evolves_next_batch evolves_append keeps_when

lemma evolves_record: "keeps evolves (service_record k d e)"
  by (induction k arbitrary: e) (auto intro!: evolves_basics split: option.split prod.split)

lemma evolves_supersede: "keeps evolves (supersede_from n k d p b i)"
  by (induction n arbitrary: i) (auto intro!: evolves_basics evolves_record split: option.split)

lemma evolves_clients:
  "keeps evolves (invite k d n)" "keeps evolves (revoke k d n)"
  "keeps evolves (service_enqueue k d p b sha bs ep)" "keeps evolves (service_withdraw k d p i)"
  unfolding invite_def revoke_def service_enqueue_def service_withdraw_def Let_def
  by (auto intro!: evolves_basics evolves_record evolves_supersede split: option.split)

lemma evolves_pass_with:
  "(\<And>es tip. keeps evolves (lander es tip)) \<Longrightarrow> keeps evolves (pass_with lander k c d batch)"
  unfolding pass_with_def baseline_def already_landed_def fetch_or_eject_def
  by (auto intro!: evolves_basics evolves_record split: option.split)

lemma evolves_land: "keeps evolves (land_entries n k c d es tip)"
proof (induction n arbitrary: es tip)
  case 0
  then show ?case by (simp add: evolves.keeps_throw)
next
  case (Suc n)
  then show ?case
    by (auto simp: Let_def record_each_def land_passing_def intro!: evolves_basics evolves_record evolves_pass_with split: option.split prod.split)
qed

lemma evolves_run: "keeps evolves (service_run n k c d)"
  by (induction n)
    (auto simp: service_turn_def service_pass_def intro!: evolves_basics evolves_pass_with evolves_land split: sum.split bool.split)

text \<open>Up to the number of batches, which may be ahead of a journal that could not be written.\<close>

definition replayed :: "train_service \<Rightarrow> bool" where
  "replayed s \<longleftrightarrow> (\<exists>b \<ge> ts_batches (service_new (ts_journal s)). s = (service_new (ts_journal s))\<lparr>ts_batches := b\<rparr>)"

lemma mark_entry_fields [simp]:
  "ts_batches (mark_entry i st s) = ts_batches s"
  "mark_entry i st (s\<lparr>ts_journal := j\<rparr>) = (mark_entry i st s)\<lparr>ts_journal := j\<rparr>"
  "mark_entry i st (s\<lparr>ts_batches := b\<rparr>) = (mark_entry i st s)\<lparr>ts_batches := b\<rparr>"
  by (simp_all add: mark_entry_def split: option.splits)

lemma fold_event_journal [simp]: "ts_journal (fold_event s e) = ts_journal s"
  by (simp add: fold_event_def)

lemma fold_event_set_journal: "fold_event (s\<lparr>ts_journal := j\<rparr>) e = (fold_event s e)\<lparr>ts_journal := j\<rparr>"
  by (cases "je_data e") (simp_all add: fold_event_def Let_def)

lemma foldl_set_journal: "foldl fold_event (s\<lparr>ts_journal := j\<rparr>) es = (foldl fold_event s es)\<lparr>ts_journal := j\<rparr>"
  by (induction es arbitrary: s) (simp_all add: fold_event_set_journal)

lemma service_new_journal [simp]: "ts_journal (service_new j) = j"
proof -
  have "ts_journal (foldl fold_event s es) = ts_journal s" for s es
    by (induction es arbitrary: s) simp_all
  then show ?thesis by (simp add: service_new_def)
qed

lemma service_new_cong:
  assumes "sj_events j = sj_events i"
  shows "service_new j = (service_new i)\<lparr>ts_journal := j\<rparr>"
  unfolding service_new_def foldl_set_journal [symmetric] using assms by simp

lemma service_new_append:
  "service_new (snd (journal_append t e j)) =
     fold_event ((service_new j)\<lparr>ts_journal := snd (journal_append t e j)\<rparr>) (fst (journal_append t e j))"
  by (simp add: service_new_def journal_append_def Let_def foldl_set_journal [symmetric])

lemma fold_event_set_batches:
  assumes "ts_batches s \<le> b"
  shows "\<exists>b' \<ge> ts_batches (fold_event s e). fold_event (s\<lparr>ts_batches := b\<rparr>) e = (fold_event s e)\<lparr>ts_batches := b'\<rparr>"
proof (cases "je_data e")
  case (ShBatch n tip ids)
  with assms show ?thesis by (intro exI [of _ "max b n"]) (auto simp: fold_event_def)
qed (use assms in \<open>auto simp: fold_event_def Let_def\<close>)

lemma replayed_event:
  assumes "replayed s"
  shows "replayed (apply_event s (t, e))"
proof -
  let ?j = "snd (journal_append t e (ts_journal s))" and ?ev = "fst (journal_append t e (ts_journal s))"
  let ?r = "(service_new (ts_journal s))\<lparr>ts_journal := ?j\<rparr>"
  from assms obtain b where b: "ts_batches (service_new (ts_journal s)) \<le> b" and s: "s = (service_new (ts_journal s))\<lparr>ts_batches := b\<rparr>"
    by (auto simp: replayed_def)
  from b obtain b' where "ts_batches (fold_event ?r ?ev) \<le> b'" and "fold_event (?r\<lparr>ts_batches := b\<rparr>) ?ev = (fold_event ?r ?ev)\<lparr>ts_batches := b'\<rparr>"
    using fold_event_set_batches [of ?r b ?ev] by auto
  moreover have "apply_event s (t, e) = fold_event (s\<lparr>ts_journal := ?j\<rparr>) ?ev"
    by (simp add: apply_event_def split: prod.splits)
  moreover have "s\<lparr>ts_journal := ?j\<rparr> = ?r\<lparr>ts_batches := b\<rparr>" by (subst s) simp
  ultimately show ?thesis unfolding replayed_def by (auto simp: service_new_append)
qed

interpretation service: inductive_invariant service_start service_step replayed
proof
  show "replayed s" if "service_start s" for s
    using that
  proof cases
    case (1 j)
    then show ?thesis by (auto simp: replayed_def intro!: exI [of _ "ts_batches (service_new j)"])
  qed
  show "replayed t" if "replayed s" and "service_step s t" for s t
    using that(2)
  proof cases
    case (step_event te)
    with that(1) show ?thesis by (cases te) (simp add: replayed_event)
  next
    case step_batch
    from that(1) obtain b where "ts_batches (service_new (ts_journal s)) \<le> b" and s: "s = (service_new (ts_journal s))\<lparr>ts_batches := b\<rparr>"
      by (auto simp: replayed_def)
    moreover from s have "t = (service_new (ts_journal t))\<lparr>ts_batches := b + 1\<rparr>"
      using step_batch by (metis train_service.select_convs(3) train_service.surjective train_service.update_convs(3) train_service.select_convs(6))
    ultimately show ?thesis using step_batch unfolding replayed_def by (intro exI [of _ "b + 1"]) auto
  qed
qed

lemma evolves_replayed: "keeps evolves m \<Longrightarrow> m (service_new j, w) = (r, (s, w')) \<Longrightarrow> replayed s"
  by (drule (1) keepsD) (auto simp: evolves_def intro: service.run_inv service.start_inv service_start.intros)


end
