(* ===== verification/SharedClients.thy ===== *)
theory SharedClients
  imports SharedProperties
begin

text \<open>
  The clients' operations on the standalone train's queue, when nobody else's come in between: what enqueueing
  supersedes and what a departure takes along.
\<close>

section \<open>Undisturbed operations\<close>

definition quiet :: "'w service_deps \<Rightarrow> 'w service_deps" where
  "quiet d = d\<lparr>sd_meanwhile := (\<lambda>w. ([], w))\<rparr>"

lemma quiet_fields [simp]: "sd_append (quiet d) = sd_append d" "sd_now (quiet d) = sd_now d" "sd_wait (quiet d) = sd_wait d" "sd_meanwhile (quiet d) w = ([], w)"
  by (simp_all add: quiet_def)

lemma await_quiet: "await (quiet d) m (s, w) = (case m w of (r, w1) \<Rightarrow> (case r of Inl e \<Rightarrow> Inl (Threw e) | Inr x \<Rightarrow> Inr x, (s, w1)))"
  by (simp add: await_def happen_def split: prod.split)

lemma append_event_quiet:
  assumes "append_event (quiet d) e (s, w) = (r, (s', w'))"
  shows "(\<exists>t. r = Inr () \<and> s' = apply_event s (t, e)) \<or> (\<exists>x. r = Inl (Threw x) \<and> s' = s)"
  using assms by (auto simp: append_event_def andThen_apply await_quiet alter_def split: prod.splits sum.splits)

lemma sees_then: "andThen (sees f) g (s, w) = g (f s) (s, w)"
  by (simp add: andThen_def sees_def)

lemma sees_apply: "sees f (s, w) = (Inr (f s), (s, w))"
  by (simp add: sees_def)

section \<open>Superseding\<close>

lemma jm_set_nth:
  assumes "jm_wf m" and "i < length m" and "fst (m ! i) = k"
  shows "jm_set k v m = m[i := (k, v)]"
  using assms
proof (induction m arbitrary: i)
  case Nil
  then show ?case by simp
next
  case (Cons x m)
  obtain a b where x: "x = (a, b)" by force
  show ?case
  proof (cases i)
    case 0
    with Cons.prems x show ?thesis by (simp add: jm_set_def)
  next
    case (Suc j)
    with Cons.prems x have "a \<noteq> k" by (auto simp: jm_wf_def dest: nth_mem)
    with Cons Suc x show ?thesis by (simp add: jm_set_def jm_wf_def)
  qed
qed

definition retired :: "string \<Rightarrow> string \<Rightarrow> shared_entry \<Rightarrow> shared_entry" where
  "retired p b e = (if supersedes p b e then e\<lparr>se_state := WasWithdrawn\<rparr> else e)"

lemma entries_withdrawn:
  assumes "jm_wf (ts_entries s)" and "jm_keyed se_id (ts_entries s)" and "i < length (ts_entries s)"
    and "e = jm_vals (ts_entries s) ! i" and "supersedes p b e"
  shows "ts_entries (apply_event s (t, ShWithdrawn (se_id e) why)) = (ts_entries s)[i := (se_id e, retired p b e)]"
proof -
  from assms(3,4) have mem: "(fst (ts_entries s ! i), e) \<in> set (ts_entries s)" by (simp add: jm_vals_def)
  with assms(2) have key: "fst (ts_entries s ! i) = se_id e" by (auto simp: jm_keyed_def)
  with mem assms(1) have "jm_get (ts_entries s) (se_id e) = Some e" by (simp add: jm_get_Some_iff)
  moreover from key have "jm_set (se_id e) (retired p b e) (ts_entries s) = (ts_entries s)[i := (se_id e, retired p b e)]"
    by (rule jm_set_nth [OF assms(1,3)])
  ultimately show ?thesis
    using assms(5) by (simp add: apply_event_def fold_event_def journal_append_def Let_def mark_entry_def retired_def)
qed

lemma retired_keys: "map fst (take i E @ map (apsnd (retired p b)) (drop i E)) = map fst E"
proof -
  have "map fst (take i E @ map (apsnd (retired p b)) (drop i E)) = map fst (take i E @ drop i E)"
    by (simp only: map_append map_map comp_def fst_apsnd)
  then show ?thesis by (simp only: append_take_drop_id)
qed

lemma supersede_from_quiet:
  assumes "supersede_from n k (quiet d) p b i (s, w) = (Inr u, (s', w'))"
    and "jm_wf (ts_entries s)" and "jm_keyed se_id (ts_entries s)" and "i \<le> length (ts_entries s)"
  shows "ts_entries s' = take i (ts_entries s) @ map (apsnd (retired p b)) (drop i (ts_entries s))"
  using assms
proof (induction n arbitrary: i s w)
  case 0
  then show ?case by (simp add: throw_def)
next
  case (Suc n)
  show ?case
  proof (cases "i < length (ts_entries s)")
    case False
    with Suc.prems show ?thesis by (simp add: sees_then ret_def)
  next
    case True
    let ?e = "jm_vals (ts_entries s) ! i"
    have pair: "ts_entries s ! i = (se_id ?e, ?e)"
      using True Suc.prems(3) by (auto simp: jm_vals_def jm_keyed_def prod_eq_iff dest: nth_mem)
    obtain s1 w1 where step: "supersede_from n k (quiet d) p b (Suc i) (s1, w1) = (Inr u, (s', w'))"
      and one: "ts_entries s1 = (ts_entries s)[i := (se_id ?e, retired p b ?e)]"
    proof (cases "supersedes p b ?e")
      case False
      with Suc.prems(1) True have "supersede_from n k (quiet d) p b (Suc i) (s, w) = (Inr u, (s', w'))"
        by (simp add: sees_then)
      with False that [of s w] pair show ?thesis by (simp add: retired_def) (metis list_update_id pair)
    next
      case sup: True
      with Suc.prems(1) True have run: "andThen (service_record k (quiet d) (ShWithdrawn (se_id ?e) Superseded))
          (\<lambda>_. supersede_from n k (quiet d) p b (Suc i)) (s, w) = (Inr u, (s', w'))"
        by (simp add: sees_then)
      then obtain v sw where rec: "service_record k (quiet d) (ShWithdrawn (se_id ?e) Superseded) (s, w) = (Inr v, sw)"
        and rest: "supersede_from n k (quiet d) p b (Suc i) sw = (Inr u, (s', w'))" by (rule andThen_InrE)
      obtain s1 w1 where sw: "sw = (s1, w1)" by force
      from rec sw obtain t where "s1 = apply_event s (t, ShWithdrawn (se_id ?e) Superseded)"
        by (cases k) (auto simp: throw_def andThen_ret elim!: andThen_InrE dest!: append_event_quiet simp: ret_def)
      with entries_withdrawn [OF Suc.prems(2,3) True refl sup] have "ts_entries s1 = (ts_entries s)[i := (se_id ?e, retired p b ?e)]" by simp
      with rest sw show ?thesis using that by simp
    qed
    have wf: "jm_wf (ts_entries s1)" and keyed: "jm_keyed se_id (ts_entries s1)"
      using Suc.prems(2,3) True pair
      by (auto simp: one jm_wf_def map_update jm_keyed_def retired_def list_update_id dest!: set_update_subset_insert [THEN subsetD] split: if_splits)
        (metis fst_conv list_update_id map_update nth_map)
    from True one have "Suc i \<le> length (ts_entries s1)" by simp
    with step wf keyed
    have "ts_entries s' = take (Suc i) (ts_entries s1) @ map (apsnd (retired p b)) (drop (Suc i) (ts_entries s1))" by (rule Suc.IH)
    also have "\<dots> = take i (ts_entries s) @ map (apsnd (retired p b)) (drop i (ts_entries s))"
      using True pair by (simp add: one take_Suc_conv_app_nth Cons_nth_drop_Suc [symmetric])
    finally show ?thesis .
  qed
qed

section \<open>Well-formed queues\<close>

definition entries_ok :: "train_service \<Rightarrow> bool" where
  "entries_ok s \<longleftrightarrow> jm_wf (ts_entries s) \<and> jm_keyed se_id (ts_entries s)"

lemma entries_ok_get: "entries_ok s \<Longrightarrow> e \<in> set (jm_vals (ts_entries s)) \<Longrightarrow> jm_get (ts_entries s) (se_id e) = Some e"
  using jm_keyed_mem [where m = "ts_entries s" and f = se_id and v = e] by (simp add: entries_ok_def)

lemma mark_entry_ok: "entries_ok s \<Longrightarrow> entries_ok (mark_entry i st s)"
  by (auto simp: entries_ok_def mark_entry_def split: option.split intro!: jm_keyed_set) (metis jm_keyed_get)

lemma service_fold_ok: "entries_ok s \<Longrightarrow> entries_ok (service_fold sq t e s)"
proof (cases e)
  case (ShLanded i b c tip)
  assume "entries_ok s"
  then have "entries_ok (mark_entry i HasLanded s)" by (rule mark_entry_ok)
  with ShLanded show ?thesis by (simp add: Let_def entries_ok_def)
qed (simp_all add: mark_entry_ok, simp_all add: entries_ok_def)

interpretation queue: inductive_invariant service_start service_step entries_ok
proof
  have fold: "entries_ok (foldl fold_event s es)" if "entries_ok s" for s es
    using that by (induction es arbitrary: s) (auto simp: fold_event_def service_fold_ok)
  show "entries_ok s" if "service_start s" for s
    using that
  proof cases
    case (1 j)
    show ?thesis unfolding 1 service_new_def by (rule fold) (simp add: entries_ok_def)
  qed
  show "entries_ok t" if "entries_ok s" and "service_step s t" for s t
    using that(2,1)
    by cases (auto simp: apply_event_def fold_event_def split_paired_all intro!: service_fold_ok split: prod.split, auto simp: entries_ok_def)
qed

lemma apply_event_fold:
  "apply_event s (t, e) = (service_fold (sj_nextSeq (ts_journal s)) t e s)\<lparr>ts_journal := snd (journal_append t e (ts_journal s))\<rparr>"
  using fold_event_set_journal [where s = s and j = "snd (journal_append t e (ts_journal s))" and e = "fst (journal_append t e (ts_journal s))"]
  by (simp add: apply_event_def fold_event_def journal_append_def Let_def)

lemma entries_ok_event: "entries_ok s \<Longrightarrow> entries_ok (apply_event s te)"
  using queue.step_inv step_event by blast

lemma record_unfold:
  "service_record (Suc n) d e = andThen (append_event d e) (\<lambda>_. case leaves e of
     None \<Rightarrow> ret ()
   | Some i \<Rightarrow> andThen (sees (\<lambda>s. (jm_get (ts_entries s) i, jm_vals (ts_entries s)))) (\<lambda>(gone, es). case gone of
       None \<Rightarrow> ret ()
     | Some g \<Rightarrow> each_do (\<lambda>e. andThen (sees (\<lambda>s. waits_for g s e)) (\<lambda>b. if b then service_record n d (blocked_event g e) else ret ())) es))"
  by simp

text \<open>Enqueueing a commit the queue does not know, undisturbed, leaves exactly one queued entry of that client's branch,
  the new one as it was given, and every entry of another client or branch as it was.\<close>

theorem enqueue_supersedes:
  assumes "reachable service_start service_step s" and "jm_get (ts_entries s) (shared_id p b sha) = None"
    and "service_enqueue k (quiet d) p b sha bs ep (s, w) = (Inr (i, st), (s', w'))"
  shows "i = shared_id p b sha \<and> st = InQueue \<and>
    map (\<lambda>e. (se_id e, se_sha e, se_blockedBy e, se_epoch e)) (filter (supersedes p b) (jm_vals (ts_entries s'))) = [(i, sha, bs, ep)] \<and>
    filter (\<lambda>e. (se_principal e, se_branch e) \<noteq> (p, b)) (jm_vals (ts_entries s')) =
      filter (\<lambda>e. (se_principal e, se_branch e) \<noteq> (p, b)) (jm_vals (ts_entries s))"
proof -
  let ?i = "shared_id p b sha" and ?ev = "ShEnqueued (shared_id p b sha) p b sha bs ep"
  from queue.reachable_inv [OF assms(1)] have wf: "jm_wf (ts_entries s)" "jm_keyed se_id (ts_entries s)" by (simp_all add: entries_ok_def)
  from assms(3) have run: "andThen (supersede_from k k (quiet d) p b 0) (\<lambda>_. andThen (service_record k (quiet d) ?ev) (\<lambda>_. ret (?i, InQueue)))
      (s, w) = (Inr (i, st), (s', w'))"
    by (simp add: service_enqueue_def Let_def sees_then assms(2) refuse_def throw_def split: if_splits)
  then obtain u sw where "supersede_from k k (quiet d) p b 0 (s, w) = (Inr u, sw)"
    and "andThen (service_record k (quiet d) ?ev) (\<lambda>_. ret (?i, InQueue)) sw = (Inr (i, st), (s', w'))"
    by (rule andThen_InrE)
  then obtain s1 w1 where sup: "supersede_from k k (quiet d) p b 0 (s, w) = (Inr u, (s1, w1))"
    and rest: "andThen (service_record k (quiet d) ?ev) (\<lambda>_. ret (?i, InQueue)) (s1, w1) = (Inr (i, st), (s', w'))"
    by (cases sw) auto
  from supersede_from_quiet [OF sup wf] have s1: "ts_entries s1 = map (apsnd (retired p b)) (ts_entries s)" by simp
  from rest obtain v where rec: "service_record k (quiet d) ?ev (s1, w1) = (Inr v, (s', w'))" and i: "i = ?i" "st = InQueue"
    by (auto simp: ret_def elim!: andThen_InrE)
  from rec obtain t where s': "s' = apply_event s1 (t, ?ev)"
    by (cases k) (auto simp: throw_def ret_def elim!: andThen_InrE dest!: append_event_quiet)
  from assms(2) s1 have "?i \<notin> set (jm_keys (ts_entries s1))"
    by (auto simp: jm_get_None_iff jm_keys_def)
  then obtain sq where "ts_entries s' = ts_entries s1 @ [(?i, \<lparr>se_id = ?i, se_principal = p, se_branch = b, se_sha = sha, se_blockedBy = bs,
      se_epoch = ep, se_seq = sq, se_state = InQueue\<rparr>)]"
    by (auto simp: s' apply_event_def fold_event_def journal_append_def Let_def jm_set_snoc)
  then have vals: "jm_vals (ts_entries s') = map (retired p b) (jm_vals (ts_entries s)) @ [\<lparr>se_id = ?i, se_principal = p, se_branch = b,
      se_sha = sha, se_blockedBy = bs, se_epoch = ep, se_seq = sq, se_state = InQueue\<rparr>]"
    by (simp add: jm_vals_def s1)
  have "filter (supersedes p b) (map (retired p b) es) = []" for es
    by (induction es) (auto simp: retired_def supersedes_def)
  moreover have "filter (\<lambda>e. (se_principal e, se_branch e) \<noteq> (p, b)) (map (retired p b) es) =
      filter (\<lambda>e. (se_principal e, se_branch e) \<noteq> (p, b)) es" for es
    by (induction es) (auto simp: retired_def supersedes_def)
  ultimately show ?thesis using i by (simp add: vals supersedes_def)
qed

lemma demo_record:
  "leaves e = None \<Longrightarrow> service_record (Suc n) (quiet demo_service) e (s, w) = (Inr (), (apply_event s (0, e), w))"
  by (simp add: andThen_apply append_event_def await_quiet alter_def demo_service_def ret_def)

lemma demo_queue_entries: "ts_entries demo_queue = [(demo_entry_id, demo_queued)]"
  by (simp add: demo_queue_def demo_idle_def demo_service_simps demo_queued_def)

lemma demo_retired_entries:
  "ts_entries (apply_event demo_queue (0, ShWithdrawn demo_entry_id why)) = [(demo_entry_id, demo_queued\<lparr>se_state := WasWithdrawn\<rparr>)]"
  by (simp add: apply_event_def fold_event_def journal_append_def Let_def mark_entry_def demo_queue_entries jm_get_def jm_set_def)

lemma demo_queue_reachable: "reachable service_start service_step demo_queue"
  unfolding demo_queue_def demo_idle_def by (rule reach_step [OF reach_start]) (rule service_start.intros, rule step_event)

theorem enqueue_supersedes_witness:
  "\<exists>s'. service_enqueue (Suc (Suc (Suc 0))) (quiet demo_service) ''ci'' ''feat'' (replicate 40 CHR ''b'') [] None (demo_queue, 1) =
      (Inr (shared_id ''ci'' ''feat'' (replicate 40 CHR ''b''), InQueue), (s', 1)) \<and>
    map se_sha (filter (supersedes ''ci'' ''feat'') (jm_vals (ts_entries s'))) = [replicate 40 CHR ''b'']"
proof -
  let ?sha = "replicate 40 CHR ''b''" and ?run = "service_enqueue (Suc (Suc (Suc 0))) (quiet demo_service) ''ci'' ''feat'' (replicate 40 CHR ''b'') [] None (demo_queue, 1)"
  have ok: "valid_branch ''feat''" "valid_sha ?sha"
    by (simp_all add: valid_branch_def valid_sha_def branch_char_def client_char_def is_word_char_def is_alpha_def hex_char_def
      eval_nat_numeral sublist_Cons_right)
  have fresh: "jm_get (ts_entries demo_queue) (shared_id ''ci'' ''feat'' ?sha) = None"
    by (simp add: demo_queue_def demo_idle_def demo_service_simps demo_entry_id_def shared_id_def demo_sha_def eval_nat_numeral)
  obtain s' where run: "?run = (Inr (shared_id ''ci'' ''feat'' ?sha, InQueue), (s', 1))"
    using ok fresh
    by (simp add: service_enqueue_def Let_def sees_apply demo_record demo_queue_entries demo_retired_entries supersedes_def
      jm_vals_def andThen_apply ret_apply demo_queued_def del: service_record.simps)
  from enqueue_supersedes [OF demo_queue_reachable fresh run] have "map (\<lambda>e. (se_id e, se_sha e, se_blockedBy e, se_epoch e))
      (filter (supersedes ''ci'' ''feat'') (jm_vals (ts_entries s'))) = [(shared_id ''ci'' ''feat'' ?sha, ?sha, [], None)]" by simp
  from arg_cong [OF this, of "map (fst \<circ> snd)"] run show ?thesis by (simp add: comp_def)
qed

section \<open>Dependents\<close>

lemma idle_run:
  assumes "next_batch_of c s = []" and "\<And>v. sd_wait d v = (Inr (), v)"
  shows "service_run n k c (quiet d) (s, w) = (Inr (), (s, w))"
proof (induction n)
  case 0
  then show ?case by (simp add: ret_def)
next
  case (Suc n)
  have "service_turn k c (quiet d) (s, w) = (Inr (), (s, w))"
    using assms by (simp add: service_turn_def sees_then await_quiet)
  with Suc show ?case by (simp add: andThen_apply ret_def)
qed

abbreviation demo_three :: nat where
  "demo_three \<equiv> Suc (Suc (Suc 0))"

definition demo_top_id :: string where
  "demo_top_id = shared_id ''ci'' ''top'' demo_sha"

definition demo_top :: "nat \<Rightarrow> shared_entry" where
  "demo_top sq = \<lparr>se_id = demo_top_id, se_principal = ''ci'', se_branch = ''top'', se_sha = demo_sha, se_blockedBy = [''feat''],
     se_epoch = None, se_seq = sq, se_state = InQueue\<rparr>"

abbreviation demo_top_event :: shared_event where
  "demo_top_event \<equiv> ShEnqueued demo_top_id ''ci'' ''top'' demo_sha [''feat''] None"

lemma demo_top_valid: "valid_branch ''top''" "valid_sha demo_sha" "demo_top_id \<noteq> demo_entry_id" "demo_entry_id \<noteq> demo_top_id"
  by (simp_all add: valid_branch_def valid_sha_def branch_char_def client_char_def is_word_char_def is_alpha_def hex_char_def demo_sha_def
      eval_nat_numeral sublist_Cons_right demo_top_id_def demo_entry_id_def shared_id_def)

lemmas demo_dependent_simps = demo_top_valid demo_top_def demo_queued_def sees_apply andThen_apply ret_apply jm_vals_def jm_get_def

lemma demo_append:
  "append_event (quiet demo_service) e (s, w) = (Inr (), (apply_event s (0, e), w))"
  by (simp add: andThen_apply append_event_def await_quiet alter_def demo_service_def)

lemma demo_withdrawn: "ts_entries s = (demo_entry_id, demo_queued) # es \<Longrightarrow>
    ts_entries (apply_event s (0, ShWithdrawn demo_entry_id why)) = (demo_entry_id, demo_queued\<lparr>se_state := WasWithdrawn\<rparr>) # es"
  by (simp add: apply_event_def fold_event_def journal_append_def Let_def mark_entry_def jm_get_def jm_set_def)

lemma demo_top_added: "map fst (ts_entries s) = [demo_entry_id] \<Longrightarrow>
    ts_entries (apply_event s (0, demo_top_event)) = ts_entries s @ [(demo_top_id, demo_top (sj_nextSeq (ts_journal s)))]"
  by (subst jm_set_snoc [symmetric])
    (auto simp: apply_event_def fold_event_def journal_append_def Let_def demo_top_def demo_top_valid jm_keys_def)

definition demo_late :: train_service where
  "demo_late = apply_event (apply_event demo_queue (0, ShWithdrawn demo_entry_id ByClient)) (0, demo_top_event)"

lemma demo_late_entries:
  "\<exists>sq. ts_entries demo_late = [(demo_entry_id, demo_queued\<lparr>se_state := WasWithdrawn\<rparr>), (demo_top_id, demo_top sq)]"
  unfolding demo_late_def
  by (subst demo_top_added) (auto simp: demo_withdrawn demo_queue_entries)

text \<open>An entry enqueued after the entry it is blocked by left the queue waits for good: the train never takes it up, where the
  same two calls in the other order eject it.\<close>

theorem late_dependent_waits:
  "(\<exists>s. andThen (service_withdraw demo_three (quiet demo_service) ''ci'' demo_entry_id)
        (\<lambda>_. service_enqueue demo_three (quiet demo_service) ''ci'' ''top'' demo_sha [''feat''] None) (demo_queue, 1) =
      (Inr (demo_top_id, InQueue), (s, 1)) \<and>
      (\<forall>n k. service_run n k demo_config (quiet demo_service) (s, 1) = (Inr (), (s, 1)))) \<and>
   (\<exists>s. andThen (service_enqueue demo_three (quiet demo_service) ''ci'' ''top'' demo_sha [''feat''] None)
        (\<lambda>_. service_withdraw demo_three (quiet demo_service) ''ci'' demo_entry_id) (demo_queue, 1) = (Inr (), (s, 1)) \<and>
      map_option se_state (jm_get (ts_entries s) demo_top_id) = Some WasEjected)"
proof
  let ?d = "quiet demo_service"
  have first: "service_withdraw demo_three ?d ''ci'' demo_entry_id (demo_queue, 1) =
      (Inr (), (apply_event demo_queue (0, ShWithdrawn demo_entry_id ByClient), 1))"
    by (simp add: service_withdraw_def demo_dependent_simps demo_queue_entries demo_withdrawn demo_append waits_for_def)
  have second: "service_enqueue demo_three ?d ''ci'' ''top'' demo_sha [''feat''] None (apply_event demo_queue (0, ShWithdrawn demo_entry_id ByClient), 1) =
      (Inr (demo_top_id, InQueue), (demo_late, 1))"
    by (simp add: service_enqueue_def Let_def demo_dependent_simps demo_queue_entries demo_withdrawn demo_append supersedes_def demo_late_def
      flip: demo_top_id_def)
  from demo_late_entries obtain sq where late: "ts_entries demo_late = [(demo_entry_id, demo_queued\<lparr>se_state := WasWithdrawn\<rparr>), (demo_top_id, demo_top sq)]"
    by blast
  have "next_batch_of demo_config demo_late = []"
    by (simp add: next_batch_of_def service_ready_def round_robin_def principal_queues_def late jm_vals_def entry_ready_def branch_landed_def
      demo_top_def demo_queued_def)
  then have "service_run n k demo_config ?d (demo_late, 1) = (Inr (), (demo_late, 1))" for n k
    by (rule idle_run) (simp add: demo_service_def)
  with first second show "\<exists>s. andThen (service_withdraw demo_three ?d ''ci'' demo_entry_id)
        (\<lambda>_. service_enqueue demo_three ?d ''ci'' ''top'' demo_sha [''feat''] None) (demo_queue, 1) = (Inr (demo_top_id, InQueue), (s, 1)) \<and>
      (\<forall>n k. service_run n k demo_config ?d (s, 1) = (Inr (), (s, 1)))"
    by (intro exI [of _ demo_late]) (simp add: andThen_apply)
  let ?s1 = "apply_event demo_queue (0, demo_top_event)"
  let ?s2 = "apply_event ?s1 (0, ShWithdrawn demo_entry_id ByClient)"
  have s1: "ts_entries ?s1 = [(demo_entry_id, demo_queued), (demo_top_id, demo_top (sj_nextSeq (ts_journal demo_queue)))]"
    by (subst demo_top_added) (simp_all add: demo_queue_entries)
  have enq: "service_enqueue demo_three ?d ''ci'' ''top'' demo_sha [''feat''] None (demo_queue, 1) = (Inr (demo_top_id, InQueue), (?s1, 1))"
    by (simp add: service_enqueue_def Let_def demo_dependent_simps demo_queue_entries demo_append supersedes_def flip: demo_top_id_def)
  let ?gone = "demo_queued\<lparr>se_state := WasWithdrawn\<rparr>" and ?top = "demo_top (sj_nextSeq (ts_journal demo_queue))"
  let ?s3 = "apply_event ?s2 (0, blocked_event ?gone ?top)"
  have s2: "ts_entries ?s2 = [(demo_entry_id, ?gone), (demo_top_id, ?top)]"
    by (rule demo_withdrawn) (rule s1)
  have s3: "ts_entries ?s3 = [(demo_entry_id, ?gone), (demo_top_id, ?top\<lparr>se_state := WasEjected\<rparr>)]"
    using demo_top_valid
    by (simp add: apply_event_def [of ?s2] fold_event_def journal_append_def Let_def mark_entry_def s2 blocked_event_def demo_top_def jm_get_def jm_set_def)
  have wd: "service_withdraw demo_three ?d ''ci'' demo_entry_id (?s1, 1) = (Inr (), (?s3, 1))"
    using s1 s2 s3 demo_top_valid
    by (simp add: service_withdraw_def sees_apply andThen_apply ret_apply demo_append jm_get_def jm_vals_def waits_for_def blocked_event_def
      demo_top_def demo_queued_def)
  from s3 demo_top_valid have gone: "map_option se_state (jm_get (ts_entries ?s3) demo_top_id) = Some WasEjected"
    by (simp add: jm_get_def)
  show "\<exists>s. andThen (service_enqueue demo_three ?d ''ci'' ''top'' demo_sha [''feat''] None)
        (\<lambda>_. service_withdraw demo_three ?d ''ci'' demo_entry_id) (demo_queue, 1) = (Inr (), (s, 1)) \<and>
      map_option se_state (jm_get (ts_entries s) demo_top_id) = Some WasEjected"
    by (intro exI [of _ ?s3]) (simp add: andThen_apply enq wd gone del: One_nat_def)
qed

end
