(* ===== verification/SharedTermination.thy ===== *)
theory SharedTermination
  imports SharedClients
begin

text \<open>
  An undisturbed pass of the standalone train ends: its bisection takes no more fuel than its batch has entries, and a
  cascade of ejections no more than the queue.
\<close>

section \<open>A pass ends\<close>

definition waiting :: "train_service \<Rightarrow> nat" where
  "waiting s = length (filter (\<lambda>e. se_state e = InQueue) (jm_vals (ts_entries s)))"

text \<open>The computations that, undisturbed, run out of no fuel and add nothing to the queue.\<close>

definition ends :: "nat \<Rightarrow> ('w, 'a) sv \<Rightarrow> bool" where
  "ends m x \<longleftrightarrow> (\<forall>s w r s' w'. entries_ok s \<longrightarrow> waiting s \<le> m \<longrightarrow> x (s, w) = (r, (s', w')) \<longrightarrow>
     r \<noteq> Inl OutOfFuel \<and> entries_ok s' \<and> waiting s' \<le> waiting s)"

lemma endsI:
  "(\<And>s w r s' w'. entries_ok s \<Longrightarrow> waiting s \<le> m \<Longrightarrow> x (s, w) = (r, (s', w')) \<Longrightarrow>
     r \<noteq> Inl OutOfFuel \<and> entries_ok s' \<and> waiting s' \<le> waiting s) \<Longrightarrow> ends m x"
  unfolding ends_def by blast

lemma endsD:
  "ends m x \<Longrightarrow> entries_ok s \<Longrightarrow> waiting s \<le> m \<Longrightarrow> x (s, w) = (r, (s', w')) \<Longrightarrow>
     r \<noteq> Inl OutOfFuel \<and> entries_ok s' \<and> waiting s' \<le> waiting s"
  unfolding ends_def by blast

lemma ends_ret: "ends m (ret x)"
  by (rule endsI) (auto simp: ret_def)

lemma ends_refuse: "ends m (refuse why)"
  by (rule endsI) (auto simp: refuse_def throw_def)

lemma ends_read: "ends m (\<lambda>(s, w). (Inr (f s w), (s, w)))"
  by (rule endsI) auto

lemma ends_sees: "ends m (sees f)"
  by (rule endsI) (auto simp: sees_def)

lemma ends_await: "ends m (await (quiet d) x)"
  by (rule endsI) (auto simp: await_quiet split: prod.splits sum.splits)

lemma ends_next_batch: "ends m next_shared_batch"
  by (rule endsI) (auto simp: next_shared_batch_def entries_ok_def waiting_def)

lemma ends_andThen:
  assumes "ends m x" and "\<And>y. ends m (f y)"
  shows "ends m (andThen x f)"
proof (rule endsI)
  fix s w r s' w'
  assume s: "entries_ok s" "waiting s \<le> m" and "andThen x f (s, w) = (r, (s', w'))"
  from this(3) show "r \<noteq> Inl OutOfFuel \<and> entries_ok s' \<and> waiting s' \<le> waiting s"
  proof (cases rule: andThen_cases)
    case (1 e)
    with endsD [OF assms(1) s] show ?thesis by auto
  next
    case (2 y sw)
    obtain s1 w1 where sw: "sw = (s1, w1)" by force
    from endsD [OF assms(1) s 2(1) [unfolded sw]] have s1: "entries_ok s1" "waiting s1 \<le> waiting s" by auto
    with s have "waiting s1 \<le> m" by simp
    with endsD [OF assms(2) s1(1) this 2(2) [unfolded sw]] s1 show ?thesis by auto
  qed
qed

lemma ends_when: "(b \<Longrightarrow> ends m x) \<Longrightarrow> (\<not> b \<Longrightarrow> ends m y) \<Longrightarrow> ends m (if b then x else y)"
  by simp

lemma ends_each_do: "(\<And>x. x \<in> set xs \<Longrightarrow> ends m (f x)) \<Longrightarrow> ends m (each_do f xs)"
  by (induction xs) (auto intro: ends_ret ends_andThen)

lemma ends_each: "(\<And>x. x \<in> set xs \<Longrightarrow> ends m (f x)) \<Longrightarrow> ends m (each f xs)"
  by (induction xs) (auto intro!: ends_ret ends_andThen)

lemmas ends_basics = ends_ret ends_refuse ends_read ends_sees ends_await ends_next_batch ends_andThen ends_when ends_each_do ends_each

text \<open>Events of the train add no entry to the queue, and an ejection of a queued one takes it out.\<close>

fun enqueues :: "shared_event \<Rightarrow> bool" where
  "enqueues (ShEnqueued _ _ _ _ _ _) = True"
| "enqueues _ = False"

lemma marked_entries:
  assumes "entries_ok s" and "jm_get (ts_entries s) i = Some e" and "st \<noteq> InQueue"
  shows "waiting s = waiting (mark_entry i st s) + (if se_state e = InQueue then 1 else 0)"
proof -
  from assms(1,2) obtain xs ys where entries: "ts_entries s = xs @ (i, e) # ys"
    by (meson jm_get_Some_mem split_list)
  have key: "i \<notin> fst ` set xs" and wf: "jm_wf (ts_entries s)"
    using assms(1) entries by (auto simp: entries_ok_def jm_wf_def)
  have "jm_set i (e\<lparr>se_state := st\<rparr>) (ts_entries s) = (ts_entries s)[length xs := (i, e\<lparr>se_state := st\<rparr>)]"
    by (rule jm_set_nth [OF wf]) (simp_all add: entries)
  with assms(2,3) show ?thesis by (simp add: waiting_def mark_entry_def entries jm_vals_def)
qed

lemma mark_entry_waiting: "entries_ok s \<Longrightarrow> st \<noteq> InQueue \<Longrightarrow> waiting (mark_entry i st s) \<le> waiting s"
  by (cases "jm_get (ts_entries s) i") (auto simp: marked_entries, simp add: mark_entry_def)

lemma waiting_fields [simp]:
  "waiting (s\<lparr>ts_journal := j\<rparr>) = waiting s" "waiting (s\<lparr>ts_pushed := u\<rparr>) = waiting s" "waiting (s\<lparr>ts_clients := cs\<rparr>) = waiting s"
  "waiting (s\<lparr>ts_batches := n\<rparr>) = waiting s" "waiting (s\<lparr>ts_baselines := bs\<rparr>) = waiting s"
  by (simp_all add: waiting_def)

lemma waiting_event: "entries_ok s \<Longrightarrow> \<not> enqueues e \<Longrightarrow> waiting (apply_event s (t, e)) \<le> waiting s"
  unfolding apply_event_fold by (cases e) (auto simp: Let_def mark_entry_waiting)

lemma waiting_ejected:
  assumes "entries_ok s" and "waits_for g s e"
  shows "waiting (apply_event s (t, blocked_event g e)) < waiting s"
proof -
  from assms(2) obtain x where "jm_get (ts_entries s) (se_id e) = Some x" and "se_state x = InQueue"
    by (auto simp: waits_for_def)
  with marked_entries [OF assms(1) this(1), of WasEjected] show ?thesis
    by (simp add: apply_event_fold blocked_event_def)
qed

text \<open>The cascade of an ejection: every ejected dependent was queued, so a queue's length of fuel is enough.\<close>

lemma append_quiet_cases:
  assumes "append_event (quiet d) e (s, w) = (r, (s', w'))" and "entries_ok s" and "\<not> enqueues e"
  shows "r \<noteq> Inl OutOfFuel \<and> entries_ok s' \<and> waiting s' \<le> waiting s"
  using append_event_quiet [OF assms(1)] assms(2,3) by (auto simp: entries_ok_event waiting_event)

lemma ends_append: "\<not> enqueues e \<Longrightarrow> ends m (append_event (quiet d) e)"
  by (rule endsI) (rule append_quiet_cases)

definition cascade_ends :: "nat \<Rightarrow> nat \<Rightarrow> 'w service_deps \<Rightarrow> bool" where
  "cascade_ends n m d \<longleftrightarrow> (\<forall>g e s w r s' w'. waits_for g s e \<longrightarrow> entries_ok s \<longrightarrow> waiting s \<le> m \<longrightarrow>
      service_record n (quiet d) (blocked_event g e) (s, w) = (r, (s', w')) \<longrightarrow>
      r \<noteq> Inl OutOfFuel \<and> entries_ok s' \<and> waiting s' \<le> waiting s)"

lemma cascade_endsD:
  "cascade_ends n m d \<Longrightarrow> waits_for g s e \<Longrightarrow> entries_ok s \<Longrightarrow> waiting s \<le> m \<Longrightarrow>
    service_record n (quiet d) (blocked_event g e) (s, w) = (r, (s', w')) \<Longrightarrow>
    r \<noteq> Inl OutOfFuel \<and> entries_ok s' \<and> waiting s' \<le> waiting s"
  unfolding cascade_ends_def by blast

lemma cascade_ends_mono: "cascade_ends n m d \<Longrightarrow> m' \<le> m \<Longrightarrow> cascade_ends n m' d"
  by (simp only: cascade_ends_def [of n m']) (intro allI impI, rule cascade_endsD, assumption+, simp, assumption)

lemma ends_cascade:
  assumes "cascade_ends n m d"
  shows "ends m (each_do (\<lambda>e. andThen (sees (\<lambda>s. waits_for g s e)) (\<lambda>b. if b then service_record n (quiet d) (blocked_event g e) else ret ())) es)"
proof (rule ends_each_do, rule endsI)
  fix e s w r s' w'
  assume s: "entries_ok s" "waiting s \<le> m"
    and run: "andThen (sees (\<lambda>s. waits_for g s e)) (\<lambda>b. if b then service_record n (quiet d) (blocked_event g e) else ret ()) (s, w) = (r, (s', w'))"
  show "r \<noteq> Inl OutOfFuel \<and> entries_ok s' \<and> waiting s' \<le> waiting s"
  proof (cases "waits_for g s e")
    case True
    with run have "service_record n (quiet d) (blocked_event g e) (s, w) = (r, (s', w'))" by (simp add: sees_then)
    with cascade_endsD [OF assms True s] show ?thesis by blast
  next
    case False
    with run s show ?thesis by (auto simp: sees_then ret_def)
  qed
qed

lemma cascade_all_ends: "cascade_ends n n d"
proof (induction n)
  case 0
  show ?case unfolding cascade_ends_def by (metis less_nat_zero_code le_zero_eq waiting_ejected)
next
  case (Suc n)
  have "r \<noteq> Inl OutOfFuel \<and> entries_ok s' \<and> waiting s' \<le> waiting s"
    if g: "waits_for g s e" and s: "entries_ok s" and m: "waiting s \<le> Suc n"
      and run: "service_record (Suc n) (quiet d) (blocked_event g e) (s, w) = (r, (s', w'))" for g e s w r s' w'
    using run [unfolded record_unfold]
  proof (cases rule: andThen_cases)
    case (1 x)
    with append_quiet_cases [OF 1(1) s] show ?thesis by (auto simp: blocked_event_def)
  next
    case (2 u sw)
    obtain s1 w1 where sw: "sw = (s1, w1)" by force
    from append_event_quiet [OF 2(1) [unfolded sw]] obtain t where s1: "s1 = apply_event s (t, blocked_event g e)" by auto
    have less: "waiting s1 < waiting s" unfolding s1 using s g by (rule waiting_ejected)
    have ok: "entries_ok s1" unfolding s1 using s by (rule entries_ok_event)
    have rest: "ends n (case leaves (blocked_event g e) of None \<Rightarrow> ret ()
      | Some i \<Rightarrow> andThen (sees (\<lambda>s. (jm_get (ts_entries s) i, jm_vals (ts_entries s)))) (\<lambda>(gone, es). case gone of None \<Rightarrow> ret ()
        | Some g \<Rightarrow> each_do (\<lambda>e. andThen (sees (\<lambda>s. waits_for g s e)) (\<lambda>b. if b then service_record n (quiet d) (blocked_event g e) else ret ())) es))"
      by (auto intro!: ends_andThen ends_sees ends_ret ends_cascade Suc.IH split: option.split prod.split)
    from endsD [OF rest ok _ 2(2) [unfolded sw]] less m show ?thesis by auto
  qed
  then show ?case unfolding cascade_ends_def by blast
qed

lemma ends_record:
  assumes "\<not> enqueues e" and "m < k"
  shows "ends m (service_record k (quiet d) e)"
proof (cases k)
  case (Suc n)
  with assms(2) have "m \<le> n" by simp
  with cascade_all_ends have "cascade_ends n m d" by (rule cascade_ends_mono)
  then show ?thesis
    unfolding Suc record_unfold
    by (auto intro!: ends_andThen ends_append assms(1) ends_sees ends_ret ends_cascade split: option.split prod.split)
qed (use assms in simp)

section \<open>Bisection ends\<close>

lemma length_halves:
  assumes "2 \<le> length xs"
  shows "length (first_half xs) < length xs" "length (second_half xs) < length xs"
  using assms by (auto simp: first_half_def second_half_def)

lemma each_lengths:
  "each f xs sw = (Inr ys, sw') \<Longrightarrow> (\<And>x sw r sw'. f x sw = (Inr r, sw') \<Longrightarrow> length r \<le> 1) \<Longrightarrow> length (concat ys) \<le> length xs"
proof (induction xs arbitrary: sw ys)
  case Nil
  then show ?case by (simp add: ret_def)
next
  case (Cons x xs)
  then obtain r sw1 zs where "f x sw = (Inr r, sw1)" and "each f xs sw1 = (Inr zs, sw')" and "ys = r # zs"
    by (auto simp: ret_def elim!: andThen_InrE)
  with Cons.IH [OF this(2)] Cons.prems(2) show ?case by fastforce
qed

text \<open>What comes after a computation may use what it returned.\<close>

lemma ends_andThen_result:
  assumes "ends m x" and "\<And>sw y sw'. x sw = (Inr y, sw') \<Longrightarrow> ends m (f y)"
  shows "ends m (andThen x f)"
proof (rule endsI)
  fix s w r s' w'
  assume s: "entries_ok s" "waiting s \<le> m" and "andThen x f (s, w) = (r, (s', w'))"
  from this(3) show "r \<noteq> Inl OutOfFuel \<and> entries_ok s' \<and> waiting s' \<le> waiting s"
  proof (cases rule: andThen_cases)
    case (1 e)
    with endsD [OF assms(1) s] show ?thesis by auto
  next
    case (2 y sw)
    obtain s1 w1 where sw: "sw = (s1, w1)" by force
    from endsD [OF assms(1) s 2(1) [unfolded sw]] have s1: "entries_ok s1" "waiting s1 \<le> waiting s" by auto
    with s have "waiting s1 \<le> m" by simp
    with endsD [OF assms(2) [OF 2(1)] s1(1) this 2(2) [unfolded sw]] s1 show ?thesis by auto
  qed
qed

lemma ends_pass_with:
  assumes "m < k" and "\<And>es tip. length es \<le> length batch \<Longrightarrow> ends m (lander es tip)"
  shows "ends m (pass_with lander k c (quiet d) batch)"
proof -
  have recorded: "ends m (service_record k (quiet d) e)" if "\<not> enqueues e" for e using that assms(1) by (rule ends_record)
  have already: "ends m (already_landed k c (quiet d) tip e)" for tip e
    unfolding already_landed_def by (auto intro!: ends_basics recorded)
  have fetch: "ends m (fetch_or_eject k c (quiet d) e)" for e
    unfolding fetch_or_eject_def moved_event_def by (auto intro!: ends_basics recorded)
  have base: "ends m (baseline k c (quiet d) tip)" for tip
    unfolding baseline_def by (auto intro!: ends_basics recorded split: option.split)
  have one: "length r \<le> 1" if "already_landed k c (quiet d) tip e sw = (Inr r, sw')" for tip e sw r sw'
    using that by (auto simp: already_landed_def ret_def elim!: andThen_InrE split: if_splits)
  have other: "length r \<le> 1" if "fetch_or_eject k c (quiet d) e sw = (Inr r, sw')" for e sw r sw'
    using that by (auto simp: fetch_or_eject_def ret_def elim!: andThen_InrE split: if_splits)
  have lander: "ends m (lander (concat fetched) tip)"
    if "each (already_landed k c (quiet d) tip) batch sw = (Inr lives, sw')"
      and "each (fetch_or_eject k c (quiet d)) (concat lives) sx = (Inr fetched, sx')" for tip sw lives sw' sx fetched sx'
  proof (rule assms(2))
    have "length (concat fetched) \<le> length (concat lives)" by (rule each_lengths [OF that(2)]) (rule other)
    also have "\<dots> \<le> length batch" by (rule each_lengths [OF that(1)]) (rule one)
    finally show "length (concat fetched) \<le> length batch" .
  qed
  have rest: "ends m (andThen (each (fetch_or_eject k c (quiet d)) (concat lives)) (\<lambda>fetched. andThen (lander (concat fetched) tip) (\<lambda>_. ret True)))"
    if "each (already_landed k c (quiet d) tip) batch sw = (Inr lives, sw')" for tip sw lives sw'
    by (rule ends_andThen_result) (intro ends_each fetch, intro ends_andThen ends_ret lander [OF that])
  show ?thesis
    unfolding pass_with_def
    by (intro ends_andThen [OF ends_await] ends_andThen_result [OF ends_each [OF already]] ends_when ends_ret ends_andThen [OF base] rest)
qed

lemma ends_record_each: "(\<And>e. \<not> enqueues (f e)) \<Longrightarrow> m < k \<Longrightarrow> ends m (record_each k (quiet d) f es)"
  unfolding record_each_def by (intro ends_each_do ends_record)

lemma ends_land_passing: "m < k \<Longrightarrow> ends m (land_passing k c (quiet d) n new tip es)"
  unfolding land_passing_def by (auto intro!: ends_basics ends_record_each split: option.split)

lemma ends_land_entries: "m < k \<Longrightarrow> length es < n \<Longrightarrow> ends m (land_entries n k c (quiet d) es tip)"
proof (induction n arbitrary: es tip)
  case 0
  then show ?case by simp
next
  case (Suc n)
  note k = Suc.prems(1)
  let ?clean = "\<lambda>conflicted. filter (\<lambda>e. e \<notin> set conflicted) es"
  let ?bisect = "\<lambda>clean. andThen (land_entries n k c (quiet d) (first_half clean) tip) (\<lambda>_.
      andThen (sees (\<lambda>s. filter (still_queued s) (second_half clean))) (\<lambda>rest.
      andThen (pass_with (land_entries n k c (quiet d)) k c (quiet d) rest) (\<lambda>_. ret ())))"
  have bisect: "ends m (?bisect clean)" if "clean \<noteq> []" and "length clean \<noteq> 1" and "length clean \<le> length es" for clean
  proof -
    from that have "2 \<le> length clean" by (cases clean; cases "tl clean") auto
    from length_halves [OF this] that(3) Suc.prems(2)
    have "length (first_half clean) < n" and second: "length (second_half clean) < n" by auto
    with k have first: "ends m (land_entries n k c (quiet d) (first_half clean) tip)" by (intro Suc.IH)
    have "ends m (pass_with (land_entries n k c (quiet d)) k c (quiet d) rest)"
      if "sees (\<lambda>s. filter (still_queued s) (second_half clean)) sw = (Inr rest, sw')" for sw rest sw'
    proof (rule ends_pass_with [OF k])
      have "length rest \<le> length (second_half clean)" using that by (auto simp: sees_def split: prod.splits)
      with second show "ends m (land_entries n k c (quiet d) xs t)" if "length xs \<le> length rest" for xs t
        using that k by (intro Suc.IH) simp_all
    qed
    then show ?thesis
      by (intro ends_andThen first ends_andThen_result [OF ends_sees] ends_ret)
  qed
  have clean: "length (?clean conflicted) \<le> length es" for conflicted by simp
  have failing: "ends m (case failing of None \<Rightarrow> land_passing k c (quiet d) b new tip (?clean conflicted)
      | Some f \<Rightarrow> if length (?clean conflicted) = 1 then service_record k (quiet d) (check_event c (hd (?clean conflicted)) f)
                   else ?bisect (?clean conflicted))"
    if "?clean conflicted \<noteq> []" for conflicted failing b new
    using bisect [OF that _ clean] k
    by (auto simp: check_event_def intro!: ends_land_passing ends_record ends_when split: option.split)
  show ?case
    unfolding land_entries.simps Let_def
    by (auto intro!: ends_when ends_ret ends_andThen ends_next_batch ends_await ends_record ends_record_each k failing
        simp: conflict_event_def simp del: filter_False split: prod.split)
qed

text \<open>C27: An undisturbed pass over a batch ends, however its batches fail, conflict or bisect, and whatever throws: its fuel, the
  batch's length for the bisection and the queue's for the cascades of ejections, is enough; and it leaves no more
  entries queued than it found.\<close>

theorem shared_pass_ends:
  assumes "reachable service_start service_step s"
    and "service_pass (Suc (waiting s)) c (quiet d) batch (s, w) = (r, (s', w'))"
  shows "r \<noteq> Inl OutOfFuel \<and> waiting s' \<le> waiting s"
proof -
  have "ends (waiting s) (service_pass (Suc (waiting s)) c (quiet d) batch)"
    unfolding service_pass_def by (rule ends_pass_with) (simp, rule ends_land_entries, simp_all)
  from endsD [OF this _ _ assms(2)] queue.reachable_inv [OF assms(1)] show ?thesis by simp
qed

theorem shared_pass_ends_witness:
  "fst (service_pass (Suc (waiting demo_queue)) demo_config (quiet demo_service) [demo_queued] (demo_queue, 1)) \<noteq> Inl OutOfFuel"
proof -
  obtain r s' w' where run: "service_pass (Suc (waiting demo_queue)) demo_config (quiet demo_service) [demo_queued] (demo_queue, 1) = (r, (s', w'))"
    by (metis prod.exhaust)
  from shared_pass_ends [OF demo_queue_reachable run] run show ?thesis by simp
qed

end
