(* ===== verification/Protocol.thy ===== *)
theory Protocol
  imports SharedQueue RunLog
begin

text \<open>
  \<open>packages/swarm/src/protocol.ts\<close>: the swarm protocol's method table behind its default-deny policy, and the carrier
  that binds a connection's principal (\<open>packages/app-server/src/index.ts\<close>). A call that is let through is the call the
  handler makes of the swarm service or of the train, with the arguments it passes; those of the train are performed on
  \<open>SharedQueue\<close>'s operations.
\<close>

section \<open>Principals and the policy\<close>

datatype role = OwnerRole | ViewerRole | DriverRole | MemberRole | ClientRole

fun protocol_role :: "role \<Rightarrow> string" where
  "protocol_role OwnerRole = ''owner''"
| "protocol_role ViewerRole = ''viewer''"
| "protocol_role DriverRole = ''driver''"
| "protocol_role MemberRole = ''member''"
| "protocol_role ClientRole = ''client''"

definition roles :: "role list" where
  "roles = [OwnerRole, ViewerRole, DriverRole, MemberRole, ClientRole]"

record principal =
  pr_role :: role
  pr_runId :: "string option"
  pr_member :: "string option"
  pr_client :: "string option"

datatype method_group = StateGroup | DirectionGroup | AnswerGroup | MemberGroup | AdminGroup | TrainGroup

fun POLICY :: "role \<Rightarrow> method_group list" where
  "POLICY OwnerRole = [StateGroup, DirectionGroup, AnswerGroup, AdminGroup, TrainGroup]"
| "POLICY ViewerRole = [StateGroup]"
| "POLICY DriverRole = [StateGroup, DirectionGroup, AnswerGroup]"
| "POLICY MemberRole = [MemberGroup, StateGroup]"
| "POLICY ClientRole = [TrainGroup]"

datatype protocol_code = FORBIDDEN | UNKNOWN_METHOD | INVALID_PARAMS | NOT_FOUND

datatype protocol_error = ProtocolError protocol_code string

definition invalid :: "string \<Rightarrow> string \<Rightarrow> protocol_error" where
  "invalid method why = ProtocolError INVALID_PARAMS (method @ '': '' @ why)"

section \<open>The method table\<close>

datatype param_type = StringParam | NumberParam | ObjectParam | ArrayParam

fun param_str :: "param_type \<Rightarrow> string" where
  "param_str StringParam = ''a string''"
| "param_str NumberParam = ''a number''"
| "param_str ObjectParam = ''an object''"
| "param_str ArrayParam = ''an array''"

definition METHODS :: "(string \<times> method_group \<times> (string \<times> param_type) list) list" where
  "METHODS =
    [(''swarm/runs'', StateGroup, []),
     (''swarm/view'', StateGroup, [(''runId'', StringParam), (''since?'', NumberParam)]),
     (''swarm/events'', StateGroup, [(''runId'', StringParam), (''afterSeq?'', NumberParam), (''waitMs?'', NumberParam)]),
     (''swarm/questions'', StateGroup, [(''runId?'', StringParam)]),
     (''swarm/landings'', StateGroup, [(''runId'', StringParam)]),
     (''swarm/metrics'', StateGroup, [(''runId'', StringParam)]),
     (''swarm/answer'', AnswerGroup, [(''runId'', StringParam), (''questionId'', StringParam), (''answer'', StringParam)]),
     (''swarm/start'', DirectionGroup, [(''spec'', ObjectParam), (''provider?'', StringParam), (''model?'', StringParam),
        (''worktrees?'', ObjectParam), (''questionTimeoutMs?'', NumberParam)]),
     (''swarm/steer'', DirectionGroup, [(''runId'', StringParam), (''to'', StringParam), (''text'', StringParam)]),
     (''swarm/cancel'', DirectionGroup, [(''runId'', StringParam)]),
     (''swarm/attach'', DirectionGroup, [(''runId'', StringParam)]),
     (''swarm/train/card'', TrainGroup, []),
     (''swarm/train/enqueue'', TrainGroup, [(''branch'', StringParam), (''sha'', StringParam), (''blockedBy?'', ArrayParam), (''epoch?'', NumberParam)]),
     (''swarm/train/withdraw'', TrainGroup, [(''id'', StringParam)]),
     (''swarm/train/events'', TrainGroup, [(''afterSeq?'', NumberParam), (''waitMs?'', NumberParam)]),
     (''swarm/train/status'', AdminGroup, []),
     (''swarm/train/invite'', AdminGroup, [(''name'', StringParam)]),
     (''swarm/train/revoke'', AdminGroup, [(''name'', StringParam)]),
     (''swarm/token'', AdminGroup, [(''role'', StringParam), (''runId?'', StringParam), (''member?'', StringParam)])]"

definition param_key :: "string \<Rightarrow> string" where
  "param_key n = (if ends_with n ''?'' then butlast n else n)"

fun has_type :: "param_type \<Rightarrow> json \<Rightarrow> bool" where
  "has_type StringParam v = (case v of JStr _ \<Rightarrow> True | _ \<Rightarrow> False)"
| "has_type NumberParam v = (case v of JNum _ \<Rightarrow> True | _ \<Rightarrow> False)"
| "has_type ObjectParam v = (case v of JObj _ \<Rightarrow> True | _ \<Rightarrow> False)"
| "has_type ArrayParam v = (case v of JArr _ \<Rightarrow> True | _ \<Rightarrow> False)"

text \<open>The first parameter that is missing or of another type.\<close>

definition bad_param :: "json \<Rightarrow> string \<times> param_type \<Rightarrow> bool" where
  "bad_param p nt = (case jfield (param_key (fst nt)) p of
     None \<Rightarrow> \<not> ends_with (fst nt) ''?''
   | Some v \<Rightarrow> \<not> has_type (snd nt) v)"

text \<open>\<open>String(v)\<close>, which a pattern's \<open>test\<close> and \<open>map(String)\<close> apply.\<close>

fun js_string :: "json \<Rightarrow> string" where
  "js_string JNull = ''null''"
| "js_string (JBool b) = (if b then ''true'' else ''false'')"
| "js_string (JNum q) = num_str q"
| "js_string (JStr s) = s"
| "js_string (JArr vs) = js_join '','' (map (\<lambda>v. if v = JNull then [] else js_string v) vs)"
| "js_string (JObj _) = ''[object Object]''"

definition run_id_text :: "string \<Rightarrow> bool" where
  "run_id_text s \<longleftrightarrow> s \<noteq> [] \<and> list_all (\<lambda>c. is_word_char c \<or> c = CHR ''-'') s"

section \<open>What a call may address\<close>

definition boundRun :: "principal \<Rightarrow> protocol_error + string option" where
  "boundRun p =
     (if pr_role p = OwnerRole then Inr None
      else if pr_role p = MemberRole \<and> pr_runId p = None
        then Inl (ProtocolError FORBIDDEN ''a member principal must be bound to a run'')
      else Inr (pr_runId p))"

record swarm_ctx =
  cx_live :: "(string, swarm_event list) jmap"
  cx_file :: "string \<Rightarrow> swarm_event list"
  cx_train :: "train_service option"
  cx_tokens :: "(string, principal) jmap"
  cx_trainPrincipal :: "string \<Rightarrow> string option"

datatype swarm_call =
    ListRuns "string option"
  | ViewRun string "rat option"
  | ReadEvents string rat rat
  | OpenQuestions "(string \<times> question) list"
  | ReadLandings string
  | ReadMetrics string
  | AnswerQuestion string string string role
  | StartRun json "string option" "string option" "json option" rat
  | SteerRun string string string role
  | CancelRun string
  | AttachRun string
  | TrainCard
  | TrainEnqueue string string string "string list" "rat option"
  | TrainWithdraw string string
  | TrainEvents caller rat rat
  | TrainStatus
  | TrainInvite string
  | TrainRevoke string
  | MintToken principal

definition eventsOf :: "swarm_ctx \<Rightarrow> string \<Rightarrow> protocol_error + swarm_event list" where
  "eventsOf cx runId = (let es = or_else (jm_get (cx_live cx) runId) (cx_file cx runId) in
     if foldRun es = None then Inl (ProtocolError NOT_FOUND (''unknown run \"'' @ runId @ ''\"'')) else Inr es)"

definition liveRun :: "swarm_ctx \<Rightarrow> string \<Rightarrow> protocol_error + swarm_event list" where
  "liveRun cx runId = (case jm_get (cx_live cx) runId of
     None \<Rightarrow> Inl (ProtocolError NOT_FOUND (''run \"'' @ runId @ ''\" is not live in this process''))
   | Some es \<Rightarrow> Inr es)"

definition on_run :: "protocol_error + swarm_event list \<Rightarrow> swarm_call \<Rightarrow> protocol_error + swarm_call" where
  "on_run es c = (case es of Inl e \<Rightarrow> Inl e | Inr _ \<Rightarrow> Inr c)"

definition trainOf :: "swarm_ctx \<Rightarrow> swarm_call \<Rightarrow> protocol_error + swarm_call" where
  "trainOf cx c = (if cx_train cx = None then Inl (ProtocolError NOT_FOUND ''this process hosts no train'') else Inr c)"

definition trainName :: "principal \<Rightarrow> string" where
  "trainName p = (if pr_role p = ClientRole then or_else (pr_client p) ''undefined'' else ''owner'')"

definition train_caller :: "principal \<Rightarrow> caller" where
  "train_caller p = (if pr_role p = OwnerRole then OwnerCaller
     else if pr_role p = ClientRole then ClientCaller (or_else (pr_client p) ''undefined'') else OtherCaller)"

section \<open>The handlers\<close>

definition str_param :: "json \<Rightarrow> string \<Rightarrow> string" where
  "str_param p k = (case jfield k p of Some (JStr s) \<Rightarrow> s | _ \<Rightarrow> [])"

definition opt_str :: "json \<Rightarrow> string \<Rightarrow> string option" where
  "opt_str p k = (case jfield k p of Some (JStr s) \<Rightarrow> Some s | _ \<Rightarrow> None)"

definition opt_num :: "json \<Rightarrow> string \<Rightarrow> rat option" where
  "opt_num p k = (case jfield k p of Some (JNum q) \<Rightarrow> Some q | _ \<Rightarrow> None)"

definition opt_list :: "json \<Rightarrow> string \<Rightarrow> string list" where
  "opt_list p k = (case jfield k p of Some (JArr vs) \<Rightarrow> map js_string vs | _ \<Rightarrow> [])"

primrec questions_of :: "swarm_ctx \<Rightarrow> string list \<Rightarrow> protocol_error + (string \<times> question) list" where
  "questions_of cx [] = Inr []"
| "questions_of cx (r # rs) = (case eventsOf cx r of
     Inl e \<Rightarrow> Inl e
   | Inr es \<Rightarrow> (case questions_of cx rs of
       Inl e \<Rightarrow> Inl e
     | Inr qs \<Rightarrow> Inr (map (\<lambda>q. (r, q)) (filter (\<lambda>q. qn_status q = Open) (jm_vals (foldQuestions es))) @ qs)))"

definition kind_str :: "question_kind \<Rightarrow> string" where
  "kind_str k = (case k of Escalation \<Rightarrow> ''escalation'' | Consent \<Rightarrow> ''consent'' | Approval \<Rightarrow> ''approval'')"

definition tier_str :: "tier \<Rightarrow> string" where
  "tier_str t = (case t of Low \<Rightarrow> ''low'' | High \<Rightarrow> ''high'')"

definition answer_call :: "swarm_ctx \<Rightarrow> principal \<Rightarrow> string \<Rightarrow> string \<Rightarrow> string \<Rightarrow> protocol_error + swarm_call" where
  "answer_call cx p runId questionId choice = (case liveRun cx runId of
     Inl e \<Rightarrow> Inl e
   | Inr es \<Rightarrow> (let missing = ProtocolError NOT_FOUND (''run '' @ runId @ '' has no open question \"'' @ questionId @ ''\"'') in
       case jm_get (foldQuestions es) questionId of
         None \<Rightarrow> Inl missing
       | Some q \<Rightarrow>
           if qn_status q \<noteq> Open then Inl missing
           else if pr_role p \<noteq> OwnerRole \<and> (qn_tier q \<noteq> Low \<or> qn_kind q = Consent \<or> qn_kind q = Approval)
             then Inl (ProtocolError FORBIDDEN (protocol_role (pr_role p) @ '' may not answer '' @ tier_str (qn_tier q) @ ''-tier '' @
               kind_str (qn_kind q) @ '' '' @ questionId))
           else if choice \<notin> set (qn_options q)
             then Inl (invalid ''swarm/answer'' (''answer must be one of '' @ js_join '', '' (qn_options q)))
           else Inr (AnswerQuestion runId questionId choice (pr_role p))))"

definition token_call :: "string \<Rightarrow> string option \<Rightarrow> string option \<Rightarrow> protocol_error + swarm_call" where
  "token_call ro runId member' =
     (if ro = ''client'' then Inl (invalid ''swarm/token'' ''a client token comes from swarm/train/invite, which names the client'')
      else case find (\<lambda>r. protocol_role r = ro) roles of
        None \<Rightarrow> Inl (invalid ''swarm/token'' (''role must be one of '' @ js_join '', '' (map protocol_role roles)))
      | Some r \<Rightarrow>
          if (r = MemberRole) \<noteq> (member' \<noteq> None) \<or> r = MemberRole \<and> runId = None
          then Inl (invalid ''swarm/token'' ''a member token needs runId and member; no other role takes a member'')
          else Inr (MintToken \<lparr>pr_role = r, pr_runId = runId, pr_member = member', pr_client = None\<rparr>))"

definition handle :: "swarm_ctx \<Rightarrow> principal \<Rightarrow> string option \<Rightarrow> string \<Rightarrow> json \<Rightarrow> protocol_error + swarm_call" where
  "handle cx p bound method ps = (let run = str_param ps ''runId'' in
     if method = ''swarm/runs'' then Inr (ListRuns bound)
     else if method = ''swarm/view'' then on_run (eventsOf cx run) (ViewRun run (opt_num ps ''since''))
     else if method = ''swarm/events'' then
       on_run (eventsOf cx run) (ReadEvents run (or_else (opt_num ps ''afterSeq'') (- 1)) (min (or_else (opt_num ps ''waitMs'') 0) 30000))
     else if method = ''swarm/questions'' then
       (case questions_of cx (case or_opt (opt_str ps ''runId'') bound of None \<Rightarrow> jm_keys (cx_live cx) | Some r \<Rightarrow> [r]) of
          Inl e \<Rightarrow> Inl e | Inr qs \<Rightarrow> Inr (OpenQuestions qs))
     else if method = ''swarm/landings'' then on_run (eventsOf cx run) (ReadLandings run)
     else if method = ''swarm/metrics'' then on_run (eventsOf cx run) (ReadMetrics run)
     else if method = ''swarm/answer'' then answer_call cx p run (str_param ps ''questionId'') (str_param ps ''answer'')
     else if method = ''swarm/start'' then
       Inr (StartRun (or_else (jfield ''spec'' ps) JNull) (opt_str ps ''provider'') (opt_str ps ''model'') (jfield ''worktrees'' ps)
         (or_else (opt_num ps ''questionTimeoutMs'') 300000))
     else if method = ''swarm/steer'' then
       on_run (liveRun cx run) (SteerRun run (str_param ps ''to'') (str_param ps ''text'') (pr_role p))
     else if method = ''swarm/cancel'' then on_run (liveRun cx run) (CancelRun run)
     else if method = ''swarm/attach'' then on_run (eventsOf cx run) (AttachRun run)
     else if method = ''swarm/train/card'' then trainOf cx TrainCard
     else if method = ''swarm/train/enqueue'' then
       trainOf cx (TrainEnqueue (trainName p) (str_param ps ''branch'') (str_param ps ''sha'') (opt_list ps ''blockedBy'') (opt_num ps ''epoch''))
     else if method = ''swarm/train/withdraw'' then trainOf cx (TrainWithdraw (trainName p) (str_param ps ''id''))
     else if method = ''swarm/train/events'' then
       trainOf cx (TrainEvents (train_caller p) (or_else (opt_num ps ''afterSeq'') (- 1)) (or_else (opt_num ps ''waitMs'') 0))
     else if method = ''swarm/train/status'' then trainOf cx TrainStatus
     else if method = ''swarm/train/invite'' then trainOf cx (TrainInvite (str_param ps ''name''))
     else if method = ''swarm/train/revoke'' then trainOf cx (TrainRevoke (str_param ps ''name''))
     else token_call (str_param ps ''role'') (opt_str ps ''runId'') (opt_str ps ''member''))"

section \<open>Dispatch\<close>

definition revoked_client :: "swarm_ctx \<Rightarrow> principal \<Rightarrow> bool" where
  "revoked_client cx p \<longleftrightarrow> pr_role p = ClientRole \<and>
     (case cx_train cx of None \<Rightarrow> False | Some t \<Rightarrow> \<not> isClient t (or_else (pr_client p) []))"

definition addresses :: "(string \<times> param_type) list \<Rightarrow> json \<Rightarrow> string \<Rightarrow> bool" where
  "addresses params ps b \<longleftrightarrow> (\<exists>n \<in> set (map fst params). n = ''runId'' \<or> n = ''runId?'') \<and> jfield ''runId'' ps = Some (JStr b)"

definition lists_own :: "string \<Rightarrow> json \<Rightarrow> bool" where
  "lists_own method ps \<longleftrightarrow> method = ''swarm/runs'' \<or> method = ''swarm/questions'' \<and> jfield ''runId'' ps = None"

definition is_jobj :: "json \<Rightarrow> bool" where
  "is_jobj v = (case v of JObj _ \<Rightarrow> True | _ \<Rightarrow> False)"

definition dispatch :: "swarm_ctx \<Rightarrow> principal \<Rightarrow> string \<Rightarrow> json \<Rightarrow> protocol_error + swarm_call" where
  "dispatch cx p method ps = (case map_of METHODS method of
     None \<Rightarrow> Inl (ProtocolError UNKNOWN_METHOD (''unknown swarm method: '' @ method))
   | Some (grp, params) \<Rightarrow>
       if grp \<notin> set (POLICY (pr_role p))
         then Inl (ProtocolError FORBIDDEN (protocol_role (pr_role p) @ '' may not call '' @ method))
       else if revoked_client cx p
         then Inl (ProtocolError FORBIDDEN (''client '' @ undef (pr_client p) @ '' is no longer invited''))
       else if \<not> is_jobj ps then Inl (invalid method ''params must be an object'')
       else (case find (bad_param ps) params of
         Some (n, t) \<Rightarrow> Inl (invalid method (param_key n @ '' must be '' @ param_str t))
       | None \<Rightarrow>
           if (case jfield ''runId'' ps of None \<Rightarrow> False | Some v \<Rightarrow> \<not> run_id_text (js_string v))
             then Inl (invalid method (''invalid run id \"'' @ (case jfield ''runId'' ps of None \<Rightarrow> [] | Some v \<Rightarrow> js_string v) @ ''\"''))
           else (case boundRun p of
             Inl e \<Rightarrow> Inl e
           | Inr bound \<Rightarrow>
               if (case bound of None \<Rightarrow> False | Some b \<Rightarrow> \<not> lists_own method ps \<and> \<not> addresses params ps b)
                 then Inl (ProtocolError FORBIDDEN (method @ '': this principal is bound to run '' @ or_else bound []))
               else handle cx p bound method ps)))"

section \<open>The carrier's connection\<close>

definition principal_of_token :: "swarm_ctx \<Rightarrow> string \<Rightarrow> principal option" where
  "principal_of_token cx token = or_opt (jm_get (cx_tokens cx) token)
     (map_option (\<lambda>n. \<lparr>pr_role = ClientRole, pr_runId = None, pr_member = None, pr_client = Some n\<rparr>) (cx_trainPrincipal cx token))"

datatype carrier_reply = Authenticated principal | PassedThrough | Dispatched swarm_call

definition on_request :: "swarm_ctx \<Rightarrow> principal option \<Rightarrow> string \<Rightarrow> json \<Rightarrow> (protocol_error + carrier_reply) \<times> principal option" where
  "on_request cx who method ps =
     (if method = ''swarm/auth'' then
        (if who \<noteq> None then (Inl (ProtocolError FORBIDDEN ''this connection is already authenticated''), who)
         else case principal_of_token cx (case jfield ''token'' ps of None \<Rightarrow> ''undefined'' | Some v \<Rightarrow> js_string v) of
           None \<Rightarrow> (Inl (ProtocolError FORBIDDEN ''unknown token''), None)
         | Some p \<Rightarrow> (Inr (Authenticated p), Some p))
      else case who of
        None \<Rightarrow> (Inl (ProtocolError FORBIDDEN (''authenticate with swarm/auth before '' @ method)), None)
      | Some p \<Rightarrow>
          if \<not> starts_with method ''swarm/'' then
            (if pr_role p = OwnerRole then Inr PassedThrough
             else Inl (ProtocolError FORBIDDEN (protocol_role (pr_role p) @ '' may not call '' @ method)), Some p)
          else ((case dispatch cx p method ps of Inl e \<Rightarrow> Inl e | Inr c \<Rightarrow> Inr (Dispatched c)), Some p))"

section \<open>The train's calls, performed\<close>

datatype train_reply =
    CardReply train_card
  | EnqueuedReply string shared_state
  | WithdrawnReply
  | EventsReply "shared_event jevent list" rat
  | StatusReply "shared_entry list" "string list"
  | InvitedReply string train_card
  | RevokedReply
  | OtherReply

fun perform :: "nat \<Rightarrow> service_config \<Rightarrow> string option \<Rightarrow> 'w service_deps \<Rightarrow> swarm_call \<Rightarrow> ('w, train_reply) sv" where
  "perform k c url d TrainCard = ret (CardReply (service_card c url))"
| "perform k c url d (TrainEnqueue p b sha bs ep) =
     andThen (service_enqueue k d p b sha bs ep) (\<lambda>(i, st). ret (EnqueuedReply i st))"
| "perform k c url d (TrainWithdraw p i) = andThen (service_withdraw k d p i) (\<lambda>_. ret WithdrawnReply)"
| "perform k c url d (TrainEvents who after waits) =
     sees (\<lambda>s. case service_events s who after of (es, next) \<Rightarrow> EventsReply es next)"
| "perform k c url d TrainStatus = sees (\<lambda>s. case service_status s of (es, cs) \<Rightarrow> StatusReply es cs)"
| "perform k c url d (TrainInvite n) = andThen (invite k d n) (\<lambda>t. ret (InvitedReply t (service_card c url)))"
| "perform k c url d (TrainRevoke n) = andThen (revoke k d n) (\<lambda>_. ret RevokedReply)"
| "perform k c url d _ = ret OtherReply"

end
