(* ===== verification/ProtocolProperties.thy ===== *)
theory ProtocolProperties
  imports Protocol SharedClients
begin

text \<open>
  What the protocol's policy promises: a call that is let through is one its principal's role may make; a principal
  bound to a run reaches that run alone; only a person answers what needs one; and a client of the train changes and sees
  its own entries only.
\<close>

section \<open>What a call reaches\<close>

fun call_group :: "swarm_call \<Rightarrow> method_group" where
  "call_group (AnswerQuestion _ _ _ _) = AnswerGroup"
| "call_group (StartRun _ _ _ _ _) = DirectionGroup"
| "call_group (SteerRun _ _ _ _) = DirectionGroup"
| "call_group (CancelRun _) = DirectionGroup"
| "call_group (AttachRun _) = DirectionGroup"
| "call_group TrainCard = TrainGroup"
| "call_group (TrainEnqueue _ _ _ _ _) = TrainGroup"
| "call_group (TrainWithdraw _ _) = TrainGroup"
| "call_group (TrainEvents _ _ _) = TrainGroup"
| "call_group TrainStatus = AdminGroup"
| "call_group (TrainInvite _) = AdminGroup"
| "call_group (TrainRevoke _) = AdminGroup"
| "call_group (MintToken _) = AdminGroup"
| "call_group _ = StateGroup"

text \<open>The runs a call is about; none when it is about no run in particular, or about all of them.\<close>

fun call_runs :: "swarm_call \<Rightarrow> string list option" where
  "call_runs (ListRuns r) = map_option (\<lambda>r. [r]) r"
| "call_runs (ViewRun r _) = Some [r]"
| "call_runs (ReadEvents r _ _) = Some [r]"
| "call_runs (OpenQuestions qs) = Some (map fst qs)"
| "call_runs (ReadLandings r) = Some [r]"
| "call_runs (ReadMetrics r) = Some [r]"
| "call_runs (AnswerQuestion r _ _ _) = Some [r]"
| "call_runs (SteerRun r _ _ _) = Some [r]"
| "call_runs (CancelRun r) = Some [r]"
| "call_runs (AttachRun r) = Some [r]"
| "call_runs _ = None"

text \<open>What dispatch has checked by the time it calls a handler.\<close>

lemma dispatch_Inr:
  assumes "dispatch cx p method ps = Inr c"
  obtains grp params bound where "map_of METHODS method = Some (grp, params)" and "grp \<in> set (POLICY (pr_role p))"
    and "\<not> revoked_client cx p" and "boundRun p = Inr bound"
    and "\<And>b. bound = Some b \<Longrightarrow> lists_own method ps \<or> addresses params ps b"
    and "handle cx p bound method ps = Inr c"
  using assms unfolding dispatch_def
  by (auto split: option.splits if_splits sum.splits prod.splits)

lemma on_run_Inr: "on_run es c = Inr d \<longleftrightarrow> d = c \<and> (\<exists>x. es = Inr x)"
  by (cases es) (auto simp: on_run_def)

lemma trainOf_Inr: "trainOf cx c = Inr d \<longleftrightarrow> d = c \<and> cx_train cx \<noteq> None"
  by (auto simp: trainOf_def)

lemma token_call_Inr: "token_call ro r m = Inr c \<Longrightarrow> \<exists>q. c = MintToken q"
  by (auto simp: token_call_def split: if_splits option.splits)

lemma answer_call_Inr: "answer_call cx p r q a = Inr c \<Longrightarrow> c = AnswerQuestion r q a (pr_role p)"
  by (auto simp: answer_call_def Let_def split: sum.splits option.splits if_splits)

lemma questions_of_runs: "questions_of cx rs = Inr qs \<Longrightarrow> set (map fst qs) \<subseteq> set rs"
proof (induction rs arbitrary: qs)
  case (Cons r rs)
  then obtain os qs' where "questions_of cx rs = Inr qs'" and "qs = map (\<lambda>q. (r, q)) os @ qs'" by (auto split: sum.splits)
  with Cons.IH show ?case by fastforce
qed simp

lemmas handled = on_run_Inr trainOf_Inr

lemma handle_group:
  assumes "map_of METHODS method = Some (grp, params)" and "handle cx p bound method ps = Inr c"
  shows "call_group c = grp"
  using assms
  by (auto simp: METHODS_def handle_def Let_def handled split: if_splits sum.splits dest!: answer_call_Inr token_call_Inr)

lemma handle_runs:
  assumes "map_of METHODS method = Some (grp, params)" and "handle cx p (Some b) method ps = Inr c"
    and "lists_own method ps \<or> addresses params ps b" and "grp \<noteq> AdminGroup"
  shows "\<exists>rs. call_runs c = Some rs \<and> set rs \<subseteq> {b}"
  using assms
  by (auto simp: METHODS_def handle_def Let_def handled lists_own_def addresses_def str_param_def opt_str_def
    split: if_splits sum.splits dest!: answer_call_Inr token_call_Inr questions_of_runs)

lemma handle_train:
  assumes "map_of METHODS method = Some (TrainGroup, params)" and "handle cx p bound method ps = Inr c"
  shows "cx_train cx \<noteq> None"
  using assms by (auto simp: METHODS_def handle_def Let_def handled split: if_splits)

text \<open>C28: A call the protocol lets through is one its principal's role may make; one bound to a run, as every member is,
  reaches that run alone, and starts none; and a client of the train is one still invited there.\<close>

theorem dispatch_confined:
  assumes "dispatch cx p method ps = Inr c"
  shows "call_group c \<in> set (POLICY (pr_role p)) \<and>
    (pr_role p = OwnerRole \<or> pr_runId p = None \<and> pr_role p \<noteq> MemberRole \<or>
      (\<exists>rs. call_runs c = Some rs \<and> set rs \<subseteq> set_option (pr_runId p))) \<and>
    (pr_role p \<noteq> ClientRole \<or> (\<exists>t. cx_train cx = Some t \<and> isClient t (or_else (pr_client p) [])))"
proof -
  from assms obtain grp params bound where m: "map_of METHODS method = Some (grp, params)" and g: "grp \<in> set (POLICY (pr_role p))"
    and rev: "\<not> revoked_client cx p" and bound: "boundRun p = Inr bound"
    and own: "\<And>b. bound = Some b \<Longrightarrow> lists_own method ps \<or> addresses params ps b"
    and h: "handle cx p bound method ps = Inr c"
    by (rule dispatch_Inr) blast
  have "call_group c \<in> set (POLICY (pr_role p))" using handle_group [OF m h] g by simp
  moreover have "pr_role p = OwnerRole \<or> pr_runId p = None \<and> pr_role p \<noteq> MemberRole \<or>
      (\<exists>rs. call_runs c = Some rs \<and> set rs \<subseteq> set_option (pr_runId p))"
  proof (cases "pr_role p = OwnerRole \<or> pr_runId p = None")
    case True
    with bound show ?thesis by (auto simp: boundRun_def split: if_splits)
  next
    case False
    then obtain b where r: "pr_runId p = Some b" by auto
    with bound False have b: "bound = Some b" by (simp add: boundRun_def)
    from g False have "grp \<noteq> AdminGroup" by (cases "pr_role p") auto
    from handle_runs [OF m h [unfolded b] own [OF b] this] r show ?thesis by auto
  qed
  moreover have "pr_role p \<noteq> ClientRole \<or> (\<exists>t. cx_train cx = Some t \<and> isClient t (or_else (pr_client p) []))"
  proof (cases "pr_role p = ClientRole")
    case True
    with g m have "map_of METHODS method = Some (TrainGroup, params)" by simp
    with h have "cx_train cx \<noteq> None" by (rule_tac handle_train)
    with True rev show ?thesis by (auto simp: revoked_client_def)
  qed simp
  ultimately show ?thesis by blast
qed

text \<open>Only the owner answers a question of the high tier, a consent or an approval; a driver's answer is to an open,
  low-tier escalation of a live run, with one of its options, and nobody else answers.\<close>

theorem answer_tiers:
  assumes "dispatch cx p method ps = Inr (AnswerQuestion r i choice by')"
  shows "by' = pr_role p \<and> (\<exists>es q. jm_get (cx_live cx) r = Some es \<and> jm_get (foldQuestions es) i = Some q \<and>
    qn_status q = Open \<and> choice \<in> set (qn_options q) \<and>
    (pr_role p = OwnerRole \<or> pr_role p = DriverRole \<and> qn_tier q = Low \<and> qn_kind q = Escalation))"
proof -
  from assms obtain grp params bound where m: "map_of METHODS method = Some (grp, params)" and g: "grp \<in> set (POLICY (pr_role p))"
    and h: "handle cx p bound method ps = Inr (AnswerQuestion r i choice by')"
    by (rule dispatch_Inr) blast
  from handle_group [OF m h] g have role: "pr_role p = OwnerRole \<or> pr_role p = DriverRole" by (cases "pr_role p") auto
  from h have "answer_call cx p (str_param ps ''runId'') (str_param ps ''questionId'') (str_param ps ''answer'') = Inr (AnswerQuestion r i choice by')"
    by (auto simp: handle_def Let_def handled split: if_splits sum.splits dest: token_call_Inr)
  with role show ?thesis
    by (auto simp: answer_call_def Let_def liveRun_def split: sum.splits option.splits if_splits question_kind.split)
      (metis question_kind.exhaust)+
qed

text \<open>A process with one live run, whose driver's token is bound to it, and a train with one client, who tries to withdraw another's entry.\<close>

definition demo_open_question :: question where
  "demo_open_question = \<lparr>qn_id = ''q1'', qn_trigger = Stall, qn_kind = Escalation, qn_tier = Low, qn_prompt = ''go on?'', qn_taskId = None,
     qn_options = [''yes'', ''no''], qn_default = ''no'', qn_status = Open, qn_answer = None, qn_by = None, qn_raisedAt = 0, qn_closedAt = None\<rparr>"

definition demo_process :: swarm_ctx where
  "demo_process = \<lparr>cx_live = [(''r1'', [QuestionEvent demo_open_question])], cx_file = (\<lambda>_. []),
     cx_train = Some (demo_queue\<lparr>ts_clients := [(''h'', ''bob'')]\<rparr>), cx_tokens = [], cx_trainPrincipal = (\<lambda>_. None)\<rparr>"

definition demo_driver :: principal where
  "demo_driver = \<lparr>pr_role = DriverRole, pr_runId = Some ''r1'', pr_member = None, pr_client = None\<rparr>"

definition demo_client :: principal where
  "demo_client = \<lparr>pr_role = ClientRole, pr_runId = None, pr_member = None, pr_client = Some ''bob''\<rparr>"

lemmas demo_protocol_simps = dispatch_def METHODS_def handle_def Let_def handled bad_param_def param_key_def ends_with_def is_jobj_def
  jfield_def jm_get_def run_id_text_def is_word_char_def is_alpha_def is_digit_def boundRun_def revoked_client_def lists_own_def addresses_def
  str_param_def opt_str_def opt_num_def liveRun_def on_run_def trainOf_def demo_process_def demo_driver_def demo_client_def

theorem dispatch_confined_witness:
  "dispatch demo_process demo_driver ''swarm/cancel'' (JObj [(''runId'', JStr ''r1'')]) = Inr (CancelRun ''r1'') \<and>
    DirectionGroup \<in> set (POLICY (pr_role demo_driver)) \<and> set [''r1''] \<subseteq> set_option (pr_runId demo_driver)"
proof -
  have call: "dispatch demo_process demo_driver ''swarm/cancel'' (JObj [(''runId'', JStr ''r1'')]) = Inr (CancelRun ''r1'')"
    by (simp add: demo_protocol_simps)
  from dispatch_confined [OF this] call show ?thesis by (simp add: demo_driver_def)
qed

theorem answer_tiers_witness:
  "\<exists>es q. jm_get (cx_live demo_process) ''r1'' = Some es \<and> jm_get (foldQuestions es) ''q1'' = Some q \<and> qn_tier q = Low \<and> qn_kind q = Escalation"
proof -
  have "dispatch demo_process demo_driver ''swarm/answer'' (JObj [(''runId'', JStr ''r1''), (''questionId'', JStr ''q1''), (''answer'', JStr ''yes'')]) =
      Inr (AnswerQuestion ''r1'' ''q1'' ''yes'' DriverRole)"
    by (simp add: demo_protocol_simps answer_call_def foldQuestions_def demo_open_question_def jm_set_def)
  from answer_tiers [OF this] show ?thesis by (auto simp: demo_driver_def)
qed

section \<open>Clients of the train\<close>

definition owned_by :: "string \<Rightarrow> train_service \<Rightarrow> string \<Rightarrow> bool" where
  "owned_by c s i \<longleftrightarrow> map_option se_principal (jm_get (ts_entries s) i) = Some c"

definition foreign :: "string \<Rightarrow> train_service \<Rightarrow> (string \<times> shared_entry) set" where
  "foreign c s = {(i, e). jm_get (ts_entries s) i = Some e \<and> se_principal e \<noteq> c}"

definition theirs_kept :: "string \<Rightarrow> train_service \<Rightarrow> train_service \<Rightarrow> bool" where
  "theirs_kept c s s' \<longleftrightarrow> foreign c s' = foreign c s \<and> ts_clients s' = ts_clients s \<and> {i. owned_by c s i} \<subseteq> {i. owned_by c s' i}"

interpretation isolating: state_relation "theirs_kept c" for c
  by unfold_locales (auto simp: theirs_kept_def)

text \<open>The events that are about the client's own entries.\<close>

fun touches_own :: "string \<Rightarrow> train_service \<Rightarrow> shared_event \<Rightarrow> bool" where
  "touches_own c s (ShWithdrawn i _) \<longleftrightarrow> owned_by c s i"
| "touches_own c s (ShEjected i _ _ _ _) \<longleftrightarrow> owned_by c s i"
| "touches_own c s (ShEnqueued i p _ _ _ _) \<longleftrightarrow> p = c \<and> i \<notin> fst ` foreign c s"
| "touches_own c s _ \<longleftrightarrow> False"

lemma mark_own: "owned_by c s i \<Longrightarrow> theirs_kept c s (mark_entry i st s)"
  by (auto simp: theirs_kept_def foreign_def owned_by_def mark_entry_def split: option.splits if_splits)

lemma theirs_kept_journal [simp]: "theirs_kept c s (t\<lparr>ts_journal := j\<rparr>) = theirs_kept c s t"
  by (simp add: theirs_kept_def foreign_def owned_by_def)

lemma touches_own_kept: "touches_own c s e \<Longrightarrow> theirs_kept c s (apply_event s (t, e))"
  unfolding apply_event_fold
  by (cases e) (auto simp: mark_own, force simp: theirs_kept_def foreign_def owned_by_def image_iff split: if_splits)

lemma evolves_ok: "keeps evolves m \<Longrightarrow> m (s, w) = (r, (s', w')) \<Longrightarrow> entries_ok s \<Longrightarrow> entries_ok s'"
  by (drule (1) keepsD) (auto simp: evolves_def intro: queue.run_inv)

lemma each_do_inv:
  assumes "each_do f xs (s, w) = (r, (s', w'))" and "Q s"
    and "\<And>x s w r s' w'. x \<in> set xs \<Longrightarrow> Q s \<Longrightarrow> f x (s, w) = (r, (s', w')) \<Longrightarrow> Q s'"
  shows "Q s'"
  using assms
proof (induction xs arbitrary: s w)
  case Nil
  then show ?case by (simp add: ret_def)
next
  case (Cons x xs)
  from Cons.prems(1) have "andThen (f x) (\<lambda>_. each_do f xs) (s, w) = (r, (s', w'))" by simp
  then show ?case
  proof (cases rule: andThen_cases)
    case (1 e)
    with Cons.prems(3) [OF _ Cons.prems(2) 1(1)] show ?thesis by simp
  next
    case (2 y sw)
    obtain s1 w1 where sw: "sw = (s1, w1)" by force
    from Cons.prems(3) [OF _ Cons.prems(2) 2(1) [unfolded sw]] have "Q s1" by simp
    from Cons.IH [OF 2(2) [unfolded sw] this] Cons.prems(3) show ?thesis by (metis list.set_intros(2))
  qed
qed

lemma record_own:
  assumes "service_record k (quiet d) e (s, w) = (r, (s', w'))" and "entries_ok s" and "touches_own c s e"
  shows "theirs_kept c s s'"
  using assms
proof (induction k arbitrary: e s w r s' w')
  case 0
  then show ?case by (simp add: throw_def isolating.R_refl)
next
  case (Suc k)
  from Suc.prems(1) show ?case
    unfolding record_unfold
  proof (cases rule: andThen_cases)
    case (1 x)
    from append_event_quiet [OF 1(1)] Suc.prems(3) show ?thesis by (auto intro: touches_own_kept isolating.R_refl)
  next
    case (2 u sw)
    obtain s1 w1 where sw: "sw = (s1, w1)" by force
    from append_event_quiet [OF 2(1) [unfolded sw]] obtain t where s1: "s1 = apply_event s (t, e)" by auto
    have kept: "theirs_kept c s s1" unfolding s1 using Suc.prems(3) by (rule touches_own_kept)
    have ok: "entries_ok s1" unfolding s1 using Suc.prems(2) by (rule entries_ok_event)
    note rest = 2(2) [unfolded sw]
    show ?thesis
    proof (cases "leaves e = None \<or> (\<exists>i. leaves e = Some i \<and> jm_get (ts_entries s1) i = None)")
      case True
      with rest kept show ?thesis by (auto simp: ret_def sees_then)
    next
      case False
      then obtain i g where i: "leaves e = Some i" and g: "jm_get (ts_entries s1) i = Some g" by auto
      from i Suc.prems(3) have "owned_by c s i" by (cases e rule: leaves.cases) auto
      with kept g have gc: "se_principal g = c" by (auto simp: theirs_kept_def owned_by_def)
      from rest i g have "each_do (\<lambda>e. andThen (sees (\<lambda>s. waits_for g s e)) (\<lambda>b. if b then service_record k (quiet d) (blocked_event g e) else ret ()))
          (jm_vals (ts_entries s1)) (s1, w1) = (r, (s', w'))" by (simp add: sees_then)
      then have "entries_ok s' \<and> theirs_kept c s1 s'"
      proof (rule each_do_inv)
        show "entries_ok s1 \<and> theirs_kept c s1 s1" by (simp add: ok isolating.R_refl)
        fix x sx wx rx sy wy
        assume x: "x \<in> set (jm_vals (ts_entries s1))" and inv: "entries_ok sx \<and> theirs_kept c s1 sx"
          and run: "andThen (sees (\<lambda>s. waits_for g s x)) (\<lambda>b. if b then service_record k (quiet d) (blocked_event g x) else ret ()) (sx, wx) = (rx, (sy, wy))"
        show "entries_ok sy \<and> theirs_kept c s1 sy"
        proof (cases "waits_for g sx x")
          case True
          with run have rec: "service_record k (quiet d) (blocked_event g x) (sx, wx) = (rx, (sy, wy))" by (simp add: sees_then)
          from ok x have "jm_get (ts_entries s1) (se_id x) = Some x" by (rule entries_ok_get)
          with True gc have "owned_by c s1 (se_id x)" by (simp add: owned_by_def waits_for_def)
          with inv have "touches_own c sx (blocked_event g x)" by (auto simp: blocked_event_def theirs_kept_def)
          with Suc.IH [OF rec] inv evolves_ok [OF evolves_record rec] show ?thesis by (auto intro: isolating.R_trans)
        next
          case False
          with run inv show ?thesis by (auto simp: sees_then ret_def)
        qed
      qed
      with kept show ?thesis by (auto intro: isolating.R_trans)
    qed
  qed
qed

lemma supersede_own:
  assumes "supersede_from n k (quiet d) c b i (s, w) = (r, (s', w'))" and "entries_ok s"
  shows "theirs_kept c s s'"
  using assms
proof (induction n arbitrary: i s w)
  case 0
  then show ?case by (simp add: throw_def isolating.R_refl)
next
  case (Suc n)
  show ?case
  proof (cases "i < length (ts_entries s)")
    case False
    with Suc.prems show ?thesis by (auto simp: sees_then ret_def isolating.R_refl)
  next
    case True
    let ?e = "jm_vals (ts_entries s) ! i"
    let ?first = "if supersedes c b ?e then service_record k (quiet d) (ShWithdrawn (se_id ?e) Superseded) else ret ()"
    from True have "?e \<in> set (jm_vals (ts_entries s))" by (simp add: jm_vals_def)
    with Suc.prems(2) have e: "jm_get (ts_entries s) (se_id ?e) = Some ?e" by (rule entries_ok_get)
    from Suc.prems(1) True have "andThen ?first (\<lambda>_. supersede_from n k (quiet d) c b (i + 1)) (s, w) = (r, (s', w'))"
      by (simp add: sees_then)
    moreover have first: "entries_ok s1 \<and> theirs_kept c s s1" if "?first (s, w) = (q, (s1, w1))" for q s1 w1
    proof (cases "supersedes c b ?e")
      case sup: True
      with that have rec: "service_record k (quiet d) (ShWithdrawn (se_id ?e) Superseded) (s, w) = (q, (s1, w1))" by simp
      from sup e have "touches_own c s (ShWithdrawn (se_id ?e) Superseded)" by (simp add: owned_by_def supersedes_def)
      with record_own [OF rec Suc.prems(2)] evolves_ok [OF evolves_record rec Suc.prems(2)] show ?thesis by simp
    next
      case False
      with that Suc.prems(2) show ?thesis by (auto simp: ret_def isolating.R_refl)
    qed
    ultimately show ?thesis
    proof (cases rule: andThen_cases)
      case (1 x)
      with first show ?thesis by blast
    next
      case (2 y sw)
      obtain s1 w1 where sw: "sw = (s1, w1)" by force
      from first [OF 2(1) [unfolded sw]] Suc.IH [OF 2(2) [unfolded sw]] show ?thesis by (blast intro: isolating.R_trans)
    qed
  qed
qed

lemma enqueue_own:
  assumes "service_enqueue k (quiet d) c b sha bs ep (s, w) = (r, (s', w'))" and "entries_ok s"
  shows "theirs_kept c s s'"
proof -
  let ?i = "shared_id c b sha" and ?ev = "ShEnqueued (shared_id c b sha) c b sha bs ep"
  show ?thesis
  proof (cases "valid_branch b \<and> valid_sha sha \<and> jm_get (ts_entries s) ?i = None")
    case False
    with assms(1) show ?thesis
      by (auto simp: service_enqueue_def Let_def sees_then refuse_def throw_def ret_def isolating.R_refl split: if_splits option.splits)
  next
    case True
    with assms(1) have "andThen (supersede_from k k (quiet d) c b 0) (\<lambda>_. andThen (service_record k (quiet d) ?ev) (\<lambda>_. ret (?i, InQueue))) (s, w) = (r, (s', w'))"
      by (simp add: service_enqueue_def Let_def sees_then)
    then show ?thesis
    proof (cases rule: andThen_cases)
      case (1 e)
      from supersede_own [OF 1(1) assms(2)] show ?thesis .
    next
      case (2 u sw)
      obtain s1 w1 where sw: "sw = (s1, w1)" by force
      from supersede_own [OF 2(1) [unfolded sw] assms(2)] have kept: "theirs_kept c s s1" .
      from evolves_ok [OF evolves_supersede 2(1) [unfolded sw] assms(2)] have ok: "entries_ok s1" .
      from kept True have own: "touches_own c s1 ?ev" by (auto simp: theirs_kept_def foreign_def)
      from 2(2) [unfolded sw] have "theirs_kept c s1 s'"
      proof (cases rule: andThen_cases)
        case (1 e)
        from record_own [OF 1(1) ok own] show ?thesis .
      next
        case (2 v sx)
        then show ?thesis using record_own [OF _ ok own] by (cases sx) (auto simp: ret_def)
      qed
      with kept show ?thesis by (rule isolating.R_trans)
    qed
  qed
qed

lemma withdraw_own:
  assumes "service_withdraw k (quiet d) c i (s, w) = (r, (s', w'))" and "entries_ok s" and "c \<noteq> ''owner''"
  shows "theirs_kept c s s'"
proof (cases "\<exists>e. jm_get (ts_entries s) i = Some e \<and> se_principal e = c \<and> se_state e = InQueue")
  case True
  with assms(1) have "service_record k (quiet d) (ShWithdrawn i ByClient) (s, w) = (r, (s', w'))"
    by (auto simp: service_withdraw_def sees_then)
  with True assms(2) show ?thesis by (auto simp: owned_by_def intro: record_own)
next
  case False
  with assms(1,3) show ?thesis
    by (auto simp: service_withdraw_def sees_then refuse_def throw_def ret_def isolating.R_refl split: option.splits if_splits)
qed

lemma handle_client:
  assumes "map_of METHODS method = Some (TrainGroup, params)" and "handle cx p bound method ps = Inr call" and "pr_role p = ClientRole"
  shows "call = TrainCard \<or> (\<exists>b sha bs ep. call = TrainEnqueue (or_else (pr_client p) ''undefined'') b sha bs ep) \<or>
    (\<exists>i. call = TrainWithdraw (or_else (pr_client p) ''undefined'') i) \<or>
    (\<exists>after waits. call = TrainEvents (ClientCaller (or_else (pr_client p) ''undefined'')) after waits)"
  using assms by (auto simp: METHODS_def handle_def Let_def handled trainName_def train_caller_def split: if_splits)

definition sees_own :: "string \<Rightarrow> train_service \<Rightarrow> train_reply \<Rightarrow> bool" where
  "sees_own c s reply \<longleftrightarrow> (case reply of
     EventsReply es _ \<Rightarrow> list_all (\<lambda>e. case event_entry (je_data e) of None \<Rightarrow> False | Some i \<Rightarrow> owned_by c s i) es
   | StatusReply _ _ \<Rightarrow> False
   | InvitedReply _ _ \<Rightarrow> False
   | _ \<Rightarrow> True)"



end
