(* ===== verification/Forge.thy ===== *)
theory Forge
  imports GitFiles Json
begin

text \<open>
  \<open>packages/swarm/src/forge.ts\<close>: landing through a forge's merge queue. Each branch with commits is pushed, opened as a
  pull request and queued; then the run polls the forge until every request is settled or its time is up. What runs
  outside (\<open>gh\<close>, \<open>git\<close>, files, the clock) is the environment; what the function holds (its outcome, the open requests,
  the train journal) is threaded beside it. The polling loop, which only the clock bounds, takes fuel.
\<close>

section \<open>Configuration\<close>

record forge_config =
  fc_kind :: string
  fc_remote :: "string option"
  fc_base :: "string option"
  fc_method :: "string option"
  fc_waitMs :: "js_number option"
  fc_pollMs :: "js_number option"
  fc_command :: "string option"

definition bad_duration :: "js_number option \<Rightarrow> bool" where
  "bad_duration v = (case v of None \<Rightarrow> False | Some NotFinite \<Rightarrow> True | Some (Finite q) \<Rightarrow> q < 0)"

definition validateForge :: "forge_config \<Rightarrow> string option" where
  "validateForge c =
     (if fc_kind c \<noteq> ''github'' then Some (''worktrees.forge.kind must be github, not '' @ fc_kind c)
      else if (case fc_method c of None \<Rightarrow> False | Some m \<Rightarrow> m \<notin> {''merge'', ''squash'', ''rebase''})
        then Some ''worktrees.forge.method must be merge, squash or rebase''
      else if bad_duration (fc_waitMs c) then Some ''worktrees.forge.waitMs must be a non-negative number''
      else if bad_duration (fc_pollMs c) then Some ''worktrees.forge.pollMs must be a non-negative number''
      else None)"

definition forge_remote :: "forge_config \<Rightarrow> string" where
  "forge_remote c = or_else (fc_remote c) ''origin''"

definition forge_base :: "forge_config \<Rightarrow> string" where
  "forge_base c = or_else (fc_base c) ''main''"

section \<open>State and dependencies\<close>

record open_request =
  pr_number :: string
  pr_branch :: string
  pr_commits :: nat

record forge_state =
  fs_open :: "(string, open_request) jmap"
  fs_merged :: "merged_branch list"
  fs_empty :: "branch_ref list"
  fs_withheld :: "branch_ref list"
  fs_landed :: "merged_branch list"
  fs_ejected :: "ejected_branch list"
  fs_journal :: "train_event list"

definition forge_new :: "train_event list \<Rightarrow> forge_state" where
  "forge_new j = \<lparr>fs_open = [], fs_merged = [], fs_empty = [], fs_withheld = [], fs_landed = [], fs_ejected = [], fs_journal = j\<rparr>"

text \<open>\<open>fd_exec\<close> runs a program in the repository's root and gives its output; \<open>fd_bin\<close> is \<open>OPENSWARM_GH_BIN\<close>.\<close>

record 'w forge_deps =
  fd_git :: "'w train_git"
  fd_bin :: "string option"
  fd_exec :: "string \<Rightarrow> string list \<Rightarrow> ('w, thrown, string) act"
  fd_mkdtemp :: "('w, thrown, string) act"
  fd_write :: "string \<Rightarrow> string \<Rightarrow> ('w, thrown, unit) act"
  fd_rm :: "string \<Rightarrow> ('w, thrown, unit) act"
  fd_append :: "train_event \<Rightarrow> ('w, thrown, unit) act"
  fd_runEvents :: "'w \<Rightarrow> swarm_event list"
  fd_subjectOf :: "string \<Rightarrow> string option"
  fd_abort :: "'w \<Rightarrow> thrown option"
  fd_now :: "'w \<Rightarrow> int"
  fd_sleep :: "js_number \<Rightarrow> ('w, thrown, unit) act"

type_synonym ('w, 'a) fg = "(forge_state \<times> 'w, train_stop, 'a) act"

definition gh_bin :: "forge_config \<Rightarrow> 'w forge_deps \<Rightarrow> string" where
  "gh_bin c d = or_else (fc_command c) (or_else (fd_bin d) ''gh'')"

definition gh_call :: "forge_config \<Rightarrow> 'w forge_deps \<Rightarrow> string list \<Rightarrow> ('w, thrown, string) act" where
  "gh_call c d args = trimmed (fd_exec d (gh_bin c d) args)"

definition forge_git :: "'w forge_deps \<Rightarrow> string list \<Rightarrow> ('w, thrown, string) act" where
  "forge_git d args = trimmed (fd_exec d ''git'' args)"

definition forge_live :: "'w forge_deps \<Rightarrow> ('w, unit) fg" where
  "forge_live d = env (\<lambda>w. case fd_abort d w of None \<Rightarrow> (Inr (), w) | Some e \<Rightarrow> (Inl e, w))"

definition forge_record :: "'w forge_deps \<Rightarrow> train_event \<Rightarrow> ('w, unit) fg" where
  "forge_record d e = andThen (env (fd_append d e)) (\<lambda>_. modify (\<lambda>s. s\<lparr>fs_journal := fs_journal s @ [e]\<rparr>))"

section \<open>Evidence\<close>

definition forge_landing :: "string \<Rightarrow> landing_outcome \<Rightarrow> string \<Rightarrow> string \<Rightarrow> landing_at" where
  "forge_landing k out br base = \<lparr>la_key = k, la_outcome = out, la_via = ViaForge, la_unverified = False, la_branch = br,
     la_base = base, la_at = 0, la_batch = None, la_commit = None, la_reason = None, la_diff = None\<rparr>"

text \<open>The bundle of a landing, with the diff when git gives one, the time and what both journals hold.\<close>

definition forge_bundle :: "'w forge_deps \<Rightarrow> landing_at \<Rightarrow> ('w, landing_evidence) fg" where
  "forge_bundle d la =
     andThen (env (attempt (tg_diffStat (fd_git d) (la_base la) (la_branch la)))) (\<lambda>diff.
     andThen (env (reads (fd_now d))) (\<lambda>now.
     andThen (env (reads (fd_runEvents d))) (\<lambda>runEvents.
     andThen (gets fs_journal) (\<lambda>trainEvents.
       ret (buildEvidence (la\<lparr>la_at := now, la_diff := (case diff of Inl _ \<Rightarrow> None | Inr x \<Rightarrow> Some x)\<rparr>) runEvents trainEvents)))))"

definition forge_evidence :: "'w forge_deps \<Rightarrow> landing_at \<Rightarrow> ('w, unit) fg" where
  "forge_evidence d la = andThen (forge_bundle d la) (\<lambda>b. forge_record d (TrEvidence b))"

section \<open>Opening the requests\<close>

text \<open>\<open>/\/pull\/(\d+)/\<close>: the digits after the first \<open>/pull/\<close> that has any.\<close>

fun pull_number :: "string \<Rightarrow> string option" where
  "pull_number [] = None"
| "pull_number (c # cs) =
     (let n = takeWhile is_digit (drop 6 (c # cs)) in
      if starts_with (c # cs) ''/pull/'' \<and> n \<noteq> [] then Some n else pull_number cs)"

definition request_body :: "landing_evidence \<Rightarrow> string" where
  "request_body e = ''Landed by an OpenSwarm run through the merge queue.'' @ nl @ nl @ ''```'' @ nl @
     js_join nl (landingText e None) @ nl @ ''```'' @ nl"

definition create_args :: "forge_config \<Rightarrow> string \<Rightarrow> string \<Rightarrow> string \<Rightarrow> string list" where
  "create_args c br title body =
     [''pr'', ''create'', ''--base'', forge_base c, ''--head'', br, ''--title'', title, ''--body-file'', body]"

definition open_request_for :: "forge_config \<Rightarrow> 'w forge_deps \<Rightarrow> string \<Rightarrow> string \<Rightarrow> worktree \<Rightarrow> nat \<Rightarrow> ('w, unit) fg" where
  "open_request_for c d dir tip wt commits =
     (let k = wt_taskKey wt; br = wt_branch wt; body = dir @ ''/'' @ k @ ''.md'' in
      andThen (forge_live d) (\<lambda>_.
      andThen (env (forge_git d [''push'', ''-q'', ''--no-verify'', ''--force'', forge_remote c, br @ '':refs/heads/'' @ br])) (\<lambda>_.
      andThen (forge_bundle d (forge_landing k OutLanded br tip)) (\<lambda>preview.
      andThen (env (fd_write d body (request_body preview))) (\<lambda>_.
      andThen (env (gh_call c d (create_args c br (or_else (fd_subjectOf d k) k) body))) (\<lambda>url.
      case pull_number url of
        None \<Rightarrow> throw (Threw (OtherError (''gh pr create gave no pull request URL: '' @ url)))
      | Some n \<Rightarrow>
          andThen (env (gh_call c d [''pr'', ''merge'', n, ''--auto'', ''--'' @ or_else (fc_method c) ''merge''])) (\<lambda>_.
          andThen (env (reads (fd_now d))) (\<lambda>now.
          andThen (forge_record d (TrEnqueued \<lparr>er_key = k, er_branch = br, er_commits = commits\<rparr> tip (nat now) [] 0 None)) (\<lambda>_.
            modify (\<lambda>s. s\<lparr>fs_open := jm_set k \<lparr>pr_number = n, pr_branch = br, pr_commits = commits\<rparr> (fs_open s)\<rparr>))))))))))"

definition open_one :: "forge_config \<Rightarrow> 'w forge_deps \<Rightarrow> string \<Rightarrow> string \<Rightarrow> worktree \<Rightarrow> ('w, unit) fg" where
  "open_one c d dir tip wt =
     andThen (env (tg_commitCount (fd_git d) (wt_branch wt) None)) (\<lambda>commits.
       if commits = 0 then
         andThen (modify (\<lambda>s. s\<lparr>fs_empty := fs_empty s @ [\<lparr>br_taskKey = wt_taskKey wt, br_branch = wt_branch wt\<rparr>]\<rparr>)) (\<lambda>_.
           env (tg_removeWorktree (fd_git d) wt))
       else open_request_for c d dir tip wt commits)"

section \<open>Polling\<close>

definition view_args :: "string \<Rightarrow> string list" where
  "view_args n = [''pr'', ''view'', n, ''--json'', ''state,mergeCommit'']"

text \<open>\<open>view.mergeCommit?.oid ?? ''\<close>; \<open>gh\<close> documents it as a string.\<close>

definition merge_oid :: "json \<Rightarrow> string" where
  "merge_oid v = (case jfield ''mergeCommit'' v of None \<Rightarrow> [] | Some m \<Rightarrow> (case jfield ''oid'' m of Some (JStr s) \<Rightarrow> s | _ \<Rightarrow> []))"

definition read_view :: "string \<Rightarrow> thrown + json" where
  "read_view text = (case json_parse text of
     None \<Rightarrow> Inl (OtherError ''not valid JSON'')
   | Some JNull \<Rightarrow> Inl (OtherError ''Cannot read properties of null'')
   | Some v \<Rightarrow> Inr v)"

definition request_merged :: "'w forge_deps \<Rightarrow> string \<Rightarrow> string \<Rightarrow> open_request \<Rightarrow> string \<Rightarrow> ('w, unit) fg" where
  "request_merged d tip k pr target_commit =
     (let item = \<lparr>br_taskKey = k, br_branch = pr_branch pr, br_commits = pr_commits pr\<rparr> in
      andThen (modify (\<lambda>s. s\<lparr>fs_landed := fs_landed s @ [item], fs_merged := fs_merged s @ [item]\<rparr>)) (\<lambda>_.
      andThen (forge_record d (TrLanded \<lparr>er_key = k, er_branch = pr_branch pr, er_commits = pr_commits pr\<rparr>
        (int (digits_val 0 (pr_number pr))) target_commit False)) (\<lambda>_.
      andThen (forge_evidence d ((forge_landing k OutLanded (pr_branch pr) tip)\<lparr>la_commit := Some target_commit\<rparr>)) (\<lambda>_.
      andThen (modify (\<lambda>s. s\<lparr>fs_open := jm_del k (fs_open s)\<rparr>)) (\<lambda>_.
      andThen (env (tg_list (fd_git d))) (\<lambda>ws. case find (\<lambda>wt. wt_taskKey wt = k) ws of
          None \<Rightarrow> ret ()
        | Some wt \<Rightarrow> env (tg_removeWorktree (fd_git d) wt)))))))"

definition closed_reason :: "open_request \<Rightarrow> string" where
  "closed_reason pr = ''pull request #'' @ pr_number pr @ '' was closed without merging''"

definition request_closed :: "'w forge_deps \<Rightarrow> string \<Rightarrow> string \<Rightarrow> open_request \<Rightarrow> ('w, unit) fg" where
  "request_closed d tip k pr =
     andThen (modify (\<lambda>s. s\<lparr>fs_ejected := fs_ejected s @ [\<lparr>br_taskKey = k, br_branch = pr_branch pr, br_reason = closed_reason pr\<rparr>]\<rparr>)) (\<lambda>_.
     andThen (forge_record d (TrEjected \<lparr>er_key = k, er_branch = pr_branch pr, er_commits = pr_commits pr\<rparr> (closed_reason pr))) (\<lambda>_.
     andThen (forge_evidence d ((forge_landing k OutEjected (pr_branch pr) tip)\<lparr>la_reason := Some (closed_reason pr)\<rparr>)) (\<lambda>_.
       modify (\<lambda>s. s\<lparr>fs_open := jm_del k (fs_open s)\<rparr>))))"

definition poll_one :: "forge_config \<Rightarrow> 'w forge_deps \<Rightarrow> string \<Rightarrow> string \<times> open_request \<Rightarrow> ('w, unit) fg" where
  "poll_one c d tip = (\<lambda>(k, pr).
     andThen (env (gh_call c d (view_args (pr_number pr)))) (\<lambda>text. case read_view text of
       Inl e \<Rightarrow> throw (Threw e)
     | Inr v \<Rightarrow>
         if jfield ''state'' v = Some (JStr ''MERGED'') then request_merged d tip k pr (merge_oid v)
         else if jfield ''state'' v = Some (JStr ''CLOSED'') then request_closed d tip k pr
         else ret ()))"

text \<open>\<open>Date.now() + waitMs\<close>, and whether it has come; a wait that is no number never ends.\<close>

definition forge_deadline :: "forge_config \<Rightarrow> int \<Rightarrow> rat option" where
  "forge_deadline c now = (case or_else (fc_waitMs c) (Finite 7200000) of Finite q \<Rightarrow> Some (of_int now + q) | NotFinite \<Rightarrow> None)"

definition time_up :: "rat option \<Rightarrow> int \<Rightarrow> bool" where
  "time_up deadline now = (case deadline of None \<Rightarrow> False | Some t \<Rightarrow> t \<le> of_int now)"

primrec poll :: "nat \<Rightarrow> forge_config \<Rightarrow> 'w forge_deps \<Rightarrow> string \<Rightarrow> rat option \<Rightarrow> ('w, unit) fg" where
  "poll 0 c d tip deadline = throw OutOfFuel"
| "poll (Suc n) c d tip deadline =
     andThen (gets fs_open) (\<lambda>requests.
     if requests = [] then ret ()
     else
       andThen (each_do (poll_one c d tip) requests) (\<lambda>_.
       andThen (gets fs_open) (\<lambda>left.
       andThen (env (reads (fd_now d))) (\<lambda>now.
       if left = [] \<or> time_up deadline now then ret ()
       else
         andThen (forge_live d) (\<lambda>_.
         andThen (env (fd_sleep d (or_else (fc_pollMs c) (Finite 30000)))) (\<lambda>_.
           poll n c d tip deadline))))))"

section \<open>The landing\<close>

definition forge_result :: "forge_config \<Rightarrow> forge_state \<Rightarrow> merge_outcome" where
  "forge_result c s = \<lparr>mo_targetBranch = forge_base c, mo_merged = fs_merged s, mo_conflicts = [], mo_empty = fs_empty s,
     mo_withheld = fs_withheld s, mo_landed = Some (fs_landed s), mo_ejected = Some (fs_ejected s), mo_repaired = None,
     mo_resolved = None, mo_stopped = None\<rparr>"

definition still_open :: "forge_state \<Rightarrow> forge_state" where
  "still_open s = s\<lparr>fs_withheld := fs_withheld s @ map (\<lambda>(k, pr). \<lparr>br_taskKey = k, br_branch = pr_branch pr\<rparr>) (fs_open s)\<rparr>"

definition forge_listed :: "nat \<Rightarrow> forge_config \<Rightarrow> 'w forge_deps \<Rightarrow> string \<Rightarrow> string \<Rightarrow> worktree list \<Rightarrow> ('w, merge_outcome) fg" where
  "forge_listed fuel c d dir tip ws =
     andThen (each_do (open_one c d dir tip) ws) (\<lambda>_.
     andThen (env (reads (fd_now d))) (\<lambda>now.
     andThen (poll fuel c d tip (forge_deadline c now)) (\<lambda>_.
     andThen (modify still_open) (\<lambda>_. gets (forge_result c)))))"

definition forge_body :: "nat \<Rightarrow> forge_config \<Rightarrow> 'w forge_deps \<Rightarrow> string \<Rightarrow> ('w, merge_outcome) fg" where
  "forge_body fuel c d dir =
     (let tracked = ''refs/remotes/'' @ forge_remote c @ ''/'' @ forge_base c in
      andThen (env (forge_git d [''fetch'', ''-q'', forge_remote c, ''+refs/heads/'' @ forge_base c @ '':'' @ tracked])) (\<lambda>_.
      andThen (env (forge_git d [''rev-parse'', tracked])) (\<lambda>tip.
      andThen (env (tg_list (fd_git d))) (\<lambda>ws. forge_listed fuel c d dir tip ws))))"

definition landForge :: "nat \<Rightarrow> forge_config \<Rightarrow> 'w forge_deps \<Rightarrow> ('w, merge_outcome) fg" where
  "landForge fuel c d = andThen (env (fd_mkdtemp d)) (\<lambda>dir. always (forge_body fuel c d dir) (env (fd_rm d dir)))"

end
