(* ===== verification/Landings.thy ===== *)
theory Landings
  imports TrainLogic "HOL-Library.Multiset"
begin

text \<open>
  What every way of landing a run's branches shares: the task and branch a record of an outcome names, what an outcome
  reports, and that git lists one worktree per task.
\<close>

definition ref_of :: "'a branch_ref_scheme \<Rightarrow> string \<times> string" where
  "ref_of b = (br_taskKey b, br_branch b)"

definition tree_ref :: "worktree \<Rightarrow> string \<times> string" where
  "tree_ref wt = (wt_taskKey wt, wt_branch wt)"

text \<open>Landed, ejected, empty or withheld; what a queue merged or conflicted on is reported by \<open>merged\<close> and \<open>conflicts\<close> instead.\<close>

definition outcome_refs :: "merge_outcome \<Rightarrow> (string \<times> string) multiset" where
  "outcome_refs out = mset (map ref_of (mo_empty out) @ map ref_of (or_else (mo_landed out) []) @
     map ref_of (or_else (mo_ejected out) []) @ map ref_of (mo_withheld out))"

definition lists_once :: "'w train_git \<Rightarrow> bool" where
  "lists_once g \<longleftrightarrow> (\<forall>w ws w'. tg_list g w = (Inr ws, w') \<longrightarrow> distinct (map wt_taskKey ws))"

end
