(* ===== verification/ForgeProperties.thy ===== *)
theory ForgeProperties
  imports Forge GitLogic Landings
begin

text \<open>
  What landing through a forge guarantees: every worktree git listed is reported once, nothing is journaled as landed
  but a request the forge said was merged, and the polling ends once the clock passes its deadline.
\<close>

section \<open>Every worktree is reported once\<close>

definition open_refs :: "(string, open_request) jmap \<Rightarrow> (string \<times> string) multiset" where
  "open_refs m = mset (map (\<lambda>(k, pr). (k, pr_branch pr)) m)"

definition settled_refs :: "forge_state \<Rightarrow> (string \<times> string) multiset" where
  "settled_refs s = mset (map ref_of (fs_empty s) @ map ref_of (fs_landed s) @ map ref_of (fs_ejected s) @ map ref_of (fs_withheld s))"

definition forge_refs :: "forge_state \<Rightarrow> (string \<times> string) multiset" where
  "forge_refs s = settled_refs s + open_refs (fs_open s)"

lemma open_refs_set: "k \<notin> set (jm_keys m) \<Longrightarrow> open_refs (jm_set k pr m) = add_mset (k, pr_branch pr) (open_refs m)"
  by (simp add: jm_set_snoc open_refs_def)

lemma open_refs_del: "jm_wf m \<Longrightarrow> (k, pr) \<in> set m \<Longrightarrow> add_mset (k, pr_branch pr) (open_refs (jm_del k m)) = open_refs m"
proof (induction m)
  case Nil
  then show ?case by simp
next
  case (Cons x m)
  obtain k' pr' where x: "x = (k', pr')" by force
  show ?case
  proof (cases "k' = k")
    case True
    with Cons.prems x have "pr' = pr" and "k \<notin> fst ` set m" by (auto simp: jm_wf_def image_iff)
    then have "jm_del k m = m" by (induction m) (auto simp: jm_del_def)
    with x True \<open>pr' = pr\<close> show ?thesis by (simp add: jm_del_def open_refs_def)
  next
    case False
    with Cons x show ?thesis by (auto simp: jm_del_def jm_wf_def open_refs_def add_mset_commute)
  qed
qed

definition landed_refs :: "train_event list \<Rightarrow> (string \<times> string \<times> nat) list" where
  "landed_refs es = List.map_filter (\<lambda>e. case e of TrLanded r _ _ _ \<Rightarrow> Some (er_key r, er_branch r, er_commits r) | _ \<Rightarrow> None) es"

definition merged_refs :: "merged_branch list \<Rightarrow> (string \<times> string \<times> nat) list" where
  "merged_refs = map (\<lambda>b. (br_taskKey b, br_branch b, br_commits b))"

lemma landed_refs_append: "landed_refs (es @ fs) = landed_refs es @ landed_refs fs"
  by (simp add: landed_refs_def List.map_filter_def)

lemma landed_refs_Cons: "landed_refs (e # es) = (case e of TrLanded r _ _ _ \<Rightarrow> [(er_key r, er_branch r, er_commits r)] | _ \<Rightarrow> []) @ landed_refs es"
  by (cases e) (simp_all add: landed_refs_def List.map_filter_def)

lemma landed_refs_Nil: "landed_refs [] = []"
  by (simp add: landed_refs_def List.map_filter_def)

lemmas landed_refs_simps = landed_refs_append landed_refs_Cons landed_refs_Nil

text \<open>What holds between the requests: everything is accounted for, and the journal shows exactly what landed.\<close>

definition forge_ok :: "train_event list \<Rightarrow> (string \<times> string) multiset \<Rightarrow> forge_state \<Rightarrow> bool" where
  "forge_ok j M s \<longleftrightarrow> forge_refs s = M \<and> jm_wf (fs_open s) \<and> fs_merged s = fs_landed s \<and> fs_withheld s = [] \<and>
     landed_refs (fs_journal s) = landed_refs j @ merged_refs (fs_landed s)"

lemmas forge_ok_unfold = forge_ok_def forge_refs_def settled_refs_def ref_of_def merged_refs_def

lemma wp_bundle: "(\<And>b. Q b s) \<Longrightarrow> wp (forge_bundle d la) Q sometimes s"
  unfolding forge_bundle_def by (intro wp_intros wp_done)

lemma wp_record: "Q () (s\<lparr>fs_journal := fs_journal s @ [e]\<rparr>) \<Longrightarrow> wp (forge_record d e) Q sometimes s"
  unfolding forge_record_def by (intro wp_intros wp_done)

lemma wp_evidence: "(\<And>b. Q () (s\<lparr>fs_journal := fs_journal s @ [TrEvidence b]\<rparr>)) \<Longrightarrow> wp (forge_evidence d la) Q sometimes s"
  unfolding forge_evidence_def by (intro wp_intros wp_bundle wp_record)

lemma wp_forge_live: "Q () s \<Longrightarrow> wp (forge_live d) Q sometimes s"
  unfolding forge_live_def by (intro wp_done) simp

lemmas wp_forge = wp_intros wp_done wp_fail wp_bundle wp_record wp_evidence wp_forge_live

lemma open_one_ok:
  assumes "forge_ok j M s" and "wt_taskKey wt \<notin> set (jm_keys (fs_open s))"
  shows "wp (open_one c d dir tip wt)
    (\<lambda>_ s'. forge_ok j (add_mset (tree_ref wt) M) s' \<and> set (jm_keys (fs_open s')) \<subseteq> insert (wt_taskKey wt) (set (jm_keys (fs_open s))))
    sometimes s"
proof -
  have empty: "wp (andThen (modify (\<lambda>s. s\<lparr>fs_empty := fs_empty s @ [\<lparr>br_taskKey = wt_taskKey wt, br_branch = wt_branch wt\<rparr>]\<rparr>)) (\<lambda>_.
      env (tg_removeWorktree (fd_git d) wt)))
    (\<lambda>_ s'. forge_ok j (add_mset (tree_ref wt) M) s' \<and> set (jm_keys (fs_open s')) \<subseteq> insert (wt_taskKey wt) (set (jm_keys (fs_open s))))
    sometimes s"
    using assms by (intro wp_forge) (auto simp: forge_ok_unfold tree_ref_def)
  have opened: "wp (open_request_for c d dir tip wt n)
    (\<lambda>_ s'. forge_ok j (add_mset (tree_ref wt) M) s' \<and> set (jm_keys (fs_open s')) \<subseteq> insert (wt_taskKey wt) (set (jm_keys (fs_open s))))
    sometimes s" for n
    unfolding open_request_for_def Let_def
    using assms
    by (intro wp_forge) (auto intro!: wp_forge split: option.split
      simp: forge_ok_unfold tree_ref_def landed_refs_simps open_refs_set jm_keys_set)
  show ?thesis
    unfolding open_one_def by (intro wp_forge) (simp add: empty opened)
qed

lemma request_merged_ok:
  assumes "forge_ok j M s" and "(k, pr) \<in> set (fs_open s)"
  shows "wp (request_merged d tip k pr cm) (\<lambda>_ s'. forge_ok j M s' \<and> fs_open s' = jm_del k (fs_open s)) sometimes s"
  unfolding request_merged_def Let_def
  using assms open_refs_del [of "fs_open s" k pr, symmetric]
  by (intro wp_forge) (auto intro!: wp_forge split: option.split simp: forge_ok_unfold forge_landing_def landed_refs_simps)

lemma request_closed_ok:
  assumes "forge_ok j M s" and "(k, pr) \<in> set (fs_open s)"
  shows "wp (request_closed d tip k pr) (\<lambda>_ s'. forge_ok j M s' \<and> fs_open s' = jm_del k (fs_open s)) sometimes s"
  unfolding request_closed_def
  using assms open_refs_del [of "fs_open s" k pr, symmetric]
  by (intro wp_forge) (auto simp: forge_ok_unfold landed_refs_simps)

lemma subset_jm_del: "fs_open s' = jm_del k m \<Longrightarrow> set xs \<subseteq> set m \<Longrightarrow> k \<notin> fst ` set xs \<Longrightarrow> x \<in> set xs \<Longrightarrow> x \<in> set (fs_open s')"
  by (cases x) (force simp: jm_del_def AList.delete_eq)

lemma poll_one_ok:
  assumes "forge_ok j M s" and "(k, pr) \<in> set (fs_open s)"
  shows "wp (poll_one c d tip (k, pr)) (\<lambda>_ s'. forge_ok j M s' \<and> (fs_open s' = fs_open s \<or> fs_open s' = jm_del k (fs_open s))) sometimes s"
  unfolding poll_one_def
  using assms
  by (auto intro!: wp_forge wp_weaken [OF request_merged_ok] wp_weaken [OF request_closed_ok] split: sum.split)

text \<open>A pass over the requests open when it began.\<close>

lemma poll_pass_ok:
  assumes "forge_ok j M s"
  shows "wp (each_do (poll_one c d tip) (fs_open s)) (\<lambda>_. forge_ok j M) sometimes s"
proof -
  let ?I = "\<lambda>rest s'. forge_ok j M s' \<and> distinct (map fst rest) \<and> set rest \<subseteq> set (fs_open s')"
  have "wp (each_do (poll_one c d tip) (fs_open s)) (\<lambda>_. ?I []) sometimes s"
  proof (rule wp_each_do)
    show "?I (fs_open s) s" using assms by (simp add: forge_ok_def jm_wf_def)
  next
    fix y ys t assume I: "?I (y # ys) t"
    obtain k pr where y: "y = (k, pr)" by force
    show "wp (poll_one c d tip y) (\<lambda>_. ?I ys) sometimes t"
      unfolding y
      by (rule wp_weaken [OF poll_one_ok [of j M t k pr]])
        (use I y in \<open>auto dest: subset_jm_del\<close>)
  qed
  then show ?thesis by (rule wp_weaken) auto
qed

lemma poll_ok: "forge_ok j M s \<Longrightarrow> wp (poll n c d tip t) (\<lambda>_. forge_ok j M) sometimes s"
proof (induction n arbitrary: s)
  case 0
  then show ?case by (simp add: wp_fail)
next
  case (Suc n)
  have more: "wp (andThen (forge_live d) (\<lambda>_. andThen (env (fd_sleep d ms)) (\<lambda>_. poll n c d tip t))) (\<lambda>_. forge_ok j M) sometimes s'"
    if "forge_ok j M s'" for s' ms
    using that by (intro wp_forge Suc.IH)
  show ?case
    unfolding poll.simps
    using Suc.prems
    by (auto intro!: wp_forge wp_weaken [OF poll_pass_ok] more)
qed

lemma open_all_ok:
  assumes "distinct (map wt_taskKey ws)"
  shows "wp (each_do (open_one c d dir tip) ws) (\<lambda>_. forge_ok j (mset (map tree_ref ws))) sometimes (forge_new j)"
proof -
  let ?I = "\<lambda>rest s'. \<exists>done. ws = done @ rest \<and> forge_ok j (mset (map tree_ref done)) s' \<and>
      set (jm_keys (fs_open s')) \<subseteq> wt_taskKey ` set done"
  have "wp (each_do (open_one c d dir tip) ws) (\<lambda>_. ?I []) sometimes (forge_new j)"
  proof (rule wp_each_do)
    show "?I ws (forge_new j)"
      by (rule exI [of _ "[]"]) (simp add: forge_ok_unfold forge_new_def open_refs_def)
  next
    fix wt rest t assume "?I (wt # rest) t"
    then obtain done' where ws: "ws = done' @ wt # rest" and ok: "forge_ok j (mset (map tree_ref done')) t"
      and sub: "set (jm_keys (fs_open t)) \<subseteq> wt_taskKey ` set done'" by auto
    from assms ws sub have fresh: "wt_taskKey wt \<notin> set (jm_keys (fs_open t))" by auto
    show "wp (open_one c d dir tip wt) (\<lambda>_. ?I rest) sometimes t"
      by (rule wp_weaken [OF open_one_ok [OF ok fresh]])
        (use ws sub in \<open>auto intro!: exI [of _ "done' @ [wt]"]\<close>)
  qed
  then show ?thesis by (rule wp_weaken) auto
qed

lemma forge_listed_ok:
  assumes "distinct (map wt_taskKey ws)"
  shows "wp (forge_listed fuel c d dir tip ws)
    (\<lambda>out s'. outcome_refs out = mset (map tree_ref ws) \<and> mo_landed out = Some (mo_merged out) \<and> mo_conflicts out = [] \<and>
      landed_refs (fs_journal s') = landed_refs j @ merged_refs (mo_merged out)) sometimes (forge_new j)"
proof -
  have rest: "wp (andThen (env (reads (fd_now d))) (\<lambda>now. andThen (poll fuel c d tip (forge_deadline c now)) (\<lambda>_.
      andThen (modify still_open) (\<lambda>_. gets (forge_result c)))))
    (\<lambda>out s'. outcome_refs out = mset (map tree_ref ws) \<and> mo_landed out = Some (mo_merged out) \<and> mo_conflicts out = [] \<and>
      landed_refs (fs_journal s') = landed_refs j @ merged_refs (mo_merged out)) sometimes s"
    if "forge_ok j (mset (map tree_ref ws)) s" for s
    by (intro wp_forge wp_weaken [OF poll_ok [OF that]])
      (auto simp: forge_ok_unfold outcome_refs_def forge_result_def still_open_def open_refs_def case_prod_unfold
        comp_def ac_simps)
  show ?thesis
    unfolding forge_listed_def
    by (rule wp_andThen, rule wp_weaken [OF open_all_ok [OF assms, of c d dir tip j]]) (use rest in simp_all)
qed

lemma wp_always_env:
  assumes m: "wp m Q E s" and err: "\<And>x s e. Q x s \<Longrightarrow> E e s" "\<And>e s e'. E e s \<Longrightarrow> E e' s"
  shows "wp (always m (env f)) Q E s"
proof -
  have after: "wp (env f) (\<lambda>_. Q x) E s" if "Q x s" for x s
    using that err(1) by (intro wp_env)
  have ok: "wp (andThen (env f) (\<lambda>_. ret x)) Q E s" if "Q x s" for x s
    by (intro wp_andThen wp_weaken [OF after [OF that]] wp_ret)
  have failed: "wp (andThen (env f) (\<lambda>_. throw e)) Q E s" if "E e s" for e s
    using that err(2) by (intro wp_andThen wp_env wp_throw)
  have "wp (attempt m) (\<lambda>r. case r of Inl e \<Rightarrow> E e | Inr x \<Rightarrow> Q x) E s"
    using m by (intro wpI) (auto simp: attempt_apply split: prod.splits sum.split dest: wpD_Inr wpD_Inl)
  then show ?thesis
    unfolding always_def
    by (rule wp_andThen [OF wp_weaken]) (auto simp: failed intro!: ok split: sum.splits)
qed

text \<open>C30: A landing through the forge that returns reports every worktree git listed exactly once, as empty, landed, ejected
  or left to the forge's queue; nothing else is reported, what landed is what was merged, and the journal gained exactly
  those landings, in their order.\<close>

theorem forge_accounts:
  assumes ret: "landForge fuel c d (forge_new j, w) = (Inr out, (s', w'))"
    and listed: "lists_once (fd_git d)"
  shows "\<exists>ws w0 w1. tg_list (fd_git d) w0 = (Inr ws, w1) \<and> outcome_refs out = mset (map tree_ref ws) \<and>
    mo_landed out = Some (mo_merged out) \<and> mo_conflicts out = [] \<and>
    landed_refs (fs_journal s') = landed_refs j @ merged_refs (mo_merged out)"
proof -
  let ?Q = "\<lambda>out s'. \<exists>ws w0 w1. tg_list (fd_git d) w0 = (Inr ws, w1) \<and> outcome_refs out = mset (map tree_ref ws) \<and>
    mo_landed out = Some (mo_merged out) \<and> mo_conflicts out = [] \<and>
    landed_refs (fs_journal s') = landed_refs j @ merged_refs (mo_merged out)"
  have list: "wp (env (tg_list (fd_git d))) (\<lambda>ws. wp (forge_listed fuel c d dir tip ws) ?Q sometimes) sometimes (forge_new j)" for dir tip
    by (rule wp_env_run, rule wp_weaken [OF forge_listed_ok]) (use listed in \<open>auto simp: sometimes_def lists_once_def\<close>)
  have "wp (forge_body fuel c d dir) ?Q sometimes (forge_new j)" for dir
    unfolding forge_body_def Let_def
    by (rule wp_andThen, rule wp_done, rule wp_andThen, rule wp_done, rule wp_andThen, rule list)
  then have "wp (landForge fuel c d) ?Q sometimes (forge_new j)"
    unfolding landForge_def
    by (intro wp_andThen wp_done wp_always_env) (simp_all add: sometimes_def)
  from wpD_Inr [OF this ret] show ?thesis .
qed

section \<open>Landed only when the forge said so\<close>

definition requested :: "forge_config \<Rightarrow> 'w forge_deps \<Rightarrow> string \<Rightarrow> string \<Rightarrow> bool" where
  "requested c d br n \<longleftrightarrow> (\<exists>title body w url w'. gh_call c d (create_args c br title body) w = (Inr url, w') \<and> pull_number url = Some n)"

definition seen_merged :: "forge_config \<Rightarrow> 'w forge_deps \<Rightarrow> string \<Rightarrow> string \<Rightarrow> bool" where
  "seen_merged c d n target_commit \<longleftrightarrow> (\<exists>w text w' v. gh_call c d (view_args n) w = (Inr text, w') \<and> read_view text = Inr v \<and>
     jfield ''state'' v = Some (JStr ''MERGED'') \<and> merge_oid v = target_commit)"

lemma requestedI: "gh_call c d (create_args c br title body) w = (Inr url, w') \<Longrightarrow> pull_number url = Some n \<Longrightarrow> requested c d br n"
  unfolding requested_def by blast

lemma seen_mergedI:
  "gh_call c d (view_args n) w = (Inr text, w') \<Longrightarrow> read_view text = Inr v \<Longrightarrow> jfield ''state'' v = Some (JStr ''MERGED'') \<Longrightarrow>
    seen_merged c d n (merge_oid v)"
  unfolding seen_merged_def by blast

definition forge_earned :: "forge_config \<Rightarrow> 'w forge_deps \<Rightarrow> train_event \<Rightarrow> bool" where
  "forge_earned c d e = (case e of
     TrLanded r batch target_commit un \<Rightarrow>
       \<not> un \<and> (\<exists>n. requested c d (er_branch r) n \<and> seen_merged c d n target_commit \<and> batch = int (digits_val 0 n))
   | _ \<Rightarrow> True)"

definition forge_true :: "forge_config \<Rightarrow> 'w forge_deps \<Rightarrow> train_event list \<Rightarrow> forge_state \<Rightarrow> bool" where
  "forge_true c d j s \<longleftrightarrow> (\<exists>es. fs_journal s = j @ es \<and> list_all (forge_earned c d) es) \<and>
     (\<forall>(k, pr) \<in> set (fs_open s). requested c d (pr_branch pr) (pr_number pr))"

lemma true_record: "forge_true c d j s \<Longrightarrow> forge_earned c d e \<Longrightarrow> forge_true c d j (s\<lparr>fs_journal := fs_journal s @ [e]\<rparr>)"
  unfolding forge_true_def by (auto intro: exI [of _ "_ @ [e]"])

lemma true_same: "forge_true c d j s \<Longrightarrow> fs_journal s' = fs_journal s \<Longrightarrow> set (fs_open s') \<subseteq> set (fs_open s) \<Longrightarrow> forge_true c d j s'"
  unfolding forge_true_def by auto

lemma true_open:
  assumes "forge_true c d j s" and "requested c d (pr_branch pr) (pr_number pr)"
  shows "forge_true c d j (s\<lparr>fs_open := jm_set k pr (fs_open s)\<rparr>)"
proof -
  have "set (jm_set k pr m) \<subseteq> insert (k, pr) (set m)" for m
    unfolding jm_set_def by (induction m) auto
  with assms show ?thesis unfolding forge_true_def by fastforce
qed

lemma forge_true_new: "forge_true c d j (forge_new j)"
  by (simp add: forge_true_def forge_new_def)

text \<open>A computation from a true state leads to a true state, whatever is thrown.\<close>

definition kept_true :: "forge_config \<Rightarrow> 'w forge_deps \<Rightarrow> train_event list \<Rightarrow> forge_state \<Rightarrow> forge_state \<Rightarrow> bool" where
  "kept_true c d j s s' \<longleftrightarrow> (forge_true c d j s \<longrightarrow> forge_true c d j s')"

interpretation truth: train_relation "kept_true c d j" for c d j
  by unfold_locales (auto simp: kept_true_def)

lemma true_modify: "(\<And>s. forge_true c d j s \<Longrightarrow> forge_true c d j (f s)) \<Longrightarrow> keeps (kept_true c d j) (modify f)"
  by (rule keeps_modify) (simp add: kept_true_def)

lemma true_modify_same:
  "(\<And>s. fs_journal (f s) = fs_journal s) \<Longrightarrow> (\<And>s. set (fs_open (f s)) \<subseteq> set (fs_open s)) \<Longrightarrow> keeps (kept_true c d j) (modify f)"
  by (rule true_modify) (rule true_same)

lemma true_recording: "forge_earned c d e \<Longrightarrow> keeps (kept_true c d j) (forge_record d e)"
  unfolding forge_record_def by (intro truth.keeps_andThen truth.keeps_env true_modify true_record)

lemma true_bundle: "keeps (kept_true c d j) (forge_bundle d la)"
  unfolding forge_bundle_def by (intro truth.keeps_andThen truth.keeps_env truth.keeps_gets truth.keeps_ret)

lemma true_evidence: "keeps (kept_true c d j) (forge_evidence d la)"
  unfolding forge_evidence_def by (intro truth.keeps_andThen true_bundle true_recording) (simp add: forge_earned_def)

lemma true_live: "keeps (kept_true c d j) (forge_live d)"
  unfolding forge_live_def by (rule truth.keeps_env)

lemmas true_steps = truth.keeps_andThen truth.keeps_env truth.keeps_gets truth.keeps_ret truth.keeps_throw true_bundle
  true_evidence true_live

text \<open>A step whose continuation may use what the environment answered.\<close>

lemma true_asked:
  assumes "\<And>x w w'. m w = (Inr x, w') \<Longrightarrow> keeps (kept_true c d j) (f x)"
  shows "keeps (kept_true c d j) (andThen (env m) f)"
proof (rule keepsI)
  fix s w r s' w' assume "andThen (env m) f (s, w) = (r, (s', w'))"
  then show "kept_true c d j s s'"
    by (auto simp: act_simps env_def kept_true_def split: prod.splits sum.splits dest: keepsD [OF assms])
qed

lemma open_one_true: "keeps (kept_true c d j) (open_one c d dir tip wt)"
proof -
  have add: "keeps (kept_true c d j) (modify (\<lambda>s. s\<lparr>fs_open := jm_set k \<lparr>pr_number = n, pr_branch = br, pr_commits = commits\<rparr> (fs_open s)\<rparr>))"
    if "requested c d br n" for k n br commits
    using that by (intro true_modify true_open) simp_all
  have "keeps (kept_true c d j) (open_request_for c d dir tip wt n)" for n
    unfolding open_request_for_def Let_def
    by (rule true_asked | rule true_live true_bundle | rule truth.keeps_andThen)+
      (auto intro!: true_steps true_recording add requestedI split: option.split simp: forge_earned_def)
  then show ?thesis
    unfolding open_one_def by (auto intro!: true_steps true_modify_same)
qed

lemma request_merged_true:
  assumes "requested c d (pr_branch pr) (pr_number pr)" and "seen_merged c d (pr_number pr) target_commit"
  shows "keeps (kept_true c d j) (request_merged d tip k pr target_commit)"
  unfolding request_merged_def Let_def
  using assms
  by (auto intro!: true_steps true_recording true_modify_same split: option.split
      simp: forge_earned_def dest: subsetD [OF jm_del_subset])

lemma request_closed_true: "keeps (kept_true c d j) (request_closed d tip k pr)"
  unfolding request_closed_def
  by (auto intro!: true_steps true_recording true_modify_same simp: forge_earned_def dest: subsetD [OF jm_del_subset])

lemma poll_one_true:
  assumes "requested c d (pr_branch pr) (pr_number pr)"
  shows "keeps (kept_true c d j) (poll_one c d tip (k, pr))"
  unfolding poll_one_def using assms
  by (auto intro!: true_asked true_steps request_merged_true request_closed_true seen_mergedI split: sum.split)

lemma true_gets_then:
  assumes "\<And>s. forge_true c d j s \<Longrightarrow> keeps (kept_true c d j) (f (g s))"
  shows "keeps (kept_true c d j) (andThen (gets g) f)"
  using assms by (auto simp: keeps_def kept_true_def act_simps gets_def)

lemma poll_true: "keeps (kept_true c d j) (poll n c d tip t)"
proof (induction n)
  case 0
  then show ?case by (simp add: true_steps)
next
  case (Suc n)
  show ?case
    unfolding poll.simps
    by (rule true_gets_then)
      (auto intro!: true_steps truth.keeps_each_do poll_one_true Suc.IH simp: forge_true_def)
qed

text \<open>C31: Landing through the forge journals a branch as landed only when the forge answered, for the pull request it
  gave for that branch, that it is merged, at the commit it then names; so it is whatever else fails or is thrown.\<close>

theorem forge_lands_merged:
  assumes "landForge fuel c d (forge_new j, w) = (r, (s', w'))"
  shows "\<exists>es. fs_journal s' = j @ es \<and> list_all (forge_earned c d) es"
proof -
  have "keeps (kept_true c d j) (landForge fuel c d)"
    unfolding landForge_def forge_body_def forge_listed_def Let_def always_def
    by (auto intro!: true_steps truth.keeps_attempt truth.keeps_each_do open_one_true poll_true true_modify_same
        simp: still_open_def split: sum.split)
  from keepsD [OF this assms] show ?thesis
    by (simp add: kept_true_def forge_true_new) (simp add: forge_true_def)
qed

section \<open>The polling ends\<close>

text \<open>A computation that ends, and after which the clock shows no less.\<close>

definition timely :: "('w \<Rightarrow> int) \<Rightarrow> ('x \<times> 'w, train_stop, 'a) act \<Rightarrow> bool" where
  "timely now m \<longleftrightarrow> (\<forall>s w r s' w'. m (s, w) = (r, (s', w')) \<longrightarrow> r \<noteq> Inl OutOfFuel \<and> now w \<le> now w')"

definition runs_on :: "('w \<Rightarrow> int) \<Rightarrow> ('w, thrown, 'a) act \<Rightarrow> bool" where
  "runs_on now m \<longleftrightarrow> (\<forall>w. now w \<le> now (snd (m w)))"

definition clock_runs :: "'w forge_deps \<Rightarrow> bool" where
  "clock_runs d \<longleftrightarrow> (let now = fd_now d; g = fd_git d in
     (\<forall>prog args. runs_on now (fd_exec d prog args)) \<and> runs_on now (fd_mkdtemp d) \<and> (\<forall>p x. runs_on now (fd_write d p x)) \<and>
     (\<forall>p. runs_on now (fd_rm d p)) \<and> (\<forall>e. runs_on now (fd_append d e)) \<and> runs_on now (tg_list g) \<and>
     (\<forall>b f. runs_on now (tg_commitCount g b f)) \<and> (\<forall>a b. runs_on now (tg_diffStat g a b)) \<and>
     (\<forall>wt. runs_on now (tg_removeWorktree g wt)) \<and> (\<forall>ms w. now w < now (snd (fd_sleep d ms w))))"

lemma timely_env: "runs_on now m \<Longrightarrow> timely now (env m)"
  unfolding timely_def runs_on_def env_def
  by (auto split: prod.splits sum.splits) (metis snd_conv)+

lemma timely_reads: "timely now (env (reads f))"
  by (rule timely_env) (simp add: runs_on_def reads_def)

lemma timely_ret: "timely now (ret x)"
  by (simp add: timely_def ret_def)

lemma timely_throw: "timely now (throw (Threw e))"
  by (simp add: timely_def throw_def)

lemma timely_gets: "timely now (gets f)"
  by (simp add: timely_def gets_def)

lemma timely_modify: "timely now (modify f)"
  by (simp add: timely_def modify_def)

lemma timely_andThen: "timely now m \<Longrightarrow> (\<And>x. timely now (f x)) \<Longrightarrow> timely now (andThen m f)"
  unfolding timely_def by (fastforce elim!: andThen_cases)

lemma timely_each_do: "(\<And>x. timely now (f x)) \<Longrightarrow> timely now (each_do f xs)"
  by (induction xs) (auto intro: timely_ret timely_andThen)

lemma runs_on_trimmed: "runs_on now m \<Longrightarrow> runs_on now (trimmed m)"
  unfolding runs_on_def trimmed_def by (auto simp: act_simps split: prod.splits sum.splits) (metis snd_conv)+

lemma runs_on_attempt: "runs_on now m \<Longrightarrow> runs_on now (attempt m)"
  unfolding runs_on_def by (auto simp: act_simps split: prod.splits) (metis snd_conv)

lemma timely_live: "timely (fd_now d) (forge_live d)"
  unfolding forge_live_def by (rule timely_env) (simp add: runs_on_def split: option.split)

lemmas timely_steps = timely_ret timely_throw timely_gets timely_modify timely_andThen timely_reads timely_live

text \<open>Every step but the polling itself.\<close>

lemma timely_calls:
  assumes "clock_runs d"
  shows timely_git: "timely (fd_now d) (env (forge_git d args))"
    and timely_gh: "timely (fd_now d) (env (gh_call c d args))"
    and timely_record: "timely (fd_now d) (forge_record d e)"
    and timely_bundle: "timely (fd_now d) (forge_bundle d la)"
    and timely_evidence: "timely (fd_now d) (forge_evidence d la)"
    and timely_remove: "timely (fd_now d) (env (tg_removeWorktree (fd_git d) wt))"
    and timely_list: "timely (fd_now d) (env (tg_list (fd_git d)))"
    and timely_sleep: "timely (fd_now d) (env (fd_sleep d ms))"
    and timely_write: "timely (fd_now d) (env (fd_write d p x))"
    and timely_count: "timely (fd_now d) (env (tg_commitCount (fd_git d) br from'))"
proof -
  note runs = assms [unfolded clock_runs_def Let_def]
  show "timely (fd_now d) (env (forge_git d args))" "timely (fd_now d) (env (gh_call c d args))"
    "timely (fd_now d) (env (tg_removeWorktree (fd_git d) wt))" "timely (fd_now d) (env (tg_list (fd_git d)))"
    "timely (fd_now d) (env (fd_write d p x))" "timely (fd_now d) (env (tg_commitCount (fd_git d) br from'))"
    using runs by (simp_all add: forge_git_def gh_call_def timely_env runs_on_trimmed)
  show "timely (fd_now d) (env (fd_sleep d ms))"
    using runs by (intro timely_env) (simp add: runs_on_def less_imp_le)
  show recorded: "timely (fd_now d) (forge_record d e)" for e
    unfolding forge_record_def using runs by (intro timely_steps timely_env) simp
  show bundled: "timely (fd_now d) (forge_bundle d la)"
    unfolding forge_bundle_def using runs by (intro timely_steps timely_env runs_on_attempt) simp
  show "timely (fd_now d) (forge_evidence d la)"
    unfolding forge_evidence_def by (intro timely_steps bundled recorded)
qed

lemmas timely_parts = timely_steps timely_git timely_gh timely_record timely_bundle timely_evidence timely_remove timely_list timely_sleep
  timely_write timely_count

lemma timely_poll_one: "clock_runs d \<Longrightarrow> timely (fd_now d) (poll_one c d tip x)"
  unfolding poll_one_def request_merged_def request_closed_def Let_def
  by (auto intro!: timely_parts split: prod.split sum.split option.split)

lemma timely_open_one: "clock_runs d \<Longrightarrow> timely (fd_now d) (open_one c d dir tip wt)"
  unfolding open_one_def open_request_for_def Let_def
  by (auto intro!: timely_parts split: option.split)

text \<open>A turn of the loop: it ends it, or the rest runs on a later clock with the deadline still to come.\<close>

lemma poll_turn:
  assumes runs: "clock_runs d" and out: "fst (poll (Suc n) c d tip (Some t) (s, w)) = Inl OutOfFuel"
  obtains s' w' where "fst (poll n c d tip (Some t) (s', w')) = Inl OutOfFuel" and "fd_now d w < fd_now d w'"
    and "of_int (fd_now d w) < t"
proof -
  obtain r s1 w1 where pass: "each_do (poll_one c d tip) (fs_open s) (s, w) = (r, (s1, w1))" by (metis prod.exhaust)
  have "timely (fd_now d) (each_do (poll_one c d tip) (fs_open s))"
    by (intro timely_each_do timely_poll_one runs)
  with pass have r: "r \<noteq> Inl OutOfFuel" and le: "fd_now d w \<le> fd_now d w1" unfolding timely_def by blast+
  from out pass r obtain x where x: "r = Inr x" and late: "\<not> time_up (Some t) (fd_now d w1)"
    and ab: "fd_abort d w1 = None"
    by (auto simp: act_simps gets_def env_def reads_def forge_live_def split: if_splits sum.splits option.splits)
  obtain q w2 where sleep: "fd_sleep d (or_else (fc_pollMs c) (Finite 30000)) w1 = (q, w2)" by (metis prod.exhaust)
  from out pass x late ab sleep have "fst (poll n c d tip (Some t) (s1, w2)) = Inl OutOfFuel"
    by (auto simp: act_simps gets_def env_def reads_def forge_live_def split: if_splits sum.splits)
  moreover from runs sleep have "fd_now d w1 < fd_now d w2"
    unfolding clock_runs_def Let_def by (metis snd_conv)
  moreover from late le have "of_int (fd_now d w) < t"
    by (simp add: time_up_def)
  ultimately show thesis using le that by (meson le_less_trans)
qed

lemma poll_ends:
  assumes runs: "clock_runs d"
  shows "t \<le> of_int (fd_now d w) + of_nat n \<Longrightarrow> fst (poll (Suc n) c d tip (Some t) (s, w)) \<noteq> Inl OutOfFuel"
proof (induction n arbitrary: s w)
  case 0
  show ?case
  proof
    assume "fst (poll (Suc 0) c d tip (Some t) (s, w)) = Inl OutOfFuel"
    then have "of_int (fd_now d w) < t" by (rule poll_turn [OF runs])
    with 0 show False by simp
  qed
next
  case (Suc n)
  show ?case
  proof
    assume "fst (poll (Suc (Suc n)) c d tip (Some t) (s, w)) = Inl OutOfFuel"
    then obtain s' w' where out: "fst (poll (Suc n) c d tip (Some t) (s', w')) = Inl OutOfFuel" and later: "fd_now d w < fd_now d w'"
      by (rule poll_turn [OF runs])
    have "of_int (fd_now d w + 1) \<le> (of_int (fd_now d w') :: rat)" using later by (subst of_int_le_iff) simp
    with Suc.prems have "t \<le> of_int (fd_now d w') + of_nat n" by simp
    then show False using Suc.IH out by blast
  qed
qed

lemma andThen_env_ends: "(\<And>x s w. fst (f x (s, w)) \<noteq> Inl OutOfFuel) \<Longrightarrow> fst (andThen (env m) f (s, w)) \<noteq> Inl OutOfFuel"
  by (auto simp: act_simps env_def split: prod.split sum.split)

text \<open>C32: Landing through the forge ends, whatever the forge answers and whatever fails: once the wait it was configured with has
  passed, it stops polling. Every sleep moves the clock and nothing turns it back; the fuel that is enough is a turn for each
  millisecond of the wait.\<close>

theorem forge_ends:
  assumes "clock_runs d" and "or_else (fc_waitMs c) (Finite 7200000) = Finite q" and "q \<le> of_nat fuel"
  shows "fst (landForge (Suc fuel) c d (s, w)) \<noteq> Inl OutOfFuel"
proof -
  have listed: "fst (forge_listed (Suc fuel) c d dir tip ws (s, w)) \<noteq> Inl OutOfFuel" for dir tip ws s w
  proof -
    obtain r s1 w1 where opened: "each_do (open_one c d dir tip) ws (s, w) = (r, (s1, w1))" by (metis prod.exhaust)
    have "timely (fd_now d) (each_do (open_one c d dir tip) ws)"
      by (intro timely_each_do timely_open_one assms)
    with opened have "r \<noteq> Inl OutOfFuel" unfolding timely_def by blast
    moreover have "fst (poll (Suc fuel) c d tip (forge_deadline c (fd_now d w1)) (s1, w1)) \<noteq> Inl OutOfFuel"
      unfolding forge_deadline_def assms(2) js_number.case
      using assms(3) by (intro poll_ends assms) simp
    ultimately show ?thesis
      using opened by (auto simp: forge_listed_def act_simps env_def reads_def gets_def modify_def split: sum.split prod.split)
  qed
  have body: "fst (forge_body (Suc fuel) c d dir (s, w)) \<noteq> Inl OutOfFuel" for dir s w
    unfolding forge_body_def Let_def by (intro andThen_env_ends listed)
  have "fst (always (forge_body (Suc fuel) c d dir) (env m) (s, w)) \<noteq> Inl OutOfFuel" for dir m s w
    using body [of dir s w]
    by (cases "forge_body (Suc fuel) c d dir (s, w)") (auto simp: always_def act_simps env_def split: prod.split sum.split)
  then show ?thesis
    unfolding landForge_def by (rule andThen_env_ends)
qed

section \<open>A forge for the witnesses\<close>

text \<open>Three worktrees: one merged by the forge, one still queued when the wait is over, one without commits. The clock is the
  environment.\<close>

definition forge_tree :: "string \<Rightarrow> worktree" where
  "forge_tree k = \<lparr>wt_taskKey = k, wt_path = ''/w/'' @ k, wt_branch = ''swarm/t/'' @ k\<rparr>"

definition demo_forge_git :: "int train_git" where
  "demo_forge_git = \<lparr>tg_target = ''main'', tg_list = ret (map forge_tree [''a'', ''b'', ''n'']),
     tg_commitCount = (\<lambda>br _. ret (if br = ''swarm/t/n'' then 0 else 1)),
     tg_diffStat = (\<lambda>_ _. ret \<lparr>ds_files = [''f''], ds_insertions = 1, ds_deletions = 0\<rparr>), tg_targetTip = ret ''c0'', tg_revParse = ret,
     tg_speculate = (\<lambda>tip _. ret (''/t'', tip, [])), tg_advanceTarget = (\<lambda>_. ret ()), tg_removeWorktree = (\<lambda>_. ret ()),
     tg_mergeAll = throw (OtherError ''no queue''), tg_mergeInto = (\<lambda>_ _. ret []), tg_abortMerge = (\<lambda>_. ret ()),
     tg_concludeMerge = (\<lambda>_ _. ret ()), tg_contains = (\<lambda>_ _. ret True), tg_autoCommit = (\<lambda>_ _. ret False),
     tg_snapshot = (\<lambda>_. throw (OtherError ''no snapshot'')), tg_readFile = (\<lambda>_. ret None)\<rparr>"

definition demo_view :: "string \<Rightarrow> string" where
  "demo_view n = json_str (if n = ''7'' then JObj [(''state'', JStr ''MERGED''), (''mergeCommit'', JObj [(''oid'', JStr ''abc'')])]
     else JObj [(''state'', JStr ''OPEN''), (''mergeCommit'', JNull)])"

definition demo_gh :: "string list \<Rightarrow> string" where
  "demo_gh args = (if args ! 1 = ''create'' then ''https://x/pull/'' @ (if args ! 5 = ''swarm/t/a'' then ''7'' else ''8'')
     else if args ! 1 = ''view'' then demo_view (args ! 2) else [])"

definition demo_forge :: "int forge_deps" where
  "demo_forge = \<lparr>fd_git = demo_forge_git, fd_bin = None, fd_exec = (\<lambda>prog args. ret (if prog = ''gh'' then demo_gh args else ''c0'')),
     fd_mkdtemp = ret ''/tmp/f'', fd_write = (\<lambda>_ _. ret ()), fd_rm = (\<lambda>_. ret ()), fd_append = (\<lambda>_. ret ()), fd_runEvents = (\<lambda>_. []),
     fd_subjectOf = (\<lambda>_. None), fd_abort = (\<lambda>_. None), fd_now = (\<lambda>t. t), fd_sleep = (\<lambda>_ t. (Inr (), t + 1))\<rparr>"

definition demo_forge_config :: forge_config where
  "demo_forge_config = \<lparr>fc_kind = ''github'', fc_remote = None, fc_base = None, fc_method = None, fc_waitMs = Some (Finite 1),
     fc_pollMs = Some (Finite 1), fc_command = None\<rparr>"

definition demo_forge_landing :: "(train_stop + merge_outcome) \<times> forge_state \<times> int" where
  "demo_forge_landing = landForge 2 demo_forge_config demo_forge (forge_new [], 0)"

text \<open>What the demonstration comes to.\<close>

lemma demo_forge_landing_runs:
  "case demo_forge_landing of
     (Inr out, (s, t)) \<Rightarrow> map br_taskKey (mo_merged out) = [''a''] \<and> map br_taskKey (mo_withheld out) = [''b''] \<and>
       map br_taskKey (mo_empty out) = [''n''] \<and> landed_refs (fs_journal s) = [(''a'', ''swarm/t/a'', 1)] \<and> t = 1
   | _ \<Rightarrow> False"
  by code_simp

lemma demo_forge_landing_returns:
  obtains out s where "landForge 2 demo_forge_config demo_forge (forge_new [], 0) = (Inr out, (s, 1))"
    and "map br_taskKey (mo_merged out) = [''a'']" and "map br_taskKey (mo_withheld out) = [''b'']"
    and "landed_refs (fs_journal s) = [(''a'', ''swarm/t/a'', 1)]"
  using demo_forge_landing_runs unfolding demo_forge_landing_def by (auto split: prod.splits sum.splits)

lemma demo_lists: "lists_once (fd_git demo_forge)"
  by (auto simp: lists_once_def demo_forge_def demo_forge_git_def ret_def forge_tree_def)

lemma demo_clock: "clock_runs demo_forge"
  by (simp add: clock_runs_def demo_forge_def demo_forge_git_def runs_on_def ret_def throw_def)

lemma forge_accounts_witness:
  "\<exists>out s. landForge 2 demo_forge_config demo_forge (forge_new [], 0) = (Inr out, (s, 1)) \<and>
     map br_taskKey (mo_merged out) = [''a''] \<and> map br_taskKey (mo_withheld out) = [''b''] \<and>
     (\<exists>ws w0 w1. tg_list (fd_git demo_forge) w0 = (Inr ws, w1) \<and> outcome_refs out = mset (map tree_ref ws) \<and>
       mo_landed out = Some (mo_merged out) \<and> mo_conflicts out = [] \<and>
       landed_refs (fs_journal s) = landed_refs [] @ merged_refs (mo_merged out))"
proof -
  obtain out s where run: "landForge 2 demo_forge_config demo_forge (forge_new [], 0) = (Inr out, (s, 1))"
    and what: "map br_taskKey (mo_merged out) = [''a'']" "map br_taskKey (mo_withheld out) = [''b'']"
    by (rule demo_forge_landing_returns)
  show ?thesis
    by (rule exI [of _ out], rule exI [of _ s], intro conjI run what forge_accounts [OF run demo_lists])
qed

lemma forge_lands_merged_witness:
  "\<exists>out s. landForge 2 demo_forge_config demo_forge (forge_new [], 0) = (Inr out, (s, 1)) \<and>
     landed_refs (fs_journal s) = [(''a'', ''swarm/t/a'', 1)] \<and>
     (\<exists>es. fs_journal s = [] @ es \<and> list_all (forge_earned demo_forge_config demo_forge) es)"
proof -
  obtain out s where run: "landForge 2 demo_forge_config demo_forge (forge_new [], 0) = (Inr out, (s, 1))"
    and what: "landed_refs (fs_journal s) = [(''a'', ''swarm/t/a'', 1)]"
    by (rule demo_forge_landing_returns)
  from forge_lands_merged [OF run] run what show ?thesis by blast
qed

lemma forge_ends_witness:
  "fst (landForge (Suc 1) demo_forge_config demo_forge (forge_new [], 0)) \<noteq> Inl OutOfFuel"
proof (rule forge_ends [OF demo_clock])
  show "or_else (fc_waitMs demo_forge_config) (Finite 7200000) = Finite 1"
    by (simp add: demo_forge_config_def)
qed simp

end
