(* ===== verification/RemoteTrain.thy ===== *)
theory RemoteTrain
  imports SharedQueue
begin

text \<open>
  \<open>packages/swarm/src/train-client.ts\<close>: landing a run through a standalone train. Each branch with commits is pushed and
  enqueued; the run follows the train's events, and an entry the train ejects is repaired here and enqueued again. The
  connection to the train, git, member runs and the clock are the environment's; the entries, the outcome and the run's
  train journal are threaded beside it. The loop over the train's events, which only the train ends, takes fuel.
\<close>

section \<open>The connection\<close>

text \<open>\<open>url.lastIndexOf(':')\<close>: what is before it and what is after it.\<close>

definition dial_address :: "string \<Rightarrow> string \<times> string" where
  "dial_address url = (if CHR '':'' \<in> set url
     then (rev (tl (dropWhile (\<lambda>c. c \<noteq> CHR '':'') (rev url))), rev (takeWhile (\<lambda>c. c \<noteq> CHR '':'') (rev url)))
     else (butlast url, url))"

text \<open>\<open>a.replace(/\/+$|\.git$/g, '')\<close>: one of the two endings, never one after the other.\<close>

definition strip_remote :: "string \<Rightarrow> string" where
  "strip_remote u = (if u \<noteq> [] \<and> last u = CHR ''/'' then rev (dropWhile (\<lambda>c. c = CHR ''/'') (rev u))
     else if ends_with u ''.git'' then take (length u - 4) u else u)"

definition sameRemote :: "string \<Rightarrow> string \<Rightarrow> bool" where
  "sameRemote a b \<longleftrightarrow> strip_remote a = strip_remote b"

text \<open>The train's methods over the connection the environment holds (\<open>rm_connect\<close> opens and authenticates one).\<close>

record 'w remote_deps =
  rm_git :: "'w train_git"
  rm_exec :: "string list \<Rightarrow> ('w, thrown, string) act"
  rm_connect :: "string \<Rightarrow> string \<Rightarrow> string \<Rightarrow> ('w, thrown, unit) act"
  rm_close :: "('w, thrown, unit) act"
  rm_card :: "('w, thrown, train_card) act"
  rm_enqueue :: "string \<Rightarrow> string \<Rightarrow> string list \<Rightarrow> ('w, thrown, string \<times> shared_state) act"
  rm_withdraw :: "string \<Rightarrow> ('w, thrown, unit) act"
  rm_events :: "int \<Rightarrow> ('w, thrown, shared_event list \<times> int) act"
  rm_append :: "train_event \<Rightarrow> ('w, thrown, unit) act"
  rm_runEvents :: "'w \<Rightarrow> swarm_event list"
  rm_tasks :: "(string \<times> string list) list"
  rm_owners :: "(string, member_spec \<times> string) jmap"
  rm_members :: "member_spec list"
  rm_run :: "member_spec \<Rightarrow> string \<Rightarrow> string \<Rightarrow> fix_step \<Rightarrow> ('w, thrown, run_result) act"
  rm_abort :: "'w \<Rightarrow> thrown option"
  rm_now :: "'w \<Rightarrow> int"

definition dial :: "train_config \<Rightarrow> 'w remote_deps \<Rightarrow> ('w, thrown, unit) act" where
  "dial c d = (case dial_address (undef (tc_url c)) of (host, port) \<Rightarrow> rm_connect d host port (undef (tc_token c)))"

section \<open>State\<close>

record remote_entry =
  re_worktree :: worktree
  re_id :: string
  re_repairs :: nat
  re_settled :: bool

record remote_state =
  rt_entries :: "(string, remote_entry) jmap"
  rt_byId :: "(string, string) jmap"
  rt_after :: int
  rt_target :: string
  rt_merged :: "merged_branch list"
  rt_conflicts :: "branch_ref list"
  rt_empty :: "branch_ref list"
  rt_withheld :: "branch_ref list"
  rt_landed :: "merged_branch list"
  rt_ejected :: "ejected_branch list"
  rt_repaired :: "repaired_branch list"
  rt_resolved :: "branch_ref list"
  rt_journal :: "train_event list"

definition remote_new :: "train_event list \<Rightarrow> remote_state" where
  "remote_new j = \<lparr>rt_entries = [], rt_byId = [], rt_after = - 1, rt_target = [], rt_merged = [], rt_conflicts = [], rt_empty = [],
     rt_withheld = [], rt_landed = [], rt_ejected = [], rt_repaired = [], rt_resolved = [], rt_journal = j\<rparr>"

type_synonym ('w, 'a) rm = "(remote_state \<times> 'w, train_stop, 'a) act"

definition remote_name :: "train_config \<Rightarrow> string" where
  "remote_name c = or_else (tc_remote c) ''origin''"

definition rm_git_cmd :: "'w remote_deps \<Rightarrow> string list \<Rightarrow> ('w, thrown, string) act" where
  "rm_git_cmd d args = trimmed (rm_exec d args)"

definition remote_live :: "'w remote_deps \<Rightarrow> ('w, unit) rm" where
  "remote_live d = env (\<lambda>w. case rm_abort d w of None \<Rightarrow> (Inr (), w) | Some e \<Rightarrow> (Inl e, w))"

definition remote_record :: "'w remote_deps \<Rightarrow> train_event \<Rightarrow> ('w, unit) rm" where
  "remote_record d e = andThen (env (rm_append d e)) (\<lambda>_. modify (\<lambda>s. s\<lparr>rt_journal := rt_journal s @ [e]\<rparr>))"

definition entry_of :: "string \<Rightarrow> ('w, remote_entry) rm" where
  "entry_of k = andThen (gets (\<lambda>s. jm_get (rt_entries s) k)) (\<lambda>e. case e of
     None \<Rightarrow> throw (Threw (OtherError ''Cannot read properties of undefined'')) | Some e \<Rightarrow> ret e)"

definition change_entry :: "string \<Rightarrow> (remote_entry \<Rightarrow> remote_entry) \<Rightarrow> remote_state \<Rightarrow> remote_state" where
  "change_entry k f s = (case jm_get (rt_entries s) k of None \<Rightarrow> s | Some e \<Rightarrow> s\<lparr>rt_entries := jm_set k (f e) (rt_entries s)\<rparr>)"

definition remote_branch :: "remote_entry \<Rightarrow> string" where
  "remote_branch e = wt_branch (re_worktree e)"

definition client_ref :: "string \<Rightarrow> string \<Rightarrow> nat \<Rightarrow> entry_ref" where
  "client_ref k br n = \<lparr>er_key = k, er_branch = br, er_commits = n\<rparr>"

definition tracked :: "train_config \<Rightarrow> string \<Rightarrow> string" where
  "tracked c target = ''refs/remotes/'' @ remote_name c @ ''/'' @ target"

definition fetch_target :: "train_config \<Rightarrow> 'w remote_deps \<Rightarrow> string \<Rightarrow> ('w, thrown, string) act" where
  "fetch_target c d target = rm_git_cmd d [''fetch'', ''-q'', remote_name c, ''+refs/heads/'' @ target @ '':'' @ tracked c target]"

section \<open>Enqueueing\<close>

definition blocking_branches :: "'w remote_deps \<Rightarrow> (string, string) jmap \<Rightarrow> string \<Rightarrow> string list" where
  "blocking_branches d branchOf k =
     List.map_filter (jm_get branchOf) (or_else (map_option snd (find (\<lambda>t. fst t = k) (rm_tasks d))) [])"

definition remote_enqueue :: "train_config \<Rightarrow> 'w remote_deps \<Rightarrow> (string, string) jmap \<Rightarrow> string \<Rightarrow> worktree \<Rightarrow> ('w, string \<times> shared_state) rm" where
  "remote_enqueue c d branchOf k wt =
     (let br = wt_branch wt; blockedBy = blocking_branches d branchOf k in
      andThen (remote_live d) (\<lambda>_.
      andThen (env (rm_git_cmd d [''push'', ''-q'', ''--no-verify'', ''--force'', remote_name c, br @ '':refs/heads/'' @ br])) (\<lambda>_.
      andThen (env (rm_git_cmd d [''rev-parse'', br])) (\<lambda>sha.
      andThen (env (rm_enqueue d br sha blockedBy)) (\<lambda>(i, st).
      andThen (modify (\<lambda>s. s\<lparr>rt_byId := jm_set i k (rt_byId s)\<rparr>)) (\<lambda>_.
      andThen (env (reads (rm_now d))) (\<lambda>now.
      andThen (remote_record d (TrEnqueued (client_ref k br 0) sha (nat now) blockedBy 0 None)) (\<lambda>_. ret (i, st)))))))))"

definition already_done :: "shared_state \<Rightarrow> string" where
  "already_done st = ''the train already '' @ (if st = WasWithdrawn then ''withdrew'' else ''ejected'') @ '' it at this commit''"

definition add_remote :: "train_config \<Rightarrow> 'w remote_deps \<Rightarrow> (string, string) jmap \<Rightarrow> worktree \<Rightarrow> ('w, unit) rm" where
  "add_remote c d branchOf wt =
     (let k = wt_taskKey wt; br = wt_branch wt; g = rm_git d in
      andThen (env (tg_commitCount g br None)) (\<lambda>n.
      if n = 0 then
        andThen (modify (\<lambda>s. s\<lparr>rt_empty := rt_empty s @ [\<lparr>br_taskKey = k, br_branch = br\<rparr>]\<rparr>)) (\<lambda>_. env (tg_removeWorktree g wt))
      else
        andThen (remote_enqueue c d branchOf k wt) (\<lambda>(i, st).
        andThen (modify (\<lambda>s. s\<lparr>rt_entries := jm_set k
          \<lparr>re_worktree = wt, re_id = i, re_repairs = 0, re_settled = (st \<noteq> InQueue)\<rparr> (rt_entries s)\<rparr>)) (\<lambda>_.
        if st = HasLanded then
          andThen (env (tg_commitCount g br None)) (\<lambda>n.
            modify (\<lambda>s. s\<lparr>rt_landed := rt_landed s @ [\<lparr>br_taskKey = k, br_branch = br, br_commits = n\<rparr>]\<rparr>))
        else if st \<noteq> InQueue then
          modify (\<lambda>s. s\<lparr>rt_ejected := rt_ejected s @ [\<lparr>br_taskKey = k, br_branch = br, br_reason = already_done st\<rparr>]\<rparr>)
        else ret ()))))"

section \<open>Evidence\<close>

definition remote_landing :: "string \<Rightarrow> landing_outcome \<Rightarrow> string \<Rightarrow> landing_at" where
  "remote_landing k out base = \<lparr>la_key = k, la_outcome = out, la_via = ViaTrain, la_unverified = False, la_branch = [],
     la_base = base, la_at = 0, la_batch = None, la_commit = None, la_reason = None, la_diff = None\<rparr>"

definition remote_evidence :: "train_config \<Rightarrow> 'w remote_deps \<Rightarrow> landing_at \<Rightarrow> ('w, unit) rm" where
  "remote_evidence c d la =
     andThen (entry_of (la_key la)) (\<lambda>e.
     andThen (gets rt_target) (\<lambda>target.
     andThen (env (ignoring (fetch_target c d target))) (\<lambda>_.
     andThen (env (attempt (tg_diffStat (rm_git d) (la_base la) (remote_branch e)))) (\<lambda>diff.
     andThen (env (reads (rm_now d))) (\<lambda>now.
     andThen (env (reads (rm_runEvents d))) (\<lambda>runEvents.
     andThen (gets rt_journal) (\<lambda>trainEvents.
       remote_record d (TrEvidence (buildEvidence (la\<lparr>la_branch := remote_branch e, la_at := now,
         la_diff := (case diff of Inl _ \<Rightarrow> None | Inr x \<Rightarrow> Some x)\<rparr>) runEvents trainEvents)))))))))"

section \<open>Repairs\<close>

definition remote_owner :: "'w remote_deps \<Rightarrow> string \<Rightarrow> member_spec option" where
  "remote_owner d k = or_opt (map_option fst (jm_get (rm_owners d) k))
     (or_opt (find (\<lambda>m. mb_name m = k) (rm_members d)) (case rm_members d of [] \<Rightarrow> None | m # _ \<Rightarrow> Some m))"

definition remote_prompt :: "'w remote_deps \<Rightarrow> string \<Rightarrow> string" where
  "remote_prompt d k = (let p = or_else (map_option snd (jm_get (rm_owners d) k)) [] in if p = [] then [] else p @ nl @ nl)"

text \<open>\<open>String(error)\<close>.\<close>

fun error_string :: "thrown \<Rightarrow> string" where
  "error_string (AbortError m) = ''AbortError: '' @ m"
| "error_string (BudgetStopError m) = ''BudgetStopError: '' @ m"
| "error_string (OtherError m) = ''Error: '' @ m"

definition broken_text :: "string \<Rightarrow> string option \<Rightarrow> string option \<Rightarrow> string" where
  "broken_text why cmd out = ''`'' @ or_else cmd why @ ''`'' @ (case out of None \<Rightarrow> [] | Some t \<Rightarrow> if t = [] then [] else nl @ nl @ t)"

text \<open>The member's step: why it failed, if it did.\<close>

definition remote_step :: "'w remote_deps \<Rightarrow> member_spec \<Rightarrow> string \<Rightarrow> fix_step \<Rightarrow> string \<Rightarrow> ('w, thrown, string option) act" where
  "remote_step d m k st prompt =
     andThen (attempt (rm_run d m prompt k st)) (\<lambda>r.
       let (stop, said) = (case r of Inl e \<Rightarrow> (''error'', error_string e) | Inr res \<Rightarrow> (rs_stopReason res, rs_text res)) in
       ret (if stop = ''error'' then Some (''the '' @ fix_str st @ '' step failed: '' @ take 200 said) else None))"

text \<open>What a resolver left: its merge concluded, or why it is not.\<close>

definition conclude_resolver :: "'w remote_deps \<Rightarrow> string \<Rightarrow> worktree \<Rightarrow> string list \<Rightarrow> string \<Rightarrow> ('w, thrown, string option) act" where
  "conclude_resolver d target wt files tip =
     (let g = rm_git d in
      andThen (each (\<lambda>f. andThen (tg_readFile g (wt_path wt @ ''/'' @ f)) (\<lambda>t. ret (f, markers t))) files) (\<lambda>fs.
      let left = map fst (filter snd fs) in
      if left \<noteq> [] then ret (Some (''conflict markers remain in '' @ js_join '', '' left))
      else
        andThen (tg_concludeMerge g wt (''swarm: merge '' @ target @ '' into '' @ wt_branch wt @ '' (resolved)'')) (\<lambda>_.
        andThen (tg_contains g (wt_branch wt) tip) (\<lambda>there.
          ret (if there then None else Some (target @ [CHR 0x27] @ ''s tip is not in the branch after the resolver''))))))"

definition settle_step ::
  "'w remote_deps \<Rightarrow> string \<Rightarrow> string \<Rightarrow> worktree \<Rightarrow> string list \<Rightarrow> string \<Rightarrow> string \<Rightarrow> string option \<Rightarrow> ('w, thrown, string option) act" where
  "settle_step d target k wt files tip before failed =
     (let g = rm_git d; st = (if files \<noteq> [] then Resolve else Repair) in
      andThen (if st = Resolve \<and> failed = None then conclude_resolver d target wt files tip else ret failed) (\<lambda>failed.
      andThen (if st = Resolve \<and> failed \<noteq> None then ignoring (tg_abortMerge g wt) else ret ()) (\<lambda>_.
      andThen (if st = Repair \<and> failed = None then andThen (tg_autoCommit g wt (''swarm: repair '' @ k @ '' (train)'')) (\<lambda>_. ret ()) else ret ()) (\<lambda>_.
        if failed \<noteq> None then ret failed
        else andThen (rm_git_cmd d [''rev-parse'', wt_branch wt]) (\<lambda>now.
          ret (if now = before then Some (''the '' @ fix_str st @ '' changed nothing'') else None))))))"

definition step_event :: "string \<Rightarrow> worktree \<Rightarrow> member_spec \<Rightarrow> nat \<Rightarrow> fix_step \<Rightarrow> string \<Rightarrow> string option \<Rightarrow> train_event" where
  "step_event k wt m n st why failed =
     (let r = client_ref k (wt_branch wt) 0; out = (if failed = None then Committed else RepairFailed) in
      case st of Repair \<Rightarrow> TrRepair r (mb_name m) n why out failed | Resolve \<Rightarrow> TrRemoteResolve r (mb_name m) n out why failed)"

text \<open>The \<open>try\<close> of a repair; what it throws ends that entry, not the landing.\<close>

definition repair_entry ::
  "train_config \<Rightarrow> 'w remote_deps \<Rightarrow> (string, string) jmap \<Rightarrow> string \<Rightarrow> member_spec \<Rightarrow> string \<Rightarrow> string option \<Rightarrow> string option \<Rightarrow> ('w, bool) rm" where
  "repair_entry c d branchOf k m why cmd out =
     andThen (entry_of k) (\<lambda>e.
     andThen (gets rt_target) (\<lambda>target.
     let wt = re_worktree e in
     andThen (env (fetch_target c d target)) (\<lambda>_.
     andThen (env (rm_git_cmd d [''rev-parse'', tracked c target])) (\<lambda>tip.
     andThen (env (rm_git_cmd d [''rev-parse'', wt_branch wt])) (\<lambda>before.
     andThen (env (tg_mergeInto (rm_git d) wt tip)) (\<lambda>files.
     let st = (if files \<noteq> [] then Resolve else Repair);
         prompt = (if files \<noteq> [] then resolverPrompt (remote_prompt d k) target files
           else repairPrompt (remote_prompt d k) target (broken_text why cmd out)) in
     andThen (env (remote_step d m k st prompt)) (\<lambda>failed.
     andThen (env (settle_step d target k wt files tip before failed)) (\<lambda>failed.
     andThen (remote_record d (step_event k wt m (re_repairs e) st why failed)) (\<lambda>_.
     if failed \<noteq> None then ret False
     else
       andThen (if st = Resolve then modify (\<lambda>s. s\<lparr>rt_resolved := rt_resolved s @ [\<lparr>br_taskKey = k, br_branch = wt_branch wt\<rparr>]\<rparr>) else ret ()) (\<lambda>_.
       andThen (remote_enqueue c d branchOf k wt) (\<lambda>(i, again).
       andThen (modify (change_entry k (\<lambda>e. e\<lparr>re_id := i\<rparr>))) (\<lambda>_. ret (again = InQueue)))))))))))))"

definition catch_thrown :: "('w, bool) rm \<Rightarrow> ('w, bool) rm" where
  "catch_thrown m = catching m (\<lambda>e. case e of Threw _ \<Rightarrow> ret False | OutOfFuel \<Rightarrow> throw OutOfFuel)"

definition max_repairs :: "train_config \<Rightarrow> rat" where
  "max_repairs c = or_else (tc_maxRepairs c) 1"

definition remote_repair ::
  "train_config \<Rightarrow> 'w remote_deps \<Rightarrow> (string, string) jmap \<Rightarrow> string \<Rightarrow> eject_kind \<Rightarrow> string \<Rightarrow> string option \<Rightarrow> string option \<Rightarrow> ('w, bool) rm" where
  "remote_repair c d branchOf k kind why cmd out =
     andThen (entry_of k) (\<lambda>e. case remote_owner d k of
       None \<Rightarrow> ret False
     | Some m \<Rightarrow>
         if of_nat (re_repairs e) \<ge> max_repairs c \<or> kind = MovedKind \<or> kind = BlockedKind then ret False
         else
           andThen (modify (change_entry k (\<lambda>e. e\<lparr>re_repairs := re_repairs e + 1\<rparr>))) (\<lambda>_.
             catch_thrown (repair_entry c d branchOf k m why cmd out)))"

section \<open>Following the train\<close>

fun eject_kind_str :: "eject_kind \<Rightarrow> string" where
  "eject_kind_str ConflictKind = ''conflict''"
| "eject_kind_str CheckKind = ''check''"
| "eject_kind_str MovedKind = ''moved''"
| "eject_kind_str BlockedKind = ''blocked''"

definition settle :: "string \<Rightarrow> remote_state \<Rightarrow> remote_state" where
  "settle k = change_entry k (\<lambda>e. e\<lparr>re_settled := True\<rparr>)"

definition remote_landed :: "train_config \<Rightarrow> 'w remote_deps \<Rightarrow> string \<Rightarrow> int \<Rightarrow> string \<Rightarrow> string \<Rightarrow> ('w, unit) rm" where
  "remote_landed c d k batch target_commit tip =
     andThen (entry_of k) (\<lambda>e.
     let br = remote_branch e; g = rm_git d in
     andThen (modify (settle k)) (\<lambda>_.
     andThen (env (catching (tg_commitCount g br None) (\<lambda>_. ret 0))) (\<lambda>n.
     let item = \<lparr>br_taskKey = k, br_branch = br, br_commits = n\<rparr> in
     andThen (modify (\<lambda>s. s\<lparr>rt_landed := rt_landed s @ [item], rt_merged := rt_merged s @ [item]\<rparr>)) (\<lambda>_.
     andThen (remote_record d (TrLanded (client_ref k br n) batch target_commit False)) (\<lambda>_.
     andThen (remote_evidence c d ((remote_landing k OutLanded tip)\<lparr>la_commit := Some target_commit, la_batch := Some batch\<rparr>)) (\<lambda>_.
       env (tg_removeWorktree g (re_worktree e))))))))"

definition remote_ejected :: "train_config \<Rightarrow> 'w remote_deps \<Rightarrow> string \<Rightarrow> bool \<Rightarrow> string \<Rightarrow> ('w, unit) rm" where
  "remote_ejected c d k conflicted why =
     andThen (entry_of k) (\<lambda>e.
     let br = remote_branch e in
     andThen (modify (settle k)) (\<lambda>_.
     andThen (modify (\<lambda>s. s\<lparr>rt_ejected := rt_ejected s @ [\<lparr>br_taskKey = k, br_branch = br, br_reason = why\<rparr>],
       rt_conflicts := rt_conflicts s @ (if conflicted then [\<lparr>br_taskKey = k, br_branch = br\<rparr>] else [])\<rparr>)) (\<lambda>_.
     andThen (remote_record d (TrEjected (client_ref k br 0) why)) (\<lambda>_.
     andThen (gets rt_target) (\<lambda>target.
     andThen (env (catching (rm_git_cmd d [''rev-parse'', tracked c target]) (\<lambda>_. ret []))) (\<lambda>tip.
       remote_evidence c d ((remote_landing k OutEjected (if tip = [] then br else tip))\<lparr>la_reason := Some why\<rparr>)))))))"

definition handle_ours :: "train_config \<Rightarrow> 'w remote_deps \<Rightarrow> (string, string) jmap \<Rightarrow> string \<Rightarrow> shared_event \<Rightarrow> ('w, unit) rm" where
  "handle_ours c d branchOf k ev =
     (case ev of
        ShLanded _ batch target_commit tip \<Rightarrow> remote_landed c d k batch target_commit tip
      | ShEjected _ kind why cmd out \<Rightarrow>
          andThen (remote_repair c d branchOf k kind why cmd out) (\<lambda>again.
            if again then ret () else remote_ejected c d k (kind = ConflictKind) (eject_kind_str kind @ '': '' @ why))
      | ShWithdrawn _ ByClient \<Rightarrow> remote_ejected c d k False ''withdrawn from the train''
      | _ \<Rightarrow> ret ())"

text \<open>An event of an entry as this run last enqueued it; the others are not for it.\<close>

definition handle_event :: "train_config \<Rightarrow> 'w remote_deps \<Rightarrow> (string, string) jmap \<Rightarrow> shared_event \<Rightarrow> ('w, unit) rm" where
  "handle_event c d branchOf ev =
     (case event_entry ev of
        None \<Rightarrow> ret ()
      | Some i \<Rightarrow>
          andThen (gets (\<lambda>s. jm_get (rt_byId s) i)) (\<lambda>k. case k of
            None \<Rightarrow> ret ()
          | Some k \<Rightarrow> andThen (entry_of k) (\<lambda>e. if re_id e \<noteq> i then ret () else handle_ours c d branchOf k ev)))"

primrec follow :: "nat \<Rightarrow> train_config \<Rightarrow> 'w remote_deps \<Rightarrow> (string, string) jmap \<Rightarrow> ('w, unit) rm" where
  "follow 0 c d branchOf = throw OutOfFuel"
| "follow (Suc n) c d branchOf =
     andThen (gets (\<lambda>s. list_ex (\<lambda>e. \<not> re_settled e) (jm_vals (rt_entries s)))) (\<lambda>waiting.
     if \<not> waiting then ret ()
     else
       andThen (remote_live d) (\<lambda>_.
       andThen (gets rt_after) (\<lambda>after.
       andThen (env (rm_events d after)) (\<lambda>(events, next_after).
       andThen (modify (\<lambda>s. s\<lparr>rt_after := next_after\<rparr>)) (\<lambda>_.
       andThen (each_do (handle_event c d branchOf) events) (\<lambda>_. follow n c d branchOf))))))"

section \<open>The landing\<close>

definition wrong_remote :: "train_config \<Rightarrow> string option \<Rightarrow> string \<Rightarrow> string" where
  "wrong_remote c url ours = ''the train lands from '' @ or_else url ''its own checkout'' @ '', and this repository'' @ [CHR 0x27] @ ''s '' @
     remote_name c @ '' is '' @ (if ours = [] then ''not set'' else ours) @ '': point worktrees.train.remote at the train'' @ [CHR 0x27] @ ''s remote''"

definition note_repaired :: "remote_state \<Rightarrow> remote_state" where
  "note_repaired s = s\<lparr>rt_repaired := rt_repaired s @ map (\<lambda>e. \<lparr>br_taskKey = wt_taskKey (re_worktree e), br_branch = remote_branch e,
     br_repairs = re_repairs e\<rparr>) (filter (\<lambda>e. re_repairs e > 0) (jm_vals (rt_entries s)))\<rparr>"

definition remote_listed :: "nat \<Rightarrow> train_config \<Rightarrow> 'w remote_deps \<Rightarrow> (string, string) jmap \<Rightarrow> worktree list \<Rightarrow> ('w, unit) rm" where
  "remote_listed fuel c d branchOf ws =
     andThen (each_do (add_remote c d branchOf) ws) (\<lambda>_. andThen (follow fuel c d branchOf) (\<lambda>_. modify note_repaired))"

definition remote_body :: "nat \<Rightarrow> train_config \<Rightarrow> 'w remote_deps \<Rightarrow> ('w, unit) rm" where
  "remote_body fuel c d =
     andThen (env (rm_card d)) (\<lambda>card.
     andThen (modify (\<lambda>s. s\<lparr>rt_target := cd_target card\<rparr>)) (\<lambda>_.
     andThen (env (catching (rm_git_cmd d [''remote'', ''get-url'', remote_name c]) (\<lambda>_. ret []))) (\<lambda>ours.
     if (case cd_remoteUrl card of None \<Rightarrow> True | Some u \<Rightarrow> \<not> sameRemote ours u)
     then throw (Threw (OtherError (wrong_remote c (cd_remoteUrl card) ours)))
     else
       andThen (env (tg_list (rm_git d))) (\<lambda>known.
       let branchOf = foldl (\<lambda>m wt. jm_set (wt_taskKey wt) (wt_branch wt) m) [] known in
       andThen (env (tg_list (rm_git d))) (\<lambda>ws.
         remote_listed fuel c d branchOf ws)))))"

definition remote_result :: "remote_state \<Rightarrow> merge_outcome" where
  "remote_result s = \<lparr>mo_targetBranch = rt_target s, mo_merged = rt_merged s, mo_conflicts = rt_conflicts s, mo_empty = rt_empty s,
     mo_withheld = rt_withheld s, mo_landed = Some (rt_landed s), mo_ejected = Some (rt_ejected s),
     mo_repaired = Some (rt_repaired s), mo_resolved = Some (rt_resolved s), mo_stopped = None\<rparr>"

text \<open>The entries not settled are withdrawn, on a new connection when one opens, and withheld.\<close>

definition withdraw_one :: "'w remote_deps \<Rightarrow> remote_entry \<Rightarrow> ('w, unit) rm" where
  "withdraw_one d e =
     (if re_settled e then ret ()
      else
        andThen (env (ignoring (rm_withdraw d (re_id e)))) (\<lambda>_.
          modify (\<lambda>s. s\<lparr>rt_withheld := rt_withheld s @ [\<lparr>br_taskKey = wt_taskKey (re_worktree e), br_branch = remote_branch e\<rparr>]\<rparr>)))"

definition stop_remote :: "train_config \<Rightarrow> 'w remote_deps \<Rightarrow> ('w, unit) rm" where
  "stop_remote c d =
     andThen (env (rm_close d)) (\<lambda>_.
     andThen (env (ignoring (dial c d))) (\<lambda>_.
     andThen (gets (\<lambda>s. jm_vals (rt_entries s))) (\<lambda>es. each_do (withdraw_one d) es)))"

datatype remote_end = RemoteReturned merge_outcome | RemoteStopped string merge_outcome | RemoteFailed thrown | RemoteUnfinished

definition landRemote ::
  "nat \<Rightarrow> train_config \<Rightarrow> 'w remote_deps \<Rightarrow> train_event list \<Rightarrow> 'w \<Rightarrow> remote_end \<times> remote_state \<times> 'w" where
  "landRemote fuel c d j w =
     (case dial c d w of
        (Inl e, w) \<Rightarrow> (RemoteFailed e, remote_new j, w)
      | (Inr _, w) \<Rightarrow>
          (case remote_body fuel c d (remote_new j, w) of
             (Inr _, (s, w)) \<Rightarrow> (RemoteReturned (remote_result s), s, snd (rm_close d w))
           | (Inl OutOfFuel, (s, w)) \<Rightarrow> (RemoteUnfinished, s, w)
           | (Inl (Threw e), (s, w)) \<Rightarrow>
               (case stop_remote c d (s, w) of
                  (_, (s, w)) \<Rightarrow>
                    (RemoteStopped (''landing through the train at '' @ undef (tc_url c) @ '' stopped: '' @ message_of e)
                       ((remote_result s)\<lparr>mo_stopped := Some (message_of e)\<rparr>), s, snd (rm_close d w)))))"

end
