(* ===== verification/RemoteDemo.thy ===== *)
theory RemoteDemo
  imports RemoteTrain Landings
begin

text \<open>
  A small world to run the client in: the train is the queue of \<open>train-service.ts\<close>, called as client \<open>ci\<close>; it
  ejects the one branch at its first commit for a conflict and lands it at its second, and the run's member resolves the
  conflict. In the other world the run is cancelled while the reply to its enqueue is on its way.
\<close>

record remote_world =
  wo_train :: train_service
  wo_cancelled :: bool
  wo_commits :: nat

definition still_service :: "unit service_deps" where
  "still_service = \<lparr>sd_files = \<lparr>gt_git = (\<lambda>_ _. ret []), gt_indexed = (\<lambda>_ _ _. ret []), gt_exitCode = (\<lambda>_. None),
       gt_exists = (\<lambda>_. ret False), gt_mkdirs = (\<lambda>_. ret ()), gt_mkdtemp = ret, gt_read = (\<lambda>_. ret []), gt_append = (\<lambda>_ _. ret ()),
       gt_write = (\<lambda>_ _. ret ()), gt_copy = (\<lambda>_ _. ret ()), gt_hardlink = (\<lambda>_ _. ret ()), gt_cp = (\<lambda>_ _ _. ret ()),
       gt_rm = (\<lambda>_. ret ()), gt_readdir = (\<lambda>_. ret []), gt_mtime = (\<lambda>_. ret 0), gt_now = (\<lambda>_. 0),
       gt_progress = None, gt_tmpdir = ''/tmp'', gt_sha8 = (\<lambda>s. s)\<rparr>,
     sd_append = (\<lambda>_. ret ()), sd_now = (\<lambda>_. 0), sd_meanwhile = (\<lambda>v. ([], v)), sd_theirs = (\<lambda>_. False), sd_hash = (\<lambda>t. t),
     sd_token = ret ''k'', sd_bash = (\<lambda>_ _. ret ()), sd_stderr = message_of, sd_wait = ret (), sd_aborted = (\<lambda>_. False)\<rparr>"

text \<open>A method of the train, as the connection answers it.\<close>

definition serve :: "(unit, 'a) sv \<Rightarrow> (remote_world, thrown, 'a) act" where
  "serve m = (\<lambda>w. case m (wo_train w, ()) of
     (Inr x, (t, _)) \<Rightarrow> (Inr x, w\<lparr>wo_train := t\<rparr>)
   | (Inl (Threw e), (t, _)) \<Rightarrow> (Inl e, w\<lparr>wo_train := t\<rparr>)
   | (Inl OutOfFuel, (t, _)) \<Rightarrow> (Inl (OtherError ''no reply''), w\<lparr>wo_train := t\<rparr>))"

definition remote_tree :: worktree where
  "remote_tree = \<lparr>wt_taskKey = ''a'', wt_path = ''/w/a'', wt_branch = ''swarm/t/a''\<rparr>"

text \<open>The branch's commit is the count of commits made to it.\<close>

definition demo_commit :: "nat \<Rightarrow> string" where
  "demo_commit n = nat_str n @ replicate 39 (CHR ''a'')"

definition remote_git :: "remote_world train_git" where
  "remote_git = \<lparr>tg_target = ''main'', tg_list = ret [remote_tree], tg_commitCount = (\<lambda>_ _. ret 1),
     tg_diffStat = (\<lambda>_ _. ret \<lparr>ds_files = [''f''], ds_insertions = 1, ds_deletions = 0\<rparr>), tg_targetTip = ret ''c0'', tg_revParse = ret,
     tg_speculate = (\<lambda>tip _. ret (''/t'', tip, [])), tg_advanceTarget = (\<lambda>_. ret ()), tg_removeWorktree = (\<lambda>_. ret ()),
     tg_mergeAll = throw (OtherError ''no queue''), tg_mergeInto = (\<lambda>_ _. ret [''f'']), tg_abortMerge = (\<lambda>_. ret ()),
     tg_concludeMerge = (\<lambda>_ _ w. (Inr (), w\<lparr>wo_commits := wo_commits w + 1\<rparr>)), tg_contains = (\<lambda>_ _. ret True),
     tg_autoCommit = (\<lambda>_ _. ret False), tg_snapshot = (\<lambda>_. throw (OtherError ''no snapshot'')), tg_readFile = (\<lambda>_. ret (Some ''fixed''))\<rparr>"

definition remote_exec :: "string list \<Rightarrow> (remote_world, thrown, string) act" where
  "remote_exec args = (\<lambda>w. (Inr (if hd args = ''remote'' then ''https://x/r''
     else if hd args = ''rev-parse'' then demo_commit (wo_commits w) else []), w))"

definition first_queued :: "train_service \<Rightarrow> string list" where
  "first_queued t = map se_id (filter (\<lambda>e. se_state e = InQueue) (jm_vals (ts_entries t)))"

definition remote_events :: "int \<Rightarrow> (remote_world, thrown, shared_event list \<times> int) act" where
  "remote_events after = (\<lambda>w. (case first_queued (wo_train w) of
     [] \<Rightarrow> (Inr ([], after), w)
   | i # _ \<Rightarrow>
       let ev = (if wo_commits w = 0 then ShEjected i ConflictKind ''conflicts with main in f'' None None else ShLanded i 1 ''m'' ''t'') in
       (Inr ([ev], after + 1), w\<lparr>wo_train := apply_event (wo_train w) (0, ev)\<rparr>)))"

definition demo_remote :: "remote_world remote_deps" where
  "demo_remote = \<lparr>rm_git = remote_git, rm_exec = remote_exec, rm_connect = (\<lambda>_ _ _. ret ()), rm_close = ret (),
     rm_card = ret \<lparr>cd_target = ''main'', cd_remote = Some ''origin'', cd_remoteUrl = Some ''https://x/r'', cd_checks = [], cd_batchSize = 4\<rparr>,
     rm_enqueue = (\<lambda>br sha bs. serve (service_enqueue 3 still_service ''ci'' br sha bs None)),
     rm_withdraw = (\<lambda>i. serve (service_withdraw 3 still_service ''ci'' i)), rm_events = remote_events, rm_append = (\<lambda>_. ret ()),
     rm_runEvents = (\<lambda>_. []), rm_tasks = [], rm_owners = [], rm_members = [plain_member ''dev''],
     rm_run = (\<lambda>m _ _ _. ret \<lparr>rs_member = mb_name m, rs_runId = ''r'', rs_text = ''done'', rs_output = [], rs_stopReason = ''completed''\<rparr>),
     rm_abort = (\<lambda>w. if wo_cancelled w then Some (AbortError ''cancelled'') else None), rm_now = (\<lambda>_. 0)\<rparr>"

text \<open>The cancel closes the socket after the train has the request and before its reply is read.\<close>

definition cut_off :: "remote_world remote_deps" where
  "cut_off = demo_remote\<lparr>rm_enqueue := (\<lambda>br sha bs w. (Inl (OtherError ''socket closed''),
     (snd (rm_enqueue demo_remote br sha bs w))\<lparr>wo_cancelled := True\<rparr>))\<rparr>"

definition remote_config :: train_config where
  "remote_config = \<lparr>tc_checks = None, tc_suite = None, tc_batchSize = None, tc_maxRepairs = None, tc_url = Some ''train.local:7070'',
     tc_token = Some ''k'', tc_remote = None\<rparr>"

definition remote_start :: remote_world where
  "remote_start = \<lparr>wo_train = service_new (journal_new ''t'' []), wo_cancelled = False, wo_commits = 0\<rparr>"

definition demo_remote_landing :: "remote_end \<times> remote_state \<times> remote_world" where
  "demo_remote_landing = landRemote 3 remote_config demo_remote [] remote_start"

lemma demo_remote_runs:
  "case demo_remote_landing of
     (RemoteReturned out, s, w) \<Rightarrow> outcome_refs out = {#(''a'', ''swarm/t/a'')#} \<and>
       mo_resolved out = Some [\<lparr>br_taskKey = ''a'', br_branch = ''swarm/t/a''\<rparr>] \<and>
       TrLanded \<lparr>er_key = ''a'', er_branch = ''swarm/t/a'', er_commits = 1\<rparr> 1 ''m'' False \<in> set (rt_journal s)
   | _ \<Rightarrow> False"
  by code_simp

lemma demo_remote_returns:
  obtains out s w where "landRemote 3 remote_config demo_remote [] remote_start = (RemoteReturned out, s, w)"
    and "outcome_refs out = {#(''a'', ''swarm/t/a'')#}" and "mo_resolved out = Some [\<lparr>br_taskKey = ''a'', br_branch = ''swarm/t/a''\<rparr>]"
    and "TrLanded \<lparr>er_key = ''a'', er_branch = ''swarm/t/a'', er_commits = 1\<rparr> 1 ''m'' False \<in> set (rt_journal s)"
proof -
  obtain r s w where run: "demo_remote_landing = (r, s, w)" by (metis prod.exhaust)
  note what = demo_remote_runs [unfolded run prod.case]
  show thesis
  proof (cases r)
    case (RemoteReturned out)
    from run have "landRemote 3 remote_config demo_remote [] remote_start = (RemoteReturned out, s, w)"
      unfolding RemoteReturned demo_remote_landing_def .
    then show thesis
      using what unfolding RemoteReturned remote_end.case by (elim conjE) (rule that)
  qed (use what in simp_all)
qed

lemma demo_remote_lists: "lists_once (rm_git demo_remote)"
  by (simp add: lists_once_def demo_remote_def remote_git_def ret_def remote_tree_def)

end
