(* ===== verification/RemoteProperties.thy ===== *)
theory RemoteProperties
  imports RemoteDemo
begin

text \<open>
  What landing through a remote train guarantees the run: every worktree is reported, and nothing is journaled as landed
  but what the train said it landed; and three places where it does less than it says.
\<close>

text \<open>A landing that returns.\<close>

lemma remote_returned:
  assumes "landRemote fuel c d j w = (RemoteReturned out, s', w')"
  obtains w0 w1 where "remote_body fuel c d (remote_new j, w0) = (Inr (), (s', w1))" and "out = remote_result s'"
proof (cases "dial c d w")
  case (Pair q w0)
  obtain b s1 w1 where b: "remote_body fuel c d (remote_new j, w0) = (b, (s1, w1))" by (metis prod.exhaust)
  obtain q2 s2 w2 where "stop_remote c d (s1, w1) = (q2, (s2, w2))" by (metis prod.exhaust)
  with assms Pair b have "b = Inr () \<and> s' = s1 \<and> out = remote_result s1"
    unfolding landRemote_def by (cases q; cases b; cases "projl b") simp_all
  with b that show thesis by blast
qed

section \<open>Nothing landed but what the train said\<close>

text \<open>The train gave this id for the branch, and said that it landed.\<close>

definition id_given :: "'w remote_deps \<Rightarrow> string \<Rightarrow> string \<Rightarrow> bool" where
  "id_given d br i \<longleftrightarrow> (\<exists>w sha bs st w'. rm_enqueue d br sha bs w = (Inr (i, st), w'))"

definition landing_told :: "'w remote_deps \<Rightarrow> string \<Rightarrow> int \<Rightarrow> string \<Rightarrow> bool" where
  "landing_told d i batch target_commit \<longleftrightarrow> (\<exists>after w events next_after w' tip. rm_events d after w = (Inr (events, next_after), w') \<and>
     ShLanded i batch target_commit tip \<in> set events)"

definition remote_earned :: "'w remote_deps \<Rightarrow> train_event \<Rightarrow> bool" where
  "remote_earned d e = (case e of
     TrLanded r batch target_commit un \<Rightarrow>
       \<not> un \<and> (\<exists>i. id_given d (er_branch r) i \<and> landing_told d i batch target_commit)
   | _ \<Rightarrow> True)"

lemma id_givenI: "rm_enqueue d br sha bs w = (Inr (i, st), w') \<Longrightarrow> id_given d br i"
  unfolding id_given_def by blast

text \<open>The journal's landings are the train's, and every entry has the branch of its key, with an id given for it.\<close>

definition entry_true :: "'w remote_deps \<Rightarrow> (string \<Rightarrow> string) \<Rightarrow> string \<Rightarrow> remote_entry \<Rightarrow> bool" where
  "entry_true d B k e \<longleftrightarrow> remote_branch e = B k \<and> id_given d (B k) (re_id e)"

definition told :: "'w remote_deps \<Rightarrow> train_event list \<Rightarrow> remote_state \<Rightarrow> bool" where
  "told d j s \<longleftrightarrow> (\<exists>es. rt_journal s = j @ es \<and> list_all (remote_earned d) es)"

definition remote_true :: "'w remote_deps \<Rightarrow> (string \<Rightarrow> string) \<Rightarrow> train_event list \<Rightarrow> remote_state \<Rightarrow> bool" where
  "remote_true d B j s \<longleftrightarrow> told d j s \<and> (\<forall>(k, e) \<in> set (rt_entries s). entry_true d B k e)"

definition tells :: "'w remote_deps \<Rightarrow> (string \<Rightarrow> string) \<Rightarrow> train_event list \<Rightarrow> remote_state \<Rightarrow> remote_state \<Rightarrow> bool" where
  "tells d B j s s' \<longleftrightarrow> (remote_true d B j s \<longrightarrow> remote_true d B j s')"

interpretation telling: train_relation "tells d B j" for d B j
  by unfold_locales (auto simp: tells_def)

lemma told_record: "told d j s \<Longrightarrow> remote_earned d e \<Longrightarrow> told d j (s\<lparr>rt_journal := rt_journal s @ [e]\<rparr>)"
  unfolding told_def by (auto intro: exI [of _ "_ @ [e]"])

lemma tells_record: "remote_earned d e \<Longrightarrow> keeps (tells d B j) (remote_record d e)"
  unfolding remote_record_def
  by (intro telling.keeps_andThen telling.keeps_env keeps_modify) (simp add: tells_def remote_true_def told_record)

lemma tells_modify_same:
  "(\<And>s. rt_journal (f s) = rt_journal s) \<Longrightarrow> (\<And>s. rt_entries (f s) = rt_entries s) \<Longrightarrow> keeps (tells d B j) (modify f)"
  by (rule keeps_modify) (simp add: tells_def remote_true_def told_def)

lemma set_jm_set: "x \<in> set (jm_set k v m) \<Longrightarrow> x = (k, v) \<or> x \<in> set m"
  unfolding jm_set_def by (induction m) (auto split: if_splits)

lemma tells_set: "entry_true d B k e \<Longrightarrow> keeps (tells d B j) (modify (\<lambda>s. s\<lparr>rt_entries := jm_set k e (rt_entries s)\<rparr>))"
  by (rule keeps_modify) (auto simp: tells_def remote_true_def told_def dest: set_jm_set)

lemma tells_change:
  assumes "\<And>e. entry_true d B k e \<Longrightarrow> entry_true d B k (f e)"
  shows "keeps (tells d B j) (modify (change_entry k f))"
proof (rule keeps_modify)
  fix s show "tells d B j s (change_entry k f s)"
    using assms
    by (auto simp: tells_def remote_true_def told_def change_entry_def dest!: jm_get_Some_mem set_jm_set split: option.split)
qed

text \<open>A step whose continuation may use what the environment answered, and one that looks an entry up.\<close>

lemma tells_asked:
  assumes "\<And>x w w'. m w = (Inr x, w') \<Longrightarrow> keeps (tells d B j) (f x)"
  shows "keeps (tells d B j) (andThen (env m) f)"
proof (rule keepsI)
  fix s w r s' w' assume "andThen (env m) f (s, w) = (r, (s', w'))"
  then show "tells d B j s s'"
    by (auto simp: act_simps env_def tells_def split: prod.splits sum.splits dest: keepsD [OF assms])
qed

lemma tells_entry:
  assumes "\<And>e. entry_true d B k e \<Longrightarrow> keeps (tells d B j) (f e)"
  shows "keeps (tells d B j) (andThen (entry_of k) f)"
proof (rule keepsI)
  fix s w r s' w' assume run: "andThen (entry_of k) f (s, w) = (r, (s', w'))"
  show "tells d B j s s'"
  proof (cases "jm_get (rt_entries s) k")
    case None
    with run show ?thesis by (simp add: act_simps entry_of_def gets_def tells_def)
  next
    case (Some e)
    with run have "f e (s, w) = (r, (s', w'))" by (simp add: act_simps entry_of_def gets_def)
    moreover have "entry_true d B k e" if "remote_true d B j s"
      using that jm_get_Some_mem [OF Some] by (auto simp: remote_true_def)
    ultimately have "remote_true d B j s'" if "remote_true d B j s"
      using that keepsD [OF assms, of e s w r s' w'] by (simp add: tells_def)
    then show ?thesis by (simp add: tells_def)
  qed
qed

lemma tells_entry_of: "keeps (tells d B j) (entry_of k)"
  unfolding entry_of_def
  by (auto intro!: telling.keeps_andThen telling.keeps_gets telling.keeps_throw telling.keeps_ret split: option.split)

lemma tells_live: "keeps (tells d B j) (remote_live d)"
  unfolding remote_live_def by (rule telling.keeps_env)

lemmas tells_steps = telling.keeps_andThen telling.keeps_env telling.keeps_gets telling.keeps_ret telling.keeps_throw
  tells_live tells_entry_of tells_modify_same

lemma andThen_assoc: "andThen (andThen m g) h = andThen m (\<lambda>x. andThen (g x) h)"
  by (auto simp: andThen_def fun_eq_iff split: prod.split sum.split)

lemma tells_enqueue:
  assumes "\<And>i st. id_given d (wt_branch wt) i \<Longrightarrow> keeps (tells d B j) (f (i, st))"
  shows "keeps (tells d B j) (andThen (remote_enqueue c d branchOf k wt) f)"
  unfolding remote_enqueue_def Let_def andThen_assoc case_prod_unfold
  by (rule tells_asked | rule tells_live | rule telling.keeps_andThen)+
    (auto intro!: tells_steps tells_record assms id_givenI simp: remote_earned_def)

lemma tells_evidence: "keeps (tells d B j) (remote_evidence c d la)"
  unfolding remote_evidence_def
  by (intro telling.keeps_andThen telling.keeps_env telling.keeps_gets tells_entry_of tells_record) (simp add: remote_earned_def)

lemma tells_repair_entry: "keeps (tells d B j) (repair_entry c d branchOf k m why cmd out)"
  unfolding repair_entry_def Let_def
  by (rule tells_entry)
    (auto intro!: tells_steps tells_record tells_enqueue tells_change simp: remote_earned_def step_event_def Let_def
      entry_true_def remote_branch_def split: fix_step.split)

lemma tells_catch:
  assumes "keeps (tells d B j) m"
  shows "keeps (tells d B j) (catch_thrown m)"
proof (rule keepsI)
  fix s w r s' w' assume run: "catch_thrown m (s, w) = (r, (s', w'))"
  obtain q s1 w1 where m: "m (s, w) = (q, (s1, w1))" by (metis prod.exhaust)
  with run have "s' = s1"
    by (auto simp: catch_thrown_def act_simps split: sum.splits train_stop.splits)
  with m assms show "tells d B j s s'" by (auto dest: keepsD)
qed

lemma tells_repair: "keeps (tells d B j) (remote_repair c d branchOf k kind why cmd out)"
  unfolding remote_repair_def
  by (rule telling.keeps_andThen [OF tells_entry_of])
    (auto intro!: telling.keeps_andThen telling.keeps_ret tells_change tells_catch tells_repair_entry
      simp: entry_true_def remote_branch_def split: option.split)

lemma tells_settle: "keeps (tells d B j) (modify (settle k))"
  unfolding settle_def by (rule tells_change) (simp add: entry_true_def remote_branch_def)

lemma tells_landed:
  assumes "id_given d (B k) i" and "landing_told d i batch target_commit"
  shows "keeps (tells d B j) (remote_landed c d k batch target_commit tip)"
  unfolding remote_landed_def Let_def
  by (rule tells_entry)
    (use assms in \<open>auto intro!: tells_steps tells_settle tells_record tells_evidence
      simp: remote_earned_def entry_true_def client_ref_def\<close>)

lemma tells_ejected: "keeps (tells d B j) (remote_ejected c d k conflicted why)"
  unfolding remote_ejected_def Let_def
  by (auto intro!: tells_steps tells_settle tells_record tells_evidence simp: remote_earned_def)

lemma tells_ours:
  assumes "id_given d (B k) i" and "event_entry ev = Some i"
    and "\<And>b tc tip. ev = ShLanded i b tc tip \<Longrightarrow> landing_told d i b tc"
  shows "keeps (tells d B j) (handle_ours c d branchOf k ev)"
  using assms
  by (cases ev) (auto intro!: tells_landed tells_ejected telling.keeps_andThen telling.keeps_ret tells_repair
    simp: handle_ours_def split: withdrawn_why.split)

lemma tells_event:
  assumes "\<And>i b tc tip. ev = ShLanded i b tc tip \<Longrightarrow> landing_told d i b tc"
  shows "keeps (tells d B j) (handle_event c d branchOf ev)"
proof (cases "event_entry ev")
  case None
  then show ?thesis by (simp add: handle_event_def telling.keeps_ret)
next
  case (Some i)
  have "keeps (tells d B j) (andThen (entry_of k) (\<lambda>e. if re_id e \<noteq> i then ret () else handle_ours c d branchOf k ev))" for k
    by (rule tells_entry)
      (use Some assms in \<open>auto intro!: telling.keeps_ret tells_ours [of d B k i] simp: entry_true_def\<close>)
  then show ?thesis
    using Some by (auto intro!: telling.keeps_andThen telling.keeps_gets telling.keeps_ret simp: handle_event_def split: option.split)
qed

lemma tells_follow: "keeps (tells d B j) (follow n c d branchOf)"
proof (induction n)
  case 0
  then show ?case by (simp add: telling.keeps_throw)
next
  case (Suc n)
  have told_by: "landing_told d i b tc"
    if "rm_events d a w = (Inr (events, a'), w')" and "ShLanded i b tc tip \<in> set events" for i b tc tip a w events a' w'
    using that unfolding landing_told_def by blast
  have turn: "keeps (tells d B j) (andThen (env (rm_events d a)) (\<lambda>(events, a'). andThen (modify (\<lambda>s. s\<lparr>rt_after := a'\<rparr>)) (\<lambda>_.
      andThen (each_do (handle_event c d branchOf) events) (\<lambda>_. follow n c d branchOf))))" for a
    by (rule tells_asked)
      (auto intro!: tells_steps telling.keeps_each_do tells_event Suc.IH told_by)
  show ?case
    unfolding follow.simps
    by (intro telling.keeps_andThen [OF telling.keeps_gets] keeps_when telling.keeps_ret telling.keeps_andThen [OF tells_live] turn)
qed

lemma tells_add:
  assumes "wt_branch wt = B (wt_taskKey wt)"
  shows "keeps (tells d B j) (add_remote c d branchOf wt)"
  unfolding add_remote_def Let_def
  using assms
  by (auto intro!: tells_steps tells_enqueue tells_set simp: entry_true_def remote_branch_def)

lemma tells_withdraw: "keeps (tells d B j) (withdraw_one d e)"
  unfolding withdraw_one_def by (auto intro!: tells_steps)

lemma tells_stop: "keeps (tells d B j) (stop_remote c d)"
  unfolding stop_remote_def by (auto intro!: tells_steps telling.keeps_each_do tells_withdraw)

definition some_true :: "'w remote_deps \<Rightarrow> train_event list \<Rightarrow> remote_state \<Rightarrow> bool" where
  "some_true d j s \<longleftrightarrow> (\<exists>B. remote_true d B j s)"

lemma some_true_keeps: "(\<And>B. keeps (tells d B j) m) \<Longrightarrow> some_true d j s \<Longrightarrow> m (s, w) = (r, (s', w')) \<Longrightarrow> some_true d j s'"
  unfolding some_true_def by (meson keepsD tells_def)

lemma remote_body_true:
  assumes listed: "lists_once (rm_git d)"
  shows "wp (remote_body fuel c d) (\<lambda>_. some_true d j) (\<lambda>_. some_true d j) (remote_new j)"
proof -
  have start: "remote_true d B j ((remote_new j)\<lparr>rt_target := t\<rparr>)" for B t
    by (simp add: remote_true_def told_def remote_new_def)
  then have start': "some_true d j ((remote_new j)\<lparr>rt_target := t\<rparr>)" "some_true d j (remote_new j)" for t
    by (auto simp: some_true_def remote_true_def told_def remote_new_def)
  have rest: "wp (remote_listed fuel c d branchOf ws) (\<lambda>_. some_true d j) (\<lambda>_. some_true d j) ((remote_new j)\<lparr>rt_target := t\<rparr>)"
    if dist: "distinct (map wt_taskKey ws)"
    for ws branchOf t
  proof -
    define B where "B k = or_else (map_of (map (\<lambda>wt. (wt_taskKey wt, wt_branch wt)) ws) k) []" for k
    have B: "wt_branch wt = B (wt_taskKey wt)" if "wt \<in> set ws" for wt
      using that dist by (simp add: B_def comp_def map_of_is_SomeI [of _ "wt_taskKey wt" "wt_branch wt"])
    have "keeps (tells d B j) (remote_listed fuel c d branchOf ws)"
      unfolding remote_listed_def
      by (intro telling.keeps_andThen telling.keeps_each_do tells_add B tells_follow tells_modify_same) (simp_all add: note_repaired_def)
    from wp_keeps [OF this, of "(remote_new j)\<lparr>rt_target := t\<rparr>"] show ?thesis
      by (rule wp_weaken) (use start [of B t] in \<open>auto simp: tells_def some_true_def\<close>)
  qed
  show ?thesis
    unfolding remote_body_def Let_def
    by (rule wp_andThen, rule wp_env, rule wp_andThen, rule wp_modify, rule wp_andThen, rule wp_env)
      (use listed in \<open>auto intro!: wp_throw wp_andThen wp_env_run rest start' simp: lists_once_def\<close>)
qed

text \<open>C33: A run that lands through a remote train journals a branch as landed only when the train, which gave an id for that
  branch, sent the event that this id landed, with the batch and the commit of the event; so it is however the
  landing ends, and whatever fails on the way.\<close>

theorem remote_lands_told:
  assumes run: "landRemote fuel c d j w = (r, s', w')"
    and listed: "lists_once (rm_git d)"
  shows "\<exists>es. rt_journal s' = j @ es \<and> list_all (remote_earned d) es"
proof -
  have new: "some_true d j (remote_new j)"
    by (auto simp: some_true_def remote_true_def told_def remote_new_def)
  note body = remote_body_true [OF listed, of fuel c j]
  have "some_true d j s'"
  proof (cases "dial c d w")
    case (Pair q w0)
    show ?thesis
    proof (cases q)
      case (Inl e)
      with Pair run new show ?thesis by (simp add: landRemote_def)
    next
      case (Inr u)
      obtain b s1 w1 where b: "remote_body fuel c d (remote_new j, w0) = (b, (s1, w1))" by (metis prod.exhaust)
      have t1: "some_true d j s1"
        using b body by (cases b) (auto dest: wpD_Inl wpD_Inr)
      obtain q2 s2 w2 where stop: "stop_remote c d (s1, w1) = (q2, (s2, w2))" by (metis prod.exhaust)
      have "some_true d j s2"
        using some_true_keeps [OF tells_stop t1 stop] .
      then show ?thesis
        using run Pair Inr b stop t1
        by (cases b) (auto simp: landRemote_def split: train_stop.splits)
    qed
  qed
  then show ?thesis
    by (auto simp: some_true_def remote_true_def told_def)
qed

lemma remote_lands_told_witness:
  "\<exists>out s w. landRemote 3 remote_config demo_remote [] remote_start = (RemoteReturned out, s, w) \<and>
     TrLanded \<lparr>er_key = ''a'', er_branch = ''swarm/t/a'', er_commits = 1\<rparr> 1 ''m'' False \<in> set (rt_journal s) \<and>
     (\<exists>es. rt_journal s = [] @ es \<and> list_all (remote_earned demo_remote) es)"
proof -
  obtain out s w where run: "landRemote 3 remote_config demo_remote [] remote_start = (RemoteReturned out, s, w)"
    and "outcome_refs out = {#(''a'', ''swarm/t/a'')#}"
    and "TrLanded \<lparr>er_key = ''a'', er_branch = ''swarm/t/a'', er_commits = 1\<rparr> 1 ''m'' False \<in> set (rt_journal s)"
    by (rule demo_remote_returns) blast
  with remote_lands_told [OF run demo_remote_lists] show ?thesis by blast
qed

section \<open>The remote's name\<close>

text \<open>One of the two endings goes, never both, so one repository's URL with and without a last slash differs.\<close>

lemma same_remote_slash: "\<not> sameRemote ''https://x/r.git/'' ''https://x/r.git''"
  by code_simp

end
