(* ===== verification/RemoteAccounts.thy ===== *)
theory RemoteAccounts
  imports RemoteProperties
begin

text \<open>
  A landing through a remote train reports every worktree: the accounts of a run's entries, kept by everything a repair does and
  completed by the event that settles an entry.
\<close>

section \<open>What a step leaves of the books\<close>

definition remote_rows :: "remote_state \<Rightarrow> (string \<times> worktree \<times> bool) list" where
  "remote_rows s = map (\<lambda>(k, e). (k, re_worktree e, re_settled e)) (rt_entries s)"

definition same_book :: "remote_state \<Rightarrow> remote_state \<Rightarrow> bool" where
  "same_book s s' \<longleftrightarrow> remote_rows s' = remote_rows s \<and> rt_empty s' = rt_empty s \<and> rt_landed s' = rt_landed s \<and> rt_ejected s' = rt_ejected s \<and>
     rt_withheld s' = rt_withheld s"

interpretation booked: train_relation same_book
  by unfold_locales (auto simp: same_book_def)

lemma book_modify:
  "(\<And>s. rt_entries (f s) = rt_entries s) \<Longrightarrow> (\<And>s. rt_empty (f s) = rt_empty s) \<Longrightarrow> (\<And>s. rt_landed (f s) = rt_landed s) \<Longrightarrow>
    (\<And>s. rt_ejected (f s) = rt_ejected s) \<Longrightarrow> (\<And>s. rt_withheld (f s) = rt_withheld s) \<Longrightarrow> keeps same_book (modify f)"
  by (rule keeps_modify) (simp add: same_book_def remote_rows_def)

lemma rows_update:
  assumes "map_of m k = Some e" and "re_worktree e' = re_worktree e" and "re_settled e' = re_settled e"
  shows "map (\<lambda>(k, e). (k, re_worktree e, re_settled e)) (AList.update k e' m) = map (\<lambda>(k, e). (k, re_worktree e, re_settled e)) m"
  using assms by (induction m) auto

lemma book_change:
  assumes "\<And>e. re_worktree (f e) = re_worktree e" and "\<And>e. re_settled (f e) = re_settled e"
  shows "keeps same_book (modify (change_entry k f))"
  by (rule keeps_modify)
    (auto simp: same_book_def change_entry_def remote_rows_def jm_get_def jm_set_def assms intro: rows_update split: option.split)

lemma book_record: "keeps same_book (remote_record d e)"
  unfolding remote_record_def by (intro booked.keeps_andThen booked.keeps_env book_modify) simp_all

lemma book_entry_of: "keeps same_book (entry_of k)"
  unfolding entry_of_def
  by (auto intro!: booked.keeps_andThen booked.keeps_gets booked.keeps_throw booked.keeps_ret split: option.split)

lemma book_live: "keeps same_book (remote_live d)"
  unfolding remote_live_def by (rule booked.keeps_env)

lemmas book_steps = booked.keeps_andThen booked.keeps_env booked.keeps_gets booked.keeps_ret booked.keeps_throw
  book_record book_entry_of book_live book_modify

lemma book_evidence: "keeps same_book (remote_evidence c d la)"
  unfolding remote_evidence_def by (intro book_steps)

lemma book_enqueue: "keeps same_book (remote_enqueue c d branchOf k wt)"
  unfolding remote_enqueue_def Let_def
  by (auto intro!: book_steps)

lemma book_repair_entry: "keeps same_book (repair_entry c d branchOf k m why cmd out)"
  unfolding repair_entry_def Let_def
  by (auto intro!: book_steps book_enqueue book_change)

lemma book_catch: "keeps same_book m \<Longrightarrow> keeps same_book (catch_thrown m)"
  unfolding keeps_def catch_thrown_def
  by (auto simp: act_simps split: prod.splits sum.splits train_stop.splits) blast+

lemma book_repair: "keeps same_book (remote_repair c d branchOf k kind why cmd out)"
  unfolding remote_repair_def
  by (rule booked.keeps_andThen [OF book_entry_of])
    (auto intro!: booked.keeps_andThen booked.keeps_ret book_change book_catch book_repair_entry split: option.split)

section \<open>The accounts\<close>

definition done_refs :: "remote_state \<Rightarrow> (string \<times> string) set" where
  "done_refs s = ref_of ` set (rt_landed s) \<union> ref_of ` set (rt_ejected s)"

text \<open>The worktrees handled so far are the empty ones and the entries; an entry is settled once it is reported.\<close>

definition tallied :: "(string \<times> string) set \<Rightarrow> remote_state \<Rightarrow> bool" where
  "tallied D s \<longleftrightarrow> distinct (map fst (remote_rows s)) \<and>
     (\<forall>(k, wt, st) \<in> set (remote_rows s). wt_taskKey wt = k \<and> (st \<longrightarrow> tree_ref wt \<in> done_refs s)) \<and>
     D = ref_of ` set (rt_empty s) \<union> (\<lambda>(k, wt, st). tree_ref wt) ` set (remote_rows s) \<and> done_refs s \<subseteq> D \<and> rt_withheld s = []"

lemma tallied_book:
  assumes "tallied D s" and "same_book s s'"
  shows "tallied D s'"
proof -
  have "tallied D s' = tallied D s"
    using assms(2) by (simp add: tallied_def same_book_def done_refs_def)
  with assms(1) show ?thesis by simp
qed

lemma wp_booked: "keeps same_book m \<Longrightarrow> tallied D s \<Longrightarrow> (\<And>x s'. tallied D s' \<Longrightarrow> Q x s') \<Longrightarrow> wp m Q sometimes s"
  by (rule wp_weaken [OF wp_keeps [of same_book]]) (auto simp: sometimes_def intro: tallied_book)

lemma rows_keys: "fst ` set (remote_rows s) = set (jm_keys (rt_entries s))"
  by (simp add: remote_rows_def jm_keys_def image_comp comp_def case_prod_unfold)

lemma rows_jm_set:
  "k \<notin> fst ` set (remote_rows s) \<Longrightarrow> remote_rows (s\<lparr>rt_entries := jm_set k e (rt_entries s)\<rparr>) = remote_rows s @ [(k, re_worktree e, re_settled e)]"
  unfolding rows_keys by (simp add: remote_rows_def jm_set_snoc)

lemma entry_row: "jm_get (rt_entries s) k = Some e \<Longrightarrow> (k, re_worktree e, re_settled e) \<in> set (remote_rows s)"
  by (force simp: remote_rows_def dest!: jm_get_Some_mem)

text \<open>Settling an entry together with its report.\<close>

lemma settle_rows:
  "distinct (map fst (remote_rows s)) \<Longrightarrow> remote_rows (settle k s) = map (\<lambda>(k', wt, st). (k', wt, st \<or> k' = k)) (remote_rows s)"
proof (cases "jm_get (rt_entries s) k")
  case None
  then have "\<forall>(k', e) \<in> set (rt_entries s). k' \<noteq> k"
    by (force simp: jm_get_None_iff jm_keys_def)
  with None show ?thesis
    by (auto simp: settle_def change_entry_def remote_rows_def)
next
  case (Some e)
  have "distinct (map fst m) \<Longrightarrow> map_of m k = Some e \<Longrightarrow>
    map (\<lambda>(k, e). (k, re_worktree e, re_settled e)) (AList.update k (e\<lparr>re_settled := True\<rparr>) m) =
    map (\<lambda>(k', wt, st). (k', wt, st \<or> k' = k)) (map (\<lambda>(k, e). (k, re_worktree e, re_settled e)) m)" for m
    by (induction m) (force split: if_splits)+
  moreover assume "distinct (map fst (remote_rows s))"
  then have "distinct (map fst (rt_entries s))" by (simp add: remote_rows_def comp_def case_prod_unfold)
  ultimately show ?thesis
    using Some by (simp add: settle_def change_entry_def remote_rows_def jm_get_def jm_set_def)
qed

lemma tallied_settle:
  assumes acc: "tallied D s" and e: "jm_get (rt_entries s) k = Some e"
    and s': "remote_rows s' = remote_rows (settle k s)" "rt_empty s' = rt_empty s" "rt_withheld s' = rt_withheld s"
    and "done_refs s' = insert (tree_ref (re_worktree e)) (done_refs s)"
  shows "tallied D s'"
proof -
  from acc have dist: "distinct (map fst (remote_rows s))" by (simp add: tallied_def)
  have row: "(k, re_worktree e, re_settled e) \<in> set (remote_rows s)" by (rule entry_row [OF e])
  have same: "wt = re_worktree e" if "(k, wt, st) \<in> set (remote_rows s)" for wt st
    using that row dist by (metis eq_key_imp_eq_value fst_conv)
  have img: "(\<lambda>(k, wt, st). tree_ref wt) ` set (remote_rows s') = (\<lambda>(k, wt, st). tree_ref wt) ` set (remote_rows s)"
    unfolding s' settle_rows [OF dist] by force
  have "distinct (map fst (remote_rows s'))"
    using dist unfolding s' settle_rows [OF dist] by (simp add: comp_def case_prod_unfold)
  moreover have "wt_taskKey wt = k' \<and> (st \<longrightarrow> tree_ref wt \<in> done_refs s')" if "(k', wt, st) \<in> set (remote_rows s')" for k' wt st
  proof -
    from that obtain st0 where "(k', wt, st0) \<in> set (remote_rows s)" and st: "st = (st0 \<or> k' = k)"
      unfolding s' settle_rows [OF dist] by auto
    with acc same show ?thesis
      unfolding tallied_def assms(6) by (auto dest: bspec)
  qed
  moreover have "tree_ref (re_worktree e) \<in> (\<lambda>(k, wt, st). tree_ref wt) ` set (remote_rows s)"
    using row by force
  ultimately show ?thesis
    using acc unfolding tallied_def img assms(6) s'(2,3) by auto
qed

lemma wp_entry_of: "(\<And>e. jm_get (rt_entries s) k = Some e \<Longrightarrow> Q e s) \<Longrightarrow> wp (entry_of k) Q sometimes s"
  unfolding entry_of_def by (rule wp_andThen, rule wp_gets) (auto intro: wp_fail wp_ret split: option.split)

lemma settle_lists [simp]:
  "rt_empty (settle k s) = rt_empty s" "rt_landed (settle k s) = rt_landed s" "rt_ejected (settle k s) = rt_ejected s"
  "rt_withheld (settle k s) = rt_withheld s" "rt_merged (settle k s) = rt_merged s" "rt_conflicts (settle k s) = rt_conflicts s"
  by (simp_all add: settle_def change_entry_def split: option.split)

lemma entry_key: "tallied D s \<Longrightarrow> jm_get (rt_entries s) k = Some e \<Longrightarrow> wt_taskKey (re_worktree e) = k"
  by (auto simp: tallied_def dest!: entry_row)

lemma tallied_landing:
  assumes "tallied D s" and "jm_get (rt_entries s) k = Some e"
  shows "tallied D ((settle k s)\<lparr>rt_landed := rt_landed s @ [\<lparr>br_taskKey = k, br_branch = remote_branch e, br_commits = n\<rparr>], rt_merged := ms\<rparr>)"
  by (rule tallied_settle [OF assms])
    (simp_all add: remote_rows_def done_refs_def ref_of_def tree_ref_def remote_branch_def entry_key [OF assms])

lemma tallied_ejection:
  assumes "tallied D s" and "jm_get (rt_entries s) k = Some e"
  shows "tallied D ((settle k s)\<lparr>rt_ejected := rt_ejected s @ [\<lparr>br_taskKey = k, br_branch = remote_branch e, br_reason = why\<rparr>], rt_conflicts := cs\<rparr>)"
  by (rule tallied_settle [OF assms])
    (simp_all add: remote_rows_def done_refs_def ref_of_def tree_ref_def remote_branch_def entry_key [OF assms])

lemma remote_landed_accounts: "tallied D s \<Longrightarrow> wp (remote_landed c d k b tc tip) (\<lambda>_. tallied D) sometimes s"
  unfolding remote_landed_def Let_def
  by (intro wp_andThen wp_entry_of wp_modify wp_done wp_booked [where D = D, OF book_record] wp_booked [where D = D, OF book_evidence])
    (simp_all add: tallied_landing)

lemma remote_ejected_accounts: "tallied D s \<Longrightarrow> wp (remote_ejected c d k b why) (\<lambda>_. tallied D) sometimes s"
  unfolding remote_ejected_def Let_def
  by (intro wp_andThen wp_entry_of wp_modify wp_gets wp_done wp_booked [where D = D, OF book_record]
      wp_booked [where D = D, OF book_evidence])
    (simp_all add: tallied_ejection)

lemma tallied_after [simp]: "tallied D (s\<lparr>rt_after := a\<rparr>) = tallied D s"
  by (simp add: tallied_def remote_rows_def done_refs_def)

lemma handle_event_accounts: "tallied D s \<Longrightarrow> wp (handle_event c d branchOf ev) (\<lambda>_. tallied D) sometimes s"
proof -
  have ours: "wp (handle_ours c d branchOf k ev) (\<lambda>_. tallied D) sometimes s" if "tallied D s" for k s
    using that
    by (cases ev) (auto simp: handle_ours_def intro!: remote_landed_accounts remote_ejected_accounts wp_ret wp_andThen
        wp_booked [OF book_repair] split: withdrawn_why.split)
  assume acc: "tallied D s"
  show ?thesis
    unfolding handle_event_def
    by (auto intro!: wp_ret wp_andThen wp_gets wp_entry_of ours acc split: option.split)
qed

lemma follow_accounts:
  "tallied D s \<Longrightarrow> wp (follow n c d branchOf) (\<lambda>_ s'. tallied D s' \<and> \<not> list_ex (\<lambda>e. \<not> re_settled e) (jm_vals (rt_entries s'))) sometimes s"
proof (induction n arbitrary: s)
  case 0
  then show ?case by (simp add: wp_fail)
next
  case (Suc n)
  let ?Q = "\<lambda>_ s'. tallied D s' \<and> \<not> list_ex (\<lambda>e. \<not> re_settled e) (jm_vals (rt_entries s'))"
  have pass: "wp (each_do (handle_event c d branchOf) events) (\<lambda>_. tallied D) sometimes s'" if "tallied D s'" for events s'
    using wp_each_do [of "\<lambda>_. tallied D" events s', OF that handle_event_accounts] by simp
  have next_turn: "wp (case x of (events, a) \<Rightarrow> andThen (modify (\<lambda>s. s\<lparr>rt_after := a\<rparr>)) (\<lambda>_.
      andThen (each_do (handle_event c d branchOf) events) (\<lambda>_. follow n c d branchOf))) ?Q sometimes s" for x
    using Suc
    by (auto intro!: wp_andThen wp_modify wp_weaken [OF pass] split: prod.split)
  show ?case
    unfolding follow.simps
  proof (rule wp_andThen, rule wp_gets, cases "list_ex (\<lambda>e. \<not> re_settled e) (jm_vals (rt_entries s))")
    case True
    then show "wp (if \<not> list_ex (\<lambda>e. \<not> re_settled e) (jm_vals (rt_entries s)) then ret () else
        andThen (remote_live d) (\<lambda>_. andThen (gets rt_after) (\<lambda>a. andThen (env (rm_events d a)) (\<lambda>(events, a').
        andThen (modify (\<lambda>s. s\<lparr>rt_after := a'\<rparr>)) (\<lambda>_. andThen (each_do (handle_event c d branchOf) events) (\<lambda>_.
          follow n c d branchOf)))))) ?Q sometimes s"
      unfolding remote_live_def
      by simp (rule wp_andThen, rule wp_done, rule wp_andThen, rule wp_gets, rule wp_andThen, rule wp_done, rule next_turn)
  qed (simp add: wp_ret Suc.prems)
qed

section \<open>Enqueueing\<close>

lemma add_remote_accounts:
  assumes acc: "tallied D s" and fresh: "wt_taskKey wt \<notin> fst ` D"
  shows "wp (add_remote c d branchOf wt) (\<lambda>_. tallied (insert (tree_ref wt) D)) sometimes s"
proof -
  have new: "wt_taskKey wt \<notin> fst ` set (remote_rows t)" if t: "tallied D t" for t
  proof
    assume "wt_taskKey wt \<in> fst ` set (remote_rows t)"
    then obtain wt' st where row: "(wt_taskKey wt, wt', st) \<in> set (remote_rows t)" by auto
    have "tree_ref wt' \<in> (\<lambda>(k, wt, st). tree_ref wt) ` set (remote_rows t)" by (rule rev_image_eqI [OF row]) simp
    with t have "tree_ref wt' \<in> D" unfolding tallied_def by blast
    moreover from t row have "wt_taskKey wt' = wt_taskKey wt" unfolding tallied_def by blast
    ultimately have "wt_taskKey wt \<in> fst ` D" by (metis fst_conv image_eqI tree_ref_def)
    with fresh show False ..
  qed
  have entry: "tallied (insert (tree_ref wt) D) (t\<lparr>rt_entries := jm_set (wt_taskKey wt)
      \<lparr>re_worktree = wt, re_id = i, re_repairs = 0, re_settled = b\<rparr> (rt_entries t), rt_landed := ls, rt_ejected := es\<rparr>)"
    if t: "tallied D t" and lists: "ref_of ` set ls \<union> ref_of ` set es = (if b then insert (tree_ref wt) (done_refs t) else done_refs t)"
    for t i b ls es
  proof -
    let ?t = "t\<lparr>rt_entries := jm_set (wt_taskKey wt) \<lparr>re_worktree = wt, re_id = i, re_repairs = 0, re_settled = b\<rparr> (rt_entries t),
      rt_landed := ls, rt_ejected := es\<rparr>"
    have "remote_rows ?t = remote_rows t @ [(wt_taskKey wt, wt, b)]"
      using rows_jm_set [OF new [OF t], of "\<lparr>re_worktree = wt, re_id = i, re_repairs = 0, re_settled = b\<rparr>"] by (simp add: remote_rows_def)
    moreover have "done_refs ?t = (if b then insert (tree_ref wt) (done_refs t) else done_refs t)"
      using lists by (simp add: done_refs_def)
    ultimately show ?thesis
      using t new [OF t] by (auto simp: tallied_def split: if_splits)
  qed
  have got: "tallied (insert (tree_ref wt) D) (t\<lparr>rt_entries := jm_set (wt_taskKey wt)
      \<lparr>re_worktree = wt, re_id = i, re_repairs = 0, re_settled = True\<rparr> (rt_entries t),
      rt_landed := rt_landed t @ [\<lparr>br_taskKey = wt_taskKey wt, br_branch = wt_branch wt, br_commits = n\<rparr>]\<rparr>)"
    if "tallied D t" for t i n
    using entry [OF that, of "rt_landed t @ [\<lparr>br_taskKey = wt_taskKey wt, br_branch = wt_branch wt, br_commits = n\<rparr>]" "rt_ejected t" True i]
    by (simp add: done_refs_def ref_of_def tree_ref_def)
  have lost: "tallied (insert (tree_ref wt) D) (t\<lparr>rt_entries := jm_set (wt_taskKey wt)
      \<lparr>re_worktree = wt, re_id = i, re_repairs = 0, re_settled = True\<rparr> (rt_entries t),
      rt_ejected := rt_ejected t @ [\<lparr>br_taskKey = wt_taskKey wt, br_branch = wt_branch wt, br_reason = why\<rparr>]\<rparr>)"
    if "tallied D t" for t i why
    using entry [OF that, of "rt_landed t" "rt_ejected t @ [\<lparr>br_taskKey = wt_taskKey wt, br_branch = wt_branch wt, br_reason = why\<rparr>]" True i]
    by (simp add: done_refs_def ref_of_def tree_ref_def)
  have waits: "tallied (insert (tree_ref wt) D) (t\<lparr>rt_entries := jm_set (wt_taskKey wt)
      \<lparr>re_worktree = wt, re_id = i, re_repairs = 0, re_settled = False\<rparr> (rt_entries t)\<rparr>)"
    if "tallied D t" for t i
    using entry [OF that, of "rt_landed t" "rt_ejected t" False i] by (simp add: done_refs_def)
  have empty: "tallied (insert (tree_ref wt) D) (s\<lparr>rt_empty := rt_empty s @ [\<lparr>br_taskKey = wt_taskKey wt, br_branch = wt_branch wt\<rparr>]\<rparr>)"
    using acc by (auto simp: tallied_def remote_rows_def done_refs_def ref_of_def tree_ref_def)
  show ?thesis
    unfolding add_remote_def Let_def
  proof (rule wp_andThen, rule wp_done, goal_cases)
    case (1 n)
    show ?case
    proof (cases "n = 0")
      case True
      then show ?thesis by (simp add: wp_andThen wp_modify wp_done empty)
    next
      case False
      have "wp (remote_enqueue c d branchOf (wt_taskKey wt) wt) (\<lambda>_. tallied D) sometimes s"
        by (rule wp_booked [OF book_enqueue acc])
      then show ?thesis
        using False
        by (auto intro!: wp_andThen wp_modify wp_done wp_ret got lost waits elim!: wp_weaken)
    qed
  qed
qed

lemma add_all_accounts:
  assumes "distinct (map wt_taskKey ws)" and "tallied {} s"
  shows "wp (each_do (add_remote c d branchOf) ws) (\<lambda>_. tallied (tree_ref ` set ws)) sometimes s"
proof -
  let ?I = "\<lambda>rest s'. \<exists>done. ws = done @ rest \<and> tallied (tree_ref ` set done) s'"
  have "wp (each_do (add_remote c d branchOf) ws) (\<lambda>_. ?I []) sometimes s"
  proof (rule wp_each_do)
    show "?I ws s" using assms(2) by (simp add: exI [of _ "[]"])
  next
    fix wt rest t assume "?I (wt # rest) t"
    then obtain done' where ws: "ws = done' @ wt # rest" and acc: "tallied (tree_ref ` set done') t" by auto
    have "wt_taskKey wt \<notin> fst ` tree_ref ` set done'"
      using assms(1) unfolding ws by (auto simp: tree_ref_def)
    from add_remote_accounts [OF acc this] show "wp (add_remote c d branchOf wt) (\<lambda>_. ?I rest) sometimes t"
      by (rule wp_weaken) (use ws in \<open>auto intro!: exI [of _ "done' @ [wt]"]\<close>)
  qed
  then show ?thesis by (rule wp_weaken) auto
qed

section \<open>The report\<close>

lemma remote_result_refs: "set_mset (outcome_refs (remote_result s)) = ref_of ` set (rt_empty s) \<union> done_refs s \<union> ref_of ` set (rt_withheld s)"
  by (auto simp: outcome_refs_def remote_result_def done_refs_def or_else_def)

lemma tallied_result:
  assumes acc: "tallied D s" and settled: "\<not> list_ex (\<lambda>e. \<not> re_settled e) (jm_vals (rt_entries s))"
  shows "set_mset (outcome_refs (remote_result s)) = D"
proof -
  have "st" if "(k, wt, st) \<in> set (remote_rows s)" for k wt st
    using that settled by (auto simp: remote_rows_def jm_vals_def list_ex_iff)
  then have "tree_ref wt \<in> done_refs s" if "(k, wt, st) \<in> set (remote_rows s)" for k wt st
    using that acc unfolding tallied_def by blast
  then have "(\<lambda>(k, wt, st). tree_ref wt) ` set (remote_rows s) \<subseteq> done_refs s" by auto
  with acc show ?thesis
    unfolding remote_result_refs tallied_def by auto
qed

lemma remote_listed_accounts:
  assumes "distinct (map wt_taskKey ws)" and "tallied {} s"
  shows "wp (remote_listed fuel c d branchOf ws)
    (\<lambda>_ s'. set_mset (outcome_refs (remote_result s')) = tree_ref ` set ws \<and> rt_withheld s' = []) sometimes s"
proof -
  have noted: "outcome_refs (remote_result (note_repaired t)) = outcome_refs (remote_result t)"
    "rt_withheld (note_repaired t) = rt_withheld t" for t
    by (simp_all add: outcome_refs_def remote_result_def note_repaired_def)
  show ?thesis
    unfolding remote_listed_def
    by (rule wp_andThen, rule wp_weaken [OF add_all_accounts [OF assms]], rule wp_andThen, rule wp_weaken [OF follow_accounts], assumption)
      (auto intro!: wp_modify simp: noted tallied_result, simp add: tallied_def)
qed

text \<open>What is reported is what git listed.\<close>

definition remote_reported :: "'w remote_deps \<Rightarrow> remote_state \<Rightarrow> bool" where
  "remote_reported d s \<longleftrightarrow> (\<exists>ws w0 w1. tg_list (rm_git d) w0 = (Inr ws, w1) \<and>
     set_mset (outcome_refs (remote_result s)) = tree_ref ` set ws \<and> rt_withheld s = [])"

lemma remote_body_reports:
  assumes listed: "lists_once (rm_git d)"
  shows "wp (remote_body fuel c d) (\<lambda>_ s'. remote_reported d s') sometimes (remote_new j)"
proof -
  have start: "tallied {} ((remote_new j)\<lparr>rt_target := t\<rparr>)" for t
    by (simp add: tallied_def remote_new_def remote_rows_def done_refs_def)
  have rest: "wp (remote_listed fuel c d branchOf ws) (\<lambda>_ s'. remote_reported d s') sometimes ((remote_new j)\<lparr>rt_target := t\<rparr>)"
    if "tg_list (rm_git d) w0 = (Inr ws, w1)" for ws w0 w1 branchOf t
  proof -
    have "distinct (map wt_taskKey ws)" using that listed unfolding lists_once_def by blast
    from remote_listed_accounts [OF this start] show ?thesis
      by (rule wp_weaken) (use that in \<open>auto simp: remote_reported_def\<close>)
  qed
  have listing: "wp (env (tg_list (rm_git d))) (\<lambda>ws. wp (remote_listed fuel c d branchOf ws) (\<lambda>_ s'. remote_reported d s') sometimes) sometimes ((remote_new j)\<lparr>rt_target := t\<rparr>)"
    for branchOf t
    by (rule wp_env_run) (rule rest, assumption, simp add: sometimes_def)
  show ?thesis
    unfolding remote_body_def Let_def
    by (rule wp_andThen, rule wp_done, rule wp_andThen, rule wp_modify, rule wp_andThen, rule wp_done)
      (auto intro!: wp_fail wp_andThen wp_done listing)
qed

text \<open>C34: A run that lands through a remote train reports every one of its worktrees: when the landing returns, the
  tasks and branches it reports as landed, ejected or empty are exactly those git listed, whatever the train sent, in whatever
  order, and however the repairs went; nothing is left withheld.\<close>

theorem remote_reports_all:
  assumes run: "landRemote fuel c d j w = (RemoteReturned out, s', w')"
    and listed: "lists_once (rm_git d)"
  shows "\<exists>ws w0 w1. tg_list (rm_git d) w0 = (Inr ws, w1) \<and> set_mset (outcome_refs out) = tree_ref ` set ws \<and> mo_withheld out = []"
proof -
  from run obtain w0 w1 where body: "remote_body fuel c d (remote_new j, w0) = (Inr (), (s', w1))" and out: "out = remote_result s'"
    by (rule remote_returned)
  have "mo_withheld out = rt_withheld s'" by (simp add: out remote_result_def)
  with wpD_Inr [OF remote_body_reports [OF listed] body] show ?thesis
    unfolding remote_reported_def out by simp
qed

lemma remote_reports_all_witness:
  "\<exists>out s w. landRemote 3 remote_config demo_remote [] remote_start = (RemoteReturned out, s, w) \<and>
     outcome_refs out = {#(''a'', ''swarm/t/a'')#} \<and>
     (\<exists>ws w0 w1. tg_list (rm_git demo_remote) w0 = (Inr ws, w1) \<and> set_mset (outcome_refs out) = tree_ref ` set ws \<and>
       mo_withheld out = [])"
proof -
  obtain out s w where run: "landRemote 3 remote_config demo_remote [] remote_start = (RemoteReturned out, s, w)"
    and "outcome_refs out = {#(''a'', ''swarm/t/a'')#}"
    and "TrLanded \<lparr>er_key = ''a'', er_branch = ''swarm/t/a'', er_commits = 1\<rparr> 1 ''m'' False \<in> set (rt_journal s)"
    by (rule demo_remote_returns) blast
  with remote_reports_all [OF run demo_remote_lists] show ?thesis by blast
qed

end
