(* ===== verification/RemoteRecap.thy ===== *)
theory RemoteRecap
  imports RemoteProperties
begin

text \<open>
  The recap of a run that landed through a remote train: the client journals a resolver's step without the \<open>files\<close> that the
  recap's text of such a step counts, so that the recap of every landing with a resolved conflict fails. And the cancel that
  the queue outlives.
\<close>

section \<open>A resolved conflict is journaled\<close>

definition remote_resolution :: "train_event \<Rightarrow> bool" where
  "remote_resolution e = (case e of TrRemoteResolve _ _ _ _ _ _ \<Rightarrow> True | _ \<Rightarrow> False)"

definition noted :: "remote_state \<Rightarrow> bool" where
  "noted s \<longleftrightarrow> (rt_resolved s \<noteq> [] \<longrightarrow> (\<exists>e \<in> set (rt_journal s). remote_resolution e))"

definition puts :: "train_event set \<Rightarrow> remote_state \<Rightarrow> remote_state \<Rightarrow> bool" where
  "puts E s s' \<longleftrightarrow> (noted s \<and> E \<subseteq> set (rt_journal s) \<longrightarrow> noted s' \<and> E \<subseteq> set (rt_journal s'))"

interpretation noting: train_relation "puts E" for E
  by unfold_locales (auto simp: puts_def)

lemma puts_modify:
  "(\<And>s. rt_journal (f s) = rt_journal s) \<Longrightarrow> (\<And>s. rt_resolved (f s) = rt_resolved s) \<Longrightarrow> keeps (puts E) (modify f)"
  by (rule keeps_modify) (simp add: puts_def noted_def)

lemma puts_resolved: "remote_resolution e \<Longrightarrow> e \<in> E \<Longrightarrow> keeps (puts E) (modify (\<lambda>s. s\<lparr>rt_resolved := rt_resolved s @ [b]\<rparr>))"
  by (rule keeps_modify) (auto simp: puts_def noted_def)

lemma noted_record: "noted s \<Longrightarrow> noted (s\<lparr>rt_journal := rt_journal s @ es\<rparr>)"
  by (auto simp: noted_def)

lemma puts_record: "keeps (puts E) (remote_record d e)"
  unfolding remote_record_def
  by (intro noting.keeps_andThen noting.keeps_env keeps_modify) (auto simp: puts_def noted_record)

text \<open>After an event is recorded, the rest may count on it.\<close>

lemma puts_recorded:
  assumes "\<And>x. keeps (puts (insert e E)) (f x)"
  shows "keeps (puts E) (andThen (remote_record d e) f)"
proof (rule keepsI)
  fix s w r s' w' assume run: "andThen (remote_record d e) f (s, w) = (r, (s', w'))"
  show "puts E s s'"
  proof (cases "rm_append d e w")
    case (Pair q w1)
    show ?thesis
    proof (cases q)
      case (Inl x)
      with Pair run show ?thesis by (simp add: remote_record_def act_simps env_def puts_def)
    next
      case (Inr u)
      with Pair run have "f () (s\<lparr>rt_journal := rt_journal s @ [e]\<rparr>, w1) = (r, (s', w'))"
        by (simp add: remote_record_def act_simps env_def modify_def)
      from keepsD [OF assms this] show ?thesis
        by (auto simp: puts_def noted_record)
    qed
  qed
qed

lemma puts_entry_of: "keeps (puts E) (entry_of k)"
  unfolding entry_of_def
  by (auto intro!: noting.keeps_andThen noting.keeps_gets noting.keeps_throw noting.keeps_ret split: option.split)

lemma puts_live: "keeps (puts E) (remote_live d)"
  unfolding remote_live_def by (rule noting.keeps_env)

lemma change_entry_lists [simp]: "rt_journal (change_entry k f s) = rt_journal s" "rt_resolved (change_entry k f s) = rt_resolved s"
  by (simp_all add: change_entry_def split: option.split)

lemmas puts_steps = noting.keeps_andThen noting.keeps_env noting.keeps_gets noting.keeps_ret noting.keeps_throw
  puts_record puts_entry_of puts_live puts_modify

lemma puts_evidence: "keeps (puts E) (remote_evidence c d la)"
  unfolding remote_evidence_def by (intro puts_steps)

lemma puts_enqueue: "keeps (puts E) (remote_enqueue c d branchOf k wt)"
  unfolding remote_enqueue_def Let_def by (auto intro!: puts_steps)

lemma puts_repair_entry: "keeps (puts E) (repair_entry c d branchOf k m why cmd out)"
proof -
  have step: "keeps (puts E) (andThen (remote_record d (step_event k wt m n st why failed)) (\<lambda>_.
      if failed \<noteq> None then ret False
      else andThen (if st = Resolve then modify (\<lambda>s. s\<lparr>rt_resolved := rt_resolved s @ [b]\<rparr>) else ret ()) (\<lambda>_.
        andThen (remote_enqueue c d branchOf k wt) (\<lambda>(i, again).
        andThen (modify (change_entry k (\<lambda>e. e\<lparr>re_id := i\<rparr>))) (\<lambda>_. ret (again = InQueue))))))" for wt n st failed b
    by (rule puts_recorded)
      (auto intro!: noting.keeps_ret noting.keeps_andThen puts_enqueue puts_modify
        puts_resolved [of "step_event k wt m n st why failed"] simp: step_event_def remote_resolution_def Let_def)
  show ?thesis
    unfolding repair_entry_def Let_def
    by (intro noting.keeps_andThen noting.keeps_env noting.keeps_gets puts_entry_of step)
qed

lemma puts_catch: "keeps (puts E) m \<Longrightarrow> keeps (puts E) (catch_thrown m)"
  unfolding keeps_def catch_thrown_def
  by (auto simp: act_simps split: prod.splits sum.splits train_stop.splits) blast+

lemma puts_repair: "keeps (puts E) (remote_repair c d branchOf k kind why cmd out)"
  unfolding remote_repair_def
  by (rule noting.keeps_andThen [OF puts_entry_of])
    (auto intro!: noting.keeps_andThen noting.keeps_ret puts_modify puts_catch puts_repair_entry split: option.split)

lemma puts_landed: "keeps (puts E) (remote_landed c d k b tc tip)"
  unfolding remote_landed_def settle_def Let_def by (intro puts_steps puts_evidence) simp_all

lemma puts_ejected: "keeps (puts E) (remote_ejected c d k b why)"
  unfolding remote_ejected_def settle_def Let_def by (intro puts_steps puts_evidence) simp_all

lemma puts_event: "keeps (puts E) (handle_event c d branchOf ev)"
proof -
  have "keeps (puts E) (handle_ours c d branchOf k ev)" for k
    by (cases ev) (auto intro!: puts_landed puts_ejected noting.keeps_andThen noting.keeps_ret puts_repair
        simp: handle_ours_def split: withdrawn_why.split)
  then show ?thesis
    unfolding handle_event_def by (auto intro!: puts_steps split: option.split)
qed

lemma puts_follow: "keeps (puts E) (follow n c d branchOf)"
proof (induction n)
  case 0
  then show ?case by (simp add: noting.keeps_throw)
next
  case (Suc n)
  then show ?case
    unfolding follow.simps
    by (auto intro!: puts_steps noting.keeps_each_do puts_event)
qed

lemma puts_body: "keeps (puts E) (remote_body fuel c d)"
proof -
  have "keeps (puts E) (add_remote c d branchOf wt)" for branchOf wt
    unfolding add_remote_def Let_def by (auto intro!: puts_steps puts_enqueue)
  then have "keeps (puts E) (remote_listed fuel c d branchOf ws)" for branchOf ws
    unfolding remote_listed_def
    by (intro noting.keeps_andThen noting.keeps_each_do puts_follow puts_modify) (simp_all add: note_repaired_def)
  then show ?thesis
    unfolding remote_body_def Let_def by (intro puts_steps keeps_when) simp_all
qed

section \<open>The recap\<close>

lemma line_breaks: "remote_resolution e \<Longrightarrow> \<exists>x. train_line e = Inl x"
  by (cases e) (simp_all add: remote_resolution_def train_line_def)

lemma recap_breaks:
  assumes "e \<in> set evs" and "remote_resolution (je_data e)" and "since < int (je_seq e)"
  shows "\<exists>x. recapTrain since evs = Inl x"
  using assms
proof (induction evs)
  case (Cons e' evs)
  then consider "e = e'" | "\<exists>x. recapTrain since evs = Inl x" by auto
  then show ?case
  proof cases
    case 1
    from line_breaks [OF Cons.prems(2)] obtain x where "train_line (je_data e') = Inl x" unfolding 1 by blast
    moreover from Cons.prems(3) have "\<not> int (je_seq e') \<le> since" unfolding 1 by simp
    ultimately have "recapTrain since (e' # evs) = Inl x" by (simp only: recapTrain.simps if_False sum.case)
    then show ?thesis by blast
  next
    case 2
    then obtain x where "recapTrain since evs = Inl x" by blast
    then show ?thesis by (cases "train_line (je_data e')") auto
  qed
qed simp

text \<open>C35: A run that landed through a remote train and reports a conflict its resolver settled cannot be recapped: whatever
  else its journal holds, the recap of the train's journal throws, since the client journals the resolver's step without the
  files whose number the recap's line of that step gives.\<close>

theorem resolved_recap_throws:
  assumes run: "landRemote fuel c d j w = (RemoteReturned out, s', w')"
    and resolved: "mo_resolved out = Some (b # bs)"
    and written: "map je_data evs = rt_journal s'" and unread: "list_all (\<lambda>e. since < int (je_seq e)) evs"
  shows "\<exists>x. recapTrain since evs = Inl x"
proof -
  from run obtain w0 w1 where body: "remote_body fuel c d (remote_new j, w0) = (Inr (), (s', w1))" and out: "out = remote_result s'"
    by (rule remote_returned)
  from keepsD [OF puts_body [of "{}"] body] have "noted s'"
    by (simp add: puts_def noted_def remote_new_def)
  then obtain e' where "e' \<in> set (rt_journal s')" and step: "remote_resolution e'"
    using resolved unfolding out noted_def remote_result_def by auto
  then obtain e where "e \<in> set evs" and e': "je_data e = e'"
    unfolding written [symmetric] by auto
  moreover from this unread have "since < int (je_seq e)" by (simp add: list_all_iff)
  ultimately show ?thesis using step recap_breaks [of e evs since] by simp
qed

definition journaled :: "train_event list \<Rightarrow> train_event jevent list" where
  "journaled es = map (\<lambda>e. \<lparr>je_seq = 0, je_time = 0, je_data = e\<rparr>) es"

lemma resolved_recap_throws_witness:
  "\<exists>out s w x. landRemote 3 remote_config demo_remote [] remote_start = (RemoteReturned out, s, w) \<and>
     mo_resolved out = Some [\<lparr>br_taskKey = ''a'', br_branch = ''swarm/t/a''\<rparr>] \<and> recapTrain (- 1) (journaled (rt_journal s)) = Inl x"
proof -
  obtain out s w where run: "landRemote 3 remote_config demo_remote [] remote_start = (RemoteReturned out, s, w)"
    and resolved: "mo_resolved out = Some [\<lparr>br_taskKey = ''a'', br_branch = ''swarm/t/a''\<rparr>]"
    by (rule demo_remote_returns) blast
  have "map je_data (journaled es) = es" "list_all (\<lambda>e. - 1 < int (je_seq e)) (journaled es)" for es
    by (simp_all add: journaled_def comp_def list_all_iff)
  from resolved_recap_throws [OF run resolved this] run resolved show ?thesis by blast
qed

section \<open>A cancel\<close>

text \<open>A cancel that closes the socket while the reply to an enqueue is on its way leaves the branch queued in the train: the
  stopped run neither withdraws it, as a cancelled run is said to, nor reports it as withheld, and the train may land it.\<close>

theorem cancelled_enqueue_stays:
  "case landRemote 3 remote_config cut_off [] remote_start of
     (RemoteStopped why out, s, w) \<Rightarrow> outcome_refs out = {#} \<and>
       map se_branch (filter (\<lambda>e. se_state e = InQueue) (jm_vals (ts_entries (wo_train w)))) = [''swarm/t/a'']
   | _ \<Rightarrow> False"
  by code_simp

end
