(* ===== verification/Slots.thy ===== *)
theory Slots
  imports Prelude
begin

text \<open>
  The harness slots of \<open>packages/swarm/src/worktrees.ts\<close>: the FIFO semaphore that bounds how many members run at once, and
  the member runs around it (\<open>runMember\<close>, \<open>review\<close>), each of whose stretches between two awaits is one step.
\<close>

section \<open>The semaphore\<close>

text \<open>A waiting run is its number; resolving its promise is naming it.\<close>

record slots =
  sl_limit :: rat
  sl_active :: int
  sl_waiting :: "nat list"

definition slots_new :: "rat option \<Rightarrow> slots" where
  "slots_new maxConcurrent = \<lparr>sl_limit = or_else maxConcurrent 8, sl_active = 0, sl_waiting = []\<rparr>"

definition acquire_slot :: "nat \<Rightarrow> slots \<Rightarrow> bool \<times> slots" where
  "acquire_slot r s = (if of_int (sl_active s) < sl_limit s then (True, s\<lparr>sl_active := sl_active s + 1\<rparr>)
     else (False, s\<lparr>sl_waiting := sl_waiting s @ [r]\<rparr>))"

definition release_slot :: "slots \<Rightarrow> nat option \<times> slots" where
  "release_slot s = (case sl_waiting s of [] \<Rightarrow> (None, s\<lparr>sl_active := sl_active s - 1\<rparr>) | q # rest \<Rightarrow> (Some q, s\<lparr>sl_waiting := rest\<rparr>))"

section \<open>Member runs\<close>

text \<open>Before the first budget check, in line for a slot, at the second check, running, over.\<close>

datatype run_phase = Asking | InLine | Admitting | RunningMember | Over

fun holds_slot :: "run_phase \<Rightarrow> bool" where
  "holds_slot Admitting = True"
| "holds_slot RunningMember = True"
| "holds_slot _ = False"

text \<open>\<open>hr_asked\<close> and \<open>hr_given\<close> are the history of \<open>acquire\<close>: in what order slots were asked for and given.\<close>

record harnesses =
  hr_slots :: slots
  hr_runs :: "(nat, run_phase) jmap"
  hr_asked :: "nat list"
  hr_given :: "nat list"

definition set_phase :: "nat \<Rightarrow> run_phase \<Rightarrow> harnesses \<Rightarrow> harnesses" where
  "set_phase r p s = s\<lparr>hr_runs := jm_set r p (hr_runs s)\<rparr>"

definition give :: "nat \<Rightarrow> harnesses \<Rightarrow> harnesses" where
  "give r s = (set_phase r Admitting s)\<lparr>hr_given := hr_given s @ [r]\<rparr>"

definition ask_slot :: "nat \<Rightarrow> harnesses \<Rightarrow> harnesses" where
  "ask_slot r s = (case acquire_slot r (hr_slots s) of (now, sl) \<Rightarrow>
     let s = s\<lparr>hr_slots := sl, hr_asked := hr_asked s @ [r]\<rparr> in if now then give r s else set_phase r InLine s)"

text \<open>The \<open>finally\<close> of \<open>runMember\<close>.\<close>

definition leave_slot :: "nat \<Rightarrow> harnesses \<Rightarrow> harnesses" where
  "leave_slot r s = (case release_slot (hr_slots s) of (next_run, sl) \<Rightarrow>
     let s = set_phase r Over (s\<lparr>hr_slots := sl\<rparr>) in case next_run of None \<Rightarrow> s | Some q \<Rightarrow> give q s)"

definition phase_of :: "harnesses \<Rightarrow> nat \<Rightarrow> run_phase option" where
  "phase_of s r = jm_get (hr_runs s) r"

inductive run_step :: "harnesses \<Rightarrow> harnesses \<Rightarrow> bool" where
  run_called: "phase_of s r = None \<Longrightarrow> run_step s (set_phase r Asking s)"
| run_refused: "phase_of s r = Some Asking \<Longrightarrow> run_step s (set_phase r Over s)"
| run_admitted: "phase_of s r = Some Asking \<Longrightarrow> run_step s (ask_slot r s)"
| run_started: "phase_of s r = Some Admitting \<Longrightarrow> run_step s (set_phase r RunningMember s)"
| run_left: "phase_of s r = Some p \<Longrightarrow> holds_slot p \<Longrightarrow> run_step s (leave_slot r s)"

definition run_start :: "rat \<Rightarrow> harnesses \<Rightarrow> bool" where
  "run_start limit s \<longleftrightarrow> s = \<lparr>hr_slots = slots_new (Some limit), hr_runs = [], hr_asked = [], hr_given = []\<rparr>"

section \<open>The invariant\<close>

definition holders :: "harnesses \<Rightarrow> nat set" where
  "holders s = {r. \<exists>p. phase_of s r = Some p \<and> holds_slot p}"

definition slots_inv :: "rat \<Rightarrow> harnesses \<Rightarrow> bool" where
  "slots_inv limit s \<longleftrightarrow> sl_limit (hr_slots s) = limit \<and> finite (holders s) \<and> int (card (holders s)) = sl_active (hr_slots s) \<and>
     distinct (sl_waiting (hr_slots s)) \<and> (\<forall>r. r \<in> set (sl_waiting (hr_slots s)) \<longleftrightarrow> phase_of s r = Some InLine) \<and>
     hr_asked s = hr_given s @ sl_waiting (hr_slots s) \<and>
     (sl_waiting (hr_slots s) \<noteq> [] \<longrightarrow> limit \<le> of_int (sl_active (hr_slots s))) \<and>
     (sl_active (hr_slots s) > 0 \<longrightarrow> of_int (sl_active (hr_slots s)) < limit + 1)"

lemma phase_set [simp]: "phase_of (set_phase r p s) q = (if q = r then Some p else phase_of s q)"
  by (simp add: phase_of_def set_phase_def)

lemma phase_fields [simp]:
  "phase_of (s\<lparr>hr_slots := sl\<rparr>) q = phase_of s q" "phase_of (s\<lparr>hr_asked := a\<rparr>) q = phase_of s q" "phase_of (s\<lparr>hr_given := a\<rparr>) q = phase_of s q"
  by (simp_all add: phase_of_def)

lemma set_phase_fields [simp]:
  "hr_slots (set_phase r p s) = hr_slots s" "hr_asked (set_phase r p s) = hr_asked s" "hr_given (set_phase r p s) = hr_given s"
  by (simp_all add: set_phase_def)

lemma phase_give [simp]: "phase_of (give r s) q = (if q = r then Some Admitting else phase_of s q)"
  by (simp add: give_def)

lemma give_fields [simp]:
  "hr_slots (give r s) = hr_slots s" "hr_asked (give r s) = hr_asked s" "hr_given (give r s) = hr_given s @ [r]"
  by (simp_all add: give_def)

lemma holders_other:
  assumes "\<not> holds_slot p" and "phase_of s r = None \<or> (\<exists>q. phase_of s r = Some q \<and> \<not> holds_slot q)"
    and "\<And>q. phase_of t q = (if q = r then Some p else phase_of s q)"
  shows "holders t = holders s"
  using assms by (auto simp: holders_def)

lemma inv_phase:
  assumes "slots_inv limit s" and "phase_of s r \<noteq> Some InLine" and "p \<noteq> InLine"
    and "holds_slot p = (\<exists>q. phase_of s r = Some q \<and> holds_slot q)"
  shows "slots_inv limit (set_phase r p s)"
proof -
  have "holders (set_phase r p s) = holders s"
    using assms(4) by (auto simp: holders_def)
  with assms(1-3) show ?thesis by (auto simp: slots_inv_def)
qed

lemma inv_ask:
  assumes inv: "slots_inv limit s" and r: "phase_of s r = Some Asking"
  shows "slots_inv limit (ask_slot r s)"
proof (cases "of_int (sl_active (hr_slots s)) < limit")
  case True
  let ?t = "ask_slot r s"
  have "holders ?t = insert r (holders s)"
    using inv True by (auto simp: ask_slot_def acquire_slot_def holders_def slots_inv_def)
  moreover have "r \<notin> holders s" using r by (simp add: holders_def)
  moreover from inv True have "sl_waiting (hr_slots s) = []" by (auto simp: slots_inv_def)
  ultimately show ?thesis
    using inv True r by (auto simp: slots_inv_def ask_slot_def acquire_slot_def)
next
  case False
  let ?t = "ask_slot r s"
  have "holders ?t = holders s"
    using inv False r by (auto simp: ask_slot_def acquire_slot_def holders_def slots_inv_def)
  then show ?thesis
    using inv False r by (auto simp: slots_inv_def ask_slot_def acquire_slot_def)
qed

lemma card_without: "finite A \<Longrightarrow> a \<in> A \<Longrightarrow> int (card (A - {a})) = int (card A) - 1"
  using card_Suc_Diff1 [of A a] by simp

lemma inv_leave:
  assumes inv: "slots_inv limit s" and r: "phase_of s r = Some p" "holds_slot p"
  shows "slots_inv limit (leave_slot r s)"
proof -
  from r have member: "r \<in> holders s" by (auto simp: holders_def)
  from inv have fin: "finite (holders s)" by (simp add: slots_inv_def)
  show ?thesis
  proof (cases "sl_waiting (hr_slots s)")
    case Nil
    have "holders (leave_slot r s) = holders s - {r}"
      using Nil by (auto simp: leave_slot_def release_slot_def holders_def)
    moreover have "int (card (holders s - {r})) = int (card (holders s)) - 1"
      by (rule card_without [OF fin member])
    ultimately show ?thesis
      using inv r Nil by (auto simp: slots_inv_def leave_slot_def release_slot_def Let_def)
  next
    case (Cons q rest)
    from inv Cons have q: "phase_of s q = Some InLine" by (auto simp: slots_inv_def)
    with r have "q \<noteq> r" by auto
    have "holders (leave_slot r s) = insert q (holders s - {r})"
      using Cons by (auto simp: leave_slot_def release_slot_def holders_def Let_def)
    moreover have "q \<notin> holders s" using q by (simp add: holders_def)
    moreover have "int (card (holders s - {r})) = int (card (holders s)) - 1"
      by (rule card_without [OF fin member])
    ultimately show ?thesis
      using inv r Cons \<open>q \<noteq> r\<close> by (auto simp: slots_inv_def leave_slot_def release_slot_def Let_def)
  qed
qed

lemma run_step_inv: "run_step s t \<Longrightarrow> slots_inv limit s \<Longrightarrow> slots_inv limit t"
  by (induction rule: run_step.induct) (auto intro: inv_phase inv_ask inv_leave)

lemma run_start_inv: "run_start limit s \<Longrightarrow> slots_inv limit s"
  by (auto simp: run_start_def slots_new_def slots_inv_def holders_def phase_of_def)

interpretation slotted: inductive_invariant "run_start limit" run_step "slots_inv limit" for limit
  by unfold_locales (fact run_start_inv, rule run_step_inv)

section \<open>What the slots guarantee\<close>

text \<open>C39: At no time do more members run than the configured number of slots (rounded up), a run waits only while every slot is
  taken, a run holds a slot only after it asked for one, and slots are given in the order they were asked for, however runs are
  called, refused by the budget, started and ended.\<close>

theorem slots_bounded_fair:
  assumes "reachable (run_start limit) run_step s"
  shows "int (card (holders s)) \<le> max 0 \<lceil>limit\<rceil> \<and> (phase_of s r = Some InLine \<longrightarrow> int (card (holders s)) = max 0 \<lceil>limit\<rceil>) \<and>
    hr_asked s = hr_given s @ sl_waiting (hr_slots s) \<and> (r \<in> set (sl_waiting (hr_slots s)) \<longleftrightarrow> phase_of s r = Some InLine)"
proof -
  have inv: "slots_inv limit s" by (rule slotted.reachable_inv [OF assms])
  then have held: "int (card (holders s)) = sl_active (hr_slots s)" by (simp add: slots_inv_def)
  then have pos: "sl_active (hr_slots s) \<ge> 0" by simp
  have upper: "sl_active (hr_slots s) \<le> max 0 \<lceil>limit\<rceil>"
  proof (cases "sl_active (hr_slots s) = 0")
    case False
    with inv pos have "of_int (sl_active (hr_slots s)) < limit + 1" by (simp add: slots_inv_def)
    then have "of_int (sl_active (hr_slots s) - 1) < limit" by simp
    then have "sl_active (hr_slots s) - 1 < \<lceil>limit\<rceil>" by (simp only: less_ceiling_iff)
    then show ?thesis by simp
  qed simp
  have lower: "max 0 \<lceil>limit\<rceil> \<le> sl_active (hr_slots s)" if "phase_of s r = Some InLine"
  proof -
    from inv that have "sl_waiting (hr_slots s) \<noteq> []" by (auto simp: slots_inv_def)
    with inv have "limit \<le> of_int (sl_active (hr_slots s))" by (simp add: slots_inv_def)
    with pos show ?thesis by (simp add: ceiling_le_iff)
  qed
  from inv held upper lower show ?thesis by (auto simp: slots_inv_def)
qed


text \<open>With a limit of zero or below, which nothing refuses, no member ever runs: every run that asks for a slot waits for good.\<close>

theorem no_slots_no_runs:
  assumes "reachable (run_start limit) run_step s" and "limit \<le> 0"
  shows "phase_of s r \<noteq> Some RunningMember \<and> (phase_of s r = Some Asking \<longrightarrow> phase_of (ask_slot r s) r = Some InLine)"
proof -
  have inv: "slots_inv limit s" by (rule slotted.reachable_inv [OF assms(1)])
  have idle: "sl_active (hr_slots s) = 0"
  proof (rule ccontr)
    assume "sl_active (hr_slots s) \<noteq> 0"
    with inv have "sl_active (hr_slots s) \<ge> 1" by (auto simp: slots_inv_def)
    moreover from this inv have "of_int (sl_active (hr_slots s)) < limit + 1" by (simp add: slots_inv_def)
    with assms(2) have "of_int (sl_active (hr_slots s)) < (1::rat)" by simp
    then have "sl_active (hr_slots s) < 1" by simp
    ultimately show False by simp
  qed
  with inv have "finite (holders s)" and "card (holders s) = 0" by (simp_all add: slots_inv_def)
  then have "holders s = {}" by simp
  then have "phase_of s r \<noteq> Some RunningMember" using holds_slot.simps(2) unfolding holders_def by blast
  moreover have "sl_limit (hr_slots s) = limit" using inv by (simp add: slots_inv_def)
  ultimately show ?thesis
    using assms(2) idle by (simp add: ask_slot_def acquire_slot_def)
qed

section \<open>A demonstration\<close>

text \<open>Two runs, of which as many start as there are slots.\<close>

definition two_runs :: "rat \<Rightarrow> harnesses" where
  "two_runs limit = set_phase 1 Asking (set_phase 0 Asking \<lparr>hr_slots = slots_new (Some limit), hr_runs = [], hr_asked = [], hr_given = []\<rparr>)"

lemma two_runs_reachable: "reachable (run_start limit) run_step (two_runs limit)"
  unfolding two_runs_def
proof (rule reach_step, rule reach_step, rule reach_start)
  let ?s = "\<lparr>hr_slots = slots_new (Some limit), hr_runs = [], hr_asked = [], hr_given = []\<rparr>"
  show "run_start limit ?s" by (simp add: run_start_def)
  show "run_step ?s (set_phase 0 Asking ?s)" by (rule run_called) (simp add: phase_of_def)
  show "run_step (set_phase 0 Asking ?s) (set_phase 1 Asking (set_phase 0 Asking ?s))" by (rule run_called) (simp add: phase_of_def set_phase_def)
qed

definition one_waits :: harnesses where
  "one_waits = ask_slot 1 (ask_slot 0 (two_runs 1))"

lemma one_waits_reachable: "reachable (run_start 1) run_step one_waits"
  unfolding one_waits_def
  by (rule reach_step [OF reach_step [OF two_runs_reachable run_admitted] run_admitted])
    (simp_all add: two_runs_def ask_slot_def acquire_slot_def slots_new_def)

lemma one_waits_line: "sl_waiting (hr_slots one_waits) = [1]" "phase_of one_waits 1 = Some InLine"
  by (simp_all add: one_waits_def two_runs_def ask_slot_def acquire_slot_def slots_new_def Let_def)

lemma slots_bounded_fair_witness: "int (card (holders one_waits)) = 1"
  using slots_bounded_fair [OF one_waits_reachable, of 1] one_waits_line by simp


lemma no_slots_no_runs_witness: "phase_of (ask_slot 0 (two_runs 0)) 0 = Some InLine"
  using no_slots_no_runs [OF two_runs_reachable, of 0 0] by (simp add: two_runs_def)

end
