(* ===== verification/Metering.thy ===== *)
theory Metering
  imports Metrics Gate
begin

text \<open>
  Where a run's usage comes from (\<open>packages/swarm/src/metrics.ts\<close>): a worktree member's session logs, read once it has
  ended, and this process's session events for the members that run in it. The directory and the files are the
  environment's; the counts in a message are dsh's, natural numbers.
\<close>

section \<open>One message\<close>

record metered =
  me_usage :: usage
  me_provider :: "string option"
  me_model :: "string option"

definition unmetered :: metered where
  "unmetered = \<lparr>me_usage = emptyUsage, me_provider = None, me_model = None\<rparr>"

definition json_count :: "json option \<Rightarrow> nat" where
  "json_count v = (case v of Some (JNum q) \<Rightarrow> nat \<lfloor>q\<rfloor> | _ \<Rightarrow> 0)"

definition messageUsage :: "json \<Rightarrow> usage" where
  "messageUsage u = \<lparr>us_input = json_count (jfield ''inputTokens'' u), us_output = json_count (jfield ''outputTokens'' u),
     us_cacheRead = json_count (jfield ''cacheReadTokens'' u), us_cacheWrite = json_count (jfield ''cacheWriteTokens'' u), us_calls = 1\<rparr>"

text \<open>A field at the end of a chain of \<open>?.\<close>.\<close>

fun json_path :: "string list \<Rightarrow> json \<Rightarrow> json option" where
  "json_path [] v = Some v"
| "json_path (k # ks) v = (case jfield k v of None \<Rightarrow> None | Some v \<Rightarrow> json_path ks v)"

definition json_text :: "json option \<Rightarrow> string option" where
  "json_text v = (case v of Some (JStr s) \<Rightarrow> Some s | _ \<Rightarrow> None)"

definition meter :: "metered \<Rightarrow> json \<Rightarrow> metered" where
  "meter m data =
     \<lparr>me_usage = addUsage (me_usage m) (messageUsage (or_else (jfield ''usage'' data) JNull)),
      me_provider = or_opt (json_text (json_path [''message'', ''source'', ''provider''] data)) (me_provider m),
      me_model = or_opt (json_text (json_path [''message'', ''source'', ''model''] data)) (me_model m)\<rparr>"

text \<open>The data of an event that is a message with its usage.\<close>

definition message_data :: "json \<Rightarrow> json option" where
  "message_data event =
     (if json_text (jfield ''type'' event) = Some ''assistant/message'' \<and> json_path [''data'', ''usage''] event \<noteq> None
      then jfield ''data'' event else None)"

definition meter_event :: "metered \<Rightarrow> json \<Rightarrow> metered" where
  "meter_event m event = (case message_data event of None \<Rightarrow> m | Some data \<Rightarrow> meter m data)"

section \<open>Session logs\<close>

definition meter_line :: "metered \<Rightarrow> string \<Rightarrow> metered" where
  "meter_line m line =
     (if sublist ''\"assistant/message\"'' line then (case json_parse line of None \<Rightarrow> m | Some event \<Rightarrow> meter_event m event) else m)"

definition meter_text :: "metered \<Rightarrow> string \<Rightarrow> metered" where
  "meter_text m text = foldl meter_line m (split_on newline text)"

primrec meter_files :: "(string \<Rightarrow> ('v, thrown, string) act) \<Rightarrow> string \<Rightarrow> string list \<Rightarrow> metered \<Rightarrow> ('v, thrown, metered) act" where
  "meter_files read dir [] m = ret m"
| "meter_files read dir (file # files) m =
     (if \<not> (length file \<ge> 6 \<and> drop (length file - 6) file = ''.jsonl'') then meter_files read dir files m
      else
        andThen (attempt (read (dir @ ''/'' @ file))) (\<lambda>text. case text of
          Inl _ \<Rightarrow> meter_files read dir files m
        | Inr text \<Rightarrow> meter_files read dir files (meter_text m text)))"

definition usageFromLogs :: "(string \<Rightarrow> ('v, thrown, string list) act) \<Rightarrow> (string \<Rightarrow> ('v, thrown, string) act) \<Rightarrow> string \<Rightarrow> ('v, thrown, metered) act" where
  "usageFromLogs readdir read dir =
     andThen (attempt (readdir dir)) (\<lambda>files. case files of
       Inl _ \<Rightarrow> ret unmetered
     | Inr files \<Rightarrow> meter_files read dir files unmetered)"

section \<open>Session events\<close>

type_synonym usage_recorder = "(string, metered) jmap"

definition session_event :: "string \<Rightarrow> json \<Rightarrow> usage_recorder \<Rightarrow> usage_recorder" where
  "session_event i event r =
     (case message_data event of None \<Rightarrow> r | Some data \<Rightarrow> jm_set i (meter (or_else (jm_get r i) unmetered) data) r)"

definition take_usage :: "string \<Rightarrow> usage_recorder \<Rightarrow> metered \<times> usage_recorder" where
  "take_usage i r = (or_else (jm_get r i) unmetered, jm_del i r)"

section \<open>What is counted\<close>

lemma meter_line_torn: "json_parse line = None \<Longrightarrow> meter_line m line = m"
  by (simp add: meter_line_def)

lemma split_on_parts: "split_on c (s @ c # r) = split_on c s @ split_on c r"
  by (induction s) (auto split: list.split)

text \<open>A log cut short counts as its whole lines.\<close>

lemma meter_text_torn:
  assumes "json_parse rest = None" and "newline \<notin> set rest"
  shows "meter_text m (text @ newline # rest) = meter_text m text"
  using assms by (simp add: meter_text_def split_on_parts split_on_none meter_line_torn)

text \<open>The events of one session, taken once, are all counted, whatever other sessions do in between.\<close>

definition session_step :: "string \<times> json \<Rightarrow> usage_recorder \<Rightarrow> usage_recorder" where
  "session_step e r = session_event (fst e) (snd e) r"

lemma session_events_get:
  "or_else (jm_get (foldl (\<lambda>r e. session_step e r) r es) i) unmetered =
   foldl meter_event (or_else (jm_get r i) unmetered) (map snd (filter (\<lambda>e. fst e = i) es))"
  by (induction es arbitrary: r) (auto simp: session_step_def session_event_def meter_event_def or_else_def split: option.split)

text \<open>What a session's usage is taken as is the sum of exactly its own messages since it was last taken, in order, however the
  events of other sessions interleave, and taking it leaves every other session's usage as it was.\<close>

theorem sessions_counted_once:
  assumes "snd (take_usage i r0) = r" and "foldl (\<lambda>r e. session_step e r) r es = r'"
  shows "fst (take_usage i r') = foldl meter_event unmetered (map snd (filter (\<lambda>e. fst e = i) es)) \<and>
    (k \<noteq> i \<longrightarrow> fst (take_usage k (snd (take_usage i r'))) = fst (take_usage k r'))"
  using assms session_events_get [of r es i] by (auto simp: take_usage_def or_else_def)

end
