(* ===== verification/Worktrees.thy ===== *)
theory Worktrees
  imports Git Forge RemoteTrain Metering
begin

text \<open>
  \<open>packages/swarm/src/worktrees.ts\<close>: member runs in the task's worktree, as a subprocess or through a CLI, and the end of a
  run: its work committed, then withheld or landed by the queue, the train, a standalone train or a forge. The run's own
  fields are threaded beside \<open>SwarmGit\<close>'s and the environment; the harness slots are the theory \<open>Slots\<close>.
\<close>

section \<open>Configuration\<close>

record member_config =
  mc_command :: "string option"
  mc_args :: "string list option"
  mc_configPath :: "string option"
  mc_env :: "(string, string) jmap option"
  mc_sandbox :: "string option"
  mc_provider :: "string option"
  mc_model :: "string option"
  mc_maxTokens :: "rat option"
  mc_claudeCommand :: "string option"
  mc_claudePermissionMode :: "claude_permission_mode option"
  mc_claudeSettingSources :: "claude_setting_source list option"
  mc_claudeTimeoutMs :: "rat option"
  mc_codexCommand :: "string option"
  mc_codexSandbox :: "codex_sandbox option"
  mc_codexTimeoutMs :: "rat option"

definition no_config :: member_config where
  "no_config = \<lparr>mc_command = None, mc_args = None, mc_configPath = None, mc_env = None, mc_sandbox = None, mc_provider = None,
     mc_model = None, mc_maxTokens = None, mc_claudeCommand = None, mc_claudePermissionMode = None, mc_claudeSettingSources = None,
     mc_claudeTimeoutMs = None, mc_codexCommand = None, mc_codexSandbox = None, mc_codexTimeoutMs = None\<rparr>"

record worktree_options =
  wo_repoRoot :: string
  wo_baseRef :: "string option"
  wo_targetBranch :: "string option"
  wo_worktreeDir :: "string option"
  wo_autoCommit :: "bool option"
  wo_linkIgnored :: "bool option"
  wo_maxConcurrent :: "rat option"
  wo_member :: "member_config option"
  wo_train :: "train_config option"
  wo_forge :: "forge_config option"

text \<open>The constructor's options for \<open>SwarmGit\<close>.\<close>

definition git_options_of :: "worktree_options \<Rightarrow> string \<Rightarrow> git_options" where
  "git_options_of o' team = \<lparr>go_repoRoot = wo_repoRoot o', go_teamId = team, go_baseRef = wo_baseRef o', go_targetBranch = wo_targetBranch o',
     go_worktreeDir = wo_worktreeDir o', go_linkIgnored = wo_linkIgnored o'\<rparr>"

section \<open>A member's environment\<close>

text \<open>\<open>{ ...a, ...b }\<close>.\<close>

definition spread :: "('k, 'v) jmap \<Rightarrow> ('k, 'v) jmap \<Rightarrow> ('k, 'v) jmap" where
  "spread a b = foldl (\<lambda>m (k, v). jm_set k v m) a b"

definition inheritedRoute :: "(string, string) jmap \<Rightarrow> (string, string) jmap" where
  "inheritedRoute env' = (if jm_get env' ''OPENSWARM_DEFAULT_PROVIDER'' \<noteq> Some ''openai'' then []
     else List.map_filter (\<lambda>(k, v). map_option (Pair k) v)
       [(''OPENSWARM_LLM_BASE_URL'', jm_get env' ''OPENSWARM_LLM_BASE_URL''), (''OPENSWARM_LLM_API_KEY'', jm_get env' ''OPENSWARM_LLM_API_KEY''),
        (''DSH_MODEL'', jm_get env' ''OPENSWARM_DEFAULT_MODEL'')])"

definition SANDBOX :: string where
  "SANDBOX = ''OPENSWARM_MEMBER_SANDBOX''"

definition SESSIONS :: string where
  "SESSIONS = ''DSH_SESSION_ROOT''"

text \<open>\<open>env'\<close> is this process's environment and \<open>tmp\<close> its \<open>tmpdir()\<close>.\<close>

definition sandbox_of :: "(string, string) jmap \<Rightarrow> member_config \<Rightarrow> string option" where
  "sandbox_of env' cfg = or_opt (mc_sandbox cfg) (or_opt (jm_get (or_else (mc_env cfg) []) SANDBOX) (jm_get env' SANDBOX))"

definition memberEnvOf :: "(string, string) jmap \<Rightarrow> string \<Rightarrow> member_config \<Rightarrow> string \<Rightarrow> (string, string) jmap" where
  "memberEnvOf env' tmp cfg runId =
     (let sandbox = sandbox_of env' cfg; caches = tmp @ ''/openswarm-cache/'' @ runId in
      spread (spread (spread (spread (inheritedRoute env') [(SESSIONS, tmp @ ''/openswarm-sessions/'' @ runId)])
        (case sandbox of None \<Rightarrow> [] | Some s \<Rightarrow> [(SANDBOX, s)]))
        (if sandbox = Some ''workspace-write''
         then [(''npm_config_cache'', caches @ ''/npm''), (''PIP_CACHE_DIR'', caches @ ''/pip''), (''CARGO_HOME'', caches @ ''/cargo''),
           (''XDG_CACHE_HOME'', caches @ ''/xdg'')]
         else []))
        (or_else (mc_env cfg) []))"

section \<open>Dependencies\<close>

text \<open>What a provider is mounted with; a CLI run; what a run's usage is journaled as.\<close>

record mount =
  mt_provider :: string
  mt_command :: string
  mt_args :: "string list"
  mt_cwd :: string
  mt_env :: "(string, string) jmap"
  mt_route :: string
  mt_model :: "string option"
  mt_maxTokens :: "rat option"

record cli_run =
  cl_cwd :: string
  cl_command :: "string option"
  cl_timeoutMs :: "rat option"
  cl_taskKey :: "string option"
  cl_role :: "usage_role option"

record member_usage =
  mu_member :: string
  mu_role :: "usage_role option"
  mu_taskKey :: "string option"
  mu_runtime :: string
  mu_provider :: string
  mu_model :: "string option"
  mu_runId :: string
  mu_usage :: usage
  mu_startedAt :: int

record 'v train_link =
  tl_connect :: "string \<Rightarrow> string \<Rightarrow> string \<Rightarrow> ('v, thrown, unit) act"
  tl_close :: "('v, thrown, unit) act"
  tl_card :: "('v, thrown, train_card) act"
  tl_enqueue :: "string \<Rightarrow> string \<Rightarrow> string list \<Rightarrow> ('v, thrown, string \<times> shared_state) act"
  tl_withdraw :: "string \<Rightarrow> ('v, thrown, unit) act"
  tl_events :: "int \<Rightarrow> ('v, thrown, shared_event list \<times> int) act"

text \<open>\<open>wd_acquire\<close> and \<open>wd_release\<close> are a run's passage through the slots.\<close>

record 'v worktree_deps =
  wd_files :: "'v git_deps"
  wd_marked :: "string \<Rightarrow> ('v, thrown, string option) act"
  wd_admit :: "string option \<Rightarrow> ('v, thrown, unit) act"
  wd_acquire :: "('v, thrown, unit) act"
  wd_release :: "('v, thrown, unit) act"
  wd_plug :: "mount \<Rightarrow> ('v, thrown, unit) act"
  wd_await :: "string \<Rightarrow> ('v, thrown, unit) act"
  wd_start :: "string \<Rightarrow> string \<Rightarrow> string \<Rightarrow> ('v, thrown, string) act"
  wd_result :: "string \<Rightarrow> ('v, thrown, content_block list \<times> string) act"
  wd_reap :: "string \<Rightarrow> ('v, thrown, unit) act"
  wd_unplug :: "string \<Rightarrow> ('v, thrown, unit) act"
  wd_claude :: "member_spec \<Rightarrow> string \<Rightarrow> cli_run \<Rightarrow> claude_permission_mode option \<Rightarrow> claude_setting_source list option \<Rightarrow> ('v, thrown, run_result) act"
  wd_codex :: "member_spec \<Rightarrow> string \<Rightarrow> cli_run \<Rightarrow> codex_sandbox option \<Rightarrow> ('v, thrown, run_result) act"
  wd_readdir :: "string \<Rightarrow> ('v, thrown, string list) act"
  wd_read :: "string \<Rightarrow> ('v, thrown, string) act"
  wd_usage :: "(member_usage \<Rightarrow> ('v, thrown, unit) act) option"
  wd_link :: "'v train_link"
  wd_now :: "'v \<Rightarrow> int"
  wd_env :: "(string, string) jmap"
  wd_execPath :: string
  wd_runtimeBin :: string
  wd_memberConfig :: string
  wd_reviewConfig :: string

section \<open>The run's state\<close>

text \<open>Who it is: its team and the four random digits of its instance.\<close>

record run_names =
  rn_team :: string
  rn_instance :: string

record worktree_run =
  wr_seq :: nat
  wr_owners :: "(string, member_spec \<times> string) jmap"

definition run_new :: worktree_run where
  "run_new = \<lparr>wr_seq = 0, wr_owners = []\<rparr>"

type_synonym 'v run_world = "worktree_run \<times> swarm_git \<times> 'v"
type_synonym ('v, 'a) wt = "('v run_world, thrown, 'a) act"

definition gitly :: "('v, 'a) gt \<Rightarrow> ('v, 'a) wt" where
  "gitly m = (\<lambda>(r, g). case m g of (x, g') \<Rightarrow> (x, (r, g')))"

definition out :: "('v, thrown, 'a) act \<Rightarrow> ('v, 'a) wt" where
  "out m = gitly (outside m)"

definition own :: "(worktree_run \<Rightarrow> 'a) \<Rightarrow> ('v, 'a) wt" where
  "own f = (\<lambda>(r, g). (Inr (f r), (r, g)))"

definition change_run :: "(worktree_run \<Rightarrow> worktree_run) \<Rightarrow> ('v, unit) wt" where
  "change_run f = (\<lambda>(r, g). (Inr (), (f r, g)))"

section \<open>Member processes\<close>

definition resolveMemberLaunch :: "'v worktree_deps \<Rightarrow> member_config \<Rightarrow> string \<times> string list" where
  "resolveMemberLaunch d cfg = (or_else (mc_command cfg) (wd_execPath d),
     or_else (mc_args cfg) [wd_runtimeBin d, or_else (mc_configPath cfg) (wd_memberConfig d)])"

definition agent_route :: "(agent_options \<Rightarrow> string option) \<Rightarrow> member_spec \<Rightarrow> string option" where
  "agent_route f m = (case mb_agentOptions m of None \<Rightarrow> None | Some a \<Rightarrow> f a)"

definition member_text :: "member_spec \<Rightarrow> string \<Rightarrow> string" where
  "member_text m prompt = (case mb_persona m of None \<Rightarrow> prompt | Some p \<Rightarrow> p @ nl @ nl @ prompt)"

definition text_of_output :: "content_block list \<Rightarrow> string" where
  "text_of_output bs = concat (map (\<lambda>b. case b of TextBlock t \<Rightarrow> t | OtherBlock _ \<Rightarrow> []) bs)"

definition mount_of :: "'v worktree_deps \<Rightarrow> member_config \<Rightarrow> member_spec \<Rightarrow> string \<Rightarrow> string \<Rightarrow> (string, string) jmap \<Rightarrow> mount" where
  "mount_of d cfg m name cwd env' =
     \<lparr>mt_provider = name, mt_command = fst (resolveMemberLaunch d cfg), mt_args = snd (resolveMemberLaunch d cfg), mt_cwd = cwd, mt_env = env',
      mt_route = or_else (or_opt (agent_route ao_provider m) (mc_provider cfg)) ''openai'',
      mt_model = or_opt (agent_route ao_model m) (mc_model cfg), mt_maxTokens = or_opt (case mb_agentOptions m of None \<Rightarrow> None | Some a \<Rightarrow> ao_maxTokens a) (mc_maxTokens cfg)\<rparr>"

definition runMemberProcess ::
  "'v worktree_deps \<Rightarrow> member_config \<Rightarrow> member_spec \<Rightarrow> string \<Rightarrow> string \<Rightarrow> string \<Rightarrow> (string, string) jmap \<Rightarrow> ('v, thrown, run_result) act" where
  "runMemberProcess d cfg m prompt name cwd env' =
     andThen (wd_plug d (mount_of d cfg m name cwd env')) (\<lambda>_.
     always
       (andThen (wd_await d name) (\<lambda>_.
        andThen (wd_start d name (mb_name m) (member_text m prompt)) (\<lambda>i.
        always
          (andThen (wd_result d i) (\<lambda>(blocks, stop).
            ret \<lparr>rs_member = mb_name m, rs_runId = i, rs_text = text_of_output blocks, rs_output = blocks, rs_stopReason = stop\<rparr>))
          (ignoring (wd_reap d i)))))
       (wd_unplug d name))"

section \<open>Member runs\<close>

definition provider_name :: "run_names \<Rightarrow> nat \<Rightarrow> string" where
  "provider_name nm n = ''swarm-sdk-'' @ rn_team nm @ ''-'' @ rn_instance nm @ ''-'' @ nat_str n"

definition session_root :: "(string, string) jmap \<Rightarrow> string \<Rightarrow> string" where
  "session_root env' name = undef (jm_get env' SESSIONS) @ ''/'' @ name"

text \<open>The route the messages name, else the one the member was launched on.\<close>

definition usage_of_run ::
  "member_spec \<Rightarrow> member_config option \<Rightarrow> (string, string) jmap \<Rightarrow> string option \<Rightarrow> usage_role option \<Rightarrow> metered \<Rightarrow> string \<Rightarrow> int \<Rightarrow> member_usage" where
  "usage_of_run m cfg env' k role x runId started =
     \<lparr>mu_member = mb_name m, mu_role = role, mu_taskKey = k, mu_runtime = ''dsh:sdk'',
      mu_provider = or_else (or_opt (me_provider x) (or_opt (agent_route ao_provider m) (case cfg of None \<Rightarrow> None | Some c \<Rightarrow> mc_provider c))) ''openai'',
      mu_model = or_opt (me_model x) (or_opt (agent_route ao_model m) (or_opt (case cfg of None \<Rightarrow> None | Some c \<Rightarrow> mc_model c) (jm_get env' ''DSH_MODEL''))),
      mu_runId = runId, mu_usage = me_usage x, mu_startedAt = started\<rparr>"

definition runProcess ::
  "'v worktree_deps \<Rightarrow> run_names \<Rightarrow> member_spec \<Rightarrow> string \<Rightarrow> string \<Rightarrow> (string, string) jmap \<Rightarrow> member_config option \<Rightarrow>
   string option \<Rightarrow> usage_role option \<Rightarrow> ('v, run_result) wt" where
  "runProcess d nm m prompt cwd env' cfg k role =
     andThen (own wr_seq) (\<lambda>n.
     andThen (change_run (\<lambda>r. r\<lparr>wr_seq := wr_seq r + 1\<rparr>)) (\<lambda>_.
     let name = provider_name nm n; sessions = session_root env' name in
     andThen (out (reads (wd_now d))) (\<lambda>started.
     andThen (attempt (out (runMemberProcess d (or_else cfg no_config) m prompt name cwd (spread env' [(SESSIONS, sessions)])))) (\<lambda>r.
     andThen (out (usageFromLogs (wd_readdir d) (wd_read d) sessions)) (\<lambda>x.
     andThen (case wd_usage d of None \<Rightarrow> ret () | Some journal \<Rightarrow>
         out (ignoring (journal (usage_of_run m cfg env' k role x (case r of Inl _ \<Rightarrow> [] | Inr res \<Rightarrow> rs_runId res) started)))) (\<lambda>_.
       case r of Inl e \<Rightarrow> throw e | Inr res \<Rightarrow> ret res))))))"

definition cli_of :: "string \<Rightarrow> string option \<Rightarrow> rat option \<Rightarrow> string option \<Rightarrow> usage_role option \<Rightarrow> cli_run" where
  "cli_of cwd command ms k role = \<lparr>cl_cwd = cwd, cl_command = command, cl_timeoutMs = ms, cl_taskKey = k, cl_role = role\<rparr>"

definition memberEnv :: "worktree_options \<Rightarrow> 'v worktree_deps \<Rightarrow> run_names \<Rightarrow> (string, string) jmap" where
  "memberEnv o' d nm = memberEnvOf (wd_env d) (gt_tmpdir (wd_files d)) (or_else (wo_member o') no_config) (rn_team nm)"

definition note_owner :: "string option \<Rightarrow> member_spec \<Rightarrow> string \<Rightarrow> worktree_run \<Rightarrow> worktree_run" where
  "note_owner k m prompt r = (case k of None \<Rightarrow> r | Some k \<Rightarrow>
     if jm_has (wr_owners r) k then r else r\<lparr>wr_owners := jm_set k (m, prompt) (wr_owners r)\<rparr>)"

definition runMemberInSlot ::
  "worktree_options \<Rightarrow> 'v worktree_deps \<Rightarrow> run_names \<Rightarrow> member_spec \<Rightarrow> string \<Rightarrow> string option \<Rightarrow> usage_role option \<Rightarrow> ('v, run_result) wt" where
  "runMemberInSlot o' d nm m prompt k role =
     (let go = git_options_of o' (rn_team nm); cfg = or_else (wo_member o') no_config in
      andThen (case k of None \<Rightarrow> gitly (scratch go (wd_files d))
        | Some k \<Rightarrow> andThen (gitly (worktree_for go (wd_files d) k)) (\<lambda>wt. ret (wt_path wt))) (\<lambda>cwd.
      andThen (change_run (note_owner k m prompt)) (\<lambda>_.
      case mb_runtime m of
        Some ClaudeCode \<Rightarrow> out (wd_claude d m prompt (cli_of cwd (mc_claudeCommand cfg) (mc_claudeTimeoutMs cfg) k role)
          (mc_claudePermissionMode cfg) (mc_claudeSettingSources cfg))
      | Some Codex \<Rightarrow> out (wd_codex d m prompt (cli_of cwd (mc_codexCommand cfg) (mc_codexTimeoutMs cfg) k role) (mc_codexSandbox cfg))
      | _ \<Rightarrow> runProcess d nm m prompt cwd (memberEnv o' d nm) (wo_member o') k role)))"

text \<open>In a slot: the budget is asked before the wait and again with the slot.\<close>

definition in_slot :: "'v worktree_deps \<Rightarrow> string option \<Rightarrow> ('v, 'a) wt \<Rightarrow> ('v, 'a) wt" where
  "in_slot d k m = andThen (out (wd_acquire d)) (\<lambda>_. always (andThen (out (wd_admit d k)) (\<lambda>_. m)) (out (wd_release d)))"

definition runMember ::
  "worktree_options \<Rightarrow> 'v worktree_deps \<Rightarrow> run_names \<Rightarrow> member_spec \<Rightarrow> string \<Rightarrow> string option \<Rightarrow> usage_role option \<Rightarrow> ('v, run_result) wt" where
  "runMember o' d nm m prompt k role =
     andThen (out (wd_admit d k)) (\<lambda>_. in_slot d k (runMemberInSlot o' d nm m prompt k role))"

section \<open>The gate's reviewer\<close>

text \<open>The file system as a computation over the run.\<close>

definition run_files :: "'v git_deps \<Rightarrow> 'v run_world git_deps" where
  "run_files f =
     \<lparr>gt_git = (\<lambda>cwd args. out (gt_git f cwd args)), gt_indexed = (\<lambda>i cwd args. out (gt_indexed f i cwd args)), gt_exitCode = gt_exitCode f,
      gt_exists = (\<lambda>p. out (gt_exists f p)), gt_mkdirs = (\<lambda>p. out (gt_mkdirs f p)), gt_mkdtemp = (\<lambda>p. out (gt_mkdtemp f p)),
      gt_read = (\<lambda>p. out (gt_read f p)), gt_append = (\<lambda>p t. out (gt_append f p t)), gt_write = (\<lambda>p t. out (gt_write f p t)),
      gt_copy = (\<lambda>a b. out (gt_copy f a b)), gt_hardlink = (\<lambda>a b. out (gt_hardlink f a b)), gt_cp = (\<lambda>o1 a b. out (gt_cp f o1 a b)),
      gt_rm = (\<lambda>p. out (gt_rm f p)), gt_readdir = (\<lambda>p. out (gt_readdir f p)), gt_mtime = (\<lambda>p. out (gt_mtime f p)),
      gt_now = (\<lambda>(r, s, v). gt_now f v),
      gt_progress = map_option (\<lambda>say line (r, s, v). (r, s, say line v)) (gt_progress f), gt_tmpdir = gt_tmpdir f, gt_sha8 = gt_sha8 f\<rparr>"

definition review_config :: "member_config \<Rightarrow> string \<Rightarrow> member_config" where
  "review_config cfg sandbox = cfg\<lparr>mc_sandbox := None, mc_env := Some (spread (or_else (mc_env cfg) []) [(SANDBOX, sandbox)])\<rparr>"

definition review ::
  "worktree_options \<Rightarrow> 'v worktree_deps \<Rightarrow> run_names \<Rightarrow> string \<Rightarrow> member_spec \<Rightarrow> string \<Rightarrow> string \<Rightarrow> string \<Rightarrow> ('v, run_result) wt" where
  "review o' d nm k m prompt commit' sandbox =
     (let cfg = or_else (wo_member o') no_config in
      andThen (out (wd_admit d (Some k))) (\<lambda>_.
      andThen (gitly (worktree_for (git_options_of o' (rn_team nm)) (wd_files d) k)) (\<lambda>wt.
        in_slot d (Some k) (withSnapshotClone (run_files (wd_files d)) (wt_path wt) commit' (\<lambda>clone.
          runProcess d nm m prompt clone
            (memberEnvOf (wd_env d) (gt_tmpdir (wd_files d)) (review_config cfg sandbox) (rn_team nm))
            (Some (cfg\<lparr>mc_sandbox := None, mc_configPath := Some (wd_reviewConfig d)\<rparr>)) (Some k) (Some ReviewRole)) None))))"

section \<open>A task's work\<close>

definition adopt_task ::
  "worktree_options \<Rightarrow> 'v worktree_deps \<Rightarrow> run_names \<Rightarrow> string \<Rightarrow> string \<Rightarrow> (member_spec \<times> string) option \<Rightarrow> ('v, worktree option) wt" where
  "adopt_task o' d nm k remote owner =
     andThen (gitly (adopt (git_options_of o' (rn_team nm)) (wd_files d) k remote)) (\<lambda>info.
     andThen (case (info, owner) of (Some _, Some w) \<Rightarrow> change_run (\<lambda>r. r\<lparr>wr_owners := jm_set k w (wr_owners r)\<rparr>) | _ \<Rightarrow> ret ()) (\<lambda>_. ret info))"

definition task_message :: "run_names \<Rightarrow> string \<Rightarrow> string \<Rightarrow> string" where
  "task_message nm k note = ''swarm: '' @ k @ '' (team '' @ rn_team nm @ note @ '')''"

definition commit_work :: "worktree_options \<Rightarrow> 'v worktree_deps \<Rightarrow> worktree \<Rightarrow> string \<Rightarrow> ('v, unit) wt" where
  "commit_work o' d wt msg = (if wo_autoCommit o' = Some False then ret ()
     else andThen (gitly (autoCommit (wd_files d) wt msg)) (\<lambda>_. ret ()))"

definition commits_of :: "worktree_options \<Rightarrow> 'v worktree_deps \<Rightarrow> run_names \<Rightarrow> string \<Rightarrow> ('v, nat) wt" where
  "commits_of o' d nm br = gitly (commitCount (git_options_of o' (rn_team nm)) (wd_files d) br None)"

definition committedBranches :: "worktree_options \<Rightarrow> 'v worktree_deps \<Rightarrow> run_names \<Rightarrow> string list \<Rightarrow> ('v, string list) wt" where
  "committedBranches o' d nm ks =
     andThen (gitly git_list) (\<lambda>wts.
     andThen (each (\<lambda>wt.
       andThen (commit_work o' d wt (task_message nm (wt_taskKey wt) [])) (\<lambda>_.
       andThen (commits_of o' d nm (wt_branch wt)) (\<lambda>n. ret (if n > 0 then [wt_branch wt] else [])))) (filter (\<lambda>wt. wt_taskKey wt \<in> set ks) wts))
       (\<lambda>bs. ret (concat bs)))"

definition landingDiff :: "worktree_options \<Rightarrow> 'v worktree_deps \<Rightarrow> run_names \<Rightarrow> string \<Rightarrow> ('v, string \<times> diff_summary option) wt" where
  "landingDiff o' d nm br =
     (let go = git_options_of o' (rn_team nm) in
      andThen (gitly (baseCommit go (wd_files d))) (\<lambda>base.
      andThen (attempt (gitly (diffStat go (wd_files d) base br))) (\<lambda>diff.
        ret (base, case diff of Inl _ \<Rightarrow> None | Inr x \<Rightarrow> Some x))))"

definition rollback :: "worktree_options \<Rightarrow> 'v worktree_deps \<Rightarrow> run_names \<Rightarrow> string \<Rightarrow> string \<Rightarrow> ('v, unit) wt" where
  "rollback o' d nm k c = (let go = git_options_of o' (rn_team nm) in
     andThen (gitly (worktree_for go (wd_files d) k)) (\<lambda>wt. gitly (resetTo go (wd_files d) wt c)))"

definition pinForGate :: "worktree_options \<Rightarrow> 'v worktree_deps \<Rightarrow> run_names \<Rightarrow> string \<Rightarrow> string list \<Rightarrow> ('v, string list) wt" where
  "pinForGate o' d nm k specs = (let go = git_options_of o' (rn_team nm) in
     andThen (gitly (worktree_for go (wd_files d) k)) (\<lambda>wt. gitly (restoreFromBase go (wd_files d) wt specs)))"

definition sweepRun :: "worktree_options \<Rightarrow> 'v worktree_deps \<Rightarrow> ('v, string list) wt" where
  "sweepRun o' d = out (sweepOrphans (wd_files d) (wo_repoRoot o') (wo_worktreeDir o'))"

definition abort_run :: "worktree_options \<Rightarrow> 'v worktree_deps \<Rightarrow> run_names \<Rightarrow> ('v, unit) wt" where
  "abort_run o' d nm = gitly (removeAll (git_options_of o' (rn_team nm)) (wd_files d))"

definition withhold_one :: "worktree_options \<Rightarrow> 'v worktree_deps \<Rightarrow> run_names \<Rightarrow> string \<Rightarrow> ('v, branch_ref list) wt" where
  "withhold_one o' d nm k =
     andThen (gitly git_list) (\<lambda>wts. case find (\<lambda>wt. wt_taskKey wt = k) wts of
       None \<Rightarrow> ret []
     | Some wt \<Rightarrow>
         andThen (commit_work o' d wt (task_message nm k '', abandoned'')) (\<lambda>_.
         andThen (commits_of o' d nm (wt_branch wt)) (\<lambda>n.
         andThen (gitly (removeWorktree (git_options_of o' (rn_team nm)) (wd_files d) wt)) (\<lambda>_.
           ret (if n > 0 then [\<lparr>br_taskKey = k, br_branch = wt_branch wt\<rparr>] else [])))))"

definition withhold :: "worktree_options \<Rightarrow> 'v worktree_deps \<Rightarrow> run_names \<Rightarrow> string list \<Rightarrow> ('v, branch_ref list) wt" where
  "withhold o' d nm ks = andThen (each (withhold_one o' d nm) ks) (\<lambda>bs. ret (concat bs))"

section \<open>The end of the run\<close>

text \<open>\<open>SwarmGit\<close>, and the member runs, as a landing calls them.\<close>

definition repo_git :: "worktree_options \<Rightarrow> 'v worktree_deps \<Rightarrow> run_names \<Rightarrow> 'v run_world train_git" where
  "repo_git o' d nm =
     (let g = train_git_of (git_options_of o' (rn_team nm)) (wd_files d) (wd_marked d) in
      \<lparr>tg_target = tg_target g, tg_list = gitly (tg_list g), tg_commitCount = (\<lambda>br f. gitly (tg_commitCount g br f)),
       tg_diffStat = (\<lambda>a b. gitly (tg_diffStat g a b)), tg_targetTip = gitly (tg_targetTip g), tg_revParse = (\<lambda>r. gitly (tg_revParse g r)),
       tg_speculate = (\<lambda>tip brs. gitly (tg_speculate g tip brs)), tg_advanceTarget = (\<lambda>c. gitly (tg_advanceTarget g c)),
       tg_removeWorktree = (\<lambda>wt. gitly (tg_removeWorktree g wt)), tg_mergeAll = gitly (tg_mergeAll g),
       tg_mergeInto = (\<lambda>wt c. gitly (tg_mergeInto g wt c)), tg_abortMerge = (\<lambda>wt. gitly (tg_abortMerge g wt)),
       tg_concludeMerge = (\<lambda>wt msg. gitly (tg_concludeMerge g wt msg)), tg_contains = (\<lambda>br c. gitly (tg_contains g br c)),
       tg_autoCommit = (\<lambda>wt msg. gitly (tg_autoCommit g wt msg)), tg_snapshot = (\<lambda>p. gitly (tg_snapshot g p)),
       tg_readFile = (\<lambda>p. gitly (tg_readFile g p))\<rparr>)"

definition run_step_member ::
  "worktree_options \<Rightarrow> 'v worktree_deps \<Rightarrow> run_names \<Rightarrow> member_spec \<Rightarrow> string \<Rightarrow> string \<Rightarrow> fix_step \<Rightarrow> ('v, run_result) wt" where
  "run_step_member o' d nm m prompt k st =
     runMember o' d nm m prompt (Some k) (Some (case st of Repair \<Rightarrow> RepairRole | Resolve \<Rightarrow> ResolveRole))"

text \<open>The owners are read at the landing's start; while it goes on, a repair adds one only for a worktree no member has run in.\<close>

definition train_deps_of ::
  "worktree_options \<Rightarrow> 'v worktree_deps \<Rightarrow> run_names \<Rightarrow> worktree_run \<Rightarrow> 'v run_world train_deps \<Rightarrow> 'v run_world train_deps" where
  "train_deps_of o' d nm r td = td\<lparr>td_git := repo_git o' d nm, td_owners := wr_owners r, td_run := run_step_member o' d nm\<rparr>"

definition remote_deps_of ::
  "worktree_options \<Rightarrow> 'v worktree_deps \<Rightarrow> run_names \<Rightarrow> worktree_run \<Rightarrow> 'v run_world train_deps \<Rightarrow> 'v run_world remote_deps" where
  "remote_deps_of o' d nm r td =
     (let l = wd_link d in
      \<lparr>rm_git = repo_git o' d nm, rm_exec = (\<lambda>args. out (gt_git (wd_files d) (wo_repoRoot o') args)),
       rm_connect = (\<lambda>host port token. out (tl_connect l host port token)), rm_close = out (tl_close l), rm_card = out (tl_card l),
       rm_enqueue = (\<lambda>br sha bs. out (tl_enqueue l br sha bs)), rm_withdraw = (\<lambda>i. out (tl_withdraw l i)),
       rm_events = (\<lambda>after. out (tl_events l after)), rm_append = td_append td, rm_runEvents = td_runEvents td, rm_tasks = td_tasks td,
       rm_owners = wr_owners r, rm_members = td_members td, rm_run = run_step_member o' d nm, rm_abort = td_abort td, rm_now = td_now td\<rparr>)"

text \<open>How a run's end comes out, with the train journal it wrote; \<open>LandingStopped\<close> is a \<open>TrainStoppedError\<close> and its outcome.\<close>

datatype landing_end = Landing merge_outcome | LandingStopped string merge_outcome | LandingFailed thrown | LandingUnfinished

definition train_ended :: "train_end \<Rightarrow> landing_end" where
  "train_ended e = (case e of Returned out' \<Rightarrow> Landing out' | TrainStopped why out' \<Rightarrow> LandingStopped why out' | Unfinished \<Rightarrow> LandingUnfinished)"

definition remote_ended :: "remote_end \<Rightarrow> landing_end" where
  "remote_ended e = (case e of RemoteReturned out' \<Rightarrow> Landing out' | RemoteStopped why out' \<Rightarrow> LandingStopped why out'
     | RemoteFailed x \<Rightarrow> LandingFailed x | RemoteUnfinished \<Rightarrow> LandingUnfinished)"

definition stop_ended :: "train_stop + merge_outcome \<Rightarrow> landing_end" where
  "stop_ended r = (case r of Inr out' \<Rightarrow> Landing out' | Inl (Threw e) \<Rightarrow> LandingFailed e | Inl OutOfFuel \<Rightarrow> LandingUnfinished)"

definition plain_ended :: "thrown + merge_outcome \<Rightarrow> landing_end" where
  "plain_ended r = (case r of Inr out' \<Rightarrow> Landing out' | Inl e \<Rightarrow> LandingFailed e)"

text \<open>\<open>taskKeys()\<close>, each key's worktree in turn.\<close>

definition task_keys :: "('v, string list) wt" where
  "task_keys = gitly (look (\<lambda>s. jm_keys (sg_worktrees s)))"

definition commit_all :: "worktree_options \<Rightarrow> 'v worktree_deps \<Rightarrow> run_names \<Rightarrow> ('v, unit) wt" where
  "commit_all o' d nm =
     (if wo_autoCommit o' = Some False then ret ()
      else andThen task_keys (each_do (\<lambda>k. andThen (gitly (worktree_for (git_options_of o' (rn_team nm)) (wd_files d) k)) (\<lambda>wt.
        andThen (gitly (autoCommit (wd_files d) wt (task_message nm k []))) (\<lambda>_. ret ())))))"

definition withhold_all :: "worktree_options \<Rightarrow> 'v worktree_deps \<Rightarrow> run_names \<Rightarrow> ('v, merge_outcome) wt" where
  "withhold_all o' d nm =
     (let go = git_options_of o' (rn_team nm) in
      andThen task_keys (\<lambda>ks.
      andThen (each (\<lambda>k. andThen (gitly (worktree_for go (wd_files d) k)) (\<lambda>wt.
        andThen (commits_of o' d nm (wt_branch wt)) (\<lambda>n. ret (if n > 0 then [\<lparr>br_taskKey = k, br_branch = wt_branch wt\<rparr>] else [])))) ks) (\<lambda>held.
      andThen (gitly (removeAll go (wd_files d))) (\<lambda>_.
      andThen (gitly (dispose go (wd_files d))) (\<lambda>_.
        ret ((no_merges go)\<lparr>mo_withheld := concat held\<rparr>))))))"

definition merge_queue :: "worktree_options \<Rightarrow> 'v worktree_deps \<Rightarrow> run_names \<Rightarrow> ('v, merge_outcome) wt" where
  "merge_queue o' d nm =
     (let go = git_options_of o' (rn_team nm) in
      andThen (gitly (mergeAll go (wd_files d))) (\<lambda>out'. andThen (gitly (dispose go (wd_files d))) (\<lambda>_. ret out')))"

record 'v finalize_options =
  fz_merge :: "bool option"
  fz_train :: "('v run_world train_deps \<times> train_event list) option"
  fz_forge :: "('v run_world forge_deps \<times> train_event list) option"

text \<open>A landing that leaves this repository or runs a train, and the \<open>finally\<close> after it, which throws nothing.\<close>

definition land_elsewhere ::
  "nat \<Rightarrow> worktree_options \<Rightarrow> 'v worktree_deps \<Rightarrow> run_names \<Rightarrow> 'v finalize_options \<Rightarrow> 'v run_world \<Rightarrow>
   (landing_end \<times> train_event list \<times> 'v run_world) option" where
  "land_elsewhere fuel o' d nm fz w =
     (let over = (\<lambda>(e, j, w). (e, j, snd (gitly (dispose (git_options_of o' (rn_team nm)) (wd_files d)) w))) in
      case (fz_forge fz, wo_forge o') of
        (Some (fd, j), Some c) \<Rightarrow>
          Some (over (case landForge fuel c (fd\<lparr>fd_git := repo_git o' d nm\<rparr>) (forge_new j, w) of (r, (s, w)) \<Rightarrow> (stop_ended r, fs_journal s, w)))
      | _ \<Rightarrow>
        (case (fz_train fz, wo_train o') of
           (Some (td, j), Some c) \<Rightarrow>
             Some (over (if tc_url c \<noteq> None
               then (case landRemote fuel c (remote_deps_of o' d nm (fst w) td) j w of (e, s, w) \<Rightarrow> (remote_ended e, rt_journal s, w))
               else (case landTrain fuel c (train_deps_of o' d nm (fst w) td) j w of (e, s, w) \<Rightarrow> (train_ended e, tn_journal s, w))))
         | _ \<Rightarrow> None))"

definition finalize ::
  "nat \<Rightarrow> worktree_options \<Rightarrow> 'v worktree_deps \<Rightarrow> run_names \<Rightarrow> 'v finalize_options \<Rightarrow> 'v run_world \<Rightarrow> landing_end \<times> train_event list \<times> 'v run_world" where
  "finalize fuel o' d nm fz w =
     (case commit_all o' d nm w of
        (Inl e, w) \<Rightarrow> (LandingFailed e, [], w)
      | (Inr _, w) \<Rightarrow>
          if fz_merge fz = Some False then (case withhold_all o' d nm w of (r, w) \<Rightarrow> (plain_ended r, [], w))
          else
            (case land_elsewhere fuel o' d nm fz w of
               Some x \<Rightarrow> x
             | None \<Rightarrow> (case merge_queue o' d nm w of (r, w) \<Rightarrow> (plain_ended r, [], w))))"

end
