(* ===== verification/WorktreesProperties.thy ===== *)
theory WorktreesProperties
  imports Worktrees GitLogic TrainSafety
begin

text \<open>
  What a worktree run guarantees: its reviewer runs confined, no member process outlives its run, no two runs share a
  session root, a task held back is not landed, and what its train lands was verified.
\<close>

section \<open>Environments\<close>

lemma spread_wf: "jm_wf a \<Longrightarrow> jm_wf (spread a b)"
  unfolding spread_def by (induction b arbitrary: a) auto

lemma jm_get_cons [simp]: "jm_get ((k', v) # b) k = (if k = k' then Some v else jm_get b k)"
  by (simp add: jm_get_def)

lemma jm_wf_single [simp]: "jm_wf [kv]"
  by (simp add: jm_wf_def)

lemma jm_get_spread: "jm_wf b \<Longrightarrow> jm_get (spread a b) k = or_opt (jm_get b k) (jm_get a k)"
proof (induction b arbitrary: a)
  case Nil
  then show ?case by (simp add: spread_def)
next
  case (Cons kv b)
  obtain k' v where kv: "kv = (k', v)" by (cases kv)
  have wf: "jm_wf b" and fresh: "jm_get b k' = None"
    using Cons.prems by (auto simp: kv jm_wf_def jm_get_None_iff jm_keys_def)
  have "spread a (kv # b) = spread (jm_set k' v a) b" by (simp add: spread_def kv)
  with Cons.IH [OF wf, of "jm_set k' v a"] fresh show ?case
    by (auto simp: kv)
qed

lemma sandbox_sessions: "SANDBOX \<noteq> SESSIONS"
  by (simp add: SANDBOX_def SESSIONS_def)

lemma member_env_wins:
  assumes "jm_wf (or_else (mc_env cfg) [])" and "jm_get (or_else (mc_env cfg) []) k = Some v"
  shows "jm_get (memberEnvOf env' tmp cfg i) k = Some v"
  using assms by (simp add: memberEnvOf_def Let_def jm_get_spread)

lemma review_env:
  assumes "jm_wf (or_else (mc_env cfg) [])"
  shows "jm_get (memberEnvOf env' tmp (review_config cfg sandbox) i) SANDBOX = Some sandbox"
  using assms by (intro member_env_wins) (simp_all add: review_config_def spread_wf jm_get_spread)

text \<open>A process mounted without the sandbox refused.\<close>

definition confined_to :: "string \<Rightarrow> 'v worktree_deps \<Rightarrow> 'v worktree_deps" where
  "confined_to sandbox d = d\<lparr>wd_plug := (\<lambda>mt. if jm_get (mt_env mt) SANDBOX = Some sandbox then wd_plug d mt else throw (OtherError ''unconfined''))\<rparr>"

lemma confined_fields [simp]:
  "wd_files (confined_to s d) = wd_files d" "wd_admit (confined_to s d) = wd_admit d" "wd_acquire (confined_to s d) = wd_acquire d"
  "wd_release (confined_to s d) = wd_release d" "wd_await (confined_to s d) = wd_await d" "wd_start (confined_to s d) = wd_start d"
  "wd_result (confined_to s d) = wd_result d" "wd_reap (confined_to s d) = wd_reap d" "wd_unplug (confined_to s d) = wd_unplug d"
  "wd_readdir (confined_to s d) = wd_readdir d" "wd_read (confined_to s d) = wd_read d" "wd_usage (confined_to s d) = wd_usage d"
  "wd_now (confined_to s d) = wd_now d" "wd_env (confined_to s d) = wd_env d" "wd_reviewConfig (confined_to s d) = wd_reviewConfig d"
  by (simp_all add: confined_to_def)

lemma confined_process:
  assumes "jm_get env' SANDBOX = Some sandbox"
  shows "runMemberProcess (confined_to sandbox d) cfg m prompt name cwd env' = runMemberProcess d cfg m prompt name cwd env'"
proof -
  have "mount_of (confined_to sandbox d) cfg m name cwd env' = mount_of d cfg m name cwd env'"
    by (simp add: mount_of_def resolveMemberLaunch_def confined_to_def)
  moreover have "mt_env (mount_of d cfg m name cwd env') = env'" by (simp add: mount_of_def)
  ultimately have "wd_plug (confined_to sandbox d) (mount_of (confined_to sandbox d) cfg m name cwd env') = wd_plug d (mount_of d cfg m name cwd env')"
    using assms by (simp add: confined_to_def)
  then show ?thesis by (simp add: runMemberProcess_def)
qed

text \<open>C36: The gate's reviewer runs under the sandbox it was given: a reviewer run is the same whether or not every process mounted
  without that sandbox in its environment is refused, whatever the run's configuration, its environment or this process's say.\<close>

theorem review_confined:
  assumes "jm_wf (or_else (mc_env (or_else (wo_member o') no_config)) [])"
  shows "review o' (confined_to sandbox d) nm k m prompt commit' sandbox = review o' d nm k m prompt commit' sandbox"
proof -
  let ?cfg = "or_else (wo_member o') no_config"
  let ?env = "memberEnvOf (wd_env d) (gt_tmpdir (wd_files d)) (review_config ?cfg sandbox) (rn_team nm)"
  have "jm_get (spread ?env [(SESSIONS, x)]) SANDBOX = Some sandbox" for x
    using review_env [OF assms] sandbox_sessions by (simp add: jm_get_spread)
  then have "runProcess (confined_to sandbox d) nm m prompt cwd ?env cfg k role = runProcess d nm m prompt cwd ?env cfg k role" for cwd cfg k role
    by (simp add: runProcess_def confined_process)
  then show ?thesis
    by (simp add: review_def in_slot_def)
qed

section \<open>Processes\<close>

text \<open>What of an environment shows which providers are mounted and which runs were started and not reaped.\<close>

definition calls :: "('v \<Rightarrow> 'x \<times> 'v) \<Rightarrow> ('v \<Rightarrow> 'x \<Rightarrow> 'v \<Rightarrow> bool) \<Rightarrow> bool" where
  "calls m R \<longleftrightarrow> (\<forall>v. case m v of (x, v') \<Rightarrow> R v x v')"

lemma callsD: "calls m R \<Longrightarrow> m v = (x, v') \<Longrightarrow> R v x v'"
  unfolding calls_def by (metis case_prod_conv)

definition shows_processes :: "'v worktree_deps \<Rightarrow> ('v \<Rightarrow> string set) \<Rightarrow> ('v \<Rightarrow> string set) \<Rightarrow> bool" where
  "shows_processes d M L \<longleftrightarrow>
     (\<forall>mt. calls (wd_plug d mt) (\<lambda>v x v'. L v' = L v \<and> M v' = (case x of Inl _ \<Rightarrow> M v | Inr _ \<Rightarrow> insert (mt_provider mt) (M v)))) \<and>
     (\<forall>n. calls (wd_unplug d n) (\<lambda>v x v'. L v' = L v \<and> M v' = M v - {n})) \<and>
     (\<forall>n l t. calls (wd_start d n l t) (\<lambda>v x v'. M v' = M v \<and> L v' = (case x of Inl _ \<Rightarrow> L v | Inr i \<Rightarrow> insert i (L v)))) \<and>
     (\<forall>i. calls (wd_reap d i) (\<lambda>v x v'. M v' = M v \<and> L v' = L v - {i})) \<and>
     (\<forall>n. calls (wd_await d n) (\<lambda>v x v'. M v' = M v \<and> L v' = L v)) \<and>
     (\<forall>i. calls (wd_result d i) (\<lambda>v x v'. M v' = M v \<and> L v' = L v))"

lemma shown_calls:
  assumes "shows_processes d M L"
  shows "wd_plug d mt v = (x, v') \<Longrightarrow> L v' = L v \<and> M v' = (case x of Inl _ \<Rightarrow> M v | Inr _ \<Rightarrow> insert (mt_provider mt) (M v))"
    and "wd_unplug d n v = (y, v') \<Longrightarrow> L v' = L v \<and> M v' = M v - {n}"
    and "wd_start d n l t v = (z, v') \<Longrightarrow> M v' = M v \<and> L v' = (case z of Inl _ \<Rightarrow> L v | Inr i \<Rightarrow> insert i (L v))"
    and "wd_reap d i v = (y, v') \<Longrightarrow> M v' = M v \<and> L v' = L v - {i}"
    and "wd_await d n v = (y, v') \<Longrightarrow> M v' = M v \<and> L v' = L v"
    and "wd_result d i v = (u, v') \<Longrightarrow> M v' = M v \<and> L v' = L v"
proof -
  from assms have plug: "calls (wd_plug d mt) (\<lambda>v x v'. L v' = L v \<and> M v' = (case x of Inl _ \<Rightarrow> M v | Inr _ \<Rightarrow> insert (mt_provider mt) (M v)))"
    and unplug: "calls (wd_unplug d n) (\<lambda>v x v'. L v' = L v \<and> M v' = M v - {n})"
    and start: "calls (wd_start d n l t) (\<lambda>v x v'. M v' = M v \<and> L v' = (case x of Inl _ \<Rightarrow> L v | Inr i \<Rightarrow> insert i (L v)))"
    and reap: "calls (wd_reap d i) (\<lambda>v x v'. M v' = M v \<and> L v' = L v - {i})"
    and ready: "calls (wd_await d n) (\<lambda>v x v'. M v' = M v \<and> L v' = L v)"
    and result: "calls (wd_result d i) (\<lambda>v x v'. M v' = M v \<and> L v' = L v)"
    by (simp_all add: shows_processes_def)
  note got = callsD [OF plug] callsD [OF unplug] callsD [OF start] callsD [OF reap] callsD [OF ready] callsD [OF result]
  show "wd_plug d mt v = (x, v') \<Longrightarrow> L v' = L v \<and> M v' = (case x of Inl _ \<Rightarrow> M v | Inr _ \<Rightarrow> insert (mt_provider mt) (M v))" by (rule got)
  show "wd_unplug d n v = (y, v') \<Longrightarrow> L v' = L v \<and> M v' = M v - {n}" by (rule got)
  show "wd_start d n l t v = (z, v') \<Longrightarrow> M v' = M v \<and> L v' = (case z of Inl _ \<Rightarrow> L v | Inr i \<Rightarrow> insert i (L v))" by (rule got)
  show "wd_reap d i v = (y, v') \<Longrightarrow> M v' = M v \<and> L v' = L v - {i}" by (rule got)
  show "wd_await d n v = (y, v') \<Longrightarrow> M v' = M v \<and> L v' = L v" by (rule got)
  show "wd_result d i v = (u, v') \<Longrightarrow> M v' = M v \<and> L v' = L v" by (rule got)
qed

lemma andThen_next: "m v = (Inr z, v') \<Longrightarrow> andThen m (\<lambda>_. k) v = k v'" "m v = (Inl e, v') \<Longrightarrow> andThen m f v = (Inl e, v')"
  "m v = (Inr z, v') \<Longrightarrow> andThen m f v = f z v'"
  by (simp_all add: andThen_apply)

lemma always_apply: "always m c w = (case m w of (r, w1) \<Rightarrow> (case c w1 of (Inl e, w2) \<Rightarrow> (Inl e, w2) | (Inr _, w2) \<Rightarrow> (r, w2)))"
  by (auto simp: always_def act_simps split: prod.splits sum.splits)

lemma ignoring_apply: "ignoring m w = (Inr (), snd (m w))"
  by (auto simp: ignoring_def act_simps split: prod.splits)

lemma started_reaped:
  assumes shown: "shows_processes d M L" and pure: "\<And>i z w. snd (f i z w) = w"
    and run: "andThen (wd_start d name l t) (\<lambda>i. always (andThen (wd_result d i) (f i)) (ignoring (wd_reap d i))) v = (y, v')"
  shows "M v' = M v \<and> L v' \<subseteq> L v"
proof -
  obtain q v1 where start: "wd_start d name l t v = (q, v1)" by (metis prod.exhaust)
  have v1: "M v1 = M v" "L v1 = (case q of Inl _ \<Rightarrow> L v | Inr i \<Rightarrow> insert i (L v))"
    using shown_calls(3) [OF shown start] by simp_all
  show ?thesis
  proof (cases q)
    case (Inl e)
    with v1 run [unfolded andThen_next(2) [where m = "wd_start d name l t", OF start [unfolded Inl]]] show ?thesis by auto
  next
    case (Inr i)
    obtain z v2 where result: "wd_result d i v1 = (z, v2)" by (metis prod.exhaust)
    have v2: "M v2 = M v1" "L v2 = L v1" using shown_calls(6) [OF shown result] by simp_all
    have "snd (andThen (wd_result d i) (f i) v1) = v2"
      using pure [of i] result by (cases z) (simp_all add: act_simps)
    then obtain r where "andThen (wd_result d i) (f i) v1 = (r, v2)" by (metis prod.collapse)
    with run [unfolded andThen_next(3) [where m = "wd_start d name l t", OF start [unfolded Inr]]] have "v' = snd (wd_reap d i v2)"
      by (simp add: always_apply ignoring_apply)
    then obtain e where reaped: "wd_reap d i v2 = (e, v')" by (metis prod.collapse)
    have "M v' = M v2" "L v' = L v2 - {i}" using shown_calls(4) [OF shown reaped] by simp_all
    with v1 v2 Inr show ?thesis by auto
  qed
qed


section \<open>Sessions\<close>

lemma provider_name_inj: "provider_name nm i = provider_name nm j \<longleftrightarrow> i = j"
  by (simp add: provider_name_def nat_str_inj)

lemma session_root_inj: "session_root env' (provider_name nm i) = session_root env' (provider_name nm j) \<longleftrightarrow> i = j"
  by (simp add: session_root_def provider_name_inj)

text \<open>A member run uses its number up, however it ends.\<close>

definition same_seq :: "worktree_run \<Rightarrow> worktree_run \<Rightarrow> bool" where
  "same_seq r r' \<longleftrightarrow> wr_seq r' = wr_seq r"

interpretation seqs: state_relation same_seq
  by unfold_locales (simp_all add: same_seq_def)

lemma seq_out: "keeps same_seq (out m)"
  by (rule keepsI) (auto simp: same_seq_def out_def gitly_def outside_def split: prod.splits)

lemma own_then: "andThen (own f) g (r, w) = g (f r) (r, w)" "andThen (change_run h) g' (r, w) = g' () (h r, w)"
  by (simp_all add: andThen_apply own_def change_run_def)

text \<open>Each member run keeps its session logs apart: a run takes the next number, however it ends, and neither an earlier nor a later
  run of the same team on the same host has its session root, so that no run's usage is read from another's logs.\<close>

theorem sessions_apart:
  assumes "runProcess d nm m prompt cwd env' cfg k role (r, g) = (x, (r', g'))"
  shows "wr_seq r' = wr_seq r + 1 \<and>
    (session_root env' (provider_name nm (wr_seq r)) = session_root env' (provider_name nm n) \<longleftrightarrow> n = wr_seq r)"
proof -
  let ?rest = "\<lambda>n name sessions. andThen (out (reads (wd_now d))) (\<lambda>started.
     andThen (attempt (out (runMemberProcess d (or_else cfg no_config) m prompt name cwd (spread env' [(SESSIONS, sessions)])))) (\<lambda>r.
     andThen (out (usageFromLogs (wd_readdir d) (wd_read d) sessions)) (\<lambda>x.
     andThen (case wd_usage d of None \<Rightarrow> ret () | Some journal \<Rightarrow>
         out (ignoring (journal (usage_of_run m cfg env' k role x (case r of Inl _ \<Rightarrow> [] | Inr res \<Rightarrow> rs_runId res) started)))) (\<lambda>_.
       case r of Inl e \<Rightarrow> throw e | Inr res \<Rightarrow> ret res))))"
  have rest: "keeps same_seq (?rest n name sessions)" for n name sessions
    by (auto intro!: seqs.keeps_andThen seqs.keeps_attempt seqs.keeps_ret seqs.keeps_throw seq_out split: option.split sum.split)
  have "?rest (wr_seq r) (provider_name nm (wr_seq r)) (session_root env' (provider_name nm (wr_seq r))) (r\<lparr>wr_seq := wr_seq r + 1\<rparr>, g) = (x, (r', g'))"
    using assms by (simp add: runProcess_def own_then Let_def)
  from keepsD [OF rest this] have "wr_seq r' = wr_seq r + 1" by (simp add: same_seq_def)
  then show ?thesis by (auto simp: session_root_inj)
qed

section \<open>Tasks held back\<close>

text \<open>An invariant of the git state, as the run's computations keep it.\<close>

definition keeps_tree :: "(swarm_git \<Rightarrow> bool) \<Rightarrow> ('v, 'a) wt \<Rightarrow> bool" where
  "keeps_tree P m \<longleftrightarrow> (\<forall>r s v x r' s' v'. P s \<longrightarrow> m (r, s, v) = (x, (r', s', v')) \<longrightarrow> P s')"

lemma keeps_treeD: "keeps_tree P m \<Longrightarrow> P s \<Longrightarrow> m (r, s, v) = (x, (r', s', v')) \<Longrightarrow> P s'"
  unfolding keeps_tree_def by blast

lemma tree_gitly: "stays P m \<Longrightarrow> keeps_tree P (gitly m)"
  unfolding keeps_tree_def gitly_def by (auto split: prod.splits elim: staysD)

lemma tree_ret: "keeps_tree P (ret x)"
  by (simp add: keeps_tree_def ret_def)

lemma tree_andThen:
  assumes "keeps_tree P m" and "\<And>x. keeps_tree P (f x)"
  shows "keeps_tree P (andThen m f)"
  unfolding keeps_tree_def
proof (intro allI impI)
  fix r s v x r' s' v' assume "P s" and "andThen m f (r, s, v) = (x, (r', s', v'))"
  from this(2) show "P s'"
  proof (cases rule: andThen_cases)
    case (1 e)
    with assms(1) \<open>P s\<close> show ?thesis by (auto intro: keeps_treeD)
  next
    case (2 y w)
    obtain r1 s1 v1 where w: "w = (r1, s1, v1)" by (cases w)
    with 2 assms(1) \<open>P s\<close> have "P s1" by (auto intro: keeps_treeD)
    with 2 w show ?thesis by (auto intro: keeps_treeD [OF assms(2)])
  qed
qed

lemma tree_each_do: "(\<And>x. x \<in> set xs \<Longrightarrow> keeps_tree P (f x)) \<Longrightarrow> keeps_tree P (each_do f xs)"
  by (induction xs) (auto intro: tree_ret tree_andThen)

lemma tree_each: "(\<And>x. x \<in> set xs \<Longrightarrow> keeps_tree P (f x)) \<Longrightarrow> keeps_tree P (each f xs)"
  by (induction xs) (auto intro!: tree_ret tree_andThen)

text \<open>No worktree of a key of \<open>K\<close>.\<close>

definition hidden :: "string set \<Rightarrow> swarm_git \<Rightarrow> bool" where
  "hidden K s \<longleftrightarrow> jm_wf (sg_worktrees s) \<and> jm_keyed wt_taskKey (sg_worktrees s) \<and> (\<forall>k \<in> K. jm_get (sg_worktrees s) k = None)"

lemma keyed_del: "jm_keyed f m \<Longrightarrow> jm_keyed f (jm_del k m)"
  unfolding jm_keyed_def by (auto dest: subsetD [OF jm_del_subset])

interpretation hidden_trees: worktree_invariant "hidden K" for K
  by unfold_locales (auto simp: hidden_def keyed_del)

lemma hidden_create: "k \<notin> K \<Longrightarrow> stays (hidden K) (createWorktree o' d k)"
  unfolding createWorktree_def Let_def
  by (intro stays_intros hidden_trees.put_elsewhere hidden_trees.ensureDir_stays hidden_trees.baseCommit_stays hidden_trees.link_env_stays stays_put)
    (auto simp: hidden_def)

lemma hidden_worktree_for: "k \<notin> K \<Longrightarrow> stays (hidden K) (worktree_for o' d k)"
  unfolding worktree_for_def
  by (auto intro!: stays_intros hidden_create hidden_trees.put_elsewhere split: option.split sum.split)

lemma hidden_autoCommit: "stays (hidden K) (autoCommit d wt msg)"
  unfolding autoCommit_def by (intro stays_intros)

lemma hidden_commit_work: "keeps_tree (hidden K) (commit_work o' d wt msg)"
  unfolding commit_work_def by (auto intro!: tree_ret tree_andThen tree_gitly hidden_autoCommit)

lemma hidden_commits: "keeps_tree (hidden K) (commits_of o' d nm br)"
  unfolding commits_of_def by (intro tree_gitly hidden_trees.commitCount_stays)

lemma hidden_remove: "stays (hidden K) (removeWorktree o' d wt)"
  by (rule hidden_trees.removeWorktree_stays)

text \<open>What is held back is hidden.\<close>

lemma removed_worktrees:
  assumes "removeWorktree o' d wt (s, v) = (Inr x, (s', v'))"
  shows "sg_worktrees s' = jm_del (wt_taskKey wt) (sg_worktrees s)"
proof -
  let ?removal = "catching (andThen (git_cmd d (go_repoRoot o') [''worktree'', ''remove'', ''--force'', wt_path wt]) (\<lambda>_. ret ()))
    (\<lambda>_. outside (gt_rm d (wt_path wt)))"
  from assms obtain y s1 v1 where t: "?removal (s, v) = (Inr y, (s1, v1))"
    and p: "put (\<lambda>s. s\<lparr>sg_worktrees := jm_del (wt_taskKey wt) (sg_worktrees s), sg_promises := jm_del (wt_taskKey wt) (sg_promises s)\<rparr>)
      (s1, v1) = (Inr x, (s', v'))"
    unfolding removeWorktree_def by (auto elim!: andThen_InrE)
  have "stays (\<lambda>t. sg_worktrees t = sg_worktrees s) ?removal" by (intro stays_intros)
  from staysD [OF this _ t] p show ?thesis by (auto simp: put_def)
qed

lemma gitly_run: "gitly m (r, s, v) = (x, (r', s', v')) \<longleftrightarrow> m (s, v) = (x, (s', v')) \<and> r' = r"
  by (auto simp: gitly_def split: prod.splits)

text \<open>The git state part of a run's computation that returned.\<close>

lemma treeE:
  assumes "andThen m f (r, s, v) = (Inr x, w)"
  obtains y r1 s1 v1 where "m (r, s, v) = (Inr y, (r1, s1, v1))" and "f y (r1, s1, v1) = (Inr x, w)"
  using assms by (rule andThen_InrE) (metis prod.exhaust)

lemma find_keyed:
  assumes "jm_wf m" and "jm_keyed f m" and "find (\<lambda>v. f v = k) (jm_vals m) = None"
  shows "jm_get m k = None"
proof (rule ccontr)
  assume "jm_get m k \<noteq> None"
  then obtain v where v: "jm_get m k = Some v" by auto
  with assms(1) have "v \<in> set (jm_vals m)" by (auto simp: jm_vals_iff)
  moreover have "f v = k" using assms(2) v by (rule jm_keyed_get)
  ultimately show False using assms(3) by (auto simp: find_None_iff)
qed

lemma withheld_hidden:
  assumes hid: "hidden K s" and run: "withhold_one o' d nm k (r, s, v) = (Inr x, (r', s', v'))"
  shows "hidden (insert k K) s'"
proof -
  let ?wts = "jm_vals (sg_worktrees s)"
  from run have run: "(case find (\<lambda>wt. wt_taskKey wt = k) ?wts of None \<Rightarrow> ret []
     | Some wt \<Rightarrow> andThen (commit_work o' d wt (task_message nm k '', abandoned'')) (\<lambda>_.
         andThen (commits_of o' d nm (wt_branch wt)) (\<lambda>n.
         andThen (gitly (removeWorktree (git_options_of o' (rn_team nm)) (wd_files d) wt)) (\<lambda>_.
           ret (if n > 0 then [\<lparr>br_taskKey = k, br_branch = wt_branch wt\<rparr>] else []))))) (r, s, v) = (Inr x, (r', s', v'))"
    unfolding withhold_one_def by (rule treeE) (simp add: gitly_run git_list_def look_def)
  show ?thesis
  proof (cases "find (\<lambda>wt. wt_taskKey wt = k) ?wts")
    case None
    with hid have "jm_get (sg_worktrees s) k = None" by (auto simp: hidden_def intro: find_keyed)
    with None run hid show ?thesis by (simp add: ret_apply hidden_def)
  next
    case (Some wt)
    then have key: "wt_taskKey wt = k" by (auto simp: find_Some_iff)
    from run [unfolded Some option.case] obtain y r1 s1 v1 where c: "commit_work o' d wt (task_message nm k '', abandoned'') (r, s, v) = (Inr y, (r1, s1, v1))"
      and rest: "andThen (commits_of o' d nm (wt_branch wt)) (\<lambda>n.
         andThen (gitly (removeWorktree (git_options_of o' (rn_team nm)) (wd_files d) wt)) (\<lambda>_.
           ret (if n > 0 then [\<lparr>br_taskKey = k, br_branch = wt_branch wt\<rparr>] else []))) (r1, s1, v1) = (Inr x, (r', s', v'))"
      by (rule treeE)
    from rest obtain n r2 s2 v2 where n: "commits_of o' d nm (wt_branch wt) (r1, s1, v1) = (Inr n, (r2, s2, v2))"
      and rest: "andThen (gitly (removeWorktree (git_options_of o' (rn_team nm)) (wd_files d) wt)) (\<lambda>_.
           ret (if n > 0 then [\<lparr>br_taskKey = k, br_branch = wt_branch wt\<rparr>] else [])) (r2, s2, v2) = (Inr x, (r', s', v'))"
      by (rule treeE)
    from rest obtain z r3 s3 v3 where rm: "gitly (removeWorktree (git_options_of o' (rn_team nm)) (wd_files d) wt) (r2, s2, v2) = (Inr z, (r3, s3, v3))"
      and fin: "s' = s3"
      by (rule treeE) (auto simp: ret_apply)
    have "hidden K s1" by (rule keeps_treeD [OF hidden_commit_work hid c])
    then have "hidden K s2" by (rule keeps_treeD [OF hidden_commits _ n])
    with removed_worktrees [of _ _ wt s2 v2 z s3 v3] rm have "hidden (insert k K) s3"
      by (auto simp: gitly_run hidden_def keyed_del key)
    with fin show ?thesis by simp
  qed
qed

lemma withhold_hidden:
  assumes "hidden K s" and "withhold o' d nm ks (r, s, v) = (Inr held, (r', s', v'))"
  shows "hidden (K \<union> set ks) s'"
proof -
  have "each (withhold_one o' d nm) ks (r, s, v) = (Inr xs, (r', s', v')) \<Longrightarrow> hidden K s \<Longrightarrow> hidden (K \<union> set ks) s'" for xs r s v K
  proof (induction ks arbitrary: xs r s v K)
    case Nil
    then show ?case by (simp add: ret_apply)
  next
    case (Cons k ks)
    from Cons.prems(1) obtain y r1 s1 v1 where one: "withhold_one o' d nm k (r, s, v) = (Inr y, (r1, s1, v1))"
      and rest: "andThen (each (withhold_one o' d nm) ks) (\<lambda>ys. ret (y # ys)) (r1, s1, v1) = (Inr xs, (r', s', v'))"
      unfolding each.simps by (rule treeE)
    from rest obtain ys r2 s2 v2 where more: "each (withhold_one o' d nm) ks (r1, s1, v1) = (Inr ys, (r2, s2, v2))"
      and same: "(r', s', v') = (r2, s2, v2)"
      by (rule treeE) (auto simp: ret_apply)
    from Cons.IH [of r1 s1 v1 ys "insert k K"] more same withheld_hidden [OF Cons.prems(2) one] show ?case by simp
  qed
  moreover from assms(2) obtain ys where "each (withhold_one o' d nm) ks (r, s, v) = (Inr ys, (r', s', v'))"
    unfolding withhold_def by (auto elim!: treeE simp: ret_apply)
  ultimately show ?thesis using assms(1) by blast
qed

text \<open>The tasks an outcome names.\<close>

definition named_tasks :: "merge_outcome \<Rightarrow> string set" where
  "named_tasks x = br_taskKey ` set (mo_merged x) \<union> br_taskKey ` set (mo_conflicts x) \<union> br_taskKey ` set (mo_empty x) \<union>
     br_taskKey ` set (mo_withheld x)"

lemma merge_one_keys:
  assumes "merge_one o' d target x wt sv = (Inr x', sv')"
  shows "named_tasks x' \<subseteq> insert (wt_taskKey wt) (named_tasks x)"
  using assms
  by (auto simp: merge_one_def act_simps Let_def ignoring_apply named_tasks_def branch_of_def split: prod.splits sum.splits if_splits)

lemma merge_each_keys:
  "merge_each o' d target wts x sv = (Inr x', sv') \<Longrightarrow> named_tasks x' \<subseteq> wt_taskKey ` set wts \<union> named_tasks x"
proof (induction wts arbitrary: x sv)
  case (Cons wt wts)
  then obtain x1 sv1 where "merge_one o' d target x wt sv = (Inr x1, sv1)" and "merge_each o' d target wts x1 sv1 = (Inr x', sv')"
    by (auto elim: andThen_InrE)
  with Cons.IH [of x1 sv1] merge_one_keys [of o' d target x wt sv x1 sv1] show ?case by auto
qed (simp add: ret_apply)

lemma no_merges_keys [simp]: "named_tasks (no_merges go) = {}"
  by (simp add: named_tasks_def no_merges_def)

lemma mergeAll_keys:
  assumes "mergeAll o' d (s, v) = (Inr x, sv')"
  shows "named_tasks x \<subseteq> wt_taskKey ` set (jm_vals (sg_worktrees s))"
proof (cases "jm_vals (sg_worktrees s) = []")
  case True
  with assms show ?thesis by (auto simp: mergeAll_def git_list_def look_def andThen_apply ret_apply)
next
  case False
  with assms have "andThen (targetWorktree o' d) (\<lambda>target. merge_each o' d target (jm_vals (sg_worktrees s)) (no_merges o')) (s, v) = (Inr x, sv')"
    by (simp add: mergeAll_def git_list_def look_def andThen_apply [of "\<lambda>(s, v). (Inr (jm_vals (sg_worktrees s)), s, v)"])
  then show ?thesis by (rule andThen_InrE) (use merge_each_keys in fastforce)
qed

lemma hidden_keys: "hidden K s \<Longrightarrow> set (jm_keys (sg_worktrees s)) \<inter> K = {}" "hidden K s \<Longrightarrow> wt_taskKey ` set (jm_vals (sg_worktrees s)) \<inter> K = {}"
proof -
  show keys: "set (jm_keys (sg_worktrees s)) \<inter> K = {}" if "hidden K s"
  proof -
    have "jm_get (sg_worktrees s) k = None \<longleftrightarrow> k \<notin> set (jm_keys (sg_worktrees s))" for k by (rule jm_get_None_iff)
    with that show ?thesis by (auto simp: hidden_def)
  qed
  show "wt_taskKey ` set (jm_vals (sg_worktrees s)) \<inter> K = {}" if "hidden K s"
    using keys [OF that] jm_keyed_vals [of wt_taskKey "sg_worktrees s"] that by (metis hidden_def list.set_map)
qed

lemma each_member:
  "each f xs w = (Inr ys, w') \<Longrightarrow> y \<in> set ys \<Longrightarrow> \<exists>x \<in> set xs. \<exists>w1 w2. f x w1 = (Inr y, w2)"
proof (induction xs arbitrary: w ys)
  case (Cons x xs)
  then obtain z w1 zs where "f x w = (Inr z, w1)" and "each f xs w1 = (Inr zs, w')" and "ys = z # zs"
    by (auto simp: ret_apply elim!: andThen_InrE)
  with Cons.IH [of w1 zs] Cons.prems(2) show ?case by (metis list.set_intros set_ConsD)
qed (simp add: ret_apply)

lemma task_keys_run: "andThen task_keys f (r, s, v) = f (jm_keys (sg_worktrees s)) (r, s, v)"
  by (simp add: task_keys_def andThen_apply gitly_def look_def)

lemma hidden_commit_all:
  assumes "hidden K s" and "commit_all o' d nm (r, s, v) = (x, (r', s', v'))"
  shows "hidden K s'"
proof (cases "wo_autoCommit o' = Some False")
  case True
  with assms show ?thesis by (simp add: commit_all_def ret_apply)
next
  case False
  let ?one = "\<lambda>k. andThen (gitly (worktree_for (git_options_of o' (rn_team nm)) (wd_files d) k)) (\<lambda>wt.
    andThen (gitly (autoCommit (wd_files d) wt (task_message nm k []))) (\<lambda>_. ret ()))"
  have "keeps_tree (hidden K) (each_do ?one (jm_keys (sg_worktrees s)))"
    by (intro tree_each_do tree_andThen tree_gitly hidden_worktree_for hidden_autoCommit tree_ret) (use hidden_keys(1) [OF assms(1)] in auto)
  from keeps_treeD [OF this assms(1)] assms(2) False show ?thesis
    by (auto simp: commit_all_def task_keys_run)
qed

lemma withhold_all_keys:
  assumes "hidden K s" and "withhold_all o' d nm (r, s, v) = (Inr x, w')"
  shows "named_tasks x \<inter> K = {}"
proof -
  let ?go = "git_options_of o' (rn_team nm)"
  let ?one = "\<lambda>k. andThen (gitly (worktree_for ?go (wd_files d) k)) (\<lambda>wt.
        andThen (commits_of o' d nm (wt_branch wt)) (\<lambda>n. ret (if n > 0 then [\<lparr>br_taskKey = k, br_branch = wt_branch wt\<rparr>] else [])))"
  from assms(2) obtain held w1 where each: "each ?one (jm_keys (sg_worktrees s)) (r, s, v) = (Inr held, w1)"
    and x: "x = (no_merges ?go)\<lparr>mo_withheld := concat held\<rparr>"
    by (auto simp: withhold_all_def Let_def task_keys_run ret_apply elim!: andThen_InrE)
  have "br_taskKey b \<in> set (jm_keys (sg_worktrees s))" if held_in: "b \<in> set (concat held)" for b
  proof -
    from held_in obtain bs where "bs \<in> set held" and b: "b \<in> set bs" by auto
    from each_member [OF each this(1)] obtain k w2 w3 where k: "k \<in> set (jm_keys (sg_worktrees s))" and one: "?one k w2 = (Inr bs, w3)" by auto
    from one have "\<forall>b \<in> set bs. br_taskKey b = k" by (auto simp: ret_apply elim!: andThen_InrE split: if_splits)
    with b k show ?thesis by simp
  qed
  then have "br_taskKey ` set (concat held) \<subseteq> set (jm_keys (sg_worktrees s))" by blast
  with hidden_keys(1) [OF assms(1)] show ?thesis
    unfolding x by (auto simp: named_tasks_def no_merges_def)
qed

text \<open>C38: A task held back is not landed: once its withholding returned, the end of the run that lands by its own queue, or lands nothing, names
  none of the tasks held back, neither as merged or conflicting nor as empty or withheld with the rest.\<close>

theorem withheld_not_landed:
  assumes "hidden {} s" and "withhold o' d nm ks (r, s, v) = (Inr held, (r1, s1, v1))"
    and "fz_merge fz = Some False \<or> (fz_train fz = None \<and> fz_forge fz = None)"
    and "finalize fuel o' d nm fz (r1, s1, v1) = (Landing out', j, w')"
  shows "named_tasks out' \<inter> set ks = {}"
proof -
  let ?K = "set ks"
  have hid: "hidden ?K s1" using withhold_hidden [OF assms(1,2)] by simp
  obtain c r2 s2 v2 where commit: "commit_all o' d nm (r1, s1, v1) = (c, (r2, s2, v2))" by (metis prod.exhaust)
  have hid2: "hidden ?K s2" by (rule hidden_commit_all [OF hid commit])
  show ?thesis
  proof (cases "fz_merge fz = Some False")
    case True
    with assms(4) commit obtain w3 where "withhold_all o' d nm (r2, s2, v2) = (Inr out', w3)"
      by (auto simp: finalize_def plain_ended_def split: sum.splits prod.splits)
    then show ?thesis by (rule withhold_all_keys [OF hid2])
  next
    case False
    with assms(3) have "land_elsewhere fuel o' d nm fz w = None" for w by (simp add: land_elsewhere_def Let_def)
    with assms(4) commit False obtain w3 where "merge_queue o' d nm (r2, s2, v2) = (Inr out', w3)"
      by (auto simp: finalize_def plain_ended_def split: sum.splits prod.splits)
    then obtain r4 s4 v4 where "gitly (mergeAll (git_options_of o' (rn_team nm)) (wd_files d)) (r2, s2, v2) = (Inr out', (r4, s4, v4))"
      unfolding merge_queue_def Let_def by (auto simp: ret_apply elim!: treeE)
    then have "named_tasks out' \<subseteq> wt_taskKey ` set (jm_vals (sg_worktrees s2))"
      by (auto simp: gitly_run dest: mergeAll_keys)
    with hidden_keys(2) [OF hid2] show ?thesis by blast
  qed
qed

section \<open>A demonstration\<close>

text \<open>The environment is the providers mounted and the runs started; a member's result never comes.\<close>

type_synonym demo_processes = "string list \<times> string list"

definition drop_from :: "string \<Rightarrow> string list \<Rightarrow> string list" where
  "drop_from x xs = filter (\<lambda>y. y \<noteq> x) xs"

definition demo_worktree_files :: "demo_processes git_deps" where
  "demo_worktree_files = \<lparr>gt_git = (\<lambda>_ args. ret (if hd args = ''rev-list'' then ''1'' else ''c0'')), gt_indexed = (\<lambda>_ _ _. ret []),
     gt_exitCode = (\<lambda>_. None), gt_exists = (\<lambda>_. ret False), gt_mkdirs = (\<lambda>_. ret ()), gt_mkdtemp = ret, gt_read = (\<lambda>_. ret []),
     gt_append = (\<lambda>_ _. ret ()), gt_write = (\<lambda>_ _. ret ()), gt_copy = (\<lambda>_ _. ret ()), gt_hardlink = (\<lambda>_ _. ret ()), gt_cp = (\<lambda>_ _ _. ret ()),
     gt_rm = (\<lambda>_. ret ()), gt_readdir = (\<lambda>_. ret []), gt_mtime = (\<lambda>_. ret 0), gt_now = (\<lambda>_. 0), gt_progress = None, gt_tmpdir = ''/tmp'',
     gt_sha8 = (\<lambda>s. s)\<rparr>"

definition demo_worktree_deps :: "demo_processes worktree_deps" where
  "demo_worktree_deps = \<lparr>wd_files = demo_worktree_files, wd_marked = (\<lambda>_. ret None), wd_admit = (\<lambda>_. ret ()), wd_acquire = ret (), wd_release = ret (),
     wd_plug = (\<lambda>mt (ms, ls). (Inr (), (mt_provider mt # ms, ls))), wd_await = (\<lambda>_. ret ()),
     wd_start = (\<lambda>n _ _ (ms, ls). (Inr n, (ms, n # ls))), wd_result = (\<lambda>_. throw (OtherError ''gone'')),
     wd_reap = (\<lambda>i (ms, ls). (Inl (OtherError ''late''), (ms, drop_from i ls))), wd_unplug = (\<lambda>n (ms, ls). (Inr (), (drop_from n ms, ls))),
     wd_claude = (\<lambda>_ _ _ _ _. throw (OtherError ''no claude'')), wd_codex = (\<lambda>_ _ _ _. throw (OtherError ''no codex'')),
     wd_readdir = (\<lambda>_. ret []), wd_read = (\<lambda>_. ret []), wd_usage = None,
     wd_link = \<lparr>tl_connect = (\<lambda>_ _ _. ret ()), tl_close = ret (), tl_card = throw (OtherError ''no train''), tl_enqueue = (\<lambda>_ _ _. throw (OtherError ''no train'')),
       tl_withdraw = (\<lambda>_. ret ()), tl_events = (\<lambda>a. ret ([], a))\<rparr>,
     wd_now = (\<lambda>_. 0), wd_env = [(SANDBOX, ''danger-full-access'')], wd_execPath = ''node'', wd_runtimeBin = ''bin'',
     wd_memberConfig = ''member.yml'', wd_reviewConfig = ''review.yml''\<rparr>"

definition demo_worktree_options :: worktree_options where
  "demo_worktree_options = \<lparr>wo_repoRoot = ''/r'', wo_baseRef = None, wo_targetBranch = None, wo_worktreeDir = None, wo_autoCommit = None,
     wo_linkIgnored = Some False, wo_maxConcurrent = None, wo_member = Some (no_config\<lparr>mc_env := Some [(SANDBOX, ''danger-full-access'')]\<rparr>),
     wo_train = None, wo_forge = None\<rparr>"

definition demo_names :: run_names where
  "demo_names = \<lparr>rn_team = ''t'', rn_instance = ''1234''\<rparr>"

definition demo_run_tree :: "string \<Rightarrow> worktree" where
  "demo_run_tree k = \<lparr>wt_taskKey = k, wt_path = ''/r/.swarm/worktrees/t/'' @ k, wt_branch = ''swarm/t/'' @ k\<rparr>"

definition demo_run_git :: swarm_git where
  "demo_run_git = git_new\<lparr>sg_worktrees := [(''a'', demo_run_tree ''a''), (''b'', demo_run_tree ''b'')],
     sg_promises := [(''a'', Inr (demo_run_tree ''a'')), (''b'', Inr (demo_run_tree ''b''))], sg_used := [''a'', ''b'']\<rparr>"

lemma review_confined_witness:
  "review demo_worktree_options (confined_to ''workspace-write'' demo_worktree_deps) demo_names ''a'' (plain_member ''r'') ''go'' ''c'' ''workspace-write'' =
   review demo_worktree_options demo_worktree_deps demo_names ''a'' (plain_member ''r'') ''go'' ''c'' ''workspace-write''"
  by (rule review_confined) (simp add: demo_worktree_options_def or_else_def)

lemma set_drop_from [simp]: "set (drop_from x xs) = set xs - {x}"
  by (auto simp: drop_from_def)

lemma demo_shows_processes: "shows_processes demo_worktree_deps (\<lambda>(ms, ls). set ms) (\<lambda>(ms, ls). set ls)"
  unfolding shows_processes_def calls_def
  by (auto simp: demo_worktree_deps_def ret_def throw_def split: prod.splits)


lemma sessions_apart_witness:
  "\<exists>x r' g'. runProcess demo_worktree_deps demo_names (plain_member ''m'') ''go'' ''/w'' [] None None None (run_new, git_new, ([], [])) = (x, (r', g')) \<and>
     wr_seq r' = 1 \<and> session_root [] (provider_name demo_names 0) \<noteq> session_root [] (provider_name demo_names 1)"
proof -
  obtain x r' g' where run: "runProcess demo_worktree_deps demo_names (plain_member ''m'') ''go'' ''/w'' [] None None None (run_new, git_new, ([], [])) = (x, (r', g'))"
    by (metis prod.exhaust)
  have "wr_seq r' = 1 \<and> session_root [] (provider_name demo_names 0) \<noteq> session_root [] (provider_name demo_names 1)"
    using sessions_apart [OF run, of 1] by (simp add: run_new_def)
  with run show ?thesis by blast
qed

definition demo_withheld :: "(thrown + branch_ref list) \<times> demo_processes run_world" where
  "demo_withheld = withhold demo_worktree_options demo_worktree_deps demo_names [''a''] (run_new, demo_run_git, ([], []))"

definition demo_finalize_options :: "demo_processes finalize_options" where
  "demo_finalize_options = \<lparr>fz_merge = None, fz_train = None, fz_forge = None\<rparr>"

lemma demo_withheld_runs:
  "case demo_withheld of
     (Inr held, w) \<Rightarrow> map br_taskKey held = [''a''] \<and>
       (case finalize 0 demo_worktree_options demo_worktree_deps demo_names demo_finalize_options w of
          (Landing x, j, w') \<Rightarrow> map br_taskKey (mo_merged x) = [''b''] | _ \<Rightarrow> False)
   | _ \<Rightarrow> False"
  by code_simp

lemma withheld_not_landed_witness:
  "\<exists>held w x j w'. demo_withheld = (Inr held, w) \<and> map br_taskKey held = [''a''] \<and>
     finalize 0 demo_worktree_options demo_worktree_deps demo_names demo_finalize_options w = (Landing x, j, w') \<and>
     map br_taskKey (mo_merged x) = [''b''] \<and> named_tasks x \<inter> {''a''} = {}"
proof -
  obtain q w where q: "demo_withheld = (q, w)" by (metis prod.exhaust)
  obtain r1 s1 v1 where w: "w = (r1, s1, v1)" by (cases w)
  obtain e j w' where e: "finalize 0 demo_worktree_options demo_worktree_deps demo_names demo_finalize_options w = (e, j, w')" by (metis prod.exhaust)
  from demo_withheld_runs [unfolded q prod.case] e obtain held x where held: "q = Inr held" "map br_taskKey held = [''a'']"
    and x: "e = Landing x" "map br_taskKey (mo_merged x) = [''b'']"
    by (auto split: sum.splits landing_end.splits)
  have "hidden {} demo_run_git"
    by (simp add: hidden_def demo_run_git_def git_new_def jm_wf_def jm_keyed_def demo_run_tree_def)
  moreover have "withhold demo_worktree_options demo_worktree_deps demo_names [''a''] (run_new, demo_run_git, ([], [])) = (Inr held, (r1, s1, v1))"
    using q held w by (simp add: demo_withheld_def)
  moreover have "fz_merge demo_finalize_options = Some False \<or> (fz_train demo_finalize_options = None \<and> fz_forge demo_finalize_options = None)"
    by (simp add: demo_finalize_options_def)
  moreover have "finalize 0 demo_worktree_options demo_worktree_deps demo_names demo_finalize_options (r1, s1, v1) = (Landing x, j, w')"
    using e x w by simp
  ultimately have "named_tasks x \<inter> set [''a''] = {}" by (rule withheld_not_landed)
  then have apart: "named_tasks x \<inter> {''a''} = {}" by simp
  show ?thesis
    by (rule exI [of _ held], rule exI [of _ w], rule exI [of _ x], rule exI [of _ j], rule exI [of _ w'],
        intro conjI q [unfolded held(1)] held(2) e [unfolded x(1)] x(2) apart)
qed

end
