(* ===== verification/Spec2Isabelle.thy ===== *)
theory Spec2Isabelle
  imports BoardProperties RunLog Mailbox Questions MetricsProperties Budget GateProperties
    TopologyProperties WorkersProperties EvidenceProperties TrainProperties GitProperties
    DurableProperties SharedFairness SharedTermination ProtocolProperties ForgeProperties
    RemoteAccounts RemoteRecap Slots WorktreesProperties
begin

text \<open>
  OpenSwarm runs teams of coding agents on one repository. Its core is the package \<open>packages/swarm\<close>: a team's
  spec is run by a topology, whose members share a task board and a mailbox, are stopped by a budget, are graded by
  an evaluator gate before a task closes, and whose branches a landing train merges onto the target branch. Every
  step is an event of an append-only journal, and what a person reads (the recap, the metrics, the evidence of a
  landing) is folded from it. This development models that core and proves what makes each part correct.

  The parts, by theory, with the files under \<open>packages/swarm/src\<close> they translate:

  \<^item> \<open>Prelude\<close>: insertion-ordered maps (a JavaScript \<open>Map\<close> is \<open>('k, 'v) jmap\<close>), text helpers, computations
    over an environment (\<open>('w, 'e, 'a) act\<close>: a function of the environment's state that returns or throws, and leaves
    a new one), and the locale of reachable states and their invariants.
  \<^item> \<open>Json\<close>: JSON values, their printing and the parser the journal's lines and a reviewer's verdict are read with.
  \<^item> \<open>Types\<close> (\<open>types.ts\<close> and the records the other files exchange): a record or datatype per interface, the journal
    events of a run (\<open>swarm_event\<close>) and of the train (\<open>train_event\<close>).
  \<^item> \<open>Journal\<close> (\<open>journal.ts\<close>): the journal in memory and its file's bytes, appending and loading.
  \<^item> \<open>Board\<close>, \<open>BoardSafety\<close>, \<open>BoardProperties\<close> (\<open>board.ts\<close>): the board as a journal and its fold; creation, claims,
    completions with their evidence, releases; the step relation over all of them and its invariants.
  \<^item> \<open>RunLog\<close> (\<open>run.ts\<close>): the folds of a run's journal, the recap and the deliverable.
  \<^item> \<open>Mailbox\<close> (\<open>mailbox.ts\<close>): waking and quiet mail, deliveries in flight as steps of their own.
  \<^item> \<open>Questions\<close> (\<open>index.ts\<close>): the queue of questions to the owner, with its cap, answers, timeouts and end.
  \<^item> \<open>Metrics\<close>, \<open>MetricsProperties\<close> (\<open>metrics.ts\<close>): token usage, pricing, and every row of a run's metrics.
  \<^item> \<open>Budget\<close> (\<open>budget.ts\<close>): spend, limits, the question that extends them, admission of a member run.
  \<^item> \<open>Gate\<close>, \<open>GateProperties\<close> (\<open>gate.ts\<close>): the evaluator gate's rounds, from checks, review or a hidden suite to a sign-off.
  \<^item> \<open>Topologies\<close>, \<open>TopologyProperties\<close>, \<open>Workers\<close>, \<open>WorkersSafety\<close>, \<open>WorkersProperties\<close> (\<open>topologies.ts\<close>): the six prompt
    topologies, and the peer team, whose members' loops over the board are interleaved steps of one relation.
  \<^item> \<open>Evidence\<close>, \<open>EvidenceProperties\<close> (\<open>evidence.ts\<close>): the bundle of a landing, its level and risk, the landing queue.
  \<^item> \<open>Train\<close>, \<open>TrainLogic\<close>, \<open>TrainSafety\<close>, \<open>TrainWaves\<close>, \<open>TrainTermination\<close>, \<open>TrainProperties\<close> (\<open>train.ts\<close>): the landing train.

  How they interact. A topology calls \<open>run_member\<close>, which the budget guards; a peer team's workers call the board's
  \<open>claimNextReady\<close>, \<open>complete\<close> and \<open>release\<close> (\<open>Workers\<close> imports \<open>Board\<close>); the gate returns the evidence the board
  demands of a completion; the questions raised by the budget, a cascade and the train are the queue's; the train writes
  each landing's bundle from both journals (\<open>Train\<close> imports \<open>Evidence\<close>); the metrics fold both journals.

  How state and effects are modelled. A class's fields are a record, a method a function from it to it; what the class
  awaits from outside (git, a member run, a process, a person) is a parameter, an \<open>act\<close> that may throw. The train
  threads its own state beside the environment's, so what happened before a throw stays happened. Where members or
  deliveries run concurrently, each stretch of code between two awaits is one step of a relation and the theorems hold of
  every reachable state. A raise or an early return is a value of a sum; \<open>undefined\<close> is \<open>None\<close>. Numbers are \<open>nat\<close>,
  \<open>int\<close> or \<open>rat\<close>: sums of dollars are exact where the code's are doubles. Strings are lists of bytes.

  Locales. \<open>Prelude\<close>'s locale of an inductive invariant is interpreted for the board, the mailbox, the questions and the
  teams; \<open>Journal\<close>'s snapshot logs for the board's tasks and the questions; \<open>TrainLogic\<close>'s relation between a
  computation's states, for the steps that change no entry (\<open>calmly\<close>), for the queue's (\<open>queue_steps\<close>) and for
  the count of entries still waiting (\<open>fewer_steps\<close>).

  What the lemmas show. The board: ownership, fresh ids, no deadlock, no lost update, completion only on evidence, replay
  from its journal. The mailbox: no message twice. The questions: the first answer stays. The budget: admission within
  the limit, termination. The gate: acceptance only on passing evidence of its strongest source. The topologies: order of
  results, verdicts, plans read back. The workers: one holder per task, no member parked for nothing, a complete account at the
  end. The metrics: tokens and dollars conserved. The evidence: what low risk and a level mean, the queue's order. The
  train: nothing lands unverified or before what blocks it, every entry is accounted for once whatever is thrown, repairs
  are bounded, the ejections end.

  Fuel. A loop without a bound in the code takes fuel, and its end without an answer is a value of its own: the budget's check (the
  questions a scope has left are enough), the workers' chain of abandoned tasks (the board's length is enough), the train's chain of
  ejections (one more than the entries still waiting, \<open>eject_terminates\<close>) and its bisection (the batch's length,
  \<open>land_terminates\<close>). The train's waves and its resolver's retries have no bound, since a person may grant
  another retry each time; \<open>landTrain\<close> then ends \<open>Unfinished\<close>, and its theorems hold there too.

  Not modelled: the frozen rewrite under \<open>src/legacy\<close>; the command line, the eval reporter, the client and server
  wrappers and the plugins, which are input and output around this core; the adapters of the model providers and the
  verifier's container, which are processes; timers (\<open>waitForChange\<close>, heartbeats); progress lines.
\<close>

end
